(* ===== verification/Khl_Prelude.thy ===== *)
theory Khl_Prelude
  imports Main "HOL-Library.Word" "HOL-Library.Monad_Syntax"
begin

text \<open>
  Shared vocabulary of the development: the memory model (cells, C strings, reads that may
  be undefined), the C and C++ library operations the sources use on characters and strings,
  \<open>size_t\<close> arithmetic, and the generic lemmas the component theories rely on.

  Undefined behaviour of the source (a read outside an allocation, a read of memory that was
  never written) and a loop that does not return are the value \<open>None\<close> of an option type; the
  \<open>do\<close> notation of \<open>HOL-Library.Monad_Syntax\<close> chains such computations.
\<close>

named_theorems cell_simps "reading and writing memory cells"
named_theorems buffer_simps "what the buffer operations do to the stored sequence"

section \<open>size_t\<close>

text \<open>
  Sizes are natural numbers. Two sizes of live objects never add up to \<open>2 ^ 64\<close>, so a sum of
  such sizes is a plain sum; where an operand is not bounded by an object, the 64-bit
  wrap-around is written out with \<open>usub\<close> and \<open>uadd\<close>.
\<close>

definition size_modulus :: nat where
  "size_modulus = 2 ^ 64"

definition usub :: "nat \<Rightarrow> nat \<Rightarrow> nat" where
  "usub a b = (if b \<le> a then a - b else a + size_modulus - b)"

definition uadd :: "nat \<Rightarrow> nat \<Rightarrow> nat" where
  "uadd a b = (a + b) mod size_modulus"

text \<open>The conversion to an \<open>int\<close> of 32 bits.\<close>

definition to_int :: "int \<Rightarrow> int" where
  "to_int x = (x + 2 ^ 31) mod 2 ^ 32 - 2 ^ 31"

lemma to_int_small: "- (2 ^ 31) \<le> x \<Longrightarrow> x < 2 ^ 31 \<Longrightarrow> to_int x = x"
  by (simp add: to_int_def)

lemma usub_le [simp]: "b \<le> a \<Longrightarrow> usub a b = a - b"
  by (simp add: usub_def)

lemma uadd_small [simp]: "a + b < size_modulus \<Longrightarrow> uadd a b = a + b"
  by (simp add: uadd_def)

section \<open>Memory cells\<close>

text \<open>
  A memory region is a list of cells; a cell that was allocated but never written is
  \<open>None\<close>. A pointer into the region is an index.
\<close>

type_synonym 'a memory = "'a option list"

definition rd :: "'a memory \<Rightarrow> nat \<Rightarrow> 'a option" where
  "rd mem i = (if i < length mem then mem ! i else None)"

text \<open>\<open>memcpy\<close>/\<open>memmove\<close> into a region: undefined when the target does not fit.\<close>

definition write_cells :: "'a memory \<Rightarrow> nat \<Rightarrow> 'a memory \<Rightarrow> 'a memory option" where
  "write_cells mem p ys =
     (if p + length ys \<le> length mem
      then Some (take p mem @ ys @ drop (p + length ys) mem) else None)"

text \<open>\<open>memcmp (p, m, n) == 0\<close>: undefined when a compared cell is missing or unwritten.\<close>

fun eq_cells :: "'a list \<Rightarrow> 'a memory \<Rightarrow> bool option" where
  "eq_cells [] _ = Some True"
| "eq_cells (x # xs) (Some c # mem) =
     map_option (\<lambda>rest. x = c \<and> rest) (eq_cells xs mem)"
| "eq_cells (x # xs) _ = None"

definition memcmp_eq :: "'a memory \<Rightarrow> nat \<Rightarrow> 'a list \<Rightarrow> bool option" where
  "memcmp_eq mem p m = eq_cells m (drop p mem)"

lemma rd_append [cell_simps]:
  "rd (xs @ ys) i = (if i < length xs then xs ! i else rd ys (i - length xs))"
  by (auto simp: rd_def nth_append)

lemma rd_drop: "rd (drop p mem) i = rd mem (p + i)"
  by (auto simp: rd_def)

lemma rd_map_Some: "i < length xs \<Longrightarrow> rd (map Some xs @ ys) i = Some (xs ! i)"
  by (simp add: rd_def nth_append)

lemma length_write_cells: "write_cells mem p ys = Some mem' \<Longrightarrow> length mem' = length mem"
  by (auto simp: write_cells_def split: if_splits)

lemma eq_cells_map_Some:
  "length xs \<le> length ys \<Longrightarrow> eq_cells xs (map Some ys @ rest) = Some (take (length xs) ys = xs)"
proof (induction xs arbitrary: ys)
  case Nil
  then show ?case by simp
next
  case (Cons x xs)
  then show ?case by (cases ys) auto
qed

lemma memcmp_eq_initialised:
  assumes "p + length m \<le> length ys"
  shows "memcmp_eq (map Some ys @ rest) p m = Some (take (length m) (drop p ys) = m)"
proof -
  have "drop p (map Some ys @ rest) = map Some (drop p ys) @ rest"
    using assms by (simp add: drop_map)
  then show ?thesis using assms by (simp add: memcmp_eq_def eq_cells_map_Some)
qed

section \<open>C strings\<close>

definition NUL :: char where
  "NUL = CHR 0x00"

text \<open>The string a \<open>const char*\<close> denotes: the cells up to the terminator.\<close>

fun cstr :: "char memory \<Rightarrow> string option" where
  "cstr [] = None"
| "cstr (None # mem) = None"
| "cstr (Some c # mem) = (if c = NUL then Some [] else map_option (Cons c) (cstr mem))"

definition cstr_at :: "char memory \<Rightarrow> nat \<Rightarrow> string option" where
  "cstr_at mem p = cstr (drop p mem)"

text \<open>ASCII lower case, as \<open>tolower\<close> in the C locale, and \<open>strcasecmp (..) == 0\<close>.\<close>

definition ascii_lower :: "char \<Rightarrow> char" where
  "ascii_lower c =
     (let n = (of_char c :: nat) in if 65 \<le> n \<and> n \<le> 90 then char_of (n + 32) else c)"

fun strcasecmp_eq :: "string \<Rightarrow> char memory \<Rightarrow> bool option" where
  "strcasecmp_eq [] (Some c # mem) = Some (c = NUL)"
| "strcasecmp_eq (k # ks) (Some c # mem) =
     (if ascii_lower k = ascii_lower c then
        (if c = NUL then Some True else strcasecmp_eq ks mem)
      else Some False)"
| "strcasecmp_eq _ _ = None"

text \<open>The C string of a \<open>std::string\<close>: \<open>c_str ()\<close> read up to the first NUL.\<close>

definition c_str :: "string \<Rightarrow> string" where
  "c_str s = takeWhile (\<lambda>c. c \<noteq> NUL) s"

definition ci_equal :: "string \<Rightarrow> string \<Rightarrow> bool" where
  "ci_equal a b \<longleftrightarrow> map ascii_lower a = map ascii_lower b"

lemma cstr_terminated: "NUL \<notin> set s \<Longrightarrow> cstr (map Some s @ Some NUL # rest) = Some s"
  by (induction s) auto

lemma cstr_at_terminated:
  assumes "NUL \<notin> set s"
  shows "cstr_at (mem @ map Some s @ Some NUL # rest) (length mem) = Some s"
  using assms by (simp add: cstr_at_def cstr_terminated)

lemma cstr_SomeD: "cstr mem = Some s \<Longrightarrow>
  NUL \<notin> set s \<and> length s < length mem \<and> take (Suc (length s)) mem = map Some s @ [Some NUL]"
proof (induction mem arbitrary: s rule: cstr.induct)
  case (3 c mem)
  then show ?case by (auto split: if_splits)
qed auto

lemma cstr_iff: "cstr mem = Some s \<longleftrightarrow> NUL \<notin> set s \<and> (\<exists>rest. mem = map Some s @ Some NUL # rest)"
proof
  assume a: "cstr mem = Some s"
  have "mem = take (Suc (length s)) mem @ drop (Suc (length s)) mem" by simp
  with cstr_SomeD [OF a] show "NUL \<notin> set s \<and> (\<exists>rest. mem = map Some s @ Some NUL # rest)"
    by (metis append.assoc append_Cons append_Nil)
qed (auto simp: cstr_terminated)

lemma ascii_lower_NUL [simp]: "ascii_lower c = NUL \<longleftrightarrow> c = NUL"
proof
  assume "ascii_lower c = NUL"
  then show "c = NUL"
  proof (cases "65 \<le> (of_char c :: nat) \<and> (of_char c :: nat) \<le> 90")
    case True
    then have "ascii_lower c = char_of ((of_char c :: nat) + 32)"
      by (simp add: ascii_lower_def)
    with \<open>ascii_lower c = NUL\<close> have "of_char (char_of ((of_char c :: nat) + 32)) = (of_char NUL :: nat)"
      by simp
    moreover have "(of_char NUL :: nat) = 0" by (simp add: NUL_def)
    ultimately have "((of_char c :: nat) + 32) mod 256 = 0" by simp
    with True show ?thesis by (simp add: mod_less)
  qed (auto simp: ascii_lower_def Let_def)
qed (simp add: ascii_lower_def NUL_def)

lemma strcasecmp_eq_cstr:
  assumes "cstr mem = Some s" and "NUL \<notin> set k"
  shows "strcasecmp_eq k mem = Some (ci_equal k s)"
  using assms
proof (induction k mem arbitrary: s rule: strcasecmp_eq.induct)
  case (2 k ks c mem)
  have "ascii_lower k \<noteq> ascii_lower NUL" using "2.prems"(2)
    by (metis ascii_lower_NUL list.set_intros(1))
  with 2 show ?case
    by (auto simp: ci_equal_def split: if_splits)
qed (auto simp: ci_equal_def split: if_splits)

text \<open>Rewriting that decides questions about concrete characters.\<close>

lemmas char_eval = ascii_lower_def char_of_def bit_Suc_0_iff Let_def NUL_def ci_equal_def

lemma those_map_Some: "those (map Some xs) = Some xs"
  by (induction xs) simp_all

end
