(* ===== verification/Autobuffer.thy ===== *)
theory Autobuffer
  imports Khl_Prelude
begin

text \<open>
  \<open>include/util/autobuffer.h\<close>: the growable buffer every protocol of the library reads from
  and writes to (\<open>auto_buffer_t\<close>), and a reference into such a buffer
  (\<open>auto_buffer_chunk_t\<close>). The allocated region is a list of cells, so stale and unwritten
  bytes behind the write position are part of the state. Positions and sizes count elements;
  \<open>npos\<close> is \<open>None\<close>. The \<open>ok\<close> argument says whether \<open>realloc\<close> succeeds.
\<close>

section \<open>State\<close>

record 'a auto_buffer =
  m_buffer :: "'a memory"
  m_full_size :: nat
  m_ready_position :: nat
  m_auto_free :: bool

definition auto_buffer_new :: "'a auto_buffer" where
  "auto_buffer_new =
     \<lparr>m_buffer = [], m_full_size = 0, m_ready_position = 0, m_auto_free = True\<rparr>"

definition auto_buffer_external :: "'a list \<Rightarrow> 'a auto_buffer" where
  "auto_buffer_external xs =
     \<lparr>m_buffer = map Some xs, m_full_size = length xs, m_ready_position = length xs,
      m_auto_free = False\<rparr>"

definition default_granulate :: nat where
  "default_granulate = 0x400"

section \<open>Operations\<close>

definition get_full_size :: "'a auto_buffer \<Rightarrow> nat" where
  "get_full_size b = m_full_size b"

definition get_fill_size :: "'a auto_buffer \<Rightarrow> nat" where
  "get_fill_size b = m_ready_position b"

definition get_free_size :: "'a auto_buffer \<Rightarrow> nat" where
  "get_free_size b = usub (m_full_size b) (m_ready_position b)"

definition get_element :: "'a auto_buffer \<Rightarrow> nat \<Rightarrow> 'a option" where
  "get_element b position = rd (m_buffer b) position"

definition get_last_element :: "'a auto_buffer \<Rightarrow> 'a option" where
  "get_last_element b = rd (m_buffer b) (usub (m_ready_position b) 1)"

text \<open>Assignment through \<open>operator[]\<close>.\<close>

definition set_element :: "nat \<Rightarrow> 'a \<Rightarrow> 'a auto_buffer \<Rightarrow> 'a auto_buffer option" where
  "set_element position v b =
     (if position < length (m_buffer b)
      then Some (b\<lparr>m_buffer := (m_buffer b)[position := Some v]\<rparr>) else None)"

definition flush_free_size :: "'a auto_buffer \<Rightarrow> 'a auto_buffer" where
  "flush_free_size b = b\<lparr>m_ready_position := 0\<rparr>"

text \<open>
  The copy constructor and \<open>operator=\<close>: an owning buffer is duplicated into a fresh
  allocation of the same capacity, a non-owning one is shared.
\<close>

definition auto_buffer_assign :: "bool \<Rightarrow> 'a auto_buffer \<Rightarrow> 'a auto_buffer option" where
  "auto_buffer_assign ok right =
     (if m_auto_free right then
        let fresh = (if ok then replicate (m_full_size right) None else []) in
        if fresh \<noteq> [] \<and> m_buffer right \<noteq> [] then
          (if m_ready_position right \<le> length (m_buffer right)
           then do { cells \<leftarrow> write_cells fresh 0 (take (m_ready_position right) (m_buffer right));
                     Some (right\<lparr>m_buffer := cells\<rparr>) }
           else None)
        else Some (right\<lparr>m_buffer := fresh\<rparr>)
      else Some right)"

text \<open>
  \<open>find\<close>: the last start position is \<open>m_ready_position_ - match_size\<close> in \<open>size_t\<close>
  arithmetic, so a match longer than the content makes the loop run past the allocation.
\<close>

function find_loop :: "'a memory \<Rightarrow> 'a list \<Rightarrow> nat \<Rightarrow> nat \<Rightarrow> nat option option" where
  "find_loop mem m p_max p_check =
     (if p_check \<le> p_max then
        (case memcmp_eq mem p_check m of
           None \<Rightarrow> None
         | Some True \<Rightarrow> Some (Some p_check)
         | Some False \<Rightarrow> find_loop mem m p_max (Suc p_check))
      else Some None)"
  by pat_completeness auto
termination
  by (relation "measure (\<lambda>(mem, m, p_max, p_check). Suc p_max - p_check)") auto

declare find_loop.simps [simp del]

definition buffer_find :: "'a auto_buffer \<Rightarrow> nat \<Rightarrow> 'a list \<Rightarrow> nat option option" where
  "buffer_find b from m =
     find_loop (m_buffer b) m (usub (m_ready_position b) (length m)) from"

text \<open>\<open>compare (..) == 0\<close>; \<open>npos\<close> (not enough content) is not 0.\<close>

definition buffer_compare_eq :: "'a auto_buffer \<Rightarrow> nat \<Rightarrow> 'a list \<Rightarrow> bool option" where
  "buffer_compare_eq b from m =
     (if uadd from (length m) > m_ready_position b then Some False
      else memcmp_eq (m_buffer b) from m)"

definition decrement_free_size :: "nat \<Rightarrow> 'a auto_buffer \<Rightarrow> 'a auto_buffer" where
  "decrement_free_size n b =
     (if uadd (m_ready_position b) n < m_full_size b
      then b\<lparr>m_ready_position := uadd (m_ready_position b) n\<rparr>
      else b\<lparr>m_ready_position := m_full_size b\<rparr>)"

definition increment_free_size :: "nat \<Rightarrow> 'a auto_buffer \<Rightarrow> 'a auto_buffer" where
  "increment_free_size n b =
     (if m_ready_position b \<ge> n
      then b\<lparr>m_ready_position := m_ready_position b - n\<rparr>
      else b\<lparr>m_ready_position := 0\<rparr>)"

text \<open>
  \<open>check_size\<close>: when \<open>realloc\<close> fails the capacity is raised all the same and the old
  region stays (the TODO of the source). New cells are unwritten.
\<close>

definition check_size :: "bool \<Rightarrow> nat \<Rightarrow> nat \<Rightarrow> 'a auto_buffer \<Rightarrow> 'a auto_buffer" where
  "check_size ok demand_size granulate b =
     (let demand = (if demand_size = 0 then m_ready_position b + granulate else demand_size) in
      if demand > m_full_size b then
        let full = (demand div granulate + 1) * granulate in
        b\<lparr>m_full_size := full,
          m_buffer := (if ok then take full (m_buffer b) @ replicate (full - length (m_buffer b)) None
                       else m_buffer b)\<rparr>
      else b)"

text \<open>\<open>append\<close>; \<open>append_cells\<close> copies raw memory, unwritten cells included.\<close>

definition append_cells :: "bool \<Rightarrow> 'a memory \<Rightarrow> nat \<Rightarrow> 'a auto_buffer \<Rightarrow> 'a auto_buffer option" where
  "append_cells ok xs granulate b =
     (let b1 = (if length xs > get_free_size b
                then check_size ok (get_fill_size b + length xs) granulate b else b) in
      do { cells \<leftarrow> write_cells (m_buffer b1) (m_ready_position b1) xs;
           Some (b1\<lparr>m_buffer := cells, m_ready_position := m_ready_position b1 + length xs\<rparr>) })"

definition buffer_append :: "bool \<Rightarrow> 'a list \<Rightarrow> 'a auto_buffer \<Rightarrow> 'a auto_buffer option" where
  "buffer_append ok xs b = append_cells ok (map Some xs) default_granulate b"

text \<open>\<open>cut_from_head\<close>: \<open>memmove\<close> leaves the old bytes behind the new write position.\<close>

definition cut_from_head :: "nat \<Rightarrow> 'a auto_buffer \<Rightarrow> 'a auto_buffer" where
  "cut_from_head count b =
     (let r = m_ready_position b in
      if count = 0 \<or> count > r then b
      else let cells = (if count \<noteq> r
                        then take (r - count) (drop count (m_buffer b)) @ drop (r - count) (m_buffer b)
                        else m_buffer b)
           in b\<lparr>m_buffer := cells, m_ready_position := r - count\<rparr>)"

text \<open>
  \<open>replace\<close>: the loop over \<open>km\<close>. The state is the buffer, the scan position, the last scan
  position \<open>max_pos\<close> (a \<open>size_t\<close>) and the result flag.
\<close>

definition replace_at ::
  "bool \<Rightarrow> nat \<Rightarrow> 'a list \<Rightarrow> nat \<Rightarrow> 'a auto_buffer \<Rightarrow> 'a auto_buffer option" where
  "replace_at ok match_count rep km b =
     (let replace_count = length rep;
          b1 = (if replace_count > match_count
                then check_size ok (m_ready_position b + (replace_count - match_count)) default_granulate b
                else b);
          tail_size = usub (m_ready_position b) (km + match_count)
      in do { cells1 \<leftarrow> (if replace_count \<noteq> match_count
                        then (if km + match_count + tail_size \<le> length (m_buffer b1)
                              then write_cells (m_buffer b1) (km + replace_count)
                                     (take tail_size (drop (km + match_count) (m_buffer b1)))
                              else None)
                        else Some (m_buffer b1));
              cells2 \<leftarrow> write_cells cells1 km (map Some rep);
              Some (b1\<lparr>m_buffer := cells2,
                       m_ready_position := usub (m_ready_position b + replace_count) match_count\<rparr>) })"

partial_function (option) replace_loop ::
  "bool \<Rightarrow> 'a list \<Rightarrow> 'a list \<Rightarrow> bool \<Rightarrow> nat \<Rightarrow> nat \<Rightarrow> bool \<Rightarrow> 'a auto_buffer \<Rightarrow>
   (bool \<times> 'a auto_buffer) option" where
  "replace_loop ok m rep single km max_pos result b =
     (if km \<le> max_pos then
        Option.bind (memcmp_eq (m_buffer b) km m) (\<lambda>eq.
          if eq then
            Option.bind (replace_at ok (length m) rep km b) (\<lambda>b'.
              let max_pos' = (if length rep > length m then max_pos + (length rep - length m)
                              else usub max_pos (length m - length rep));
                  km' = (if length rep \<ge> length m then km + length rep else km + length m)
              in if single then Some (True, b')
                 else replace_loop ok m rep single km' max_pos' True b')
          else replace_loop ok m rep single (Suc km) max_pos result b)
      else Some (result, b))"

definition buffer_replace ::
  "bool \<Rightarrow> 'a list \<Rightarrow> 'a list \<Rightarrow> bool \<Rightarrow> 'a auto_buffer \<Rightarrow> (bool \<times> 'a auto_buffer) option" where
  "buffer_replace ok m rep single b =
     (if m_ready_position b < length m then Some (False, b)
      else replace_loop ok m rep single 0 (m_ready_position b - length m) False b)"

section \<open>References into a buffer\<close>

text \<open>\<open>auto_buffer_chunk_t\<close>: an index into the parent, \<open>npos\<close> when not set.\<close>

type_synonym chunk = "nat option"

definition clear_reference :: chunk where
  "clear_reference = None"

definition is_valid :: "chunk \<Rightarrow> bool" where
  "is_valid c \<longleftrightarrow> c \<noteq> None"

definition get_chunk_string :: "char auto_buffer \<Rightarrow> chunk \<Rightarrow> string option" where
  "get_chunk_string b c = (case c of None \<Rightarrow> None | Some r \<Rightarrow> cstr_at (m_buffer b) r)"

section \<open>What the buffer stores\<close>

text \<open>
  \<open>holds b xs\<close>: the allocation is as large as the capacity says and its first cells,
  up to the write position, are exactly \<open>xs\<close>. \<open>wf_buffer\<close> leaves out that the cells
  below the write position were written.
\<close>

definition holds :: "'a auto_buffer \<Rightarrow> 'a list \<Rightarrow> bool" where
  "holds b xs \<longleftrightarrow>
     (\<exists>rest. m_buffer b = map Some xs @ rest \<and> m_full_size b = length xs + length rest
        \<and> m_ready_position b = length xs)"

definition wf_buffer :: "'a auto_buffer \<Rightarrow> bool" where
  "wf_buffer b \<longleftrightarrow>
     length (m_buffer b) = m_full_size b \<and> m_ready_position b \<le> m_full_size b"

lemma holds_wf: "holds b xs \<Longrightarrow> wf_buffer b"
  by (auto simp: holds_def wf_buffer_def)

lemma holds_fill [buffer_simps]: "holds b xs \<Longrightarrow> m_ready_position b = length xs"
  by (auto simp: holds_def)

lemma holds_take: "holds b xs \<Longrightarrow> take (m_ready_position b) (m_buffer b) = map Some xs"
  by (auto simp: holds_def)

lemma holds_unique:
  assumes "holds b xs" and "holds b ys"
  shows "xs = ys"
proof -
  have "map Some xs = map Some ys"
    using holds_take [OF assms(1)] holds_take [OF assms(2)] by (rule trans [OF sym])
  then show ?thesis by (simp add: inj_map_eq_map)
qed

lemma holds_new: "holds auto_buffer_new []"
  by (simp add: holds_def auto_buffer_new_def)

lemma holds_external: "holds (auto_buffer_external xs) xs"
  by (simp add: holds_def auto_buffer_external_def)

lemma holds_flush: "wf_buffer b \<Longrightarrow> holds (flush_free_size b) []"
  by (simp add: holds_def wf_buffer_def flush_free_size_def)

lemma holds_element: "holds b xs \<Longrightarrow> i < length xs \<Longrightarrow> get_element b i = Some (xs ! i)"
  by (auto simp: holds_def get_element_def rd_map_Some)

subsection \<open>Growing\<close>

lemma granulated_ge: "0 < g \<Longrightarrow> d < (d div g + 1) * (g::nat)"
  using dividend_less_div_times [of g d] by (simp add: add.commute)

lemma check_size_capacity: "0 < g \<Longrightarrow> d \<le> m_full_size (check_size ok d g b)"
  using granulated_ge [of g d] by (auto simp: check_size_def Let_def)

lemma check_size_ready [simp]: "m_ready_position (check_size ok d g b) = m_ready_position b"
  by (simp add: check_size_def Let_def)

lemma check_size_cells:
  assumes "wf_buffer b" and "0 < g"
  shows "\<exists>n. m_buffer (check_size True d g b) = m_buffer b @ replicate n None
     \<and> m_full_size (check_size True d g b) = m_full_size b + n"
proof -
  define e where "e = (if d = 0 then m_ready_position b + g else d)"
  show ?thesis
  proof (cases "e > m_full_size b")
    case True
    then have "m_full_size b \<le> (e div g + 1) * g"
      using granulated_ge [OF assms(2), of e] by linarith
    with True assms(1) show ?thesis
      by (auto simp: check_size_def Let_def e_def wf_buffer_def)
  qed (auto simp: check_size_def Let_def e_def intro: exI [of _ 0])
qed

lemma wf_check_size: "wf_buffer b \<Longrightarrow> 0 < g \<Longrightarrow> wf_buffer (check_size True d g b)"
  using check_size_cells [of b g d] by (auto simp: wf_buffer_def)

lemma holds_check_size: "holds b xs \<Longrightarrow> 0 < g \<Longrightarrow> holds (check_size True d g b) xs"
  using check_size_cells [of b g d] holds_wf [of b xs] by (auto simp: holds_def)

lemma append_cells_wf:
  assumes "wf_buffer b" and "0 < g"
  shows "\<exists>b' rest. append_cells True xs g b = Some b' \<and> wf_buffer b'
     \<and> m_buffer b' = take (m_ready_position b) (m_buffer b) @ xs @ rest
     \<and> m_ready_position b' = m_ready_position b + length xs"
proof -
  define b1 where "b1 = (if length xs > get_free_size b
      then check_size True (get_fill_size b + length xs) g b else b)"
  have "\<exists>n. m_buffer b1 = m_buffer b @ replicate n None \<and> m_full_size b1 = m_full_size b + n"
    using check_size_cells [OF assms, of "get_fill_size b + length xs"]
    by (cases "length xs > get_free_size b") (simp_all add: b1_def)
  then obtain n where
    n: "m_buffer b1 = m_buffer b @ replicate n None" "m_full_size b1 = m_full_size b + n"
    by blast
  have room: "m_ready_position b + length xs \<le> m_full_size b1"
    using assms check_size_capacity [OF assms(2), of "m_ready_position b + length xs" True b]
    by (auto simp: b1_def get_free_size_def get_fill_size_def wf_buffer_def)
  have r: "m_ready_position b1 = m_ready_position b" by (simp add: b1_def)
  show ?thesis
    using assms(1) room n r
    by (auto simp: append_cells_def Let_def b1_def [symmetric] write_cells_def wf_buffer_def)
qed

lemma default_granulate_pos [simp]: "0 < default_granulate"
  by (simp add: default_granulate_def)

lemma buffer_append_wf:
  assumes "wf_buffer b"
  shows "\<exists>b' rest. buffer_append True xs b = Some b' \<and> wf_buffer b'
     \<and> m_buffer b' = take (m_ready_position b) (m_buffer b) @ map Some xs @ rest
     \<and> m_ready_position b' = m_ready_position b + length xs"
  using append_cells_wf [OF assms default_granulate_pos, of "map Some xs"]
  by (simp add: buffer_append_def)

lemma holds_append: "holds b xs \<Longrightarrow> \<exists>b'. buffer_append True ys b = Some b' \<and> holds b' (xs @ ys)"
  using buffer_append_wf [OF holds_wf, of b xs ys]
  by (fastforce simp: holds_def wf_buffer_def)

lemma holds_cut: "holds b xs \<Longrightarrow> n \<le> length xs \<Longrightarrow> holds (cut_from_head n b) (drop n xs)"
  by (auto simp: holds_def cut_from_head_def Let_def drop_map)

lemma cut_beyond: "m_ready_position b < n \<Longrightarrow> cut_from_head n b = b"
  by (simp add: cut_from_head_def)

subsection \<open>The buffer as a queue of elements\<close>

text \<open>
  What the protocols rely on: appending puts elements at the end, cutting removes them from
  the head, and the stored sequence is determined by the buffer.
\<close>

locale byte_queue =
  fixes stores :: "'b \<Rightarrow> 'a list \<Rightarrow> bool"
    and push :: "'a list \<Rightarrow> 'b \<Rightarrow> 'b option"
    and pop :: "nat \<Rightarrow> 'b \<Rightarrow> 'b"
    and fresh :: 'b
  assumes stores_fresh: "stores fresh []"
    and stores_push: "stores b xs \<Longrightarrow> \<exists>b'. push ys b = Some b' \<and> stores b' (xs @ ys)"
    and stores_pop: "stores b xs \<Longrightarrow> n \<le> length xs \<Longrightarrow> stores (pop n b) (drop n xs)"
    and stores_inject: "stores b xs \<Longrightarrow> stores b ys \<Longrightarrow> xs = ys"
begin

primrec push_all :: "'a list list \<Rightarrow> 'b \<Rightarrow> 'b option" where
  "push_all [] b = Some b"
| "push_all (x # xs) b = Option.bind (push x b) (push_all xs)"

lemma push_all_stores:
  "stores b xs \<Longrightarrow> \<exists>b'. push_all yss b = Some b' \<and> stores b' (xs @ concat yss)"
proof (induction yss arbitrary: b xs)
  case (Cons ys yss)
  from stores_push [OF Cons.prems] obtain b1 where b1: "push ys b = Some b1" "stores b1 (xs @ ys)"
    by blast
  from Cons.IH [OF b1(2)] b1(1) show ?case by auto
qed auto

lemma push_SomeD: "push ys b = Some b' \<Longrightarrow> stores b xs \<Longrightarrow> stores b' (xs @ ys)"
  using stores_push [of b xs ys] by auto

lemma pop_split: "stores b (xs @ ys) \<Longrightarrow> stores (pop (length xs) b) ys"
  using stores_pop [of b "xs @ ys" "length xs"] by simp

end

interpretation ab: byte_queue holds "buffer_append True" cut_from_head auto_buffer_new
proof unfold_locales
  show "holds auto_buffer_new []" by (rule holds_new)
  show "\<And>b xs ys. holds b xs \<Longrightarrow> \<exists>b'. buffer_append True ys b = Some b' \<and> holds b' (xs @ ys)"
    by (rule holds_append)
  show "\<And>b xs n. holds b xs \<Longrightarrow> n \<le> length xs \<Longrightarrow> holds (cut_from_head n b) (drop n xs)"
    by (rule holds_cut)
  show "\<And>b xs ys. holds b xs \<Longrightarrow> holds b ys \<Longrightarrow> xs = ys"
    by (rule holds_unique)
qed

subsection \<open>Searching\<close>

text \<open>The reference: the first position from which \<open>m\<close> can be read off the content.\<close>

definition occurs_at :: "'a list \<Rightarrow> 'a list \<Rightarrow> nat \<Rightarrow> bool" where
  "occurs_at xs m p \<longleftrightarrow> p + length m \<le> length xs \<and> take (length m) (drop p xs) = m"

lemma memcmp_eq_holds:
  assumes "holds b xs" and "p + length m \<le> length xs"
  shows "memcmp_eq (m_buffer b) p m = Some (occurs_at xs m p)"
  using assms by (auto simp: holds_def memcmp_eq_initialised occurs_at_def)

lemma find_loop_spec:
  assumes "holds b xs" and "p_max + length m = length xs"
  shows "\<exists>r. find_loop (m_buffer b) m p_max p = Some r \<and>
     (case r of None \<Rightarrow> \<forall>i\<ge>p. \<not> occurs_at xs m i
      | Some q \<Rightarrow> p \<le> q \<and> occurs_at xs m q \<and> (\<forall>i. p \<le> i \<and> i < q \<longrightarrow> \<not> occurs_at xs m i))"
proof (induction "Suc p_max - p" arbitrary: p)
  case 0
  then have "\<not> p \<le> p_max" by simp
  with assms(2) show ?case
    by (subst find_loop.simps) (auto simp: occurs_at_def)
next
  case (Suc n)
  then have le: "p \<le> p_max" by simp
  then have cmp: "memcmp_eq (m_buffer b) p m = Some (occurs_at xs m p)"
    using assms by (intro memcmp_eq_holds) auto
  show ?case
  proof (cases "occurs_at xs m p")
    case True
    with cmp le show ?thesis by (subst find_loop.simps) auto
  next
    case False
    have "n = Suc p_max - Suc p" using Suc.hyps(2) by simp
    from Suc.hyps(1) [OF this] obtain r where
      r: "find_loop (m_buffer b) m p_max (Suc p) = Some r" and
      c: "case r of None \<Rightarrow> \<forall>i\<ge>Suc p. \<not> occurs_at xs m i
      | Some q \<Rightarrow> Suc p \<le> q \<and> occurs_at xs m q \<and> (\<forall>i. Suc p \<le> i \<and> i < q \<longrightarrow> \<not> occurs_at xs m i)"
      by blast
    have "find_loop (m_buffer b) m p_max p = Some r"
      using cmp le False r by (subst find_loop.simps) simp
    moreover have "i = p \<or> Suc p \<le> i" if "p \<le> i" for i using that by linarith
    ultimately show ?thesis using c False
      by (auto split: option.splits)
  qed
qed

lemma buffer_find_spec:
  assumes "holds b xs" and "length m \<le> length xs"
  shows "\<exists>r. buffer_find b from m = Some r \<and>
     (case r of None \<Rightarrow> \<forall>i\<ge>from. \<not> occurs_at xs m i
      | Some q \<Rightarrow> from \<le> q \<and> occurs_at xs m q \<and> (\<forall>i. from \<le> i \<and> i < q \<longrightarrow> \<not> occurs_at xs m i))"
  using find_loop_spec [OF assms(1), of "length xs - length m" m "from"] assms
  by (simp add: buffer_find_def holds_fill)

lemma buffer_compare_spec:
  assumes "holds b xs" and "from + length m < size_modulus"
  shows "buffer_compare_eq b from m = Some (occurs_at xs m from)"
  using assms memcmp_eq_holds [OF assms(1), of "from" m]
  by (auto simp: buffer_compare_eq_def holds_fill occurs_at_def)

lemma find_loop_runs_out:
  assumes "m \<noteq> []" and "length mem \<le> p_max"
  shows "p \<le> length mem \<Longrightarrow> find_loop mem m p_max p \<noteq> Some None"
proof (induction "length mem - p" arbitrary: p)
  case 0
  then have "drop p mem = []" by simp
  with assms(1) have "memcmp_eq mem p m = None" by (cases m) (auto simp: memcmp_eq_def)
  with 0 assms(2) show ?case by (subst find_loop.simps) simp
next
  case (Suc n)
  from Suc.hyps(2) have le: "Suc p \<le> length mem" and n: "n = length mem - Suc p" by simp_all
  from Suc.hyps(1) [OF n le] assms(2) le show ?case
    by (subst find_loop.simps) (auto split: option.splits bool.splits)
qed

subsection \<open>Replacing\<close>

text \<open>The references: the first occurrence, or every occurrence from left to right.\<close>

definition is_prefix :: "'a list \<Rightarrow> 'a list \<Rightarrow> bool" where
  "is_prefix m xs \<longleftrightarrow> length m \<le> length xs \<and> take (length m) xs = m"

function subst_all :: "'a list \<Rightarrow> 'a list \<Rightarrow> 'a list \<Rightarrow> 'a list" where
  "subst_all m rep [] = []"
| "subst_all m rep (x # xs) =
     (if is_prefix m (x # xs) then rep @ subst_all m rep (drop (length m - 1) xs)
      else x # subst_all m rep xs)"
  by pat_completeness auto
termination
  by (relation "measure (\<lambda>(m, rep, xs). length xs)") auto

fun subst_first :: "'a list \<Rightarrow> 'a list \<Rightarrow> 'a list \<Rightarrow> 'a list" where
  "subst_first m rep [] = []"
| "subst_first m rep (x # xs) =
     (if is_prefix m (x # xs) then rep @ drop (length m) (x # xs) else x # subst_first m rep xs)"

fun has_match :: "'a list \<Rightarrow> 'a list \<Rightarrow> bool" where
  "has_match m [] = False"
| "has_match m (x # xs) = (is_prefix m (x # xs) \<or> has_match m xs)"

lemma has_match_short: "length xs < length m \<Longrightarrow> \<not> has_match m xs"
  by (induction xs) (auto simp: is_prefix_def)

lemma subst_all_no_match: "\<not> has_match m xs \<Longrightarrow> subst_all m rep xs = xs"
  by (induction xs) auto

lemma subst_first_no_match: "\<not> has_match m xs \<Longrightarrow> subst_first m rep xs = xs"
  by (induction xs) auto

lemma occurs_at_append: "occurs_at (xs @ ys) m (length xs) = is_prefix m ys"
  by (auto simp: occurs_at_def is_prefix_def)

lemma is_prefix_split: "is_prefix m xs \<Longrightarrow> xs = m @ drop (length m) xs"
  by (metis append_take_drop_id is_prefix_def)

lemma replace_at_spec:
  assumes b: "holds b (pre @ m @ suf)"
  shows "\<exists>b'. replace_at True (length m) rep (length pre) b = Some b' \<and> holds b' (pre @ rep @ suf)"
proof -
  define b1 where "b1 = (if length rep > length m
      then check_size True (m_ready_position b + (length rep - length m)) default_granulate b else b)"
  have b1: "holds b1 (pre @ m @ suf)"
    using b by (simp add: b1_def holds_check_size)
  have ready: "m_ready_position b = length pre + length m + length suf"
    using b by (simp add: holds_fill)
  have cap: "length pre + length rep + length suf \<le> length (m_buffer b1)"
    using b1 check_size_capacity [OF default_granulate_pos,
        of "m_ready_position b + (length rep - length m)" True b]
    by (auto simp: b1_def ready holds_def)
  obtain rest where
    rest: "m_buffer b1 = map Some pre @ map Some m @ map Some suf @ rest"
      "m_full_size b1 = length (m_buffer b1)"
    using b1 by (auto simp: holds_def)
  have r: "m_ready_position b1 = m_ready_position b" by (simp add: b1_def)
  have u: "usub (m_ready_position b) (length pre + length m) = length suf"
    using ready by simp
  have u2: "usub (m_ready_position b + length rep) (length m) = length pre + length rep + length suf"
    using ready by simp
  let ?B = "m_buffer b1" and ?k = "length pre + length rep"
  define cells1 where "cells1 = (if length rep \<noteq> length m
      then take ?k ?B @ map Some suf @ drop (?k + length suf) ?B else ?B)"
  have tail: "take (length suf) (drop (length pre + length m) ?B) = map Some suf"
    using rest(1) by simp
  have fits: "length pre + length m + length suf \<le> length ?B"
    using rest(1) by simp
  have w1: "(if length rep \<noteq> length m then
       (if length pre + length m + length suf \<le> length ?B
        then write_cells ?B ?k (take (length suf) (drop (length pre + length m) ?B)) else None)
      else Some ?B) = Some cells1"
  proof (cases "length rep = length m")
    case False
    then show ?thesis using fits cap
      by (simp only: tail cells1_def write_cells_def if_True if_False not_False_eq_True length_map add.assoc)
  qed (simp add: cells1_def)
  have len1: "length cells1 = length ?B" using cap by (simp add: cells1_def)
  have "take (length pre) ?B = map Some pre" using rest(1) by simp
  then have pre1: "take (length pre) cells1 = map Some pre" using cap by (simp add: cells1_def)
  have suf1: "drop ?k cells1 = map Some suf @ drop (?k + length suf) ?B"
  proof (cases "length rep = length m")
    case True
    then show ?thesis using rest(1) by (simp add: cells1_def)
  next
    case False
    have "length (take ?k ?B) = ?k" using cap by simp
    then show ?thesis unfolding cells1_def using False by (simp del: length_take)
  qed
  have w2: "write_cells cells1 (length pre) (map Some rep)
      = Some (map Some pre @ map Some rep @ map Some suf @ drop (?k + length suf) ?B)"
    using cap len1 pre1 suf1 by (simp add: write_cells_def)
  have "replace_at True (length m) rep (length pre) b = Some (b1\<lparr>m_buffer :=
      map Some pre @ map Some rep @ map Some suf @ drop (?k + length suf) ?B,
      m_ready_position := ?k + length suf\<rparr>)"
    unfolding replace_at_def Let_def b1_def [symmetric] u u2 w1 by (simp add: w2)
  then show ?thesis using rest(2) cap by (auto simp: holds_def)
qed

text \<open>One turn of the loop: at the end, on a match, on a mismatch.\<close>

lemma replace_loop_stop:
  "max_pos < km \<Longrightarrow> replace_loop ok m rep single km max_pos res b = Some (res, b)"
  by (subst replace_loop.simps) simp

lemma replace_loop_match:
  assumes "km \<le> max_pos" and "memcmp_eq (m_buffer b) km m = Some True"
    and "replace_at ok (length m) rep km b = Some b'"
  shows "replace_loop ok m rep single km max_pos res b =
     (if single then Some (True, b')
      else replace_loop ok m rep False
             (if length rep \<ge> length m then km + length rep else km + length m)
             (if length rep > length m then max_pos + (length rep - length m)
              else usub max_pos (length m - length rep)) True b')"
  using assms by (subst replace_loop.simps) (simp add: Let_def)

lemma replace_loop_mismatch:
  assumes "km \<le> max_pos" and "memcmp_eq (m_buffer b) km m = Some False"
  shows "replace_loop ok m rep single km max_pos res b =
     replace_loop ok m rep single (Suc km) max_pos res b"
  using assms by (subst replace_loop.simps) simp

lemma replace_loop_all:
  assumes m: "m \<noteq> []" "length m \<le> length rep"
  shows "holds b (pre @ todo) \<Longrightarrow> max_pos + length m = length (pre @ todo) \<Longrightarrow>
    \<exists>b'. replace_loop True m rep False (length pre) max_pos res b
         = Some (res \<or> has_match m todo, b') \<and> holds b' (pre @ subst_all m rep todo)"
proof (induction "length todo" arbitrary: pre todo max_pos res b rule: less_induct)
  case less
  show ?case
  proof (cases "length m \<le> length todo")
    case False
    with less.prems have "max_pos < length pre" by simp
    moreover have "\<not> has_match m todo" using False by (simp add: has_match_short)
    ultimately show ?thesis
      using less.prems(1) by (simp add: replace_loop_stop subst_all_no_match)
  next
    case True
    with less.prems(2) have km: "length pre \<le> max_pos" by simp
    obtain x xs where todo: "todo = x # xs" using True m(1) by (cases todo) auto
    have cmp: "memcmp_eq (m_buffer b) (length pre) m = Some (is_prefix m todo)"
      using memcmp_eq_holds [OF less.prems(1), of "length pre" m] True
      by (simp add: occurs_at_append)
    show ?thesis
    proof (cases "is_prefix m todo")
      case True
      define suf where "suf = drop (length m - 1) xs"
      have split: "todo = m @ suf" and len: "length suf < length todo"
        using is_prefix_split [OF True] m(1) by (auto simp: todo suf_def drop_Cons')
      obtain b' where b': "replace_at True (length m) rep (length pre) b = Some b'"
        "holds b' (pre @ rep @ suf)"
        using replace_at_spec [of b pre m suf rep] less.prems(1) split by auto
      define mp where "mp = (if length rep > length m then max_pos + (length rep - length m)
          else usub max_pos (length m - length rep))"
      have "mp + length m = length ((pre @ rep) @ suf)"
        using less.prems(2) m(2) split by (auto simp: mp_def)
      from less.hyps [OF len _ this, of b' True] b'(2)
      obtain b'' where "replace_loop True m rep False (length (pre @ rep)) mp True b' = Some (True, b'')"
        "holds b'' ((pre @ rep) @ subst_all m rep suf)"
        by auto
      with True cmp b'(1) m(2) show ?thesis
        by (auto simp: replace_loop_match [OF km] todo suf_def mp_def)
    next
      case False
      from less.hyps [of xs b "pre @ [x]" max_pos res] less.prems
      obtain b' where "replace_loop True m rep False (length (pre @ [x])) max_pos res b
         = Some (res \<or> has_match m xs, b')" "holds b' ((pre @ [x]) @ subst_all m rep xs)"
        by (auto simp: todo)
      with False cmp show ?thesis
        by (auto simp: replace_loop_mismatch [OF km] todo)
    qed
  qed
qed

lemma replace_loop_first:
  assumes m: "m \<noteq> []"
  shows "holds b (pre @ todo) \<Longrightarrow> max_pos + length m = length (pre @ todo) \<Longrightarrow>
    \<exists>b'. replace_loop True m rep True (length pre) max_pos False b
         = Some (has_match m todo, b') \<and> holds b' (pre @ subst_first m rep todo)"
proof (induction todo arbitrary: pre)
  case Nil
  with m have "max_pos < length pre" by (cases m) auto
  with Nil show ?case by (simp add: replace_loop_stop)
next
  case (Cons x todo)
  show ?case
  proof (cases "length m \<le> length (x # todo)")
    case False
    with Cons.prems have "max_pos < length pre" by simp
    moreover have "\<not> has_match m (x # todo)" using False by (intro has_match_short) simp
    ultimately show ?thesis
      using Cons.prems(1) subst_first_no_match [of m "x # todo" rep]
      by (simp only: replace_loop_stop) simp
  next
    case True
    with Cons.prems(2) have km: "length pre \<le> max_pos" by simp
    have cmp: "memcmp_eq (m_buffer b) (length pre) m = Some (is_prefix m (x # todo))"
      using memcmp_eq_holds [OF Cons.prems(1), of "length pre" m] True
      by (simp add: occurs_at_append)
    show ?thesis
    proof (cases "is_prefix m (x # todo)")
      case True
      then have split: "x # todo = m @ drop (length m) (x # todo)" by (rule is_prefix_split)
      obtain b' where b': "replace_at True (length m) rep (length pre) b = Some b'"
        "holds b' (pre @ rep @ drop (length m) (x # todo))"
        using replace_at_spec [of b pre m _ rep] Cons.prems(1) split by metis
      with True cmp show ?thesis by (auto simp: replace_loop_match [OF km])
    next
      case False
      from Cons.IH [of "pre @ [x]"] Cons.prems
      obtain b' where "replace_loop True m rep True (length (pre @ [x])) max_pos False b
         = Some (has_match m todo, b')" "holds b' ((pre @ [x]) @ subst_first m rep todo)"
        by auto
      with False cmp show ?thesis by (auto simp: replace_loop_mismatch [OF km])
    qed
  qed
qed

lemma buffer_replace_all_spec:
  assumes "holds b xs" and "m \<noteq> []" and "length m \<le> length rep"
  shows "\<exists>b'. buffer_replace True m rep False b = Some (has_match m xs, b')
     \<and> holds b' (subst_all m rep xs)"
proof (cases "length xs < length m")
  case True
  with assms(1) show ?thesis
    by (auto simp: buffer_replace_def holds_fill has_match_short subst_all_no_match)
next
  case False
  then show ?thesis
    using replace_loop_all [OF assms(2,3), of b "[]" xs "length xs - length m" False] assms(1)
    by (simp add: buffer_replace_def holds_fill)
qed

lemma buffer_replace_first_spec:
  assumes "holds b xs" and "m \<noteq> []"
  shows "\<exists>b'. buffer_replace True m rep True b = Some (has_match m xs, b')
     \<and> holds b' (subst_first m rep xs)"
proof (cases "length xs < length m")
  case True
  with assms(1) show ?thesis
    by (auto simp: buffer_replace_def holds_fill has_match_short subst_first_no_match)
next
  case False
  then show ?thesis
    using replace_loop_first [OF assms(2), of b "[]" xs "length xs - length m" rep] assms(1)
    by (simp add: buffer_replace_def holds_fill)
qed


section \<open>What the buffer promises\<close>

text \<open>\<open>replace\<close> replaces the first occurrence of a pattern, or, for a replacement that is not
  shorter than the pattern, every occurrence from left to right without looking at replaced text
  again; it reports whether there was an occurrence.\<close>

theorem replace_occurrences:
  assumes "holds b xs" and "m \<noteq> []" and "length m \<le> length rep"
  shows "(\<exists>b'. buffer_replace True m rep False b = Some (has_match m xs, b') \<and> holds b' (subst_all m rep xs))
     \<and> (\<exists>b'. buffer_replace True m rep True b = Some (has_match m xs, b') \<and> holds b' (subst_first m rep xs))"
  using buffer_replace_all_spec [OF assms] buffer_replace_first_spec [OF assms(1,2)] by blast

theorem replace_occurrences_witness:
  "\<exists>b'. buffer_replace True ''a'' ''bb'' False (auto_buffer_external ''cacao'') = Some (True, b') \<and> holds b' ''cbbcbbo''"
proof -
  have "''a'' \<noteq> []" "length ''a'' \<le> length ''bb''" by simp_all
  from replace_occurrences [OF holds_external [of "''cacao''"] this] show ?thesis
    by (auto simp: is_prefix_def)
qed

text \<open>a replacement shorter than the pattern makes \<open>replace\<close> skip text: it moves the tail down but
  steps over the length of the pattern, so adjacent occurrences are left alone.\<close>

theorem shorter_replacement_skips:
  "\<exists>b'. buffer_replace True ''ab'' ''x'' False (auto_buffer_external ''ababab'') = Some (True, b')
     \<and> holds b' ''xabx'' \<and> subst_all ''ab'' ''x'' ''ababab'' = ''xxx''"
  by (simp add: buffer_replace_def auto_buffer_external_def replace_loop.simps memcmp_eq_def
      replace_at_def write_cells_def holds_def is_prefix_def)

text \<open>\<open>find\<close> returns the first position, from the given one on, at which the pattern can be read off
  the content, and \<open>npos\<close> when there is none, as long as the pattern is not longer than the
  content.\<close>

theorem find_first_occurrence:
  assumes "holds b xs" and "length m \<le> length xs"
  shows "\<exists>r. buffer_find b from m = Some r \<and>
     (case r of None \<Rightarrow> \<forall>i\<ge>from. \<not> occurs_at xs m i
      | Some q \<Rightarrow> from \<le> q \<and> occurs_at xs m q \<and> (\<forall>i. from \<le> i \<and> i < q \<longrightarrow> \<not> occurs_at xs m i))"
  by (rule buffer_find_spec [OF assms])

theorem find_first_occurrence_witness:
  "\<exists>q. buffer_find (auto_buffer_external ''xabab'') 2 ''ab'' = Some (Some q) \<and> q = 3"
proof -
  have "length ''ab'' \<le> length ''xabab''" by simp
  from find_first_occurrence [OF holds_external this, of 2] obtain r where
    r: "buffer_find (auto_buffer_external ''xabab'') 2 ''ab'' = Some r" and
    c: "case r of None \<Rightarrow> \<forall>i\<ge>2. \<not> occurs_at ''xabab'' ''ab'' i
      | Some q \<Rightarrow> 2 \<le> q \<and> occurs_at ''xabab'' ''ab'' q \<and> (\<forall>i. 2 \<le> i \<and> i < q \<longrightarrow> \<not> occurs_at ''xabab'' ''ab'' i)"
    by blast
  have "occurs_at ''xabab'' ''ab'' 3" by (simp add: occurs_at_def)
  with c obtain q where q: "r = Some q" "2 \<le> q" "occurs_at ''xabab'' ''ab'' q" "\<not> 3 < q"
    by (fastforce split: option.splits)
  moreover have "q \<noteq> 2" using q(3) by (auto simp: occurs_at_def)
  ultimately show ?thesis using r by auto
qed

text \<open>with a pattern longer than the content \<open>find\<close> never reports \<open>npos\<close>: the last start position
  wraps around, so it either meets the pattern in bytes behind the content or runs out of the
  allocation.\<close>

theorem find_longer_pattern:
  assumes "holds b xs" and "length xs < length m" and "length (m_buffer b) + length m \<le> size_modulus"
    and "from \<le> length (m_buffer b)"
  shows "buffer_find b from m \<noteq> Some None"
proof -
  have "m \<noteq> []" using assms(2) by auto
  moreover have "length (m_buffer b) \<le> usub (m_ready_position b) (length m)"
    using assms by (simp add: holds_fill usub_def)
  ultimately show ?thesis using find_loop_runs_out assms(4) by (simp add: buffer_find_def)
qed

theorem find_longer_pattern_witness:
  "buffer_find (auto_buffer_external ''a'') 0 ''ab'' \<noteq> Some None"
  by (rule find_longer_pattern [OF holds_external]) (simp_all add: auto_buffer_external_def size_modulus_def)

text \<open>when \<open>realloc\<close> fails, \<open>append\<close> writes outside the allocation: the new capacity is recorded
  although the old region is kept.\<close>

theorem failed_growth_overruns:
  assumes "holds b xs" and "m_full_size b < length xs + length ys"
  shows "buffer_append False ys b = None"
proof -
  have "length (m_buffer b) < m_ready_position b + length ys" using assms by (auto simp: holds_def)
  then show ?thesis
    using assms by (auto simp: buffer_append_def append_cells_def write_cells_def check_size_def Let_def)
qed

theorem failed_growth_overruns_witness:
  "buffer_append False ''b'' (auto_buffer_external ''a'') = None"
  by (rule failed_growth_overruns [OF holds_external]) (simp add: auto_buffer_external_def)

text \<open>The two operations the protocols interleave, on the buffer and on the sequence it stores.\<close>

datatype 'a buffer_op = Put "'a list" | Cut nat

fun do_op :: "'a buffer_op \<Rightarrow> 'a auto_buffer \<Rightarrow> 'a auto_buffer option" where
  "do_op (Put ys) b = buffer_append True ys b"
| "do_op (Cut n) b = Some (cut_from_head n b)"

fun op_on_list :: "'a buffer_op \<Rightarrow> 'a list \<Rightarrow> 'a list" where
  "op_on_list (Put ys) xs = xs @ ys"
| "op_on_list (Cut n) xs = (if n \<le> length xs then drop n xs else xs)"

fun do_ops :: "'a buffer_op list \<Rightarrow> 'a auto_buffer \<Rightarrow> 'a auto_buffer option" where
  "do_ops [] b = Some b"
| "do_ops (x # xs) b = do { b1 \<leftarrow> do_op x b; do_ops xs b1 }"

text \<open>C36: whatever bytes are appended and cut in whatever order, the buffer stores exactly the sequence
  the operations describe, growing as needed; a cut beyond the content is ignored.\<close>

theorem buffer_refines_sequence:
  assumes "holds b xs"
  shows "\<exists>b'. do_ops ops b = Some b' \<and> holds b' (fold op_on_list ops xs)"
  using assms
proof (induction ops arbitrary: b xs)
  case (Cons x ops)
  have "\<exists>b1. do_op x b = Some b1 \<and> holds b1 (op_on_list x xs)"
  proof (cases x)
    case (Put ys)
    then show ?thesis using ab.stores_push [OF Cons.prems] by simp
  next
    case (Cut n)
    then show ?thesis using ab.stores_pop [OF Cons.prems, of n] cut_beyond [of b n] Cons.prems
      by (auto simp: holds_fill)
  qed
  then show ?case using Cons.IH by fastforce
qed auto

theorem buffer_refines_sequence_witness:
  "\<exists>b'. do_ops [Put ''abc'', Cut 2, Cut 9, Put ''d''] auto_buffer_new = Some b' \<and> holds b' ''cd''"
  using buffer_refines_sequence [OF holds_new, of "[Put ''abc'', Cut 2, Cut 9, Put ''d'']"] by simp

end
