(* ===== verification/Http_Request.thy ===== *)
theory Http_Request
  imports Autobuffer
begin

text \<open>
  The request side of \<open>http_text_protocol_header\<close> (\<open>include/net/http.h\<close>, \<open>src/net/http.cpp\<close>):
  the incremental parser \<open>process_data\<close> with its helpers \<open>get_chunk\<close>, \<open>parse_string\<close> and
  \<open>find_sub_value\<close>, the lookups over the parsed request, and \<open>get_multi_part\<close>.

  The bytes handed to the parser are a pointer into the receive buffer and a size; the
  memory behind them stays readable, as it is in the program, so a read past the size is
  visible in the model.
\<close>

abbreviation CR :: char where "CR \<equiv> CHR 0x0D"
abbreviation LF :: char where "LF \<equiv> CHR 0x0A"

definition npos :: nat where
  "npos = 2 ^ 64 - 1"

section \<open>C library helpers of this file\<close>

text \<open>\<open>atoi\<close>; a value that does not fit an \<open>int\<close> is undefined behaviour.\<close>

definition is_space_c :: "char \<Rightarrow> bool" where
  "is_space_c c \<longleftrightarrow> c \<in> set [CHR '' '', CHR 0x09, CHR 0x0A, CHR 0x0B, CHR 0x0C, CHR 0x0D]"

definition digit_c :: "char \<Rightarrow> nat option" where
  "digit_c c = (let n = (of_char c :: nat) in if 48 \<le> n \<and> n \<le> 57 then Some (n - 48) else None)"

fun digits_value :: "nat \<Rightarrow> string \<Rightarrow> nat" where
  "digits_value acc [] = acc"
| "digits_value acc (c # cs) =
     (case digit_c c of None \<Rightarrow> acc | Some d \<Rightarrow> digits_value (10 * acc + d) cs)"

definition strto_int :: "string \<Rightarrow> int" where
  "strto_int s =
     (case dropWhile is_space_c s of
        [] \<Rightarrow> 0
      | c # cs \<Rightarrow>
          if c = CHR ''-'' then - int (digits_value 0 cs)
          else if c = CHR ''+'' then int (digits_value 0 cs)
          else int (digits_value 0 (c # cs)))"

definition in_range :: "nat \<Rightarrow> int \<Rightarrow> int option" where
  "in_range w i = (if - (2 ^ (w - 1)) \<le> i \<and> i < 2 ^ (w - 1) then Some i else None)"

definition atoi :: "string \<Rightarrow> int option" where
  "atoi s = in_range 32 (strto_int s)"

definition atoll :: "string \<Rightarrow> int option" where
  "atoll s = in_range 64 (strto_int s)"

text \<open>The conversion of an \<open>int\<close> to \<open>size_t\<close>.\<close>

definition size_of_int :: "int \<Rightarrow> nat" where
  "size_of_int i = nat (i mod 2 ^ 64)"

text \<open>\<open>for (; *p == ' '; ++p)\<close>\<close>

fun skip_spaces_list :: "char memory \<Rightarrow> nat option" where
  "skip_spaces_list (Some c # mem) =
     (if c = CHR '' '' then map_option Suc (skip_spaces_list mem) else Some 0)"
| "skip_spaces_list _ = None"

definition skip_spaces :: "char memory \<Rightarrow> nat \<Rightarrow> nat option" where
  "skip_spaces mem p = map_option ((+) p) (skip_spaces_list (drop p mem))"

text \<open>A \<open>std::string\<close> made of \<open>n\<close> bytes from \<open>p\<close>.\<close>

definition read_cells :: "char memory \<Rightarrow> nat \<Rightarrow> nat \<Rightarrow> string option" where
  "read_cells mem p n =
     (if p + n \<le> length mem then those (take n (drop p mem)) else None)"

section \<open>\<open>find_sub_value\<close>\<close>

text \<open>The search for the key outside quotes; the result is its offset.\<close>

function fsv_find :: "char memory \<Rightarrow> nat \<Rightarrow> nat \<Rightarrow> string \<Rightarrow> nat \<Rightarrow> bool \<Rightarrow> nat option option" where
  "fsv_find mem p p_max m p_check in_quote =
     (if p_check \<le> p_max then
        (case rd mem (p + p_check) of
           None \<Rightarrow> None
         | Some c \<Rightarrow>
             if c = CHR 0x22 then fsv_find mem p p_max m (Suc p_check) (\<not> in_quote)
             else if in_quote then fsv_find mem p p_max m (Suc p_check) in_quote
             else (case memcmp_eq mem (p + p_check) m of
                     None \<Rightarrow> None
                   | Some True \<Rightarrow> Some (Some p_check)
                   | Some False \<Rightarrow> fsv_find mem p p_max m (Suc p_check) in_quote))
      else Some None)"
  by pat_completeness auto
termination
  by (relation "measure (\<lambda>(mem, p, p_max, m, p_check, q). Suc p_max - p_check)") auto

text \<open>
  The scan of the value: the position where it stops, the start of the value and whether
  a value was seen.
\<close>

function fsv_value ::
  "char memory \<Rightarrow> nat \<Rightarrow> nat \<Rightarrow> char \<Rightarrow> char \<Rightarrow> nat \<Rightarrow> nat \<Rightarrow> bool \<Rightarrow> bool \<Rightarrow> (nat \<times> nat \<times> bool) option" where
  "fsv_value mem p n kv kk p_check p_start found in_quote =
     (if p_check < n then
        (case rd mem (p + p_check) of
           None \<Rightarrow> None
         | Some c \<Rightarrow>
             if c = CHR 0x22 then fsv_value mem p n kv kk (Suc p_check) p_start found (\<not> in_quote)
             else if in_quote then fsv_value mem p n kv kk (Suc p_check) p_start found in_quote
             else if c = kv then fsv_value mem p n kv kk (Suc p_check) (Suc p_check) True in_quote
             else if c = kk then Some (usub p_check 1, p_start, found)
             else fsv_value mem p n kv kk (Suc p_check) p_start found in_quote)
      else Some (p_check, p_start, found))"
  by pat_completeness auto
termination
  by (relation "measure (\<lambda>(mem, p, n, kv, kk, p_check, s, r, q). n - p_check)") auto

declare fsv_find.simps [simp del] fsv_value.simps [simp del]

text \<open>\<open>for (; *(pSource_ + pCheck) == ' '; --pCheck)\<close>: running below the source is undefined.\<close>

fun skip_back :: "char memory \<Rightarrow> nat \<Rightarrow> nat \<Rightarrow> nat option" where
  "skip_back mem p 0 =
     (case rd mem p of None \<Rightarrow> None | Some c \<Rightarrow> if c = CHR '' '' then None else Some 0)"
| "skip_back mem p (Suc i) =
     (case rd mem (p + Suc i) of
        None \<Rightarrow> None
      | Some c \<Rightarrow> if c = CHR '' '' then skip_back mem p i else Some (Suc i))"

text \<open>The trimming of the value; the result is the pointer and the size, a \<open>size_t\<close>.\<close>

definition fsv_trim :: "char memory \<Rightarrow> nat \<Rightarrow> nat \<Rightarrow> nat \<Rightarrow> nat \<Rightarrow> (nat \<times> nat) option" where
  "fsv_trim mem p n p_check p_start =
     do { let p_check = (if p_check = n then usub p_check 1 else p_check);
          res \<leftarrow> skip_spaces mem (p + p_start);
          c \<leftarrow> rd mem res;
          let res = (if c = CHR 0x22 then Suc res else res);
          p_check \<leftarrow> skip_back mem p p_check;
          d \<leftarrow> rd mem (p + p_check);
          let p_check = (if d = CHR 0x22 then usub p_check 1 else p_check);
          Some (res, uadd (usub p_check (res - p)) 1) }"

text \<open>
  \<open>find_sub_value\<close>: the source pointer may be null and the size \<open>npos\<close> (both \<open>None\<close>). The
  result is the return value and, with \<open>want\<close>, what was stored through the two out pointers.
\<close>

definition find_sub_value ::
  "char memory \<Rightarrow> nat option \<Rightarrow> nat option \<Rightarrow> string \<Rightarrow> char \<Rightarrow> char \<Rightarrow> bool \<Rightarrow>
   (bool \<times> (nat \<times> nat) option) option" where
  "find_sub_value mem p_source n_source m kv kk want =
     (case p_source of
        None \<Rightarrow> Some (False, None)
      | Some p \<Rightarrow>
          do { n \<leftarrow> (case n_source of None \<Rightarrow> map_option length (cstr_at mem p) | Some n \<Rightarrow> Some n);
               if n < length m then Some (False, None)
               else do { hit \<leftarrow> fsv_find mem p (n - length m) m 0 False;
                         case hit of
                           None \<Rightarrow> Some (False, None)
                         | Some k \<Rightarrow>
                             if \<not> want then Some (True, None)
                             else do { (p_check, p_start, found) \<leftarrow>
                                         fsv_value mem p n kv kk (k + length m) 0 False False;
                                       if found
                                       then do { r \<leftarrow> fsv_trim mem p n p_check p_start;
                                                 Some (True, Some r) }
                                       else Some (True, None) } } })"

section \<open>The parser state\<close>

datatype process_state = eNone | eProcessingFirst | eProcessingNext | eSuccessful | eError

type_synonym list_pairs = "(nat \<times> nat option) list"

record http_request =
  m_ab_header :: "char auto_buffer"
  m_ab_params :: "char auto_buffer"
  m_ab_body :: "char auto_buffer"
  m_query_method :: chunk
  m_query_uri :: chunk
  m_query_version :: chunk
  m_host :: "nat option"
  m_port :: "nat option"
  m_header_values :: list_pairs
  m_params_value :: list_pairs
  m_cookies :: list_pairs
  m_header_process :: process_state
  m_body_process :: process_state
  m_content_length :: nat

definition request_clear :: "http_request \<Rightarrow> http_request" where
  "request_clear h =
     \<lparr>m_ab_header = flush_free_size (m_ab_header h),
      m_ab_params = flush_free_size (m_ab_params h),
      m_ab_body = flush_free_size (m_ab_body h),
      m_query_method = clear_reference, m_query_uri = clear_reference,
      m_query_version = clear_reference,
      m_host = None, m_port = None,
      m_header_values = [], m_params_value = [], m_cookies = [],
      m_header_process = eProcessingFirst, m_body_process = eNone,
      m_content_length = npos\<rparr>"

definition request_new :: http_request where
  "request_new = request_clear
     \<lparr>m_ab_header = auto_buffer_new, m_ab_params = auto_buffer_new, m_ab_body = auto_buffer_new,
      m_query_method = None, m_query_uri = None, m_query_version = None,
      m_host = None, m_port = None,
      m_header_values = [], m_params_value = [], m_cookies = [],
      m_header_process = eNone, m_body_process = eNone, m_content_length = 0\<rparr>"

definition is_ready :: "http_request \<Rightarrow> bool" where
  "is_ready h \<longleftrightarrow> m_header_process h = eSuccessful \<and> m_body_process h = eSuccessful"

section \<open>\<open>get_chunk\<close>\<close>

function gc_prefix :: "char memory \<Rightarrow> nat \<Rightarrow> nat \<Rightarrow> char \<Rightarrow> nat \<Rightarrow> nat option" where
  "gc_prefix mem p n pre s =
     (if s < n then
        (case rd mem (p + s) of
           None \<Rightarrow> None
         | Some c \<Rightarrow> if c = pre then gc_prefix mem p n pre (Suc s) else Some s)
      else Some s)"
  by pat_completeness auto
termination
  by (relation "measure (\<lambda>(mem, p, n, pre, s). n - s)") auto

function gc_stop :: "char memory \<Rightarrow> nat \<Rightarrow> nat \<Rightarrow> string \<Rightarrow> nat \<Rightarrow> nat option option" where
  "gc_stop mem p n stops k =
     (if k < n then
        (case rd mem (p + k) of
           None \<Rightarrow> None
         | Some c \<Rightarrow> if c \<in> set stops then Some (Some k) else gc_stop mem p n stops (Suc k))
      else Some None)"
  by pat_completeness auto
termination
  by (relation "measure (\<lambda>(mem, p, n, stops, k). n - k)") auto

declare gc_prefix.simps [simp del] gc_stop.simps [simp del]

text \<open>
  \<open>get_chunk\<close>: the chunk size, the reference and the extended target, or \<open>None\<close> inside when
  no stop character was found. The stop character is replaced by the terminator.
\<close>

definition get_chunk ::
  "char memory \<Rightarrow> nat \<Rightarrow> nat \<Rightarrow> char \<Rightarrow> string \<Rightarrow> char auto_buffer \<Rightarrow>
   (nat \<times> nat \<times> char auto_buffer) option option" where
  "get_chunk mem p n pre stops target =
     do { s \<leftarrow> gc_prefix mem p n pre 0;
          hit \<leftarrow> gc_stop mem p n stops s;
          case hit of
            None \<Rightarrow> Some None
          | Some k \<Rightarrow>
              do { let t = get_fill_size target;
                   target1 \<leftarrow> append_cells True (take (k + 1) (drop p mem)) default_granulate target;
                   target2 \<leftarrow> set_element (t + k) NUL target1;
                   Some (Some (k + 1, t + s, target2)) } }"

section \<open>\<open>parse_string\<close>\<close>

text \<open>
  The split of \<open>key=value\<close> pairs, in place: separators become terminators. \<open>base\<close> is both
  the position of the string in the cells and the \<open>shift\<close> of the recorded positions.
\<close>

definition trim_key :: "char memory \<Rightarrow> nat \<Rightarrow> bool \<Rightarrow> nat \<Rightarrow> nat option" where
  "trim_key cells base trim k =
     (if trim then map_option (\<lambda>q. q - base) (skip_spaces cells (base + k)) else Some k)"

function parse_string_loop ::
  "nat \<Rightarrow> nat \<Rightarrow> char \<Rightarrow> bool \<Rightarrow> nat \<Rightarrow> nat option \<Rightarrow> nat \<Rightarrow> char memory \<Rightarrow> list_pairs \<Rightarrow>
   (char memory \<times> list_pairs) option" where
  "parse_string_loop base n sep trim k v t cells target =
     (if t < n then
        (case rd cells (base + t) of
           None \<Rightarrow> None
         | Some c \<Rightarrow>
             if c = NUL then
               do { k' \<leftarrow> trim_key cells base trim k;
                    Some (cells, target @ [(base + k', map_option ((+) base) v)]) }
             else if c = sep then
               do { let cells1 = cells[base + t := Some NUL];
                    k' \<leftarrow> trim_key cells1 base trim k;
                    parse_string_loop base n sep trim (Suc t) None (Suc t) cells1
                      (target @ [(base + k', map_option ((+) base) v)]) }
             else if c = CHR ''='' then
               parse_string_loop base n sep trim k (Some (Suc t)) (Suc t)
                 (cells[base + t := Some NUL]) target
             else parse_string_loop base n sep trim k v (Suc t) cells target)
      else Some (cells, target))"
  by pat_completeness auto
termination
  by (relation "measure (\<lambda>(base, n, sep, trim, k, v, t, cells, target). n - t)") auto

declare parse_string_loop.simps [simp del]

definition parse_string ::
  "nat \<Rightarrow> nat \<Rightarrow> list_pairs \<Rightarrow> char \<Rightarrow> bool \<Rightarrow> char auto_buffer \<Rightarrow> (char auto_buffer \<times> list_pairs) option" where
  "parse_string base n target sep trim b =
     do { (cells, target') \<leftarrow> parse_string_loop base n sep trim 0 None 0 (m_buffer b) target;
          Some (b\<lparr>m_buffer := cells\<rparr>, target') }"

section \<open>Lookups\<close>

text \<open>The value position of the first pair whose key matches without regard to case.\<close>

fun find_pair :: "string \<Rightarrow> char memory \<Rightarrow> list_pairs \<Rightarrow> nat option option option" where
  "find_pair key mem [] = Some None"
| "find_pair key mem ((k, v) # ps) =
     do { eq \<leftarrow> strcasecmp_eq (c_str key) (drop k mem);
          if eq then Some (Some v) else find_pair key mem ps }"

text \<open>
  A returned \<open>const char*\<close> is its string, \<open>None\<close> inside for a null pointer. A header value
  position is always set; \<open>get_position (npos)\<close> would be undefined.
\<close>

definition string_at :: "char memory \<Rightarrow> nat \<Rightarrow> string option option" where
  "string_at mem p = map_option Some (cstr_at mem p)"

definition value_or_default ::
  "char memory \<Rightarrow> nat option option \<Rightarrow> string option \<Rightarrow> string option option" where
  "value_or_default mem hit dflt =
     (case hit of Some (Some v) \<Rightarrow> string_at mem v | _ \<Rightarrow> Some dflt)"

definition get_parameter :: "http_request \<Rightarrow> string \<Rightarrow> string option \<Rightarrow> string option option" where
  "get_parameter h key dflt =
     do { hit \<leftarrow> find_pair key (m_buffer (m_ab_params h)) (m_params_value h);
          value_or_default (m_buffer (m_ab_params h)) hit dflt }"

definition get_cookie :: "http_request \<Rightarrow> string \<Rightarrow> string option \<Rightarrow> string option option" where
  "get_cookie h key dflt =
     do { hit \<leftarrow> find_pair key (m_buffer (m_ab_header h)) (m_cookies h);
          value_or_default (m_buffer (m_ab_header h)) hit dflt }"

definition get_cookie_parameter :: "http_request \<Rightarrow> string \<Rightarrow> string option \<Rightarrow> string option option" where
  "get_cookie_parameter h key dflt =
     do { v \<leftarrow> get_cookie h key None;
          case v of None \<Rightarrow> get_parameter h key dflt | Some s \<Rightarrow> Some (Some s) }"

definition get_header_parameter :: "http_request \<Rightarrow> string \<Rightarrow> string option \<Rightarrow> string option option" where
  "get_header_parameter h key dflt =
     do { hit \<leftarrow> find_pair key (m_buffer (m_ab_header h)) (m_header_values h);
          case hit of
            None \<Rightarrow> Some dflt
          | Some None \<Rightarrow> None
          | Some (Some v) \<Rightarrow> string_at (m_buffer (m_ab_header h)) v }"

definition is_parameter_exist :: "http_request \<Rightarrow> string \<Rightarrow> bool option" where
  "is_parameter_exist h key =
     map_option (\<lambda>hit. hit \<noteq> None) (find_pair key (m_buffer (m_ab_params h)) (m_params_value h))"

text \<open>The index lookups return \<open>npos\<close> both for a missing key and for a key without a value.\<close>

definition get_parameter_index :: "http_request \<Rightarrow> string \<Rightarrow> nat option option" where
  "get_parameter_index h key =
     map_option (\<lambda>hit. case hit of None \<Rightarrow> None | Some v \<Rightarrow> v)
       (find_pair key (m_buffer (m_ab_params h)) (m_params_value h))"

definition get_header_index :: "http_request \<Rightarrow> string \<Rightarrow> nat option option" where
  "get_header_index h key =
     map_option (\<lambda>hit. case hit of None \<Rightarrow> None | Some v \<Rightarrow> v)
       (find_pair key (m_buffer (m_ab_header h)) (m_header_values h))"

definition get_parameter_bool :: "http_request \<Rightarrow> string \<Rightarrow> bool \<Rightarrow> bool option" where
  "get_parameter_bool h key dflt =
     map_option (\<lambda>v. case v of None \<Rightarrow> dflt | Some s \<Rightarrow> s = ''true'') (get_parameter h key None)"

definition get_parameter_int :: "http_request \<Rightarrow> string \<Rightarrow> int \<Rightarrow> int option" where
  "get_parameter_int h key dflt =
     do { v \<leftarrow> get_parameter h key None; case v of None \<Rightarrow> Some dflt | Some s \<Rightarrow> atoi s }"

definition get_parameter64 :: "http_request \<Rightarrow> string \<Rightarrow> int \<Rightarrow> int option" where
  "get_parameter64 h key dflt =
     do { v \<leftarrow> get_parameter h key None; case v of None \<Rightarrow> Some dflt | Some s \<Rightarrow> atoll s }"

text \<open>
  \<open>fill_parameter2_array\<close> does not test the value position: for a key without a value it
  reads at \<open>npos\<close>, which is undefined.
\<close>

fun fill_array_loop :: "string \<Rightarrow> char memory \<Rightarrow> list_pairs \<Rightarrow> int list \<Rightarrow> int list option" where
  "fill_array_loop key mem [] r = Some r"
| "fill_array_loop key mem ((k, v) # ps) r =
     do { eq1 \<leftarrow> strcasecmp_eq (c_str key) (drop k mem);
          eq \<leftarrow> (if eq1 then Some True else strcasecmp_eq (c_str (key @ ''[]'')) (drop k mem));
          if eq then do { q \<leftarrow> v; s \<leftarrow> cstr_at mem q; i \<leftarrow> atoi s; fill_array_loop key mem ps (r @ [i]) }
          else fill_array_loop key mem ps r }"

definition fill_parameter2_array :: "http_request \<Rightarrow> string \<Rightarrow> int list \<Rightarrow> int list option" where
  "fill_parameter2_array h key r =
     fill_array_loop key (m_buffer (m_ab_params h)) (m_params_value h) r"

definition get_query_method :: "http_request \<Rightarrow> string option" where
  "get_query_method h = get_chunk_string (m_ab_header h) (m_query_method h)"

definition get_query_uri :: "http_request \<Rightarrow> string option" where
  "get_query_uri h = get_chunk_string (m_ab_header h) (m_query_uri h)"

subsection \<open>Host, port and client address\<close>

text \<open>The scan for \<open>:\<close> or the terminator from the header value on; the colon is overwritten.\<close>

function host_port_loop :: "char memory \<Rightarrow> nat \<Rightarrow> (char memory \<times> nat) option" where
  "host_port_loop cells idx =
     (if idx < length cells then
        (case cells ! idx of
           None \<Rightarrow> None
         | Some c \<Rightarrow>
             if c = NUL then Some (cells, 0)
             else if c = CHR '':'' then Some (cells[idx := Some NUL], idx + 1)
             else host_port_loop cells (Suc idx))
      else None)"
  by pat_completeness auto
termination
  by (relation "measure (\<lambda>(cells, idx). length cells - idx)") auto

declare host_port_loop.simps [simp del]

definition calculate_host_port :: "http_request \<Rightarrow> http_request option" where
  "calculate_host_port h =
     do { idx \<leftarrow> get_header_index h ''Host'';
          case idx of
            None \<Rightarrow> Some h
          | Some i \<Rightarrow>
              do { (cells, port) \<leftarrow> host_port_loop (m_buffer (m_ab_header h)) i;
                   Some (h\<lparr>m_ab_header := (m_ab_header h)\<lparr>m_buffer := cells\<rparr>,
                           m_host := Some i, m_port := Some port\<rparr>) } }"

definition get_host :: "http_request \<Rightarrow> (string \<times> http_request) option" where
  "get_host h =
     do { h1 \<leftarrow> (if m_host h = None then calculate_host_port h else Some h);
          case m_host h1 of
            None \<Rightarrow> Some ([], h1)
          | Some i \<Rightarrow> map_option (\<lambda>s. (s, h1)) (cstr_at (m_buffer (m_ab_header h1)) i) }"

definition get_port :: "http_request \<Rightarrow> (string \<times> http_request) option" where
  "get_port h =
     do { h1 \<leftarrow> (if m_host h = None then calculate_host_port h else Some h);
          case m_port h1 of
            None \<Rightarrow> Some ([], h1)
          | Some i \<Rightarrow> if i = 0 then Some ([], h1)
                      else map_option (\<lambda>s. (s, h1)) (cstr_at (m_buffer (m_ab_header h1)) i) }"

definition get_client_proxy_ip :: "http_request \<Rightarrow> string option option" where
  "get_client_proxy_ip h =
     do { fwd \<leftarrow> get_header_index h ''X-Forwarded-For'';
          case fwd of
            Some i \<Rightarrow> string_at (m_buffer (m_ab_header h)) i
          | None \<Rightarrow>
              do { real \<leftarrow> get_header_index h ''X-Real-IP'';
                   case real of
                     None \<Rightarrow> Some None
                   | Some i \<Rightarrow> string_at (m_buffer (m_ab_header h)) i } }"

section \<open>\<open>process_data\<close>\<close>

text \<open>
  The locals of one call: the read pointer, the bytes left, the return value so far and the
  variable \<open>chunk_size\<close>, which the source leaves uninitialised.
\<close>

record frame =
  f_ptr :: nat
  f_size :: nat
  f_done :: nat
  f_chunk :: nat

text \<open>A step either goes on (\<open>True\<close>) or makes \<open>process_data\<close> return \<open>process_byte\<close>.\<close>

type_synonym step_result = "(bool \<times> http_request \<times> frame) option"

definition advance :: "nat \<Rightarrow> frame \<Rightarrow> frame" where
  "advance n f = f\<lparr>f_ptr := f_ptr f + n, f_size := usub (f_size f) n\<rparr>"

definition step_method :: "char memory \<Rightarrow> http_request \<Rightarrow> frame \<Rightarrow> step_result" where
  "step_method mem h f =
     (if is_valid (m_query_method h) then Some (True, h, f)
      else do { r \<leftarrow> get_chunk mem (f_ptr f) (f_size f) CHR '' '' '' '' (m_ab_header h);
                case r of
                  None \<Rightarrow> Some (False, h, f)
                | Some (sz, ref, ab) \<Rightarrow>
                    Some (True, h\<lparr>m_ab_header := ab, m_query_method := Some ref\<rparr>,
                          (advance sz f)\<lparr>f_chunk := sz, f_done := f_done f + sz\<rparr>) })"

definition step_uri :: "char memory \<Rightarrow> http_request \<Rightarrow> frame \<Rightarrow> step_result" where
  "step_uri mem h f =
     (if is_valid (m_query_uri h) then Some (True, h, f)
      else do { r \<leftarrow> get_chunk mem (f_ptr f) (f_size f) CHR '' '' ''? '' (m_ab_header h);
                case r of
                  None \<Rightarrow> Some (False, h, f)
                | Some (sz, ref, ab) \<Rightarrow>
                    do { let h1 = h\<lparr>m_ab_header := ab, m_query_uri := Some ref\<rparr>;
                         let f1 = (advance sz f)\<lparr>f_chunk := sz\<rparr>;
                         c \<leftarrow> rd mem (f_ptr f1 - 1);
                         let f2 = (if c = CHR ''?''
                                   then f1\<lparr>f_chunk := sz - 1, f_ptr := f_ptr f1 - 1, f_size := f_size f1 + 1\<rparr>
                                   else f1);
                         Some (True, h1, f2\<lparr>f_done := f_done f2 + f_chunk f2\<rparr>) } })"

definition step_params :: "char memory \<Rightarrow> http_request \<Rightarrow> frame \<Rightarrow> step_result" where
  "step_params mem h f =
     (if get_fill_size (m_ab_params h) \<noteq> 0 then Some (True, h, f)
      else do { c \<leftarrow> rd mem (f_ptr f);
                if c \<noteq> CHR ''?'' then Some (True, h, f)
                else do { let f1 = advance 1 f;
                          r \<leftarrow> get_chunk mem (f_ptr f1) (f_size f1) CHR ''?'' '' '' (m_ab_params h);
                          case r of
                            None \<Rightarrow> Some (False, h, f1)
                          | Some (sz, ref, ab) \<Rightarrow>
                              Some (True, h\<lparr>m_ab_params := ab\<rparr>,
                                    (advance sz f1)\<lparr>f_chunk := sz, f_done := f_done f1 + sz + 1\<rparr>) } })"

text \<open>\<open>if (0 < size && (buffer[0] == CR || buffer[0] == LF))\<close> skip one more byte.\<close>

definition skip_line_end :: "char memory \<Rightarrow> frame \<Rightarrow> frame option" where
  "skip_line_end mem f =
     (if 0 < f_size f then
        do { c \<leftarrow> rd mem (f_ptr f);
             Some (if c = CR \<or> c = LF then (advance 1 f)\<lparr>f_chunk := f_chunk f + 1\<rparr> else f) }
      else Some f)"

definition step_version :: "char memory \<Rightarrow> http_request \<Rightarrow> frame \<Rightarrow> step_result" where
  "step_version mem h f =
     (if is_valid (m_query_version h) then Some (True, h, f)
      else do { r \<leftarrow> get_chunk mem (f_ptr f) (f_size f) CHR '' '' [CR, LF] (m_ab_header h);
                case r of
                  None \<Rightarrow> Some (False, h, f)
                | Some (sz, ref, ab) \<Rightarrow>
                    do { f2 \<leftarrow> skip_line_end mem ((advance sz f)\<lparr>f_chunk := sz\<rparr>);
                         Some (True,
                           h\<lparr>m_ab_header := ab, m_query_version := Some ref,
                             m_header_process := eProcessingNext\<rparr>,
                           f2\<lparr>f_done := f_done f2 + f_chunk f2\<rparr>) } })"

text \<open>\<open>step\<close>s in sequence.\<close>

definition and_then ::
  "step_result \<Rightarrow> (http_request \<Rightarrow> frame \<Rightarrow> step_result) \<Rightarrow> step_result" where
  "and_then r k =
     do { (go, h, f) \<leftarrow> r; if go then k h f else Some (False, h, f) }"

text \<open>What a completed header line does: remember it, note the body length, split cookies.\<close>

definition record_header ::
  "nat \<Rightarrow> nat \<Rightarrow> nat \<Rightarrow> http_request \<Rightarrow> http_request option" where
  "record_header key_ref value_ref chunk_size_v h =
     do { let h1 = h\<lparr>m_header_values := m_header_values h @ [(key_ref, Some value_ref)]\<rparr>;
          key \<leftarrow> cstr_at (m_buffer (m_ab_header h1)) key_ref;
          if m_content_length h1 = npos \<and> key = ''Content-Length'' then
            do { s \<leftarrow> cstr_at (m_buffer (m_ab_header h1)) value_ref;
                 i \<leftarrow> atoi s;
                 Some (h1\<lparr>m_content_length := size_of_int i\<rparr>) }
          else if key = ''Cookie'' then
            do { (ab, cookies) \<leftarrow> parse_string value_ref chunk_size_v (m_cookies h1) CHR '';'' True (m_ab_header h1);
                 Some (h1\<lparr>m_ab_header := ab, m_cookies := cookies\<rparr>) }
          else Some h1 }"

text \<open>
  One header line. When the line is incomplete the source breaks out of the loop after
  \<open>decrement_free_size (chunk_size)\<close>; with a complete key, the buffer pointer has already moved
  and the key stays in the header buffer.
\<close>

definition header_line :: "char memory \<Rightarrow> http_request \<Rightarrow> frame \<Rightarrow> step_result" where
  "header_line mem h f =
     do { rk \<leftarrow> get_chunk mem (f_ptr f) (f_size f) CHR '' '' '':'' (m_ab_header h);
          case rk of
            None \<Rightarrow> Some (False, h\<lparr>m_ab_header := decrement_free_size (f_chunk f) (m_ab_header h)\<rparr>, f)
          | Some (sz, key_ref, ab) \<Rightarrow>
              do { let f1 = (advance sz f)\<lparr>f_chunk := sz\<rparr>;
                   rv \<leftarrow> get_chunk mem (f_ptr f1) (f_size f1) CHR '' '' [CR, LF] ab;
                   case rv of
                     None \<Rightarrow> Some (False, h\<lparr>m_ab_header := decrement_free_size (f_chunk f1) ab\<rparr>, f1)
                   | Some (sz_v, value_ref, ab2) \<Rightarrow>
                       do { f2 \<leftarrow> skip_line_end mem (advance sz_v f1);
                            h2 \<leftarrow> record_header key_ref value_ref sz_v (h\<lparr>m_ab_header := ab2\<rparr>);
                            Some (True, h2, f2\<lparr>f_done := f_done f2 + (f_chunk f2 + sz_v)\<rparr>) } } }"

definition at_blank_line :: "char memory \<Rightarrow> frame \<Rightarrow> bool option" where
  "at_blank_line mem f =
     do { c \<leftarrow> rd mem (f_ptr f);
          if c \<noteq> CR then Some False
          else do { d \<leftarrow> rd mem (f_ptr f + 1); Some (d = LF) } }"

lemma gc_stop_bound: "gc_stop mem p n stops k = Some (Some r) \<Longrightarrow> k \<le> r \<and> r < n"
proof (induction mem p n stops k rule: gc_stop.induct)
  case (1 mem p n stops k)
  then show ?case
    by (subst (asm) gc_stop.simps) (auto split: if_splits option.splits)
qed

lemma get_chunk_size:
  assumes "get_chunk mem p n pre stops target = Some (Some (sz, ref, target'))"
  shows "1 \<le> sz \<and> sz \<le> n"
proof -
  obtain s hit where s: "gc_prefix mem p n pre 0 = Some s" and hit: "gc_stop mem p n stops s = Some hit"
    using assms by (auto simp: get_chunk_def bind_eq_Some_conv)
  then obtain k where k: "hit = Some k" using assms by (cases hit) (auto simp: get_chunk_def)
  with s hit assms have "sz = k + 1" by (auto simp: get_chunk_def Let_def bind_eq_Some_conv)
  with gc_stop_bound [OF hit [unfolded k]] show ?thesis by simp
qed

lemma skip_line_end_size: "skip_line_end mem f = Some f' \<Longrightarrow> f_size f' \<le> f_size f"
  by (auto simp: skip_line_end_def advance_def bind_eq_Some_conv usub_def split: if_splits)

lemma header_line_progress:
  assumes "header_line mem h f = Some (True, h1, f1)"
  shows "f_size f1 < f_size f"
proof -
  obtain sz key_ref ab sz_v value_ref ab2 f2 where
    k: "get_chunk mem (f_ptr f) (f_size f) CHR '' '' '':'' (m_ab_header h) = Some (Some (sz, key_ref, ab))" and
    v: "get_chunk mem (f_ptr f + sz) (usub (f_size f) sz) CHR '' '' [CR, LF] ab
        = Some (Some (sz_v, value_ref, ab2))" and
    s: "skip_line_end mem (advance sz_v ((advance sz f)\<lparr>f_chunk := sz\<rparr>)) = Some f2" and
    f1: "f_size f1 = f_size f2"
    using assms
    by (auto simp: header_line_def Let_def bind_eq_Some_conv advance_def split: option.splits)
  show ?thesis
    using get_chunk_size [OF k] get_chunk_size [OF v] skip_line_end_size [OF s] f1
    by (simp add: advance_def, linarith)
qed

text \<open>
  The loop over the header lines; a completed line takes at least two bytes
  (\<open>header_line_progress\<close>), so the loop returns.
\<close>

function headers_loop :: "char memory \<Rightarrow> http_request \<Rightarrow> frame \<Rightarrow> (http_request \<times> frame) option" where
  "headers_loop mem h f =
     (if 2 \<le> f_size f then
        (case at_blank_line mem f of
           None \<Rightarrow> None
         | Some True \<Rightarrow>
             Some (h\<lparr>m_header_process := eSuccessful, m_body_process := eProcessingFirst\<rparr>,
                   (advance 2 f)\<lparr>f_done := f_done f + 2\<rparr>)
         | Some False \<Rightarrow>
             (case header_line mem h f of
                None \<Rightarrow> None
              | Some (go, h1, f1) \<Rightarrow> if go then headers_loop mem h1 f1 else Some (h1, f1)))
      else Some (h, f))"
  by pat_completeness auto
termination
  by (relation "measure (\<lambda>(mem, h, f). f_size f)") (auto dest: header_line_progress)

declare headers_loop.simps [simp del]

text \<open>The form body is appended to the query parameters with \<open>&\<close> between them.\<close>

definition join_params :: "http_request \<Rightarrow> http_request option" where
  "join_params h =
     do { let params = m_ab_params h;
          let k = get_fill_size params;
          if k = 0 then Some h
          else do { c \<leftarrow> get_element params (k - 1);
                    params1 \<leftarrow>
                      (if c = NUL then
                         (if k > 1
                          then do { d \<leftarrow> get_element params (k - 2);
                                    if d \<noteq> CHR ''&'' then set_element (k - 1) CHR ''&'' params
                                    else Some (increment_free_size 1 params) }
                          else Some (increment_free_size 1 params))
                       else if c \<noteq> CHR ''&'' then buffer_append True ''&'' params
                       else Some params);
                    Some (h\<lparr>m_ab_params := params1,
                            m_content_length := uadd (m_content_length h) (get_fill_size params1)\<rparr>) } }"

definition merge_form :: "http_request \<Rightarrow> http_request option" where
  "merge_form h =
     do { h1 \<leftarrow> join_params h;
          params2 \<leftarrow> append_cells True (take (get_fill_size (m_ab_body h1)) (m_buffer (m_ab_body h1)))
                       default_granulate (m_ab_params h1);
          params3 \<leftarrow> buffer_append True [NUL] params2;
          Some (h1\<lparr>m_ab_params := params3\<rparr>) }"

definition form_content_type :: string where
  "form_content_type = ''application/x-www-form-urlencoded''"

definition header_position :: "http_request \<Rightarrow> string \<Rightarrow> nat option option" where
  "header_position h key =
     do { hit \<leftarrow> find_pair key (m_buffer (m_ab_header h)) (m_header_values h);
          case hit of None \<Rightarrow> Some None | Some None \<Rightarrow> None | Some (Some v) \<Rightarrow> Some (Some v) }"

definition finish_body :: "http_request \<Rightarrow> http_request option" where
  "finish_body h =
     do { let h1 = h\<lparr>m_body_process := eSuccessful\<rparr>;
          ct \<leftarrow> header_position h1 ''Content-Type'';
          case ct of
            None \<Rightarrow> Some h1
          | Some p \<Rightarrow>
              do { (form, _) \<leftarrow> find_sub_value (m_buffer (m_ab_header h1)) (Some p) None
                                 form_content_type CHR ''='' CHR '';'' False;
                   if form then merge_form h1 else Some h1 } }"

definition split_params :: "http_request \<Rightarrow> http_request option" where
  "split_params h =
     do { (ab, ps) \<leftarrow> parse_string 0 (get_fill_size (m_ab_params h)) (m_params_value h) CHR ''&'' False (m_ab_params h);
          Some (h\<lparr>m_ab_params := ab, m_params_value := ps\<rparr>) }"

definition process_body :: "char memory \<Rightarrow> http_request \<Rightarrow> frame \<Rightarrow> (http_request \<times> frame) option" where
  "process_body mem h f =
     (if m_body_process h = eProcessingFirst \<or> m_body_process h = eProcessingNext then
        do { let chunk = min (f_size f) (m_content_length h);
             (h1, f1) \<leftarrow>
               (if m_content_length h = npos \<or> (f_size f = 0 \<and> m_content_length h = 0) then
                  Some (h\<lparr>m_body_process := eSuccessful, m_content_length := 0\<rparr>, f)
                else if chunk \<noteq> 0 then
                  do { _ \<leftarrow> rd mem (f_ptr f + chunk - 1);
                       body \<leftarrow> append_cells True (take chunk (drop (f_ptr f) mem)) default_granulate (m_ab_body h);
                       let h1 = h\<lparr>m_ab_body := body\<rparr>;
                       let f1 = f\<lparr>f_done := f_done f + chunk\<rparr>;
                       if get_fill_size body \<ge> m_content_length h1
                       then do { h2 \<leftarrow> finish_body h1; Some (h2, f1) }
                       else Some (h1, f1) }
                else Some (h, f));
             if m_body_process h1 = eSuccessful
             then do { h2 \<leftarrow> split_params h1; Some (h2, f1) }
             else Some (h1, f1) }
      else Some (h, f))"

text \<open>
  The switch over the header state falls through from the request line to the header lines.
  \<open>junk\<close> is the content of \<open>chunk_size\<close> before its first assignment.
\<close>

definition process_header :: "char memory \<Rightarrow> http_request \<Rightarrow> frame \<Rightarrow> step_result" where
  "process_header mem h f =
     (let lines = (\<lambda>h f. do { (h1, f1) \<leftarrow> headers_loop mem h f; Some (True, h1, f1) })
      in case m_header_process h of
           eProcessingFirst \<Rightarrow>
             and_then (and_then (and_then (and_then (step_method mem h f) (step_uri mem))
               (step_params mem)) (step_version mem)) lines
         | eProcessingNext \<Rightarrow> lines h f
         | _ \<Rightarrow> Some (True, h, f))"

definition process_data ::
  "nat \<Rightarrow> char memory \<Rightarrow> nat \<Rightarrow> nat \<Rightarrow> http_request \<Rightarrow> (nat \<times> http_request) option" where
  "process_data junk mem buffer buffer_size h =
     do { (go, h1, f1) \<leftarrow> process_header mem h
            \<lparr>f_ptr = buffer, f_size = buffer_size, f_done = 0, f_chunk = junk\<rparr>;
          if go then do { (h2, f2) \<leftarrow> process_body mem h1 f1; Some (f_done f2, h2) }
          else Some (f_done f1, h1) }"

section \<open>\<open>get_multi_part\<close>\<close>

record multi_part =
  part_name :: string
  part_content_type :: string

definition assign_value :: "char memory \<Rightarrow> (nat \<times> nat) option \<Rightarrow> string option" where
  "assign_value mem r = (case r of None \<Rightarrow> Some [] | Some (p, n) \<Rightarrow> read_cells mem p n)"

text \<open>One header line of a part, from \<open>it\<close> over \<open>n\<close> bytes.\<close>

definition part_header :: "char auto_buffer \<Rightarrow> nat \<Rightarrow> nat \<Rightarrow> multi_part \<Rightarrow> multi_part option" where
  "part_header body it n mp =
     do { disposition \<leftarrow> buffer_compare_eq body it ''Content-Disposition'';
          if disposition then
            do { (ok, r) \<leftarrow> find_sub_value (m_buffer body) (Some it) (Some n) ''name'' CHR ''='' CHR '';'' True;
                 if ok then do { s \<leftarrow> assign_value (m_buffer body) r; Some (mp\<lparr>part_name := s\<rparr>) }
                 else Some mp }
          else
            do { ctype \<leftarrow> buffer_compare_eq body it ''Content-Type'';
                 if ctype then
                   do { (ok, r) \<leftarrow> find_sub_value (m_buffer body) (Some it) (Some n)
                                    ''Content-Type'' CHR '':'' CHR '';'' True;
                        if ok then do { s \<leftarrow> assign_value (m_buffer body) r; Some (mp\<lparr>part_content_type := s\<rparr>) }
                        else Some mp }
                 else Some mp } }"

text \<open>
  The loop over the lines of one part. The result is the iterator, the part's names and the
  content range, \<open>None\<close> inside when the function returns false. Without a further line end the
  source takes \<open>fill size - iterator\<close> as the end of the line, which may lie before the iterator:
  the loop need not return.
\<close>

partial_function (option) multi_part_loop ::
  "char auto_buffer \<Rightarrow> string \<Rightarrow> nat \<Rightarrow> multi_part \<Rightarrow>
   (nat \<times> multi_part \<times> (nat \<times> nat) option) option" where
  "multi_part_loop body label it mp =
     (if it < get_fill_size body then
        do { hit \<leftarrow> buffer_find body it [CR, LF];
             let p_end = (case hit of Some e \<Rightarrow> e | None \<Rightarrow> usub (get_fill_size body) it);
             if p_end = it then
               do { let it1 = it + 2;
                    hit2 \<leftarrow> buffer_find body it1 ([CR, LF] @ label);
                    Some (case hit2 of
                            None \<Rightarrow> (it1, mp, None)
                          | Some e \<Rightarrow> (e + 2, mp, Some (it1, e - it1))) }
             else
               do { mp1 \<leftarrow> part_header body it (usub p_end it) mp;
                    multi_part_loop body label (p_end + 2) mp1 } }
      else Some (it, mp, None))"

declare multi_part_loop.simps [code]

definition get_multi_part ::
  "http_request \<Rightarrow> nat \<Rightarrow> multi_part \<Rightarrow> (nat \<times> multi_part \<times> (nat \<times> nat) option) option" where
  "get_multi_part h it mp =
     do { ct \<leftarrow> header_position h ''Content-Type'';
          case ct of
            None \<Rightarrow> Some (it, mp, None)
          | Some p \<Rightarrow>
              do { n \<leftarrow> map_option length (cstr_at (m_buffer (m_ab_header h)) p);
                   (multi, _) \<leftarrow> find_sub_value (m_buffer (m_ab_header h)) (Some p) (Some n)
                                   ''multipart/form-data'' CHR ''='' CHR '';'' False;
                   if \<not> multi then Some (it, mp, None)
                   else do { (ok, r) \<leftarrow> find_sub_value (m_buffer (m_ab_header h)) (Some p) (Some n)
                                          ''boundary'' CHR ''='' CHR '';'' True;
                             if \<not> ok then Some (it, mp, None)
                             else do { b \<leftarrow> assign_value (m_buffer (m_ab_header h)) r;
                                       let label = ''--'' @ b;
                                       here \<leftarrow> buffer_compare_eq (m_ab_body h) it label;
                                       if \<not> here then Some (it, mp, None)
                                       else do { let it1 = it + length label;
                                                 closing \<leftarrow> buffer_compare_eq (m_ab_body h) it1 ''--'';
                                                 if closing then Some (it1, mp, None)
                                                 else do { eol \<leftarrow> buffer_compare_eq (m_ab_body h) it1 [CR, LF];
                                                           if \<not> eol then Some (it1, mp, None)
                                                           else multi_part_loop (m_ab_body h) label (it1 + 2) mp } } } } } }"

end
