(* ===== verification/Http_Request_Props.thy ===== *)
theory Http_Request_Props
  imports Http_Request
begin

text \<open>
  What the request parser does: the specification of its helpers and of \<open>process_data\<close> on
  rendered requests, and the inputs on which it departs from it.
\<close>

section \<open>C strings in a growing buffer\<close>

text \<open>
  \<open>low b\<close>: the cells below the write position. A string that can be read there is still there
  after the buffer has grown.
\<close>

definition low :: "'a auto_buffer \<Rightarrow> 'a memory" where
  "low b = take (m_ready_position b) (m_buffer b)"

definition extends :: "'a auto_buffer \<Rightarrow> 'a auto_buffer \<Rightarrow> bool" where
  "extends b b' \<longleftrightarrow> (\<exists>more. low b' = low b @ more)"

lemma extends_refl [simp]: "extends b b"
  by (auto simp: extends_def)

lemma extends_trans: "extends a b \<Longrightarrow> extends b c \<Longrightarrow> extends a c"
  by (auto simp: extends_def)

lemma length_low: "wf_buffer b \<Longrightarrow> length (low b) = m_ready_position b"
  by (simp add: low_def wf_buffer_def)

lemma low_prefix: "m_buffer b = low b @ drop (m_ready_position b) (m_buffer b)"
  by (simp add: low_def)

lemma cstr_append: "cstr xs = Some s \<Longrightarrow> cstr (xs @ ys) = Some s"
  by (auto simp: cstr_iff)

lemma cstr_at_append: "cstr_at xs p = Some s \<Longrightarrow> cstr_at (xs @ ys) p = Some s"
proof -
  assume a: "cstr_at xs p = Some s"
  then have "p < length xs" by (cases "p < length xs") (auto simp: cstr_at_def)
  with a show ?thesis using cstr_append by (simp add: cstr_at_def)
qed

lemma cstr_at_low: "cstr_at (low b) p = Some s \<Longrightarrow> cstr_at (m_buffer b) p = Some s"
  using cstr_at_append low_prefix by metis

lemma cstr_at_extends: "extends b b' \<Longrightarrow> cstr_at (low b) p = Some s \<Longrightarrow> cstr_at (low b') p = Some s"
  using cstr_at_append by (auto simp: extends_def)

lemma strcasecmp_eq_at:
  assumes "cstr_at mem p = Some s" and "NUL \<notin> set k"
  shows "strcasecmp_eq (c_str k) (drop p mem) = Some (ci_equal k s)"
proof -
  have "c_str k = k" using assms(2) by (auto simp: c_str_def takeWhile_eq_all_conv)
  then show ?thesis using strcasecmp_eq_cstr [of "drop p mem" s k] assms by (simp add: cstr_at_def)
qed

section \<open>\<open>get_chunk\<close>\<close>

lemma rd_here: "drop p mem = map Some xs @ tail \<Longrightarrow> i < length xs \<Longrightarrow> rd mem (p + i) = Some (xs ! i)"
  using rd_map_Some [of i xs tail] by (metis rd_drop)

lemma gc_prefix_spec:
  assumes "drop p mem = map Some xs @ tail" and "length (takeWhile ((=) pre) xs) < length xs"
    and "length xs \<le> n"
  shows "gc_prefix mem p n pre 0 = Some (length (takeWhile ((=) pre) xs))"
proof -
  let ?a = "length (takeWhile ((=) pre) xs)"
  have step: "gc_prefix mem p n pre s = Some ?a" if "s \<le> ?a" for s
    using that
  proof (induction "?a - s" arbitrary: s)
    case 0
    then have s: "s = ?a" by simp
    have "xs ! ?a \<noteq> pre" using nth_length_takeWhile [OF assms(2)] by auto
    then show ?case
      using assms rd_here [OF assms(1), of s]
      by (subst gc_prefix.simps) (auto simp: s)
  next
    case (Suc m)
    then have lt: "s < ?a" by simp
    then have "xs ! s = pre" using nth_mem takeWhile_nth set_takeWhileD by (metis (full_types))
    moreover have "gc_prefix mem p n pre (Suc s) = Some ?a" using Suc lt by simp
    ultimately show ?case
      using assms lt rd_here [OF assms(1), of s]
      by (subst gc_prefix.simps) auto
  qed
  show ?thesis by (rule step) simp
qed

lemma gc_stop_spec:
  assumes "drop p mem = map Some (xs @ [c]) @ tail" and "c \<in> set stops"
    and "length xs < n" and "k \<le> length xs" and "set (drop k xs) \<inter> set stops = {}"
  shows "gc_stop mem p n stops k = Some (Some (length xs))"
  using assms(4,5)
proof (induction "length xs - k" arbitrary: k)
  case 0
  then have "k = length xs" by simp
  then show ?case
    using assms(1-3) rd_here [OF assms(1), of k] by (subst gc_stop.simps) simp
next
  case (Suc m)
  then have lt: "k < length xs" by simp
  then have "drop k xs = xs ! k # drop (Suc k) xs" by (simp add: Cons_nth_drop_Suc)
  then have nin: "xs ! k \<notin> set stops" and "set (drop (Suc k) xs) \<inter> set stops = {}"
    using Suc.prems by auto
  then have "gc_stop mem p n stops (Suc k) = Some (Some (length xs))"
    using Suc lt by simp
  then show ?case
    using assms(3) lt nin rd_here [OF assms(1), of k]
    by (subst gc_stop.simps) (simp add: nth_append)
qed

lemma gc_stop_none:
  assumes "drop p mem = map Some xs @ tail" and "length xs = n" and "set (drop k xs) \<inter> set stops = {}"
  shows "gc_stop mem p n stops k = Some None"
  using assms(3)
proof (induction "n - k" arbitrary: k)
  case 0
  then show ?case by (subst gc_stop.simps) simp
next
  case (Suc m)
  then have lt: "k < length xs" using assms(2) by simp
  then have "drop k xs = xs ! k # drop (Suc k) xs" by (simp add: Cons_nth_drop_Suc)
  then have nin: "xs ! k \<notin> set stops" and "set (drop (Suc k) xs) \<inter> set stops = {}"
    using Suc.prems by auto
  then have "gc_stop mem p n stops (Suc k) = Some None" using Suc lt by simp
  then show ?case
    using lt assms(2) nin rd_here [OF assms(1), of k] by (subst gc_stop.simps) simp
qed

text \<open>A chunk: leading prefix characters, then a word free of stop characters, then a stop.\<close>

definition word_ok :: "char \<Rightarrow> string \<Rightarrow> string \<Rightarrow> char \<Rightarrow> bool" where
  "word_ok pre stops w c \<longleftrightarrow>
     NUL \<notin> set w \<and> set w \<inter> set stops = {} \<and> c \<in> set stops \<and> hd (w @ [c]) \<noteq> pre"

lemma takeWhile_word: "hd (w @ [c]) \<noteq> pre \<Longrightarrow>
    takeWhile ((=) pre) (replicate a pre @ w @ [c]) = replicate a pre"
  by (induction a) (cases w; auto)+

lemma get_chunk_word:
  assumes mem: "drop p mem = map Some (replicate a pre @ w @ [c]) @ tail"
    and w: "word_ok pre stops w c" and n: "a + length w < n" and b: "wf_buffer b"
  shows "\<exists>b'. get_chunk mem p n pre stops b = Some (Some (a + length w + 1, m_ready_position b + a, b'))
     \<and> wf_buffer b' \<and> low b' = low b @ map Some (replicate a pre @ w) @ [Some NUL]"
proof -
  let ?xs = "replicate a pre @ w"
  have tw: "takeWhile ((=) pre) (?xs @ [c]) = replicate a pre"
    using takeWhile_word [of w c pre a] w by (simp add: word_ok_def)
  have mem2: "drop p mem = map Some (?xs @ [c]) @ tail" using mem by simp
  have s: "gc_prefix mem p n pre 0 = Some a"
    using gc_prefix_spec [OF mem2, of pre n] n by (simp only: tw) simp
  have k: "gc_stop mem p n stops a = Some (Some (a + length w))"
    using gc_stop_spec [OF mem2, of stops n a] w n by (simp add: word_ok_def)
  have tk: "take (a + length w + 1) (drop p mem) = map Some (?xs @ [c])"
    using mem2 by simp
  obtain b1 rest where b1: "append_cells True (map Some (?xs @ [c])) default_granulate b = Some b1"
    "wf_buffer b1"
    "m_buffer b1 = take (m_ready_position b) (m_buffer b) @ map Some (?xs @ [c]) @ rest"
    "m_ready_position b1 = m_ready_position b + length (map Some (?xs @ [c]))"
    using append_cells_wf [OF b default_granulate_pos, of "map Some (?xs @ [c])"] by blast
  have lenb: "length (take (m_ready_position b) (m_buffer b)) = m_ready_position b"
    using b by (simp add: wf_buffer_def)
  define b2 where "b2 = b1\<lparr>m_buffer := (m_buffer b1)[m_ready_position b + (a + length w) := Some NUL]\<rparr>"
  have cells: "m_buffer b2 = take (m_ready_position b) (m_buffer b) @ map Some ?xs @ Some NUL # rest"
    using lenb by (simp add: b2_def b1(3) list_update_append)
  have set2: "set_element (m_ready_position b + (a + length w)) NUL b1 = Some b2"
    using lenb by (simp add: set_element_def b2_def b1(3))
  have wf2: "wf_buffer b2" using b1(2) by (simp add: b2_def wf_buffer_def)
  have low2: "low b2 = low b @ map Some ?xs @ [Some NUL]"
    using lenb by (simp add: low_def [of b2] cells) (simp add: b2_def b1(4) low_def)
  have "get_chunk mem p n pre stops b
      = Some (Some (a + length w + 1, m_ready_position b + a, b2))"
    using s k tk b1(1) set2 by (simp add: get_chunk_def get_fill_size_def Let_def)
  then show ?thesis using wf2 low2 by blast
qed

text \<open>Without a stop character in the given bytes nothing is taken.\<close>

lemma get_chunk_missing:
  assumes "drop p mem = map Some xs @ tail" and "length xs = n" and "set xs \<inter> set stops = {}"
  shows "get_chunk mem p n pre stops b = Some None"
proof -
  have "\<exists>s. gc_prefix mem p n pre s0 = Some s" if "s0 \<le> n" for s0
    using that
  proof (induction "n - s0" arbitrary: s0)
    case (Suc m)
    then have "s0 < length xs" using assms(2) by simp
    with Suc assms(2) rd_here [OF assms(1), of s0] show ?case
      by (subst gc_prefix.simps) auto
  qed (subst gc_prefix.simps, simp)
  then obtain s where s: "gc_prefix mem p n pre 0 = Some s" by blast
  have "gc_stop mem p n stops s = Some None"
    using gc_stop_none [OF assms(1,2), of s stops] assms(3) by (meson disjoint_iff set_drop_subset subsetD)
  with s show ?thesis by (simp add: get_chunk_def)
qed

section \<open>\<open>parse_string\<close>\<close>

text \<open>
  The reference: split at the separator; in each segment the key ends at the first \<open>=\<close> and the
  value starts after the last one.
\<close>

fun split_from :: "char \<Rightarrow> string \<Rightarrow> string \<Rightarrow> string list" where
  "split_from sep seg [] = [seg]"
| "split_from sep seg (c # cs) =
     (if c = sep then seg # split_from sep [] cs else split_from sep (seg @ [c]) cs)"

definition after_last_eq :: "string \<Rightarrow> nat" where
  "after_last_eq seg = length seg - length (takeWhile (\<lambda>c. c \<noteq> CHR ''='') (rev seg))"

definition lead :: "bool \<Rightarrow> string \<Rightarrow> nat" where
  "lead trim seg = (if trim then length (takeWhile ((=) CHR '' '') seg) else 0)"

definition pair_of :: "bool \<Rightarrow> string \<Rightarrow> string \<times> string option" where
  "pair_of trim seg =
     (takeWhile (\<lambda>c. c \<noteq> CHR ''='') (drop (lead trim seg) seg),
      if CHR ''='' \<in> set seg then Some (drop (after_last_eq seg) seg) else None)"

definition pairs_of :: "char \<Rightarrow> bool \<Rightarrow> string \<Rightarrow> (string \<times> string option) list" where
  "pairs_of sep trim s = map (pair_of trim) (split_from sep [] s)"

text \<open>The cells after the split: separators and \<open>=\<close> are terminators.\<close>

definition zap :: "char \<Rightarrow> string \<Rightarrow> string" where
  "zap sep s = map (\<lambda>c. if c = sep \<or> c = CHR ''='' then NUL else c) s"

definition seg_value :: "nat \<Rightarrow> string \<Rightarrow> nat option" where
  "seg_value k seg = (if CHR ''='' \<in> set seg then Some (k + after_last_eq seg) else None)"

fun seg_positions :: "nat \<Rightarrow> bool \<Rightarrow> nat \<Rightarrow> string list \<Rightarrow> list_pairs" where
  "seg_positions base trim k [] = []"
| "seg_positions base trim k (seg # segs) =
     (base + (k + lead trim seg), map_option ((+) base) (seg_value k seg))
       # seg_positions base trim (k + length seg + 1) segs"

lemma zap_append [simp]: "zap sep (xs @ ys) = zap sep xs @ zap sep ys"
  by (simp add: zap_def)

lemma length_zap [simp]: "length (zap sep xs) = length xs"
  by (simp add: zap_def)

lemma zap_clean: "sep \<notin> set xs \<Longrightarrow> CHR ''='' \<notin> set xs \<Longrightarrow> zap sep xs = xs"
  by (auto simp: zap_def intro: map_idI)

lemma zap_Cons: "zap sep (c # cs) = (if c = sep \<or> c = CHR ''='' then NUL else c) # zap sep cs"
  by (simp add: zap_def)

lemma zap_Nil [simp]: "zap sep [] = []"
  by (simp add: zap_def)

lemma after_last_eq_snoc:
  "after_last_eq (seg @ [c]) = (if c = CHR ''='' then length seg + 1 else after_last_eq seg)"
  using length_takeWhile_le [of "\<lambda>c. c \<noteq> CHR ''=''" "rev seg"]
  by (auto simp: after_last_eq_def)

lemma seg_value_snoc:
  "seg_value k (seg @ [c]) = (if c = CHR ''='' then Some (k + length seg + 1) else seg_value k seg)"
  by (simp add: seg_value_def after_last_eq_snoc)

lemma skip_spaces_zap:
  "sep \<noteq> CHR '' '' \<Longrightarrow> skip_spaces_list (map Some (zap sep seg) @ Some NUL # R)
     = Some (length (takeWhile ((=) CHR '' '') seg))"
  by (induction seg) (auto simp: zap_Cons NUL_def)

lemma trim_key_zap:
  assumes "drop (base + k) cells = map Some (zap sep seg) @ Some NUL # R" and "sep \<noteq> CHR '' ''"
  shows "trim_key cells base trim k = Some (k + lead trim seg)"
  using assms skip_spaces_zap [OF assms(2), of seg R]
  by (simp add: trim_key_def skip_spaces_def lead_def)

lemma parse_string_loop_spec:
  assumes sep: "sep \<noteq> NUL" "sep \<noteq> CHR ''=''" "sep \<noteq> CHR '' ''"
  shows "NUL \<notin> set suf \<Longrightarrow> length (pre @ seg @ suf) < n \<Longrightarrow>
     parse_string_loop (length A) n sep trim (length pre) (seg_value (length pre) seg)
       (length pre + length seg)
       (A @ map Some (zap sep pre @ zap sep seg @ suf) @ Some NUL # R) target
     = Some (A @ map Some (zap sep (pre @ seg @ suf)) @ Some NUL # R,
             target @ seg_positions (length A) trim (length pre) (split_from sep seg suf))"
proof (induction suf arbitrary: pre seg target)
  case Nil
  let ?cells = "A @ map Some (zap sep pre @ zap sep seg @ []) @ Some NUL # R"
  have "drop (length A + length pre) ?cells = map Some (zap sep seg) @ Some NUL # R" by simp
  from trim_key_zap [OF this sep(3)] Nil show ?case
    by (subst parse_string_loop.simps) (simp add: rd_def nth_append)
next
  case (Cons c suf)
  let ?cells = "A @ map Some (zap sep pre @ zap sep seg @ c # suf) @ Some NUL # R"
  have rd: "rd ?cells (length A + (length pre + length seg)) = Some c"
    by (simp add: rd_def nth_append)
  have c: "c \<noteq> NUL" and t: "length pre + length seg < n" using Cons.prems by auto
  have upd: "?cells[length A + (length pre + length seg) := Some NUL]
      = A @ map Some (zap sep pre @ zap sep seg @ NUL # suf) @ Some NUL # R"
    by (simp add: list_update_append)
  show ?case
  proof (cases "c = sep")
    case True
    have "drop (length A + length pre) (A @ map Some (zap sep pre @ zap sep seg @ NUL # suf) @ Some NUL # R)
       = map Some (zap sep seg) @ Some NUL # map Some suf @ Some NUL # R" by simp
    note tk = trim_key_zap [OF this sep(3)]
    have IH: "parse_string_loop (length A) n sep trim (length pre + length seg + 1) None
         (length pre + length seg + 1)
         (A @ map Some (zap sep pre @ zap sep seg @ NUL # suf) @ Some NUL # R) tg
       = Some (A @ map Some (zap sep (pre @ seg @ c # suf)) @ Some NUL # R,
             tg @ seg_positions (length A) trim (length pre + length seg + 1) (split_from sep [] suf))" for tg
      using Cons.IH [of "pre @ seg @ [c]" "[]" tg] Cons.prems True
      by (simp add: seg_value_def zap_Cons)
    show ?thesis
      using c t True rd upd tk IH
      by (subst parse_string_loop.simps) (simp add: Let_def)
  next
    case False
    have IH: "parse_string_loop (length A) n sep trim (length pre) (seg_value (length pre) (seg @ [c]))
         (Suc (length pre + length seg))
         (A @ map Some (zap sep pre @ zap sep (seg @ [c]) @ suf) @ Some NUL # R) target
       = Some (A @ map Some (zap sep (pre @ seg @ c # suf)) @ Some NUL # R,
             target @ seg_positions (length A) trim (length pre) (split_from sep (seg @ [c]) suf))"
      using Cons.IH [of pre "seg @ [c]" target] Cons.prems by simp
    show ?thesis
    proof (cases "c = CHR ''=''")
      case True
      then show ?thesis
        using c t False rd upd IH
        by (subst parse_string_loop.simps) (simp add: Let_def seg_value_snoc zap_Cons)
    next
      case neq: False
      then show ?thesis
        using c t False rd IH
        by (subst parse_string_loop.simps) (simp add: Let_def seg_value_snoc zap_Cons)
    qed
  qed
qed

text \<open>Reading the recorded positions back gives the reference pairs.\<close>

definition read_pair :: "char memory \<Rightarrow> nat \<times> nat option \<Rightarrow> string option \<times> string option option" where
  "read_pair cells kv = (cstr_at cells (fst kv), map_option (cstr_at cells) (snd kv))"

definition pair_view :: "string \<times> string option \<Rightarrow> string option \<times> string option option" where
  "pair_view kv = (Some (fst kv), map_option Some (snd kv))"

lemma cstr_zap_prefix:
  "NUL \<notin> set xs \<Longrightarrow> sep \<notin> set xs \<Longrightarrow>
     cstr (map Some (zap sep xs) @ Some NUL # R) = Some (takeWhile (\<lambda>c. c \<noteq> CHR ''='') xs)"
  by (induction xs) (auto simp: zap_Cons)

lemma after_last_eq_clean: "CHR ''='' \<notin> set (drop (after_last_eq seg) seg)"
proof -
  let ?w = "takeWhile (\<lambda>c. c \<noteq> CHR ''='') (rev seg)"
  have "drop (length seg - length ?w) seg = rev (take (length ?w) (rev seg))"
    by (simp add: drop_rev take_rev)
  also have "take (length ?w) (rev seg) = ?w"
    by (metis takeWhile_eq_take)
  finally have "drop (after_last_eq seg) seg = rev ?w" by (simp add: after_last_eq_def)
  then show ?thesis by (auto dest: set_takeWhileD)
qed

lemma after_last_eq_le: "after_last_eq seg \<le> length seg"
  by (simp add: after_last_eq_def)

lemma lead_le: "lead trim seg \<le> length seg"
  by (simp add: lead_def length_takeWhile_le)

lemma drop_zap: "drop n (zap sep xs) = zap sep (drop n xs)"
  by (simp add: zap_def drop_map)

lemma read_seg:
  assumes cells: "drop (base + k) cells = map Some (zap sep seg) @ Some NUL # R"
    and seg: "NUL \<notin> set seg" "sep \<notin> set seg"
  shows "read_pair cells (base + (k + lead trim seg), map_option ((+) base) (seg_value k seg))
     = pair_view (pair_of trim seg)"
proof -
  have at: "cstr_at cells (base + (k + d)) = cstr (map Some (zap sep (drop d seg)) @ Some NUL # R)"
    if "d \<le> length seg" for d
  proof -
    have "drop (base + (k + d)) cells = drop d (drop (base + k) cells)"
      by (simp add: add.commute add.left_commute)
    also have "\<dots> = map Some (zap sep (drop d seg)) @ Some NUL # R"
      using that by (simp add: cells drop_map drop_zap)
    finally show ?thesis by (simp add: cstr_at_def)
  qed
  have clean: "NUL \<notin> set (drop d seg)" "sep \<notin> set (drop d seg)" for d
    using seg by (meson in_set_dropD)+
  have key: "cstr_at cells (base + (k + lead trim seg))
      = Some (takeWhile (\<lambda>c. c \<noteq> CHR ''='') (drop (lead trim seg) seg))"
    using at [OF lead_le] cstr_zap_prefix [OF clean] by simp
  have val: "cstr_at cells (base + (k + after_last_eq seg)) = Some (drop (after_last_eq seg) seg)"
  proof -
    have "takeWhile (\<lambda>c. c \<noteq> CHR ''='') (drop (after_last_eq seg) seg) = drop (after_last_eq seg) seg"
      unfolding takeWhile_eq_all_conv using after_last_eq_clean [of seg] by auto
    then show ?thesis using at [OF after_last_eq_le] cstr_zap_prefix [OF clean] by simp
  qed
  show ?thesis
    using key val by (simp add: read_pair_def pair_view_def pair_of_def seg_value_def)
qed

lemma read_seg_positions:
  assumes "sep \<noteq> NUL"
  shows "NUL \<notin> set (seg @ suf) \<Longrightarrow> sep \<notin> set seg \<Longrightarrow>
     drop (base + k) cells = map Some (zap sep (seg @ suf)) @ Some NUL # R \<Longrightarrow>
     map (read_pair cells) (seg_positions base trim k (split_from sep seg suf))
       = map (pair_view \<circ> pair_of trim) (split_from sep seg suf)"
proof (induction suf arbitrary: seg k)
  case Nil
  then show ?case using read_seg [of base k cells sep seg R trim] by simp
next
  case (Cons c suf)
  show ?case
  proof (cases "c = sep")
    case True
    have here: "drop (base + k) cells = map Some (zap sep seg) @ Some NUL # map Some (zap sep suf) @ Some NUL # R"
      using Cons.prems(3) True by (simp add: zap_Cons)
    have "drop (base + (k + length seg + 1)) cells = drop (length seg + 1) (drop (base + k) cells)"
      by (simp add: add.commute add.left_commute)
    also have "\<dots> = map Some (zap sep ([] @ suf)) @ Some NUL # R"
      unfolding here by simp
    finally have "map (read_pair cells) (seg_positions base trim (k + length seg + 1) (split_from sep [] suf))
       = map (pair_view \<circ> pair_of trim) (split_from sep [] suf)"
      using Cons.IH [of "[]" "k + length seg + 1"] Cons.prems by simp
    with read_seg [OF here, of trim] Cons.prems True show ?thesis by simp
  next
    case False
    then show ?thesis
      using Cons.IH [of "seg @ [c]" k] Cons.prems by simp
  qed
qed

lemma parse_string_spec:
  assumes sep: "sep \<noteq> NUL" "sep \<noteq> CHR ''=''" "sep \<noteq> CHR '' ''"
    and cells: "m_buffer b = A @ map Some s @ Some NUL # R" and s: "NUL \<notin> set s" and n: "length s < n"
  shows "\<exists>ps. parse_string (length A) n target sep trim b
       = Some (b\<lparr>m_buffer := A @ map Some (zap sep s) @ Some NUL # R\<rparr>, target @ ps)
     \<and> (\<forall>R'. map (read_pair (A @ map Some (zap sep s) @ Some NUL # R')) ps = map pair_view (pairs_of sep trim s))"
proof -
  have "parse_string_loop (length A) n sep trim 0 None 0 (m_buffer b) target
     = Some (A @ map Some (zap sep s) @ Some NUL # R,
             target @ seg_positions (length A) trim 0 (split_from sep [] s))"
    using parse_string_loop_spec [OF sep, of s "[]" "[]" n A trim R target] s n cells
    by (simp add: seg_value_def)
  moreover have "map (read_pair (A @ map Some (zap sep s) @ Some NUL # R'))
       (seg_positions (length A) trim 0 (split_from sep [] s))
     = map (pair_view \<circ> pair_of trim) (split_from sep [] s)" for R'
    using read_seg_positions [OF sep(1), of "[]" s "length A" 0 _ R' trim] s by simp
  ultimately show ?thesis by (simp add: parse_string_def pairs_of_def)
qed

section \<open>Lookups\<close>

text \<open>The reference: the value of the first key that matches without regard to case.\<close>

fun lookup_ci :: "string \<Rightarrow> (string \<times> 'v) list \<Rightarrow> 'v option" where
  "lookup_ci key [] = None"
| "lookup_ci key ((k, v) # kvs) = (if ci_equal key k then Some v else lookup_ci key kvs)"

definition views :: "char memory \<Rightarrow> list_pairs \<Rightarrow> (string \<times> string option) list \<Rightarrow> bool" where
  "views cells ps kvs \<longleftrightarrow> map (read_pair cells) ps = map pair_view kvs"

lemma views_Nil [simp]: "views cells [] kvs \<longleftrightarrow> kvs = []" "views cells ps [] \<longleftrightarrow> ps = []"
  by (auto simp: views_def)

lemma views_Cons [simp]: "views cells (p # ps) (kv # kvs)
    \<longleftrightarrow> read_pair cells p = pair_view kv \<and> views cells ps kvs"
  by (auto simp: views_def)

lemma views_append:
  "views cells ps kvs \<Longrightarrow> views cells qs kvs' \<Longrightarrow> views cells (ps @ qs) (kvs @ kvs')"
  by (simp add: views_def)

lemma read_pair_view_iff:
  "read_pair cells (p, q) = pair_view (k, v) \<longleftrightarrow>
     cstr_at cells p = Some k \<and>
     (case v of None \<Rightarrow> q = None | Some s \<Rightarrow> \<exists>r. q = Some r \<and> cstr_at cells r = Some s)"
  by (cases v; cases q) (auto simp: read_pair_def pair_view_def)

lemma views_append_cells: "views cells ps kvs \<Longrightarrow> views (cells @ ys) ps kvs"
proof (induction ps arbitrary: kvs)
  case (Cons p ps)
  then obtain kv kvs' where kvs: "kvs = kv # kvs'" by (cases kvs) (auto simp: views_def)
  from Cons kvs show ?case
    by (cases p; cases kv)
       (auto simp: read_pair_view_iff intro: cstr_at_append split: option.splits)
qed auto

lemma views_extends: "extends b b' \<Longrightarrow> views (low b) ps kvs \<Longrightarrow> views (low b') ps kvs"
  by (auto simp: extends_def views_append_cells)

lemma views_low: "views (low b) ps kvs \<Longrightarrow> views (m_buffer b) ps kvs"
  using views_append_cells low_prefix by metis

lemma find_pair_views:
  assumes "NUL \<notin> set key"
  shows "views cells ps kvs \<Longrightarrow>
    (case lookup_ci key kvs of
       None \<Rightarrow> find_pair key cells ps = Some None
     | Some None \<Rightarrow> find_pair key cells ps = Some (Some None)
     | Some (Some s) \<Rightarrow> \<exists>q. find_pair key cells ps = Some (Some (Some q)) \<and> cstr_at cells q = Some s)"
proof (induction ps arbitrary: kvs)
  case (Cons p ps)
  then obtain k v kvs' where kvs: "kvs = (k, v) # kvs'" by (cases kvs) (auto simp: views_def)
  obtain pk pv where p: "p = (pk, pv)" by (cases p)
  have rp: "read_pair cells (pk, pv) = pair_view (k, v)" and vs: "views cells ps kvs'"
    using Cons.prems kvs p by auto
  have eq: "strcasecmp_eq (c_str key) (drop pk cells) = Some (ci_equal key k)"
    using strcasecmp_eq_at [of cells pk k key] rp assms by (simp add: read_pair_view_iff)
  show ?case
  proof (cases "ci_equal key k")
    case True
    with eq rp show ?thesis by (cases v) (auto simp: kvs p read_pair_view_iff)
  next
    case False
    with eq have fp: "find_pair key cells ((pk, pv) # ps) = find_pair key cells ps"
      and l: "lookup_ci key kvs = lookup_ci key kvs'" by (simp_all add: kvs)
    show ?thesis unfolding p fp l by (rule Cons.IH [OF vs])
  qed
qed simp

definition lookup_or :: "string \<Rightarrow> (string \<times> string option) list \<Rightarrow> string option \<Rightarrow> string option" where
  "lookup_or key kvs dflt = (case lookup_ci key kvs of Some (Some s) \<Rightarrow> Some s | _ \<Rightarrow> dflt)"

lemma get_parameter_views:
  "NUL \<notin> set key \<Longrightarrow> views (m_buffer (m_ab_params h)) (m_params_value h) kvs \<Longrightarrow>
     get_parameter h key dflt = Some (lookup_or key kvs dflt)"
  using find_pair_views [of key "m_buffer (m_ab_params h)" "m_params_value h" kvs]
  by (auto simp: get_parameter_def lookup_or_def value_or_default_def string_at_def
      split: option.splits)

lemma get_cookie_views:
  "NUL \<notin> set key \<Longrightarrow> views (m_buffer (m_ab_header h)) (m_cookies h) kvs \<Longrightarrow>
     get_cookie h key dflt = Some (lookup_or key kvs dflt)"
  using find_pair_views [of key "m_buffer (m_ab_header h)" "m_cookies h" kvs]
  by (auto simp: get_cookie_def lookup_or_def value_or_default_def string_at_def
      split: option.splits)

definition header_pairs :: "(string \<times> string) list \<Rightarrow> (string \<times> string option) list" where
  "header_pairs hs = map (\<lambda>(k, v). (k, Some v)) hs"

lemma lookup_ci_header_pairs: "lookup_ci key (header_pairs hs) = map_option Some (lookup_ci key hs)"
  by (induction hs) (auto simp: header_pairs_def)

lemma get_header_parameter_views:
  "NUL \<notin> set key \<Longrightarrow> views (m_buffer (m_ab_header h)) (m_header_values h) (header_pairs hs) \<Longrightarrow>
     get_header_parameter h key dflt = Some (case lookup_ci key hs of None \<Rightarrow> dflt | Some v \<Rightarrow> Some v)"
  using find_pair_views [of key "m_buffer (m_ab_header h)" "m_header_values h" "header_pairs hs"]
  by (auto simp: get_header_parameter_def string_at_def lookup_ci_header_pairs split: option.splits)

lemma header_position_views:
  "NUL \<notin> set key \<Longrightarrow> views (m_buffer (m_ab_header h)) (m_header_values h) (header_pairs hs) \<Longrightarrow>
     (case lookup_ci key hs of
        None \<Rightarrow> header_position h key = Some None
      | Some v \<Rightarrow> \<exists>q. header_position h key = Some (Some q) \<and> cstr_at (m_buffer (m_ab_header h)) q = Some v)"
  using find_pair_views [of key "m_buffer (m_ab_header h)" "m_header_values h" "header_pairs hs"]
  by (auto simp: header_position_def lookup_ci_header_pairs split: option.splits)

section \<open>Header lines\<close>

text \<open>A header line on the wire: the key, a colon, spaces, the value, CR LF.\<close>

type_synonym wire_header = "string \<times> nat \<times> string"

definition render_header :: "wire_header \<Rightarrow> string" where
  "render_header w = (case w of (k, a, v) \<Rightarrow> k @ '':'' @ replicate a CHR '' '' @ v @ [CR, LF])"

definition header_ok :: "wire_header \<Rightarrow> bool" where
  "header_ok w = (case w of (k, a, v) \<Rightarrow>
     word_ok CHR '' '' '':'' k CHR '':'' \<and> (k = [] \<or> hd k \<noteq> CR) \<and> word_ok CHR '' '' [CR, LF] v CR \<and>
     (k = ''Content-Length'' \<longrightarrow> atoi v \<noteq> None))"

text \<open>
  What the parser keeps of a line: \<open>parse_string\<close> cuts a cookie value at its first \<open>;\<close> or
  \<open>=\<close>; the first \<open>Content-Length\<close> that is not \<open>npos\<close> counts.
\<close>

definition seen_header :: "wire_header \<Rightarrow> string \<times> string" where
  "seen_header w = (case w of (k, a, v) \<Rightarrow>
     (k, if k = ''Cookie'' then takeWhile (\<lambda>c. c \<noteq> CHR '';'' \<and> c \<noteq> CHR ''='') v else v))"

definition seen_cookies :: "wire_header \<Rightarrow> (string \<times> string option) list" where
  "seen_cookies w = (case w of (k, a, v) \<Rightarrow> if k = ''Cookie'' then pairs_of CHR '';'' True v else [])"

definition seen_length :: "nat \<Rightarrow> wire_header \<Rightarrow> nat" where
  "seen_length len w = (case w of (k, a, v) \<Rightarrow>
     if len = npos \<and> k = ''Content-Length'' then size_of_int (the (atoi v)) else len)"

text \<open>The header part of the state stores the lines seen so far.\<close>

definition headers_in :: "http_request \<Rightarrow> wire_header list \<Rightarrow> bool" where
  "headers_in h ws \<longleftrightarrow>
     wf_buffer (m_ab_header h) \<and>
     views (low (m_ab_header h)) (m_header_values h) (header_pairs (map seen_header ws)) \<and>
     views (low (m_ab_header h)) (m_cookies h) (concat (map seen_cookies ws)) \<and>
     m_content_length h = foldl seen_length npos ws"

text \<open>What a header line leaves alone.\<close>

definition same_request_line :: "http_request \<Rightarrow> http_request \<Rightarrow> bool" where
  "same_request_line h h' \<longleftrightarrow>
     extends (m_ab_header h) (m_ab_header h') \<and>
     m_query_method h' = m_query_method h \<and> m_query_uri h' = m_query_uri h \<and>
     m_query_version h' = m_query_version h \<and> m_ab_params h' = m_ab_params h \<and>
     m_ab_body h' = m_ab_body h \<and> m_params_value h' = m_params_value h \<and>
     m_header_process h' = m_header_process h \<and> m_body_process h' = m_body_process h"

lemma same_request_line_refl [simp]: "same_request_line h h"
  by (simp add: same_request_line_def)

lemma same_request_line_trans:
  "same_request_line a b \<Longrightarrow> same_request_line b c \<Longrightarrow> same_request_line a c"
  by (auto simp: same_request_line_def intro: extends_trans)

lemma cstr_zap:
  "NUL \<notin> set s \<Longrightarrow>
     cstr (map Some (zap sep s) @ Some NUL # R) = Some (takeWhile (\<lambda>c. c \<noteq> sep \<and> c \<noteq> CHR ''='') s)"
  by (induction s) (auto simp: zap_Cons)

lemma record_header_spec:
  assumes h: "headers_in h ws" and w: "header_ok (k, a, v)"
    and key: "cstr_at (low (m_ab_header h)) kr = Some k"
    and ab: "wf_buffer ab" "low ab = low (m_ab_header h) @ map Some (replicate a CHR '' '' @ v) @ [Some NUL]"
    and vr: "vr = m_ready_position (m_ab_header h) + a"
  shows "\<exists>h'. record_header kr vr (a + length v + 1) (h\<lparr>m_ab_header := ab\<rparr>) = Some h'
     \<and> headers_in h' (ws @ [(k, a, v)]) \<and> same_request_line h h'"
proof -
  let ?A = "low (m_ab_header h) @ map Some (replicate a CHR '' '')"
  have lenA: "length ?A = vr" using h vr by (simp add: headers_in_def length_low)
  have v: "NUL \<notin> set v" using w by (simp add: header_ok_def word_ok_def)
  have lowab: "low ab = ?A @ map Some v @ [Some NUL]" using ab(2) by simp
  define R where "R = drop (m_ready_position ab) (m_buffer ab)"
  have cells: "m_buffer ab = ?A @ map Some v @ Some NUL # R"
    using low_prefix [of ab] lowab by (simp add: R_def)
  have key_ab: "cstr_at (m_buffer ab) kr = Some k"
    using key cells cstr_at_append by (metis append_assoc)
  have ext: "extends (m_ab_header h) ab" using ab(2) by (auto simp: extends_def)
  have val_at: "cstr_at (?A @ xs) vr = cstr xs" for xs
    using lenA by (simp add: cstr_at_def)
  have val_low: "cstr_at (low ab) vr = Some v"
    unfolding lowab val_at using v by (rule cstr_terminated)
  have val_ab: "cstr_at (m_buffer ab) vr = Some v"
    unfolding cells val_at using v by (rule cstr_terminated)
  have old_v: "views (low (m_ab_header h)) (m_header_values h) (header_pairs (map seen_header ws))"
    and old_c: "views (low (m_ab_header h)) (m_cookies h) (concat (map seen_cookies ws))"
    and old_l: "m_content_length h = foldl seen_length npos ws"
    using h by (simp_all add: headers_in_def)
  have new_v: "views (low b) (m_header_values h @ [(kr, Some vr)])
      (header_pairs (map seen_header ws @ [(k, s)]))"
    if "extends (m_ab_header h) b" "cstr_at (low b) vr = Some s" for b s
    using views_extends [OF that(1) old_v] that(2) cstr_at_extends [OF that(1) key]
    by (auto simp: header_pairs_def read_pair_view_iff intro: views_append)
  show ?thesis
  proof (cases "k = ''Cookie''")
    case False
    define h' where "h' = h\<lparr>m_ab_header := ab, m_header_values := m_header_values h @ [(kr, Some vr)],
        m_content_length := seen_length (m_content_length h) (k, a, v)\<rparr>"
    have "record_header kr vr (a + length v + 1) (h\<lparr>m_ab_header := ab\<rparr>) = Some h'"
      using False key_ab val_ab w
      by (auto simp: record_header_def Let_def h'_def seen_length_def header_ok_def)
    moreover have "headers_in h' (ws @ [(k, a, v)])"
      using False ab(1) new_v [OF ext val_low] views_extends [OF ext old_c] old_l
      by (simp add: headers_in_def h'_def seen_header_def seen_cookies_def)
    moreover have "same_request_line h h'" using ext by (simp add: same_request_line_def h'_def)
    ultimately show ?thesis by blast
  next
    case True
    have "\<exists>ps. parse_string (length ?A) (a + length v + 1) (m_cookies h) CHR '';'' True ab
       = Some (ab\<lparr>m_buffer := ?A @ map Some (zap CHR '';'' v) @ Some NUL # R\<rparr>, m_cookies h @ ps)
       \<and> (\<forall>R'. map (read_pair (?A @ map Some (zap CHR '';'' v) @ Some NUL # R')) ps
              = map pair_view (pairs_of CHR '';'' True v))"
      by (rule parse_string_spec [OF _ _ _ cells v]) (simp_all add: NUL_def)
    then obtain ps where ps: "parse_string vr (a + length v + 1) (m_cookies h) CHR '';'' True ab
       = Some (ab\<lparr>m_buffer := ?A @ map Some (zap CHR '';'' v) @ Some NUL # R\<rparr>, m_cookies h @ ps)"
      and rd: "\<And>R'. views (?A @ map Some (zap CHR '';'' v) @ Some NUL # R') ps (pairs_of CHR '';'' True v)"
      unfolding lenA views_def by blast
    define b where "b = ab\<lparr>m_buffer := ?A @ map Some (zap CHR '';'' v) @ Some NUL # R\<rparr>"
    define h' where "h' = h\<lparr>m_ab_header := b, m_header_values := m_header_values h @ [(kr, Some vr)],
        m_cookies := m_cookies h @ ps\<rparr>"
    have "m_ready_position ab = length (?A @ map Some v @ [Some NUL])"
      using length_low [OF ab(1)] lowab by simp
    moreover have "low b = take (m_ready_position ab) (?A @ map Some (zap CHR '';'' v) @ Some NUL # R)"
      by (simp add: low_def b_def)
    ultimately have lowb: "low b = ?A @ map Some (zap CHR '';'' v) @ Some NUL # []" by simp
    have wfb: "wf_buffer b" using ab(1) cells by (simp add: wf_buffer_def b_def)
    have extb: "extends (m_ab_header h) b" by (auto simp: extends_def lowb)
    have valb: "cstr_at (low b) vr = Some (takeWhile (\<lambda>c. c \<noteq> CHR '';'' \<and> c \<noteq> CHR ''='') v)"
      unfolding lowb val_at using v by (rule cstr_zap)
    have "record_header kr vr (a + length v + 1) (h\<lparr>m_ab_header := ab\<rparr>) = Some h'"
      using True key_ab ps by (simp add: record_header_def Let_def h'_def b_def)
    moreover have "headers_in h' (ws @ [(k, a, v)])"
      using True wfb new_v [OF extb valb] views_extends [OF extb old_c] old_l rd [of "[]"]
      by (auto simp: headers_in_def h'_def seen_header_def seen_cookies_def seen_length_def lowb
          intro: views_append)
    moreover have "same_request_line h h'" using extb by (simp add: same_request_line_def h'_def)
    ultimately show ?thesis by blast
  qed
qed

lemma header_line_spec:
  assumes h: "headers_in h ws" and w: "header_ok w"
    and mem: "drop (f_ptr f) mem = map Some (render_header w) @ tail"
    and n: "length (render_header w) \<le> f_size f"
  shows "\<exists>h' c. header_line mem h f = Some (True, h',
       \<lparr>f_ptr = f_ptr f + length (render_header w), f_size = f_size f - length (render_header w),
        f_done = f_done f + length (render_header w), f_chunk = c\<rparr>)
     \<and> headers_in h' (ws @ [w]) \<and> same_request_line h h'"
proof -
  obtain k a v where kav: "w = (k, a, v)" by (cases w)
  have wk: "word_ok CHR '' '' '':'' k CHR '':''" and wv: "word_ok CHR '' '' [CR, LF] v CR"
    using w by (simp_all add: kav header_ok_def)
  have len: "length (render_header w) = length k + 1 + a + length v + 2"
    by (simp add: kav render_header_def)
  have wf: "wf_buffer (m_ab_header h)" using h by (simp add: headers_in_def)
  have mem_k: "drop (f_ptr f) mem = map Some (replicate 0 CHR '' '' @ k @ [CHR '':''])
      @ map Some (replicate a CHR '' '' @ v @ [CR, LF]) @ tail"
    using mem by (simp add: kav render_header_def)
  have "0 + length k < f_size f" using n len by simp
  from get_chunk_word [OF mem_k wk this wf] obtain ab where
    ck: "get_chunk mem (f_ptr f) (f_size f) CHR '' '' '':'' (m_ab_header h)
        = Some (Some (length k + 1, m_ready_position (m_ab_header h), ab))"
    and wf1: "wf_buffer ab" and low1: "low ab = low (m_ab_header h) @ map Some k @ [Some NUL]"
    by auto
  have mem_v: "drop (f_ptr f + (length k + 1)) mem
      = map Some (replicate a CHR '' '' @ v @ [CR]) @ Some LF # tail"
  proof -
    have "drop (f_ptr f + (length k + 1)) mem = drop (length k + 1) (drop (f_ptr f) mem)"
      by (simp add: add.commute)
    then show ?thesis by (simp add: mem_k)
  qed
  have nv: "a + length v < f_size f - (length k + 1)" using n len by simp
  from get_chunk_word [OF mem_v wv nv wf1] obtain ab2 where
    cv: "get_chunk mem (f_ptr f + (length k + 1)) (f_size f - (length k + 1)) CHR '' '' [CR, LF] ab
        = Some (Some (a + length v + 1, m_ready_position ab + a, ab2))"
    and wf2: "wf_buffer ab2"
    and low2: "low ab2 = low ab @ map Some (replicate a CHR '' '' @ v) @ [Some NUL]"
    by auto
  let ?p = "f_ptr f + (length k + 1) + (a + length v + 1)"
  have lf: "rd mem ?p = Some LF"
    using mem_v rd_drop [of "f_ptr f + (length k + 1)" mem "a + length v + 1"]
    by (simp add: rd_def nth_append)
  have h1: "headers_in (h\<lparr>m_ab_header := ab\<rparr>) ws" and ext1: "extends (m_ab_header h) ab"
    using h wf1 low1 by (auto simp: headers_in_def extends_def intro: views_append_cells)
  have key: "cstr_at (low (m_ab_header (h\<lparr>m_ab_header := ab\<rparr>))) (m_ready_position (m_ab_header h)) = Some k"
    using low1 wk length_low [OF wf] cstr_at_terminated [of k "low (m_ab_header h)" "[]"]
    by (simp add: word_ok_def)
  from record_header_spec [OF h1 w [unfolded kav] key wf2 _ refl] low2 obtain h' where
    rec: "record_header (m_ready_position (m_ab_header h)) (m_ready_position ab + a) (a + length v + 1)
        (h\<lparr>m_ab_header := ab2\<rparr>) = Some h'"
    and hin: "headers_in h' (ws @ [(k, a, v)])"
    and same: "same_request_line (h\<lparr>m_ab_header := ab\<rparr>) h'"
    by auto
  have "same_request_line h (h\<lparr>m_ab_header := ab\<rparr>)" using ext1 by (simp add: same_request_line_def)
  then have same': "same_request_line h h'" using same by (rule same_request_line_trans)
  have sizes: "usub (f_size f) (length k + 1) = f_size f - (length k + 1)"
    "usub (f_size f - (length k + 1)) (a + length v + 1) = f_size f - (length k + 1) - (a + length v + 1)"
    "usub (f_size f - (length k + 1) - (a + length v + 1)) 1 = f_size f - length (render_header w)"
    "0 < f_size f - (length k + 1) - (a + length v + 1)"
    using n len by auto
  have "header_line mem h f = Some (True, h',
       \<lparr>f_ptr = f_ptr f + length (render_header w), f_size = f_size f - length (render_header w),
        f_done = f_done f + length (render_header w), f_chunk = length k + 2\<rparr>)"
    using ck cv rec lf sizes len
    by (simp add: header_line_def advance_def skip_line_end_def Let_def add_ac)
  then show ?thesis using hin same' kav by blast
qed


text \<open>The whole header part: the lines, then the blank line.\<close>

definition render_headers :: "wire_header list \<Rightarrow> string" where
  "render_headers ws = concat (map render_header ws) @ [CR, LF]"

lemma render_headers_simps:
  "render_headers [] = [CR, LF]"
  "render_headers (w # ws) = render_header w @ render_headers ws"
  by (simp_all add: render_headers_def)

lemma render_header_front:
  assumes "header_ok w"
  shows "\<exists>c cs. render_header w = c # cs \<and> c \<noteq> CR \<and> 2 \<le> length (render_header w)"
proof -
  obtain k a v where w: "w = (k, a, v)" by (cases w)
  show ?thesis using assms by (cases k) (auto simp: w render_header_def header_ok_def)
qed

lemma headers_loop_spec:
  "headers_in h ws0 \<Longrightarrow> list_all header_ok ws \<Longrightarrow>
   drop (f_ptr f) mem = map Some (render_headers ws) @ tail \<Longrightarrow>
   length (render_headers ws) \<le> f_size f \<Longrightarrow>
   \<exists>h' c. headers_loop mem h f = Some
       (h'\<lparr>m_header_process := eSuccessful, m_body_process := eProcessingFirst\<rparr>,
        \<lparr>f_ptr = f_ptr f + length (render_headers ws),
         f_size = f_size f - length (render_headers ws),
         f_done = f_done f + length (render_headers ws), f_chunk = c\<rparr>)
     \<and> headers_in h' (ws0 @ ws) \<and> same_request_line h h'"
proof (induction ws arbitrary: h f ws0)
  case Nil
  have r: "rd mem (f_ptr f) = Some CR" "rd mem (f_ptr f + 1) = Some LF"
    using rd_here [of "f_ptr f" mem "[CR, LF]" tail 0] rd_here [of "f_ptr f" mem "[CR, LF]" tail 1]
      Nil.prems(3) by (simp_all add: render_headers_simps)
  have "at_blank_line mem f = Some True" using r by (simp add: at_blank_line_def)
  moreover have "2 \<le> f_size f" using Nil.prems(4) by (simp add: render_headers_simps)
  ultimately have "headers_loop mem h f =
      Some (h\<lparr>m_header_process := eSuccessful, m_body_process := eProcessingFirst\<rparr>,
            \<lparr>f_ptr = f_ptr f + 2, f_size = f_size f - 2, f_done = f_done f + 2, f_chunk = f_chunk f\<rparr>)"
    by (subst headers_loop.simps) (simp add: advance_def)
  then show ?case using Nil.prems(1) by (auto simp: render_headers_simps)
next
  case (Cons w ws)
  let ?n = "length (render_header w)"
  have w: "header_ok w" and ws: "list_all header_ok ws" using Cons.prems(2) by auto
  have mem: "drop (f_ptr f) mem = map Some (render_header w) @ map Some (render_headers ws) @ tail"
    using Cons.prems(3) by (simp add: render_headers_simps)
  have n: "?n + length (render_headers ws) \<le> f_size f"
    using Cons.prems(4) by (simp add: render_headers_simps)
  obtain c cs where c: "render_header w = c # cs" "c \<noteq> CR" "2 \<le> ?n"
    using render_header_front [OF w] by auto
  have "rd mem (f_ptr f) = Some c"
    using rd_here [OF mem, of 0] c(1) by simp
  then have blank: "at_blank_line mem f = Some False" using c(2) by (simp add: at_blank_line_def)
  obtain h1 c1 where line: "header_line mem h f = Some (True, h1,
       \<lparr>f_ptr = f_ptr f + ?n, f_size = f_size f - ?n, f_done = f_done f + ?n, f_chunk = c1\<rparr>)"
    and in1: "headers_in h1 (ws0 @ [w])" and same1: "same_request_line h h1"
    using header_line_spec [OF Cons.prems(1) w mem] n by auto
  let ?f1 = "\<lparr>f_ptr = f_ptr f + ?n, f_size = f_size f - ?n, f_done = f_done f + ?n, f_chunk = c1\<rparr>"
  have mem1: "drop (f_ptr ?f1) mem = map Some (render_headers ws) @ tail"
  proof -
    have "drop (f_ptr f + ?n) mem = drop ?n (drop (f_ptr f) mem)" by (simp add: add.commute)
    then show ?thesis by (simp add: mem)
  qed
  have n1: "length (render_headers ws) \<le> f_size ?f1" using n by simp
  have step: "headers_loop mem h f = headers_loop mem h1 ?f1"
    using blank line n c(3) by (subst headers_loop.simps) simp
  obtain h2 c2 where "headers_loop mem h1 ?f1 = Some
       (h2\<lparr>m_header_process := eSuccessful, m_body_process := eProcessingFirst\<rparr>,
        \<lparr>f_ptr = f_ptr ?f1 + length (render_headers ws),
         f_size = f_size ?f1 - length (render_headers ws),
         f_done = f_done ?f1 + length (render_headers ws), f_chunk = c2\<rparr>)"
    and in2: "headers_in h2 ((ws0 @ [w]) @ ws)" and same2: "same_request_line h1 h2"
    using Cons.IH [OF in1 ws mem1 n1] by blast
  then show ?case
    using step in2 same_request_line_trans [OF same1 same2]
    by (auto simp: render_headers_simps add_ac)
qed

end
