(* ===== verification/Http_Roundtrip.thy ===== *)
theory Http_Roundtrip
  imports Http_Request_Props
begin

text \<open>
  \<open>process_data\<close> on rendered requests: a request written out by \<open>render_request\<close> and handed over
  in one piece is taken completely and leaves a state in which every lookup answers what the
  request says, whatever bytes follow it.
\<close>

section \<open>The request line\<close>

text \<open>\<open>names b c s\<close>: the reference \<open>c\<close> into the buffer \<open>b\<close> denotes the string \<open>s\<close>.\<close>

definition names :: "char auto_buffer \<Rightarrow> chunk \<Rightarrow> string \<Rightarrow> bool" where
  "names b c s \<longleftrightarrow> (\<exists>p. c = Some p \<and> cstr_at (low b) p = Some s)"

lemma names_extends: "extends b b' \<Longrightarrow> names b c s \<Longrightarrow> names b' c s"
  by (auto simp: names_def intro: cstr_at_extends)

lemma names_string: "names b c s \<Longrightarrow> get_chunk_string b c = Some s"
  by (auto simp: names_def get_chunk_string_def cstr_at_low)

text \<open>A taken word extends the buffer and is what the new reference names.\<close>

lemma get_chunk_names:
  assumes "drop p mem = map Some (replicate a pre @ w @ [c]) @ tail"
    and "word_ok pre stops w c" and "a + length w < n" and "wf_buffer b"
  shows "\<exists>b' ref. get_chunk mem p n pre stops b = Some (Some (a + length w + 1, ref, b'))
     \<and> wf_buffer b' \<and> extends b b' \<and> names b' (Some ref) w
     \<and> low b' = low b @ map Some (replicate a pre @ w) @ [Some NUL]"
proof -
  from get_chunk_word [OF assms] obtain b' where
    b': "get_chunk mem p n pre stops b = Some (Some (a + length w + 1, m_ready_position b + a, b'))"
    "wf_buffer b'" "low b' = low b @ map Some (replicate a pre @ w) @ [Some NUL]"
    by blast
  have "cstr_at (low b') (m_ready_position b + a) = Some w"
    using b'(3) assms(2) length_low [OF assms(4)]
      cstr_at_terminated [of w "low b @ map Some (replicate a pre)" "[]"]
    by (simp add: word_ok_def)
  with b' show ?thesis by (auto simp: names_def extends_def)
qed

lemma step_method_spec:
  assumes "m_query_method h = None" and "wf_buffer (m_ab_header h)"
    and "drop (f_ptr f) mem = map Some (m @ '' '') @ tail"
    and "word_ok CHR '' '' '' '' m CHR '' ''" and "length m < f_size f"
  shows "\<exists>ab ref. step_method mem h f = Some (True, h\<lparr>m_ab_header := ab, m_query_method := Some ref\<rparr>,
       \<lparr>f_ptr = f_ptr f + (length m + 1), f_size = f_size f - (length m + 1),
        f_done = f_done f + (length m + 1), f_chunk = length m + 1\<rparr>)
     \<and> wf_buffer ab \<and> names ab (Some ref) m"
proof -
  have mem: "drop (f_ptr f) mem = map Some (replicate 0 CHR '' '' @ m @ [CHR '' '']) @ tail"
    using assms(3) by simp
  have n: "0 + length m < f_size f" using assms(5) by simp
  from get_chunk_names [OF mem assms(4) n assms(2)] obtain ab ref where
    ck: "get_chunk mem (f_ptr f) (f_size f) CHR '' '' '' '' (m_ab_header h)
        = Some (Some (length m + 1, ref, ab))"
    and ab: "wf_buffer ab" "names ab (Some ref) m"
    by auto
  have "step_method mem h f = Some (True, h\<lparr>m_ab_header := ab, m_query_method := Some ref\<rparr>,
       \<lparr>f_ptr = f_ptr f + (length m + 1), f_size = f_size f - (length m + 1),
        f_done = f_done f + (length m + 1), f_chunk = length m + 1\<rparr>)"
    using ck assms(1,5) by (simp add: step_method_def is_valid_def advance_def Let_def)
  with ab show ?thesis by blast
qed

lemma step_uri_spec:
  assumes "m_query_uri h = None" and "wf_buffer (m_ab_header h)"
    and "drop (f_ptr f) mem = map Some (u @ [c]) @ tail" and "c = CHR '' '' \<or> c = CHR ''?''"
    and "word_ok CHR '' '' ''? '' u c" and "length u < f_size f"
  shows "\<exists>ab ref. step_uri mem h f = Some (True, h\<lparr>m_ab_header := ab, m_query_uri := Some ref\<rparr>,
       (let n = (if c = CHR ''?'' then length u else length u + 1) in
       \<lparr>f_ptr = f_ptr f + n, f_size = f_size f - n, f_done = f_done f + n, f_chunk = n\<rparr>))
     \<and> wf_buffer ab \<and> extends (m_ab_header h) ab \<and> names ab (Some ref) u"
proof -
  have mem: "drop (f_ptr f) mem = map Some (replicate 0 CHR '' '' @ u @ [c]) @ tail"
    using assms(3) by simp
  have n: "0 + length u < f_size f" using assms(6) by simp
  from get_chunk_names [OF mem assms(5) n assms(2)] obtain ab ref where
    ck: "get_chunk mem (f_ptr f) (f_size f) CHR '' '' ''? '' (m_ab_header h)
        = Some (Some (length u + 1, ref, ab))"
    and ab: "wf_buffer ab" "extends (m_ab_header h) ab" "names ab (Some ref) u"
    by auto
  have last: "rd mem (f_ptr f + length u) = Some c"
    using rd_here [OF assms(3), of "length u"] by simp
  have "step_uri mem h f = Some (True, h\<lparr>m_ab_header := ab, m_query_uri := Some ref\<rparr>,
       (let n = (if c = CHR ''?'' then length u else length u + 1) in
       \<lparr>f_ptr = f_ptr f + n, f_size = f_size f - n, f_done = f_done f + n, f_chunk = n\<rparr>))"
    using ck last assms(1,4,6)
    by (auto simp: step_uri_def is_valid_def advance_def Let_def)
  then show ?thesis using ab by blast
qed

lemma step_params_spec:
  assumes "get_fill_size (m_ab_params h) = 0" and "wf_buffer (m_ab_params h)"
    and "drop (f_ptr f) mem = map Some (CHR ''?'' # q @ '' '') @ tail"
    and "word_ok CHR ''?'' '' '' q CHR '' ''" and "length q + 1 < f_size f"
  shows "\<exists>ab. step_params mem h f = Some (True, h\<lparr>m_ab_params := ab\<rparr>,
       \<lparr>f_ptr = f_ptr f + (length q + 2), f_size = f_size f - (length q + 2),
        f_done = f_done f + (length q + 2), f_chunk = length q + 1\<rparr>)
     \<and> wf_buffer ab \<and> low ab = map Some q @ [Some NUL]"
proof -
  have "drop (f_ptr f + 1) mem = drop 1 (drop (f_ptr f) mem)" by simp
  then have mem: "drop (f_ptr f + 1) mem = map Some (replicate 0 CHR ''?'' @ q @ [CHR '' '']) @ tail"
    by (simp add: assms(3))
  have n: "0 + length q < f_size f - 1" using assms(5) by simp
  have low0: "low (m_ab_params h) = []"
    using assms(1) by (simp add: low_def get_fill_size_def)
  from get_chunk_names [OF mem assms(4) n assms(2)] obtain ab ref where
    ck: "get_chunk mem (f_ptr f + 1) (f_size f - 1) CHR ''?'' '' '' (m_ab_params h)
        = Some (Some (length q + 1, ref, ab))"
    and ab: "wf_buffer ab" "low ab = map Some q @ [Some NUL]"
    by (auto simp: low0)
  have first: "rd mem (f_ptr f) = Some CHR ''?''" using rd_here [OF assms(3), of 0] by simp
  have "step_params mem h f = Some (True, h\<lparr>m_ab_params := ab\<rparr>,
       \<lparr>f_ptr = f_ptr f + (length q + 2), f_size = f_size f - (length q + 2),
        f_done = f_done f + (length q + 2), f_chunk = length q + 1\<rparr>)"
    using ck first assms(1,5) by (simp add: step_params_def advance_def Let_def)
  with ab show ?thesis by blast
qed

lemma step_version_spec:
  assumes "m_query_version h = None" and "wf_buffer (m_ab_header h)"
    and "drop (f_ptr f) mem = map Some (v @ [CR, LF]) @ tail"
    and "word_ok CHR '' '' [CR, LF] v CR" and "length v + 1 < f_size f"
  shows "\<exists>ab ref. step_version mem h f = Some (True,
       h\<lparr>m_ab_header := ab, m_query_version := Some ref, m_header_process := eProcessingNext\<rparr>,
       \<lparr>f_ptr = f_ptr f + (length v + 2), f_size = f_size f - (length v + 2),
        f_done = f_done f + (length v + 2), f_chunk = length v + 2\<rparr>)
     \<and> wf_buffer ab \<and> extends (m_ab_header h) ab \<and> names ab (Some ref) v"
proof -
  have mem: "drop (f_ptr f) mem = map Some (replicate 0 CHR '' '' @ v @ [CR]) @ Some LF # tail"
    using assms(3) by simp
  have n: "0 + length v < f_size f" using assms(5) by simp
  from get_chunk_names [OF mem assms(4) n assms(2)] obtain ab ref where
    ck: "get_chunk mem (f_ptr f) (f_size f) CHR '' '' [CR, LF] (m_ab_header h)
        = Some (Some (length v + 1, ref, ab))"
    and ab: "wf_buffer ab" "extends (m_ab_header h) ab" "names ab (Some ref) v"
    by auto
  have lf: "rd mem (f_ptr f + Suc (length v)) = Some LF"
    using rd_here [OF assms(3), of "Suc (length v)"] by (simp add: nth_append)
  have "step_version mem h f = Some (True,
       h\<lparr>m_ab_header := ab, m_query_version := Some ref, m_header_process := eProcessingNext\<rparr>,
       \<lparr>f_ptr = f_ptr f + (length v + 2), f_size = f_size f - (length v + 2),
        f_done = f_done f + (length v + 2), f_chunk = length v + 2\<rparr>)"
    using ck lf assms(1,5)
    by (simp add: step_version_def is_valid_def advance_def skip_line_end_def Let_def)
  with ab show ?thesis by blast
qed

section \<open>A request on the wire\<close>

record wire_request =
  q_method :: string
  q_uri :: string
  q_args :: "string option"
  q_version :: string
  q_headers :: "wire_header list"
  q_body :: string

definition render_line :: "wire_request \<Rightarrow> string" where
  "render_line r = q_method r @ '' '' @ q_uri r @
     (case q_args r of None \<Rightarrow> '' '' | Some q \<Rightarrow> CHR ''?'' # q @ '' '') @ q_version r @ [CR, LF]"

definition render_request :: "wire_request \<Rightarrow> string" where
  "render_request r = render_line r @ render_headers (q_headers r) @ q_body r"

definition line_ok :: "wire_request \<Rightarrow> bool" where
  "line_ok r \<longleftrightarrow>
     word_ok CHR '' '' '' '' (q_method r) CHR '' '' \<and>
     (case q_args r of
        None \<Rightarrow> word_ok CHR '' '' ''? '' (q_uri r) CHR '' '' \<and> hd (q_version r @ [CR]) \<noteq> CHR ''?''
      | Some q \<Rightarrow> word_ok CHR '' '' ''? '' (q_uri r) CHR ''?'' \<and> word_ok CHR ''?'' '' '' q CHR '' '') \<and>
     word_ok CHR '' '' [CR, LF] (q_version r) CR"

text \<open>A request object as \<open>clear\<close> leaves it.\<close>

definition wf_request :: "http_request \<Rightarrow> bool" where
  "wf_request h \<longleftrightarrow> wf_buffer (m_ab_header h) \<and> wf_buffer (m_ab_params h) \<and> wf_buffer (m_ab_body h)"

definition fresh_request :: "http_request \<Rightarrow> bool" where
  "fresh_request h \<longleftrightarrow> wf_request h \<and> m_ready_position (m_ab_params h) = 0 \<and>
     m_ready_position (m_ab_body h) = 0 \<and>
     m_query_method h = None \<and> m_query_uri h = None \<and> m_query_version h = None \<and>
     m_header_values h = [] \<and> m_params_value h = [] \<and> m_cookies h = [] \<and>
     m_header_process h = eProcessingFirst \<and> m_body_process h = eNone \<and> m_content_length h = npos"

lemma fresh_request_clear: "wf_request h \<Longrightarrow> fresh_request (request_clear h)"
  by (simp add: fresh_request_def wf_request_def request_clear_def flush_free_size_def
      clear_reference_def wf_buffer_def)

lemma fresh_request_new: "fresh_request request_new"
  unfolding request_new_def
  by (rule fresh_request_clear) (simp add: wf_request_def wf_buffer_def auto_buffer_new_def)

text \<open>What the request line leaves behind.\<close>

definition args_cells :: "string option \<Rightarrow> char memory" where
  "args_cells args = (case args of None \<Rightarrow> [] | Some q \<Rightarrow> map Some q @ [Some NUL])"

definition line_seen :: "wire_request \<Rightarrow> http_request \<Rightarrow> bool" where
  "line_seen r h \<longleftrightarrow>
     names (m_ab_header h) (m_query_method h) (q_method r) \<and>
     names (m_ab_header h) (m_query_uri h) (q_uri r) \<and>
     names (m_ab_header h) (m_query_version h) (q_version r) \<and>
     wf_buffer (m_ab_params h) \<and> low (m_ab_params h) = args_cells (q_args r)"

lemma line_seen_same: "same_request_line h h' \<Longrightarrow> line_seen r h \<Longrightarrow> line_seen r h'"
  by (auto simp: same_request_line_def line_seen_def intro: names_extends)

lemma and_then_go [simp]: "and_then (Some (True, h, f)) k = k h f"
  by (simp add: and_then_def)

lemma drop_after: "drop p mem = map Some xs @ tail \<Longrightarrow> n = p + length xs \<Longrightarrow> drop n mem = tail"
proof -
  assume a: "drop p mem = map Some xs @ tail" and n: "n = p + length xs"
  have "drop n mem = drop (length xs) (drop p mem)" using n by (simp add: add.commute)
  then show ?thesis by (simp add: a)
qed

definition line_steps :: "char memory \<Rightarrow> http_request \<Rightarrow> frame \<Rightarrow> step_result" where
  "line_steps mem h f =
     and_then (and_then (and_then (step_method mem h f) (step_uri mem)) (step_params mem)) (step_version mem)"

text \<open>The arguments step, with and without arguments on the line.\<close>

lemma step_args:
  assumes "m_ready_position (m_ab_params h) = 0" and "wf_buffer (m_ab_params h)"
    and "drop (f_ptr f) mem = map Some (case args of None \<Rightarrow> [] | Some q \<Rightarrow> CHR ''?'' # q @ '' '') @ Some d # tail"
    and "case args of None \<Rightarrow> d \<noteq> CHR ''?'' | Some q \<Rightarrow> word_ok CHR ''?'' '' '' q CHR '' ''"
    and "(case args of None \<Rightarrow> 0 | Some q \<Rightarrow> length q + 2) \<le> f_size f"
  shows "\<exists>ab c. step_params mem h f = Some (True, h\<lparr>m_ab_params := ab\<rparr>,
       (let n = (case args of None \<Rightarrow> 0 | Some q \<Rightarrow> length q + 2) in
       \<lparr>f_ptr = f_ptr f + n, f_size = f_size f - n, f_done = f_done f + n, f_chunk = c\<rparr>))
     \<and> wf_buffer ab \<and> low ab = args_cells args"
proof (cases args)
  case None
  have "rd mem (f_ptr f) = Some d"
    using assms(3) rd_drop [of "f_ptr f" mem 0] by (simp add: None rd_def)
  then have "step_params mem h f = Some (True, h\<lparr>m_ab_params := m_ab_params h\<rparr>, f)"
    using assms(1,4) by (simp add: None step_params_def get_fill_size_def)
  moreover have "f = \<lparr>f_ptr = f_ptr f + 0, f_size = f_size f - 0, f_done = f_done f + 0, f_chunk = f_chunk f\<rparr>"
    by simp
  ultimately show ?thesis using assms(1,2)
    by (intro exI [of _ "m_ab_params h"] exI [of _ "f_chunk f"]) (simp add: None Let_def args_cells_def low_def)
next
  case (Some q)
  have fill: "get_fill_size (m_ab_params h) = 0" using assms(1) by (simp add: get_fill_size_def)
  have mem: "drop (f_ptr f) mem = map Some (CHR ''?'' # q @ '' '') @ Some d # tail"
    using assms(3) by (simp add: Some)
  have ok: "word_ok CHR ''?'' '' '' q CHR '' ''" and n: "length q + 1 < f_size f"
    using assms(4,5) by (simp_all add: Some)
  from step_params_spec [OF fill assms(2) mem ok n] obtain ab where
    "step_params mem h f = Some (True, h\<lparr>m_ab_params := ab\<rparr>,
       \<lparr>f_ptr = f_ptr f + (length q + 2), f_size = f_size f - (length q + 2),
        f_done = f_done f + (length q + 2), f_chunk = length q + 1\<rparr>)"
    "wf_buffer ab" "low ab = map Some q @ [Some NUL]"
    by blast
  then show ?thesis
    by (intro exI [of _ ab] exI [of _ "length q + 1"]) (simp add: Some Let_def args_cells_def)
qed

definition uri_stop :: "wire_request \<Rightarrow> char" where
  "uri_stop r = (case q_args r of None \<Rightarrow> CHR '' '' | Some q \<Rightarrow> CHR ''?'')"

definition uri_size :: "wire_request \<Rightarrow> nat" where
  "uri_size r = (case q_args r of None \<Rightarrow> length (q_uri r) + 1 | Some q \<Rightarrow> length (q_uri r))"

definition args_text :: "wire_request \<Rightarrow> string" where
  "args_text r = (case q_args r of None \<Rightarrow> [] | Some q \<Rightarrow> CHR ''?'' # q @ '' '')"

lemma render_line_split:
  "render_line r = (q_method r @ '' '') @ (q_uri r @ (if q_args r = None then '' '' else []))
     @ args_text r @ (q_version r @ [CR, LF])"
  by (auto simp: render_line_def args_text_def split: option.splits)

lemma request_line_spec:
  assumes h: "fresh_request h" and r: "line_ok r"
    and mem: "drop (f_ptr f) mem = map Some (render_line r) @ tail"
    and n: "length (render_line r) \<le> f_size f"
  shows "\<exists>h' c. line_steps mem h f = Some (True, h',
       \<lparr>f_ptr = f_ptr f + length (render_line r), f_size = f_size f - length (render_line r),
        f_done = f_done f + length (render_line r), f_chunk = c\<rparr>)
     \<and> line_seen r h' \<and> headers_in h' [] \<and> m_header_process h' = eProcessingNext
     \<and> m_params_value h' = [] \<and> m_ab_body h' = m_ab_body h"
proof -
  let ?m = "q_method r" and ?u = "q_uri r" and ?v = "q_version r"
  let ?c = "uri_stop r" and ?nu = "uri_size r" and ?a = "args_text r"
  let ?na = "case q_args r of None \<Rightarrow> 0 | Some q \<Rightarrow> length q + 2"
  have len: "length (render_line r) = (length ?m + 1) + ?nu + ?na + (length ?v + 2)"
    by (auto simp: render_line_def uri_size_def split: option.splits)
  have na: "length ?a = ?na" by (auto simp: args_text_def split: option.splits)
  have wm: "word_ok CHR '' '' '' '' ?m CHR '' ''" and wu: "word_ok CHR '' '' ''? '' ?u ?c"
    and wv: "word_ok CHR '' '' [CR, LF] ?v CR" and c: "?c = CHR '' '' \<or> ?c = CHR ''?''"
    using r by (auto simp: line_ok_def uri_stop_def split: option.splits)
  \<comment> \<open>the method\<close>
  have mem1: "drop (f_ptr f) mem = map Some (?m @ '' '')
      @ map Some (?u @ (if q_args r = None then '' '' else []) @ ?a @ ?v @ [CR, LF]) @ tail"
    using mem by (simp add: render_line_split)
  have n1: "length ?m < f_size f" using n len by simp
  obtain ab1 r1 where s1: "step_method mem h f = Some (True, h\<lparr>m_ab_header := ab1, m_query_method := Some r1\<rparr>,
       \<lparr>f_ptr = f_ptr f + (length ?m + 1), f_size = f_size f - (length ?m + 1),
        f_done = f_done f + (length ?m + 1), f_chunk = length ?m + 1\<rparr>)"
    and ab1: "wf_buffer ab1" "names ab1 (Some r1) ?m"
    using step_method_spec [OF _ _ mem1 wm n1, of h] h
    by (auto simp: fresh_request_def wf_request_def)
  let ?h1 = "h\<lparr>m_ab_header := ab1, m_query_method := Some r1\<rparr>"
  let ?f1 = "\<lparr>f_ptr = f_ptr f + (length ?m + 1), f_size = f_size f - (length ?m + 1),
        f_done = f_done f + (length ?m + 1), f_chunk = length ?m + 1\<rparr>"
  \<comment> \<open>the uri\<close>
  have mem2: "drop (f_ptr ?f1) mem = map Some (?u @ [?c])
      @ map Some (tl (?a @ ?v) @ [CR, LF]) @ tail" if "q_args r \<noteq> None"
    using drop_after [OF mem1, of "f_ptr ?f1"] that by (auto simp: args_text_def uri_stop_def)
  have mem2': "drop (f_ptr ?f1) mem = map Some (?u @ [?c]) @ map Some (?v @ [CR, LF]) @ tail"
    if "q_args r = None"
    using drop_after [OF mem1, of "f_ptr ?f1"] that by (auto simp: args_text_def uri_stop_def)
  obtain tail2 where mem2: "drop (f_ptr ?f1) mem = map Some (?u @ [?c]) @ tail2"
    using mem2 mem2' by (cases "q_args r") auto
  have n2: "length ?u < f_size ?f1" using n len by (auto simp: uri_size_def split: option.splits)
  have h1: "m_query_uri ?h1 = None" "wf_buffer (m_ab_header ?h1)"
    using h ab1 by (simp_all add: fresh_request_def)
  have size_u: "(if ?c = CHR ''?'' then length ?u else length ?u + 1) = ?nu"
    by (auto simp: uri_stop_def uri_size_def split: option.splits)
  obtain ab2 r2 where s2: "step_uri mem ?h1 ?f1 = Some (True, ?h1\<lparr>m_ab_header := ab2, m_query_uri := Some r2\<rparr>,
       \<lparr>f_ptr = f_ptr ?f1 + ?nu, f_size = f_size ?f1 - ?nu, f_done = f_done ?f1 + ?nu, f_chunk = ?nu\<rparr>)"
    and ab2: "wf_buffer ab2" "extends ab1 ab2" "names ab2 (Some r2) ?u"
    using step_uri_spec [OF h1 mem2 c wu n2] unfolding size_u Let_def by auto
  let ?h2 = "?h1\<lparr>m_ab_header := ab2, m_query_uri := Some r2\<rparr>"
  let ?f2 = "\<lparr>f_ptr = f_ptr ?f1 + ?nu, f_size = f_size ?f1 - ?nu, f_done = f_done ?f1 + ?nu, f_chunk = ?nu\<rparr>"
  \<comment> \<open>the arguments\<close>
  have at3: "drop (f_ptr ?f2) mem = map Some ?a @ map Some (?v @ [CR, LF]) @ tail"
    by (rule drop_after [of "f_ptr f" mem
          "?m @ '' '' @ ?u @ (if q_args r = None then '' '' else [])"])
       (use mem1 in \<open>auto simp: uri_size_def split: option.splits\<close>)
  have front: "map Some (?v @ [CR, LF]) @ tail = Some (hd (?v @ [CR])) # tl (map Some (?v @ [CR, LF]) @ tail)"
    by (cases ?v) auto
  have mem3: "drop (f_ptr ?f2) mem = map Some (case q_args r of None \<Rightarrow> [] | Some q \<Rightarrow> CHR ''?'' # q @ '' '')
      @ Some (hd (?v @ [CR])) # tl (map Some (?v @ [CR, LF]) @ tail)"
    using at3 front by (simp add: args_text_def)
  have w3: "case q_args r of None \<Rightarrow> hd (?v @ [CR]) \<noteq> CHR ''?'' | Some q \<Rightarrow> word_ok CHR ''?'' '' '' q CHR '' ''"
    using r by (auto simp: line_ok_def split: option.splits)
  have n3: "?na \<le> f_size ?f2" using n len by simp
  have p3: "m_ready_position (m_ab_params ?h2) = 0" "wf_buffer (m_ab_params ?h2)"
    using h by (simp_all add: fresh_request_def wf_request_def)
  obtain ab3 c3 where s3: "step_params mem ?h2 ?f2 = Some (True, ?h2\<lparr>m_ab_params := ab3\<rparr>,
       \<lparr>f_ptr = f_ptr ?f2 + ?na, f_size = f_size ?f2 - ?na, f_done = f_done ?f2 + ?na, f_chunk = c3\<rparr>)"
    and ab3: "wf_buffer ab3" "low ab3 = args_cells (q_args r)"
    using step_args [OF p3 mem3 w3 n3] unfolding Let_def by blast
  let ?h3 = "?h2\<lparr>m_ab_params := ab3\<rparr>"
  let ?f3 = "\<lparr>f_ptr = f_ptr ?f2 + ?na, f_size = f_size ?f2 - ?na, f_done = f_done ?f2 + ?na, f_chunk = c3\<rparr>"
  \<comment> \<open>the version\<close>
  have mem4: "drop (f_ptr ?f3) mem = map Some (?v @ [CR, LF]) @ tail"
    by (rule drop_after [OF at3]) (simp add: na)
  have h3: "m_query_version ?h3 = None" "wf_buffer (m_ab_header ?h3)"
    using h ab2 by (simp_all add: fresh_request_def)
  have n4: "length ?v + 1 < f_size ?f3" using n len by simp
  obtain ab4 r4 where s4: "step_version mem ?h3 ?f3 = Some (True,
       ?h3\<lparr>m_ab_header := ab4, m_query_version := Some r4, m_header_process := eProcessingNext\<rparr>,
       \<lparr>f_ptr = f_ptr ?f3 + (length ?v + 2), f_size = f_size ?f3 - (length ?v + 2),
        f_done = f_done ?f3 + (length ?v + 2), f_chunk = length ?v + 2\<rparr>)"
    and ab4: "wf_buffer ab4" "extends ab2 ab4" "names ab4 (Some r4) ?v"
    using step_version_spec [OF h3 mem4 wv n4] by auto
  let ?h4 = "?h3\<lparr>m_ab_header := ab4, m_query_version := Some r4, m_header_process := eProcessingNext\<rparr>"
  have steps: "line_steps mem h f = Some (True, ?h4,
       \<lparr>f_ptr = f_ptr f + length (render_line r), f_size = f_size f - length (render_line r),
        f_done = f_done f + length (render_line r), f_chunk = length ?v + 2\<rparr>)"
    unfolding line_steps_def s1 and_then_go s2 s3 s4 by (simp add: len)
  have "names ab4 (Some r1) ?m" "names ab4 (Some r2) ?u"
    using ab1(2) ab2(2,3) ab4(2) by (blast intro: names_extends)+
  then have "line_seen r ?h4" using ab4(3) ab3 by (simp add: line_seen_def)
  moreover have "headers_in ?h4 []"
    using h ab4(1) by (simp add: headers_in_def fresh_request_def header_pairs_def)
  ultimately show ?thesis
    using steps h by (intro exI [of _ ?h4] exI [of _ "length ?v + 2"]) (simp add: fresh_request_def)
qed

section \<open>The search inside a header value\<close>

text \<open>The reference: \<open>m\<close> starts somewhere outside double quotes.\<close>

fun mentions :: "string \<Rightarrow> bool \<Rightarrow> string \<Rightarrow> bool" where
  "mentions m q [] = False"
| "mentions m q (c # cs) =
     (if c = CHR 0x22 then mentions m (\<not> q) cs
      else if q then mentions m q cs
      else take (length m) (c # cs) = m \<or> mentions m q cs)"

lemma mentions_short: "length s < length m \<Longrightarrow> \<not> mentions m q s"
proof (induction m q s rule: mentions.induct)
  case (2 m q c cs)
  have "take (length m) (c # cs) \<noteq> m" using "2.prems" by (metis length_take min_less_iff_conj order_less_irrefl)
  with 2 show ?case by auto
qed simp

lemma fsv_find_spec:
  assumes mem: "drop p mem = map Some s @ tail" and m: "m \<noteq> []" "length m \<le> length s"
  shows "i \<le> length s \<Longrightarrow> \<exists>hit. fsv_find mem p (length s - length m) m i q = Some hit \<and>
     (hit \<noteq> None \<longleftrightarrow> mentions m q (drop i s))"
proof (induction "length s - i" arbitrary: i q)
  case 0
  with m show ?case
    by (subst fsv_find.simps) (auto simp: length_greater_0_conv [symmetric] simp del: length_greater_0_conv)
next
  case (Suc n)
  then have lt: "i < length s" by simp
  show ?case
  proof (cases "i \<le> length s - length m")
    case False
    then have "\<not> mentions m q (drop i s)" using lt by (intro mentions_short) simp
    with False show ?thesis by (subst fsv_find.simps) simp
  next
    case True
    have cons: "drop i s = s ! i # drop (Suc i) s" using lt by (simp add: Cons_nth_drop_Suc)
    have rd: "rd mem (p + i) = Some (s ! i)" using rd_here [OF mem lt] .
    have "drop (p + i) mem = drop i (drop p mem)" by (simp add: add.commute)
    also have "\<dots> = map Some (drop i s) @ tail" using lt by (simp add: mem drop_map)
    finally have cmp: "memcmp_eq mem (p + i) m = Some (take (length m) (drop i s) = m)"
      using True m(2) by (simp add: memcmp_eq_def eq_cells_map_Some)
    have IH: "\<exists>hit. fsv_find mem p (length s - length m) m (Suc i) q' = Some hit \<and>
       (hit \<noteq> None \<longleftrightarrow> mentions m q' (drop (Suc i) s))" for q'
      using Suc lt by simp
    consider "s ! i = CHR 0x22" | "s ! i \<noteq> CHR 0x22" "q" | "s ! i \<noteq> CHR 0x22" "\<not> q" by blast
    then show ?thesis
    proof cases
      case 1
      with True rd cons IH [of "\<not> q"] show ?thesis by (subst fsv_find.simps) simp
    next
      case 2
      with True rd cons IH [of q] show ?thesis by (subst fsv_find.simps) simp
    next
      case 3
      with True rd cons cmp IH [of q] show ?thesis
        by (subst fsv_find.simps) (cases "take (length m) (drop i s) = m"; simp)
    qed
  qed
qed

lemma find_sub_value_present:
  assumes "cstr_at mem p = Some s" and "m \<noteq> []"
  shows "find_sub_value mem (Some p) None m kv kk False = Some (mentions m False s, None)"
proof (cases "length s < length m")
  case True
  with assms show ?thesis by (simp add: find_sub_value_def mentions_short)
next
  case False
  obtain rest where mem: "drop p mem = map Some s @ rest"
    using assms(1) by (auto simp: cstr_at_def cstr_iff)
  obtain hit where "fsv_find mem p (length s - length m) m 0 False = Some hit"
    "hit \<noteq> None \<longleftrightarrow> mentions m False s"
    using fsv_find_spec [OF mem assms(2), of 0 False] False by auto
  with assms False show ?thesis by (auto simp: find_sub_value_def split: option.splits)
qed

section \<open>The body and the parameters\<close>

text \<open>What a body does not touch.\<close>

definition same_header :: "http_request \<Rightarrow> http_request \<Rightarrow> bool" where
  "same_header h h' \<longleftrightarrow>
     m_ab_header h' = m_ab_header h \<and> m_header_values h' = m_header_values h \<and>
     m_cookies h' = m_cookies h \<and> m_query_method h' = m_query_method h \<and>
     m_query_uri h' = m_query_uri h \<and> m_query_version h' = m_query_version h \<and>
     m_header_process h' = m_header_process h"

definition args_pairs :: "string option \<Rightarrow> (string \<times> string option) list" where
  "args_pairs args = (case args of None \<Rightarrow> [] | Some q \<Rightarrow> pairs_of CHR ''&'' False q)"

lemma split_params_spec:
  assumes "wf_buffer (m_ab_params h)" and "low (m_ab_params h) = args_cells args"
    and "m_params_value h = []" and "case args of None \<Rightarrow> True | Some q \<Rightarrow> NUL \<notin> set q"
  shows "\<exists>h'. split_params h = Some h'
     \<and> views (m_buffer (m_ab_params h')) (m_params_value h') (args_pairs args)
     \<and> same_header h h' \<and> m_ab_body h' = m_ab_body h \<and> m_body_process h' = m_body_process h"
proof (cases args)
  case None
  then have "m_ready_position (m_ab_params h) = 0"
    using assms(1,2) length_low [OF assms(1)] by (simp add: args_cells_def)
  then have "split_params h = Some h"
    using assms(3)
    by (simp add: split_params_def parse_string_def get_fill_size_def parse_string_loop.simps)
  then show ?thesis using assms(3) None by (simp add: args_pairs_def same_header_def)
next
  case (Some q)
  have fill: "m_ready_position (m_ab_params h) = length q + 1"
    using length_low [OF assms(1)] assms(2) by (simp add: Some args_cells_def)
  define R where "R = drop (m_ready_position (m_ab_params h)) (m_buffer (m_ab_params h))"
  have cells: "m_buffer (m_ab_params h) = [] @ map Some q @ Some NUL # R"
    using low_prefix [of "m_ab_params h"] assms(2) by (simp add: Some args_cells_def R_def)
  have sep: "CHR ''&'' \<noteq> NUL" "CHR ''&'' \<noteq> CHR ''=''" "CHR ''&'' \<noteq> CHR '' ''" by (simp_all add: NUL_def)
  have clean: "NUL \<notin> set q" using assms(4) by (simp add: Some)
  note parse_string_spec [OF sep cells clean, of "length q + 1" "[]" False]
  then obtain ps where "parse_string 0 (length q + 1) [] CHR ''&'' False (m_ab_params h)
       = Some ((m_ab_params h)\<lparr>m_buffer := map Some (zap CHR ''&'' q) @ Some NUL # R\<rparr>, ps)"
     "map (read_pair (map Some (zap CHR ''&'' q) @ Some NUL # R)) ps
          = map pair_view (pairs_of CHR ''&'' False q)"
    by auto
  then show ?thesis
    using assms(3) fill
    by (simp add: split_params_def get_fill_size_def Some args_pairs_def views_def same_header_def)
qed

text \<open>A form body is joined to the arguments of the request line with \<open>&\<close>.\<close>

definition merge_args :: "string option \<Rightarrow> string \<Rightarrow> string" where
  "merge_args args body =
     (case args of
        None \<Rightarrow> body
      | Some q \<Rightarrow> if q = [] \<or> last q = CHR ''&'' then q @ body else q @ ''&'' @ body)"

definition joined_cells :: "string option \<Rightarrow> char memory" where
  "joined_cells args =
     (case args of None \<Rightarrow> []
      | Some q \<Rightarrow> map Some (if q = [] \<or> last q = CHR ''&'' then q else q @ ''&''))"

lemma joined_cells_body: "joined_cells args @ map Some body = map Some (merge_args args body)"
  by (auto simp: joined_cells_def merge_args_def split: option.splits)

lemma join_params_spec:
  assumes wf: "wf_buffer (m_ab_params h)" and low: "low (m_ab_params h) = args_cells args"
    and clean: "case args of None \<Rightarrow> True | Some q \<Rightarrow> NUL \<notin> set q"
  shows "\<exists>ab len. join_params h = Some (h\<lparr>m_ab_params := ab, m_content_length := len\<rparr>)
     \<and> wf_buffer ab \<and> low ab = joined_cells args"
proof (cases args)
  case None
  then have "m_ready_position (m_ab_params h) = 0"
    using low length_low [OF wf] by (simp add: args_cells_def)
  then have "join_params h = Some (h\<lparr>m_ab_params := m_ab_params h, m_content_length := m_content_length h\<rparr>)"
    by (simp add: join_params_def get_fill_size_def)
  then show ?thesis using wf low None
    by (intro exI [of _ "m_ab_params h"] exI [of _ "m_content_length h"])
       (simp add: args_cells_def joined_cells_def)
next
  case (Some q)
  define R where "R = drop (m_ready_position (m_ab_params h)) (m_buffer (m_ab_params h))"
  have fill: "m_ready_position (m_ab_params h) = length q + 1"
    using length_low [OF wf] low by (simp add: Some args_cells_def)
  have cells: "m_buffer (m_ab_params h) = map Some q @ Some NUL # R"
    using low_prefix [of "m_ab_params h"] low by (simp add: Some args_cells_def R_def)
  have last: "get_element (m_ab_params h) (length q) = Some NUL"
    by (simp add: get_element_def cells rd_def nth_append)
  show ?thesis
  proof (cases "q = [] \<or> last q = CHR ''&''")
    case True
    have prev: "get_element (m_ab_params h) (length q - 1) = Some (last q)" if "q \<noteq> []"
      using that by (simp add: get_element_def cells rd_def nth_append last_conv_nth)
    define ab where "ab = (m_ab_params h)\<lparr>m_ready_position := length q\<rparr>"
    have "increment_free_size 1 (m_ab_params h) = ab"
      by (simp add: increment_free_size_def fill ab_def)
    then have "join_params h = Some (h\<lparr>m_ab_params := ab,
        m_content_length := uadd (m_content_length h) (length q)\<rparr>)"
      using True last prev
      by (cases "q = []") (auto simp: join_params_def get_fill_size_def fill ab_def Let_def)
    moreover have "wf_buffer ab" using wf fill by (simp add: wf_buffer_def ab_def)
    moreover have "low ab = joined_cells args"
      using True by (auto simp: low_def ab_def cells Some joined_cells_def)
    ultimately show ?thesis by blast
  next
    case False
    then have prev: "get_element (m_ab_params h) (length q - 1) = Some (last q)"
      by (simp add: get_element_def cells rd_def nth_append last_conv_nth)
    define ab where "ab = (m_ab_params h)\<lparr>m_buffer := map Some q @ Some CHR ''&'' # R\<rparr>"
    have "set_element (length q) CHR ''&'' (m_ab_params h) = Some ab"
      by (simp add: set_element_def cells ab_def list_update_append)
    then have "join_params h = Some (h\<lparr>m_ab_params := ab,
        m_content_length := uadd (m_content_length h) (length q + 1)\<rparr>)"
      using False last prev by (simp add: join_params_def get_fill_size_def fill ab_def Let_def)
    moreover have "wf_buffer ab" using wf fill cells by (simp add: wf_buffer_def ab_def)
    moreover have "low ab = joined_cells args"
      using False by (simp add: low_def ab_def fill Some joined_cells_def)
    ultimately show ?thesis by blast
  qed
qed

lemma append_cells_low:
  assumes "wf_buffer b"
  shows "\<exists>b'. append_cells True xs default_granulate b = Some b' \<and> wf_buffer b' \<and> low b' = low b @ xs"
proof -
  obtain b' rest where b': "append_cells True xs default_granulate b = Some b'" "wf_buffer b'"
    "m_buffer b' = take (m_ready_position b) (m_buffer b) @ xs @ rest"
    "m_ready_position b' = m_ready_position b + length xs"
    using append_cells_wf [OF assms default_granulate_pos] by blast
  moreover have "length (take (m_ready_position b) (m_buffer b)) = m_ready_position b"
    using assms by (simp add: wf_buffer_def)
  ultimately show ?thesis by (simp add: low_def)
qed

lemma merge_form_spec:
  assumes wf: "wf_buffer (m_ab_params h)" and low: "low (m_ab_params h) = args_cells args"
    and clean: "case args of None \<Rightarrow> True | Some q \<Rightarrow> NUL \<notin> set q"
    and body: "low (m_ab_body h) = map Some body"
  shows "\<exists>ab len. merge_form h = Some (h\<lparr>m_ab_params := ab, m_content_length := len\<rparr>)
     \<and> wf_buffer ab \<and> low ab = args_cells (Some (merge_args args body))"
proof -
  obtain ab len where j: "join_params h = Some (h\<lparr>m_ab_params := ab, m_content_length := len\<rparr>)"
    "wf_buffer ab" "low ab = joined_cells args"
    using join_params_spec [OF wf low clean] by blast
  have cells: "take (get_fill_size (m_ab_body h)) (m_buffer (m_ab_body h)) = map Some body"
    using body by (simp add: low_def get_fill_size_def)
  obtain ab1 where a1: "append_cells True (map Some body) default_granulate ab = Some ab1" "wf_buffer ab1"
    "low ab1 = map Some (merge_args args body)"
    using append_cells_low [OF j(2), of "map Some body"] j(3) joined_cells_body by metis
  obtain ab2 where a2: "buffer_append True [NUL] ab1 = Some ab2" "wf_buffer ab2"
    "low ab2 = map Some (merge_args args body) @ [Some NUL]"
    using append_cells_low [OF a1(2), of "map Some [NUL]"] a1(3) by (auto simp: buffer_append_def)
  have "merge_form h = Some (h\<lparr>m_ab_params := ab2, m_content_length := len\<rparr>)"
    using j(1) cells a1(1) a2(1) by (simp add: merge_form_def)
  then show ?thesis using a2 by (auto simp: args_cells_def)
qed

text \<open>The end of the body: a form is merged into the arguments.\<close>

definition is_form :: "wire_header list \<Rightarrow> bool" where
  "is_form ws = (case lookup_ci ''Content-Type'' (map seen_header ws) of
     None \<Rightarrow> False | Some ct \<Rightarrow> mentions form_content_type False ct)"

definition body_args :: "wire_header list \<Rightarrow> string option \<Rightarrow> string \<Rightarrow> string option" where
  "body_args ws args body = (if is_form ws then Some (merge_args args body) else args)"

lemma finish_body_spec:
  assumes hv: "views (low (m_ab_header h)) (m_header_values h) (header_pairs (map seen_header ws))"
    and wf: "wf_buffer (m_ab_params h)" and low: "low (m_ab_params h) = args_cells args"
    and clean: "case args of None \<Rightarrow> True | Some q \<Rightarrow> NUL \<notin> set q"
    and body: "low (m_ab_body h) = map Some body"
  shows "\<exists>h'. finish_body h = Some h' \<and> m_body_process h' = eSuccessful \<and> same_header h h'
     \<and> m_ab_body h' = m_ab_body h \<and> m_params_value h' = m_params_value h
     \<and> wf_buffer (m_ab_params h') \<and> low (m_ab_params h') = args_cells (body_args ws args body)"
proof -
  let ?h = "h\<lparr>m_body_process := eSuccessful\<rparr>"
  have nul: "NUL \<notin> set ''Content-Type''" by (simp add: NUL_def)
  have "views (m_buffer (m_ab_header ?h)) (m_header_values ?h) (header_pairs (map seen_header ws))"
    using views_low [OF hv] by simp
  note pos = header_position_views [OF nul this]
  have merge: "\<exists>ab len. merge_form ?h = Some (?h\<lparr>m_ab_params := ab, m_content_length := len\<rparr>)
     \<and> wf_buffer ab \<and> low ab = args_cells (Some (merge_args args body))"
    using merge_form_spec [of ?h args body] wf low clean body by simp
  show ?thesis
  proof (cases "lookup_ci ''Content-Type'' (map seen_header ws)")
    case None
    with pos wf low show ?thesis
      by (simp add: finish_body_def same_header_def body_args_def is_form_def)
  next
    case (Some ct)
    with pos obtain q where q: "header_position ?h ''Content-Type'' = Some (Some q)"
      "cstr_at (m_buffer (m_ab_header ?h)) q = Some ct"
      by auto
    have "find_sub_value (m_buffer (m_ab_header ?h)) (Some q) None form_content_type CHR ''='' CHR '';'' False
       = Some (mentions form_content_type False ct, None)"
      by (rule find_sub_value_present [OF q(2)]) (simp add: form_content_type_def)
    with q(1) Some merge wf low show ?thesis
      by (auto simp: finish_body_def same_header_def body_args_def is_form_def)
  qed
qed

text \<open>The body that follows the header, as the header announced it.\<close>

definition body_ok :: "nat \<Rightarrow> string \<Rightarrow> bool" where
  "body_ok len body \<longleftrightarrow> (if len = npos then body = [] else length body = len)"

definition request_args :: "wire_request \<Rightarrow> string option" where
  "request_args r = (if q_body r = [] then q_args r else body_args (q_headers r) (q_args r) (q_body r))"

definition body_done :: "string option \<Rightarrow> string \<Rightarrow> http_request \<Rightarrow> bool" where
  "body_done args body h \<longleftrightarrow> m_body_process h = eSuccessful \<and> wf_buffer (m_ab_body h) \<and> low (m_ab_body h) = map Some body
     \<and> views (m_buffer (m_ab_params h)) (m_params_value h) (args_pairs args)"

lemma process_body_spec:
  assumes h: "m_body_process h = eProcessingFirst" "m_params_value h = []"
    "wf_buffer (m_ab_params h)" "wf_buffer (m_ab_body h)" "m_ready_position (m_ab_body h) = 0"
    and hv: "views (low (m_ab_header h)) (m_header_values h) (header_pairs (map seen_header (q_headers r)))"
    and low: "low (m_ab_params h) = args_cells (q_args r)"
    and clean: "case q_args r of None \<Rightarrow> True | Some q \<Rightarrow> NUL \<notin> set q"
    and clean': "case request_args r of None \<Rightarrow> True | Some q \<Rightarrow> NUL \<notin> set q"
    and len: "body_ok (m_content_length h) (q_body r)"
    and mem: "drop (f_ptr f) mem = map Some (q_body r) @ tail"
    and n: "length (q_body r) \<le> f_size f" "m_content_length h = 0 \<longrightarrow> f_size f = 0"
  shows "\<exists>h' f'. process_body mem h f = Some (h', f') \<and> f_done f' = f_done f + length (q_body r)
     \<and> same_header h h' \<and> body_done (request_args r) (q_body r) h'"
proof (cases "q_body r = []")
  case True
  then have args: "request_args r = q_args r" by (simp add: request_args_def)
  have "m_content_length h = npos \<or> (f_size f = 0 \<and> m_content_length h = 0)"
    using len n True by (auto simp: body_ok_def split: if_splits)
  let ?h1 = "h\<lparr>m_body_process := eSuccessful, m_content_length := 0\<rparr>"
  obtain h' where s: "split_params ?h1 = Some h'"
    "views (m_buffer (m_ab_params h')) (m_params_value h') (args_pairs (q_args r))"
    "same_header ?h1 h'" "m_ab_body h' = m_ab_body h" "m_body_process h' = eSuccessful"
    using split_params_spec [of ?h1 "q_args r"] h low clean by auto
  have "process_body mem h f = Some (h', f)"
    using h(1) s(1) \<open>m_content_length h = npos \<or> (f_size f = 0 \<and> m_content_length h = 0)\<close>
    by (simp add: process_body_def Let_def)
  moreover have "low (m_ab_body h') = []" using s(4) h(5) by (simp add: low_def)
  ultimately show ?thesis
    using s h(4) True args by (auto simp: body_done_def same_header_def)
next
  case False
  let ?L = "length (q_body r)"
  have L: "m_content_length h = ?L" "?L \<noteq> npos" "?L \<noteq> 0"
    using False len by (auto simp: body_ok_def split: if_splits)
  have min: "min (f_size f) ?L = ?L" using n by simp
  have rd: "rd mem (f_ptr f + ?L - 1) = Some (q_body r ! (?L - 1))"
  proof -
    have "f_ptr f + ?L - 1 = f_ptr f + (?L - 1)" using L(3) by arith
    then show ?thesis using rd_here [OF mem, of "?L - 1"] L(3) by simp
  qed
  have tk: "take ?L (drop (f_ptr f) mem) = map Some (q_body r)" using mem by simp
  obtain ab where ab: "append_cells True (map Some (q_body r)) default_granulate (m_ab_body h) = Some ab"
    "wf_buffer ab" "low ab = map Some (q_body r)"
    using append_cells_low [OF h(4), of "map Some (q_body r)"] h(5) by (auto simp: low_def)
  have fill: "get_fill_size ab = ?L"
    using length_low [OF ab(2)] ab(3) by (simp add: get_fill_size_def)
  let ?h1 = "h\<lparr>m_ab_body := ab\<rparr>"
  obtain h2 where h2: "finish_body ?h1 = Some h2" "m_body_process h2 = eSuccessful" "same_header ?h1 h2"
    "m_ab_body h2 = ab" "m_params_value h2 = []" "wf_buffer (m_ab_params h2)"
    "low (m_ab_params h2) = args_cells (request_args r)"
    using finish_body_spec [of ?h1 "q_headers r" "q_args r" "q_body r"] hv h low clean ab False
    by (auto simp: request_args_def)
  obtain h' where s: "split_params h2 = Some h'"
    "views (m_buffer (m_ab_params h')) (m_params_value h') (args_pairs (request_args r))"
    "same_header h2 h'" "m_ab_body h' = ab" "m_body_process h' = eSuccessful"
    using split_params_spec [OF h2(6,7,5) clean'] h2(2,4) by auto
  have "process_body mem h f = Some (h', f\<lparr>f_done := f_done f + ?L\<rparr>)"
    using h(1) L min rd tk ab(1) fill h2(1,2) s(1)
    by (simp add: process_body_def Let_def)
  moreover have "same_header h h'" using h2(3) s(3) by (simp add: same_header_def)
  ultimately show ?thesis using s ab(2,3) by (auto simp: body_done_def)
qed

section \<open>The whole request\<close>

definition request_length :: "wire_request \<Rightarrow> nat" where
  "request_length r = foldl seen_length npos (q_headers r)"

definition request_ok :: "wire_request \<Rightarrow> bool" where
  "request_ok r \<longleftrightarrow> line_ok r \<and> list_all header_ok (q_headers r) \<and>
     body_ok (request_length r) (q_body r) \<and>
     (case request_args r of None \<Rightarrow> True | Some q \<Rightarrow> NUL \<notin> set q)"

text \<open>The request sits at \<open>buffer\<close>, within the \<open>n\<close> bytes handed over.\<close>

definition given :: "wire_request \<Rightarrow> char memory \<Rightarrow> nat \<Rightarrow> nat \<Rightarrow> bool" where
  "given r mem buffer n \<longleftrightarrow>
     take (length (render_request r)) (drop buffer mem) = map Some (render_request r) \<and>
     length (render_request r) \<le> n \<and> (request_length r = 0 \<longrightarrow> n = length (render_request r))"

lemma process_header_first:
  "m_header_process h = eProcessingFirst \<Longrightarrow>
     process_header mem h f = and_then (line_steps mem h f)
       (\<lambda>h f. Option.bind (headers_loop mem h f) (\<lambda>(h1, f1). Some (True, h1, f1)))"
  by (simp add: process_header_def line_steps_def Let_def)

definition named_line :: "wire_request \<Rightarrow> http_request \<Rightarrow> bool" where
  "named_line r h \<longleftrightarrow>
     names (m_ab_header h) (m_query_method h) (q_method r) \<and>
     names (m_ab_header h) (m_query_uri h) (q_uri r) \<and>
     names (m_ab_header h) (m_query_version h) (q_version r)"

definition seen_lists :: "wire_request \<Rightarrow> http_request \<Rightarrow> bool" where
  "seen_lists r h \<longleftrightarrow>
     views (low (m_ab_header h)) (m_header_values h) (header_pairs (map seen_header (q_headers r))) \<and>
     views (low (m_ab_header h)) (m_cookies h) (concat (map seen_cookies (q_headers r)))"

lemma header_part_spec:
  assumes h: "fresh_request h" and r: "request_ok r"
    and mem: "drop (f_ptr f) mem = map Some (render_line r @ render_headers (q_headers r)) @ tail"
    and n: "length (render_line r @ render_headers (q_headers r)) \<le> f_size f"
  shows "\<exists>h' c. process_header mem h f = Some (True, h',
       (let k = length (render_line r @ render_headers (q_headers r)) in
       \<lparr>f_ptr = f_ptr f + k, f_size = f_size f - k, f_done = f_done f + k, f_chunk = c\<rparr>))
     \<and> line_seen r h' \<and> seen_lists r h' \<and> m_content_length h' = request_length r
     \<and> m_header_process h' = eSuccessful \<and> m_body_process h' = eProcessingFirst
     \<and> m_params_value h' = [] \<and> m_ab_body h' = m_ab_body h"
proof -
  let ?l = "length (render_line r)" and ?k = "length (render_headers (q_headers r))"
  have lok: "line_ok r" and hok: "list_all header_ok (q_headers r)"
    using r by (simp_all add: request_ok_def)
  have mem1: "drop (f_ptr f) mem = map Some (render_line r) @ map Some (render_headers (q_headers r)) @ tail"
    using mem by simp
  have n1: "?l \<le> f_size f" using n by simp
  obtain h1 c1 where s1: "line_steps mem h f = Some (True, h1,
       \<lparr>f_ptr = f_ptr f + ?l, f_size = f_size f - ?l, f_done = f_done f + ?l, f_chunk = c1\<rparr>)"
    and h1: "line_seen r h1" "headers_in h1 []" "m_header_process h1 = eProcessingNext"
      "m_params_value h1 = []" "m_ab_body h1 = m_ab_body h"
    using request_line_spec [OF h lok mem1 n1] by blast
  let ?f1 = "\<lparr>f_ptr = f_ptr f + ?l, f_size = f_size f - ?l, f_done = f_done f + ?l, f_chunk = c1\<rparr>"
  have mem2: "drop (f_ptr ?f1) mem = map Some (render_headers (q_headers r)) @ tail"
    by (rule drop_after [OF mem1]) simp
  have n2: "?k \<le> f_size ?f1" using n by simp
  obtain h2 c2 where s2: "headers_loop mem h1 ?f1 = Some
       (h2\<lparr>m_header_process := eSuccessful, m_body_process := eProcessingFirst\<rparr>,
        \<lparr>f_ptr = f_ptr ?f1 + ?k, f_size = f_size ?f1 - ?k, f_done = f_done ?f1 + ?k, f_chunk = c2\<rparr>)"
    and h2: "headers_in h2 (q_headers r)" "same_request_line h1 h2"
    using headers_loop_spec [OF h1(2) hok mem2 n2] by auto
  have "line_seen r h2" by (rule line_seen_same [OF h2(2) h1(1)])
  then have "line_seen r (h2\<lparr>m_header_process := eSuccessful, m_body_process := eProcessingFirst\<rparr>)"
    by (simp add: line_seen_def)
  moreover have "m_header_process h = eProcessingFirst" using h by (simp add: fresh_request_def)
  ultimately show ?thesis
    using s1 s2 h1 h2
    by (auto simp: process_header_first headers_in_def seen_lists_def request_length_def
        same_request_line_def Let_def add.assoc)
qed

theorem process_data_request:
  assumes h: "fresh_request h" and r: "request_ok r" and g: "given r mem buffer n"
  shows "\<exists>h'. process_data junk mem buffer n h = Some (length (render_request r), h')
     \<and> is_ready h' \<and> named_line r h' \<and> seen_lists r h' \<and> body_done (request_args r) (q_body r) h'"
proof -
  let ?k = "length (render_line r @ render_headers (q_headers r))"
  let ?f = "\<lparr>f_ptr = buffer, f_size = n, f_done = 0, f_chunk = junk\<rparr>"
  have "drop buffer mem = take (length (render_request r)) (drop buffer mem)
      @ drop (length (render_request r)) (drop buffer mem)"
    by (rule append_take_drop_id [symmetric])
  then obtain tail where all: "drop buffer mem = map Some (render_request r) @ tail"
    using g by (auto simp: given_def)
  have mem: "drop (f_ptr ?f) mem = map Some (render_line r @ render_headers (q_headers r))
      @ map Some (q_body r) @ tail"
    using all by (simp add: render_request_def)
  have len: "length (render_request r) = ?k + length (q_body r)" by (simp add: render_request_def)
  have n: "?k \<le> f_size ?f" using g by (simp add: given_def render_request_def)
  obtain h1 c where s1: "process_header mem h ?f = Some (True, h1,
       \<lparr>f_ptr = buffer + ?k, f_size = n - ?k, f_done = 0 + ?k, f_chunk = c\<rparr>)"
    and h1: "line_seen r h1" "seen_lists r h1" "m_content_length h1 = request_length r"
      "m_header_process h1 = eSuccessful" "m_body_process h1 = eProcessingFirst"
      "m_params_value h1 = []" "m_ab_body h1 = m_ab_body h"
    using header_part_spec [OF h r mem n] by (auto simp: Let_def)
  let ?f1 = "\<lparr>f_ptr = buffer + ?k, f_size = n - ?k, f_done = 0 + ?k, f_chunk = c\<rparr>"
  have mem2: "drop (f_ptr ?f1) mem = map Some (q_body r) @ tail"
    by (rule drop_after [OF mem]) simp
  have wf: "wf_buffer (m_ab_params h1)" "low (m_ab_params h1) = args_cells (q_args r)"
    "wf_buffer (m_ab_body h1)" "m_ready_position (m_ab_body h1) = 0"
    using h h1 by (auto simp: line_seen_def fresh_request_def wf_request_def)
  have clean: "case q_args r of None \<Rightarrow> True | Some q \<Rightarrow> NUL \<notin> set q"
    using r by (auto simp: request_ok_def line_ok_def word_ok_def split: option.splits)
  have sizes: "length (q_body r) \<le> f_size ?f1" "m_content_length h1 = 0 \<longrightarrow> f_size ?f1 = 0"
    using g h1(3) r by (auto simp: given_def len request_ok_def body_ok_def npos_def)
  obtain h' f' where s2: "process_body mem h1 ?f1 = Some (h', f')"
    "f_done f' = ?k + length (q_body r)" "same_header h1 h'" "body_done (request_args r) (q_body r) h'"
    using process_body_spec [OF h1(5,6) wf(1,3,4) _ wf(2) clean _ _ mem2 sizes] h1(2,3) r
    by (auto simp: seen_lists_def request_ok_def)
  have "process_data junk mem buffer n h = Some (length (render_request r), h')"
    using s1 s2 len by (simp add: process_data_def)
  moreover have "named_line r h'" "seen_lists r h'"
    using h1(1,2) s2(3) by (auto simp: line_seen_def named_line_def seen_lists_def same_header_def)
  ultimately show ?thesis
    using s2 h1(4) by (auto simp: is_ready_def body_done_def same_header_def)
qed

end
