(* ===== verification/Http_Theorems.thy ===== *)
theory Http_Theorems
  imports Http_Roundtrip
begin

text \<open>
  The properties of the request parser: what a complete request yields, how many bytes a call
  may report, and the inputs on which the parser departs from what it means to do.
\<close>

section \<open>Bytes reported\<close>

text \<open>
  \<open>inside lo hi f\<close>: the read pointer and the bytes left end exactly at \<open>hi\<close>, and the bytes
  reported so far do not pass the read pointer.
\<close>

definition inside :: "nat \<Rightarrow> nat \<Rightarrow> frame \<Rightarrow> bool" where
  "inside lo hi f \<longleftrightarrow> f_ptr f + f_size f = hi \<and> lo + f_done f \<le> f_ptr f"

lemma get_chunk_inside:
  assumes "get_chunk mem p n pre stops b = Some (Some (sz, ref, b'))"
  shows "1 \<le> sz" and "sz \<le> n"
  using get_chunk_size [OF assms] by simp_all

lemma inside_method:
  assumes "step_method mem h f = Some (go, h', f')" and "inside lo hi f"
  shows "inside lo hi f'"
  using assms
  by (auto simp: step_method_def inside_def advance_def Let_def bind_eq_Some_conv
      split: if_splits option.splits dest!: get_chunk_size)

lemma inside_uri:
  assumes "step_uri mem h f = Some (go, h', f')" and "inside lo hi f"
  shows "inside lo hi f'"
  using assms
  by (auto simp: step_uri_def inside_def advance_def Let_def bind_eq_Some_conv
      split: if_splits option.splits dest!: get_chunk_size)

lemma inside_params:
  assumes "step_params mem h f = Some (go, h', f')" and "inside lo hi f"
    and "rd mem hi \<noteq> Some CHR ''?''"
  shows "inside lo hi f'"
proof (cases "f_size f = 0")
  case True
  then have "rd mem (f_ptr f) \<noteq> Some CHR ''?''" using assms(2,3) by (simp add: inside_def)
  then show ?thesis using assms(1,2)
    by (auto simp: step_params_def bind_eq_Some_conv split: if_splits)
next
  case False
  then show ?thesis using assms(1,2)
    by (auto simp: step_params_def inside_def advance_def Let_def bind_eq_Some_conv
        split: if_splits option.splits dest!: get_chunk_size)
qed

lemma inside_line_end:
  "skip_line_end mem f = Some f' \<Longrightarrow> f_ptr f + f_size f = hi \<Longrightarrow>
     f_ptr f' + f_size f' = hi \<and> f_ptr f' + f_chunk f = f_ptr f + f_chunk f' \<and> f_done f' = f_done f"
  by (auto simp: skip_line_end_def advance_def bind_eq_Some_conv split: if_splits)

lemma inside_version:
  assumes "step_version mem h f = Some (go, h', f')" and "inside lo hi f"
  shows "inside lo hi f'"
proof (cases "is_valid (m_query_version h)")
  case False
  from assms(1) False obtain r where
    r: "get_chunk mem (f_ptr f) (f_size f) CHR '' '' [CR, LF] (m_ab_header h) = Some r"
    by (auto simp: step_version_def bind_eq_Some_conv)
  show ?thesis
  proof (cases r)
    case (Some t)
    obtain sz ref ab where t: "t = (sz, ref, ab)" by (cases t)
    from r have sz: "1 \<le> sz" "sz \<le> f_size f" unfolding Some t by (auto dest!: get_chunk_size)
    obtain f2 where f2: "skip_line_end mem ((advance sz f)\<lparr>f_chunk := sz\<rparr>) = Some f2"
      and f': "f' = f2\<lparr>f_done := f_done f2 + f_chunk f2\<rparr>"
      using assms(1) False r unfolding Some t
      by (auto simp: step_version_def Let_def bind_eq_Some_conv)
    show ?thesis
      using inside_line_end [OF f2, of hi] assms(2) sz
      by (auto simp: f' inside_def advance_def)
  qed (use assms False r in \<open>auto simp: step_version_def\<close>)
qed (use assms in \<open>auto simp: step_version_def\<close>)

lemma inside_header_line:
  assumes line: "header_line mem h f = Some (go, h', f')" and "inside lo hi f"
  shows "inside lo hi f'"
proof -
  obtain rk where rk: "get_chunk mem (f_ptr f) (f_size f) CHR '' '' '':'' (m_ab_header h) = Some rk"
    using line by (auto simp: header_line_def bind_eq_Some_conv)
  show ?thesis
  proof (cases rk)
    case (Some t)
    obtain sz key_ref ab where t: "t = (sz, key_ref, ab)" by (cases t)
    from rk have sz: "1 \<le> sz" "sz \<le> f_size f" unfolding Some t by (auto dest!: get_chunk_size)
    define f1 where "f1 = (advance sz f)\<lparr>f_chunk := sz\<rparr>"
    have f1: "f_ptr f1 + f_size f1 = hi" "lo + f_done f1 + sz \<le> f_ptr f1" "f_chunk f1 = sz"
      using assms(2) sz by (auto simp: f1_def inside_def advance_def)
    have line1: "Option.bind (get_chunk mem (f_ptr f1) (f_size f1) CHR '' '' [CR, LF] ab)
        (\<lambda>rv. case rv of
             None \<Rightarrow> Some (False, h\<lparr>m_ab_header := decrement_free_size sz ab\<rparr>, f1)
           | Some (sz_v, value_ref, ab2) \<Rightarrow>
               do { f2 \<leftarrow> skip_line_end mem (advance sz_v f1);
                    h2 \<leftarrow> record_header key_ref value_ref sz_v (h\<lparr>m_ab_header := ab2\<rparr>);
                    Some (True, h2, f2\<lparr>f_done := f_done f2 + (f_chunk f2 + sz_v)\<rparr>) })
       = Some (go, h', f')"
      using line rk unfolding Some t header_line_def Let_def f1_def by simp
    then obtain rv where rv: "get_chunk mem (f_ptr f1) (f_size f1) CHR '' '' [CR, LF] ab = Some rv"
      by (auto simp: bind_eq_Some_conv)
    show ?thesis
    proof (cases rv)
      case None
      then have "f' = f1" using line1 rv by simp
      then show ?thesis using f1 by (simp add: inside_def)
    next
      case rv': (Some u)
      obtain sz_v value_ref ab2 where u: "u = (sz_v, value_ref, ab2)" by (cases u)
      from rv have sz_v: "1 \<le> sz_v" "sz_v \<le> f_size f1" unfolding rv' u by (auto dest!: get_chunk_size)
      obtain f2 where f2: "skip_line_end mem (advance sz_v f1) = Some f2"
        and f': "f' = f2\<lparr>f_done := f_done f2 + (f_chunk f2 + sz_v)\<rparr>"
        using line1 rv unfolding rv' u by (auto simp: bind_eq_Some_conv)
      have a: "f_ptr (advance sz_v f1) + f_size (advance sz_v f1) = hi"
        using f1 sz_v by (simp add: advance_def)
      show ?thesis
        using inside_line_end [OF f2 a] f1 sz_v by (auto simp: f' inside_def advance_def)
    qed
  qed (use assms rk in \<open>auto simp: header_line_def\<close>)
qed

lemma inside_headers_loop:
  "headers_loop mem h f = Some (h', f') \<Longrightarrow> inside lo hi f \<Longrightarrow> inside lo hi f'"
proof (induction mem h f rule: headers_loop.induct)
  case (1 mem h f)
  show ?case
  proof (cases "2 \<le> f_size f")
    case False
    with "1.prems" show ?thesis by (subst (asm) headers_loop.simps) simp
  next
    case size: True
    obtain blank where blank: "at_blank_line mem f = Some blank"
      using "1.prems"(1) size by (subst (asm) headers_loop.simps) (auto split: option.splits)
    show ?thesis
    proof (cases blank)
      case True
      with "1.prems" size blank show ?thesis
        by (subst (asm) headers_loop.simps) (auto simp: inside_def advance_def)
    next
      case False
      obtain go h1 f1 where line: "header_line mem h f = Some (go, h1, f1)"
        using "1.prems"(1) size blank False
        by (subst (asm) headers_loop.simps) (auto split: option.splits)
      have f1: "inside lo hi f1" by (rule inside_header_line [OF line "1.prems"(2)])
      have "(if go then headers_loop mem h1 f1 else Some (h1, f1)) = Some (h', f')"
        using "1.prems"(1) size blank False line
        by (subst (asm) headers_loop.simps) simp
      then show ?thesis
        using "1.IH" [OF size blank _ line refl refl] False f1 by (cases go) auto
    qed
  qed
qed

lemma and_then_Some:
  assumes "and_then r k = Some (go, h', f')"
  shows "\<exists>go1 h1 f1. r = Some (go1, h1, f1) \<and>
     (if go1 then k h1 f1 = Some (go, h', f') else h' = h1 \<and> f' = f1)"
  using assms by (cases r) (auto simp: and_then_def split: if_splits)

lemma inside_and_then:
  assumes "and_then r k = Some (go, h', f')"
    and "\<And>go1 h1 f1. r = Some (go1, h1, f1) \<Longrightarrow> inside lo hi f1"
    and "\<And>go1 h1 f1 h2 f2. inside lo hi f1 \<Longrightarrow> k h1 f1 = Some (go1, h2, f2) \<Longrightarrow> inside lo hi f2"
  shows "inside lo hi f'"
  using and_then_Some [OF assms(1)] assms(2,3) by (metis (full_types))

lemma inside_process_header:
  assumes "process_header mem h f = Some (go, h', f')" and "inside lo hi f"
    and q: "rd mem hi \<noteq> Some CHR ''?''"
  shows "inside lo hi f'"
proof -
  have lines: "inside lo hi f2"
    if "Option.bind (headers_loop mem h1 f1) (\<lambda>(h1, f1). Some (True, h1, f1)) = Some (go1, h2, f2)"
      "inside lo hi f1" for go1 h1 f1 h2 f2
    using that by (auto simp: bind_eq_Some_conv intro: inside_headers_loop)
  show ?thesis
  proof (cases "m_header_process h")
    case eProcessingFirst
    have params: "inside lo hi f2"
      if "inside lo hi f1" "step_params mem h1 f1 = Some (go1, h2, f2)" for go1 h1 f1 h2 f2
      by (rule inside_params [OF that(2,1) q])
    have steps: "inside lo hi f1" if "line_steps mem h f = Some (go1, h1, f1)" for go1 h1 f1
      using that unfolding line_steps_def
      by (rule inside_and_then)
         (erule inside_and_then, erule inside_and_then, erule inside_method [OF _ assms(2)],
          erule (1) inside_uri [rotated], erule (1) params, erule (1) inside_version [rotated])
    show ?thesis
      using assms(1) unfolding process_header_first [OF eProcessingFirst]
      by (rule inside_and_then) (erule steps, erule (1) lines [rotated])
  qed (use assms(1,2) lines in \<open>auto simp: process_header_def\<close>)
qed

lemma inside_process_body:
  assumes "process_body mem h f = Some (h', f')" and "inside lo hi f"
  shows "lo + f_done f' \<le> hi"
proof -
  have "f_done f' \<le> f_done f + f_size f"
    using assms(1)
    by (auto simp: process_body_def Let_def bind_eq_Some_conv split: if_splits)
  with assms(2) show ?thesis by (simp add: inside_def)
qed

section \<open>A sample request\<close>

definition sample_request :: wire_request where
  "sample_request =
     \<lparr>q_method = ''POST'', q_uri = ''/login'', q_args = Some ''next=1&flag'', q_version = ''HTTP/1.1'',
      q_headers =
        [(''Host'', 1, ''example.org''),
         (''Content-Type'', 1, ''application/x-www-form-urlencoded''),
         (''Content-Length'', 1, ''9''),
         (''Cookie'', 0, ''sid=42; lang=en'')],
      q_body = ''user=anna''\<rparr>"

lemmas request_eval =
  line_ok_def word_ok_def header_ok_def atoi_def in_range_def strto_int_def is_space_c_def digit_c_def
  size_of_int_def npos_def request_length_def seen_length_def request_args_def body_args_def
  merge_args_def args_pairs_def pairs_of_def pair_of_def lead_def after_last_eq_def lookup_or_def
  is_form_def seen_header_def form_content_type_def char_eval

lemma sample_request_args:
  "request_args sample_request = Some ''next=1&flag&user=anna''"
  by (simp add: sample_request_def request_eval)

lemma sample_request_length: "request_length sample_request = 9"
  by (simp add: sample_request_def request_eval)

lemma sample_request_ok: "request_ok sample_request"
proof -
  have "line_ok sample_request" by (simp add: sample_request_def request_eval)
  moreover have "list_all header_ok (q_headers sample_request)"
    by (simp add: sample_request_def request_eval)
  moreover have "body_ok 9 (q_body sample_request)"
    by (simp add: sample_request_def body_ok_def npos_def)
  ultimately show ?thesis
    by (simp add: request_ok_def sample_request_length sample_request_args NUL_def)
qed

definition sample_memory :: "char memory" where
  "sample_memory = map Some (render_request sample_request @ ''GET /next'')"

definition sample_given :: nat where
  "sample_given = length (render_request sample_request) + 4"

lemma sample_request_given: "given sample_request sample_memory 0 sample_given"
  by (simp add: given_def sample_memory_def sample_given_def sample_request_length)

lemma wf_request_new: "wf_request request_new"
  using fresh_request_new by (simp add: fresh_request_def)

section \<open>Complete requests\<close>

text \<open>C4: a complete request handed over in one piece, whatever follows it in the buffer, is taken
  to its last byte and no further, by a request object that was used before and cleared; the
  object is then ready and holds the method, the path and the body of the request.\<close>

theorem process_data_complete:
  assumes "wf_request h0" and "request_ok r" and "given r mem buffer n"
  shows "\<exists>h. process_data junk mem buffer n (request_clear h0) = Some (length (render_request r), h)
     \<and> is_ready h \<and> get_query_method h = Some (q_method r) \<and> get_query_uri h = Some (q_uri r)
     \<and> take (get_fill_size (m_ab_body h)) (m_buffer (m_ab_body h)) = map Some (q_body r)"
  using process_data_request [OF fresh_request_clear [OF assms(1)] assms(2,3), of junk]
  by (auto simp: named_line_def body_done_def low_def get_fill_size_def get_query_method_def
      get_query_uri_def dest: names_string)

lemma process_data_complete_witness:
  "\<exists>h. process_data 7 sample_memory 0 sample_given (request_clear request_new)
       = Some (length (render_request sample_request), h)
     \<and> is_ready h \<and> get_query_method h = Some ''POST'' \<and> get_query_uri h = Some ''/login''
     \<and> take (get_fill_size (m_ab_body h)) (m_buffer (m_ab_body h)) = map Some ''user=anna''"
  using process_data_complete [OF wf_request_new sample_request_ok sample_request_given, of 7]
  by (simp add: sample_request_def)

text \<open>C5: after a complete request the header lookup returns, for every key, the value of the first
  header line whose key matches without regard to case, and the default when there is none; a
  cookie value is cut at its first semicolon or equals sign by the cookie parser. The cookie
  lookup finds the pairs of the cookie lines.\<close>

theorem request_headers_found:
  assumes "wf_request h0" and "request_ok r" and "given r mem buffer n" and "NUL \<notin> set key"
  shows "\<exists>h. process_data junk mem buffer n (request_clear h0) = Some (length (render_request r), h)
     \<and> get_header_parameter h key dflt =
         Some (case lookup_ci key (map seen_header (q_headers r)) of None \<Rightarrow> dflt | Some v \<Rightarrow> Some v)
     \<and> get_cookie h key dflt = Some (lookup_or key (concat (map seen_cookies (q_headers r))) dflt)"
proof -
  obtain h where h: "process_data junk mem buffer n (request_clear h0) = Some (length (render_request r), h)"
    "seen_lists r h"
    using process_data_request [OF fresh_request_clear [OF assms(1)] assms(2,3), of junk] by auto
  then show ?thesis
    using get_header_parameter_views [OF assms(4) views_low] get_cookie_views [OF assms(4) views_low]
    by (auto simp: seen_lists_def)
qed

lemma request_headers_found_witness:
  "\<exists>h. process_data 7 sample_memory 0 sample_given (request_clear request_new)
       = Some (length (render_request sample_request), h)
     \<and> get_header_parameter h ''HOST'' None = Some (Some ''example.org'')
     \<and> get_cookie h ''HOST'' None = Some None"
proof -
  have key: "NUL \<notin> set ''HOST''" by (simp add: NUL_def)
  have host: "lookup_ci ''HOST'' (map seen_header (q_headers sample_request)) = Some ''example.org''"
    by (simp add: sample_request_def seen_header_def char_eval)
  have cookie: "lookup_or ''HOST'' (concat (map seen_cookies (q_headers sample_request))) dflt = dflt" for dflt
    by (simp add: sample_request_def seen_cookies_def request_eval)
  show ?thesis
    using request_headers_found [OF wf_request_new sample_request_ok sample_request_given key, of 7 None]
    unfolding host cookie by simp
qed

text \<open>C6: after a complete request the parameter lookup returns the value of the first matching pair
  of the query string and, for a form, of the body, which is joined to the query string with an
  ampersand.\<close>

theorem request_parameters_found:
  assumes "wf_request h0" and "request_ok r" and "given r mem buffer n" and "NUL \<notin> set key"
  shows "\<exists>h. process_data junk mem buffer n (request_clear h0) = Some (length (render_request r), h)
     \<and> get_parameter h key dflt = Some (lookup_or key (args_pairs (request_args r)) dflt)"
proof -
  obtain h where "process_data junk mem buffer n (request_clear h0) = Some (length (render_request r), h)"
    "body_done (request_args r) (q_body r) h"
    using process_data_request [OF fresh_request_clear [OF assms(1)] assms(2,3), of junk] by auto
  then show ?thesis using get_parameter_views [OF assms(4)] by (auto simp: body_done_def)
qed

lemma request_parameters_found_witness:
  "\<exists>h. process_data 7 sample_memory 0 sample_given (request_clear request_new)
       = Some (length (render_request sample_request), h)
     \<and> get_parameter h ''USER'' None = Some (Some ''anna'')"
proof -
  have "NUL \<notin> set ''USER''" by (simp add: NUL_def)
  moreover have "lookup_or ''USER'' (args_pairs (request_args sample_request)) None = Some ''anna''"
    unfolding sample_request_args by (simp add: request_eval)
  ultimately show ?thesis
    using request_parameters_found [OF wf_request_new sample_request_ok sample_request_given, of "''USER''" 7 None]
    by metis
qed

section \<open>Bytes reported, and bytes read\<close>

text \<open>C38: a call reports at most as many bytes as it was given, provided the byte behind them is not
  a question mark.\<close>

theorem process_data_bound:
  assumes "process_data junk mem buffer n h = Some (k, h')" and "rd mem (buffer + n) \<noteq> Some CHR ''?''"
  shows "k \<le> n"
proof -
  let ?f = "\<lparr>f_ptr = buffer, f_size = n, f_done = 0, f_chunk = junk\<rparr>"
  have start: "inside buffer (buffer + n) ?f" by (simp add: inside_def)
  obtain go h1 f1 where s: "process_header mem h ?f = Some (go, h1, f1)"
    using assms(1) by (auto simp: process_data_def bind_eq_Some_conv)
  have f1: "inside buffer (buffer + n) f1"
    by (rule inside_process_header [OF s start assms(2)])
  show ?thesis
  proof (cases go)
    case True
    then obtain h2 f2 where b: "process_body mem h1 f1 = Some (h2, f2)" and k: "k = f_done f2"
      using assms(1) s by (auto simp: process_data_def bind_eq_Some_conv)
    show ?thesis using inside_process_body [OF b f1] k by simp
  next
    case False
    then show ?thesis using assms(1) s f1 by (auto simp: process_data_def inside_def)
  qed
qed

definition short_line :: "char memory" where
  "short_line = map Some ''GET /a HTTP''"

lemmas parser_eval =
  process_data_def process_header_def request_new_def request_clear_def
  auto_buffer_new_def flush_free_size_def clear_reference_def step_method_def is_valid_def get_chunk_def
  gc_prefix.simps gc_stop.simps rd_def get_fill_size_def append_cells_def get_free_size_def
  check_size_def default_granulate_def write_cells_def set_element_def advance_def
  step_uri_def step_params_def step_version_def and_then_def skip_line_end_def header_line_def
  record_header_def at_blank_line_def headers_loop.simps process_body_def split_params_def parse_string_def
  parse_string_loop.simps trim_key_def finish_body_def header_position_def usub_def size_modulus_def
  cstr_at_def is_ready_def get_parameter_def get_header_parameter_def value_or_default_def string_at_def
  c_str_def low_def

lemma short_line_result: "\<exists>h. process_data 0 short_line 0 11 request_new = Some (7, h)"
  by (simp add: short_line_def parser_eval request_eval)

lemma process_data_bound_witness:
  "\<exists>h. process_data 0 short_line 0 11 request_new = Some (7, h) \<and> (7::nat) \<le> 11"
proof -
  have "rd short_line (0 + 11) \<noteq> Some CHR ''?''" by (simp add: short_line_def rd_def)
  with short_line_result show ?thesis using process_data_bound by blast
qed

text \<open>with a question mark left over behind the bytes given, the parser reads it, the number of
  bytes left wraps around, and a request is put together from bytes that were not given: of 7 bytes
  given, 17 are reported as taken.\<close>

theorem process_data_takes_stale_bytes:
  "\<exists>h. process_data junk (map Some (''GET /a ?x=1 H'' @ [CR, LF, CR, LF])) 0 7 (request_clear request_new)
       = Some (17, h) \<and> is_ready h \<and> get_parameter h ''x'' None = Some (Some ''1'')"
  by (simp add: parser_eval request_eval)

section \<open>Requests in pieces\<close>

text \<open>a header line whose key has not arrived completely is left for the next call, but the write
  position of the header buffer is moved by the local \<open>chunk_size\<close>, which is uninitialised when the
  call starts within the header lines.\<close>

theorem unfinished_header_key:
  assumes "m_header_process h = eProcessingNext" and "m_body_process h = eNone"
    and "drop buffer mem = map Some xs @ tail" and "length xs = n" and "2 \<le> n"
    and "CHR '':'' \<notin> set xs" and "hd xs \<noteq> CR"
  shows "process_data junk mem buffer n h
     = Some (0, h\<lparr>m_ab_header := decrement_free_size junk (m_ab_header h)\<rparr>)"
proof -
  let ?f = "\<lparr>f_ptr = buffer, f_size = n, f_done = 0, f_chunk = junk\<rparr>"
  have "rd mem buffer = Some (hd xs)"
    using rd_here [OF assms(3), of 0] assms(4,5) by (cases xs) auto
  then have blank: "at_blank_line mem ?f = Some False" using assms(7) by (simp add: at_blank_line_def)
  have "get_chunk mem buffer n CHR '' '' '':'' (m_ab_header h) = Some None"
    by (rule get_chunk_missing [OF assms(3,4)]) (use assms(6) in simp)
  then have line: "header_line mem h ?f
      = Some (False, h\<lparr>m_ab_header := decrement_free_size junk (m_ab_header h)\<rparr>, ?f)"
    by (simp add: header_line_def)
  have "headers_loop mem h ?f = Some (h\<lparr>m_ab_header := decrement_free_size junk (m_ab_header h)\<rparr>, ?f)"
    using blank line assms(5) by (subst headers_loop.simps) simp
  then show ?thesis
    using assms(1,2) by (simp add: process_data_def process_header_def process_body_def)
qed

definition header_state :: http_request where
  "header_state = (request_clear request_new)\<lparr>m_header_process := eProcessingNext\<rparr>"

lemma unfinished_header_key_witness:
  "process_data 700 (map Some ''Conten'') 0 6 (header_state\<lparr>m_ab_header := auto_buffer_external (replicate 64 LF)\<rparr>)
     = Some (0, header_state\<lparr>m_ab_header := auto_buffer_external (replicate 64 LF)\<rparr>)"
proof -
  have "decrement_free_size 700 (auto_buffer_external (replicate 64 LF)) = auto_buffer_external (replicate 64 LF)"
    by (simp add: decrement_free_size_def auto_buffer_external_def uadd_def size_modulus_def)
  then show ?thesis
    using unfinished_header_key [of "header_state\<lparr>m_ab_header := auto_buffer_external (replicate 64 LF)\<rparr>"
        0 "map Some ''Conten''" "''Conten''" "[]" 6 700]
    by (simp add: header_state_def request_clear_def)
qed

definition cut_line :: string where
  "cut_line = ''GET / H'' @ [CR]"

definition cut_line_rest :: string where
  "cut_line_rest = [LF] @ ''Host: a'' @ [CR, LF, CR, LF]"

text \<open>a request cut between CR and LF of its request line is misread: the LF becomes the first
  character of the next header key, and the header is not found.\<close>

theorem line_end_cut_in_two:
  "\<exists>h1 h2. process_data junk (map Some (cut_line @ cut_line_rest)) 0 20 (request_clear request_new) = Some (20, h1)
    \<and> get_header_parameter h1 ''Host'' None = Some (Some ''a'')
    \<and> (\<exists>h. process_data junk (map Some cut_line) 0 8 (request_clear request_new) = Some (8, h)
         \<and> process_data junk (map Some cut_line_rest) 0 12 h = Some (12, h2))
    \<and> is_ready h2 \<and> get_header_parameter h2 ''Host'' None = Some None"
  by (simp add: cut_line_def cut_line_rest_def parser_eval request_eval)

definition cut_post :: string where
  "cut_post = ''POST / H'' @ [CR, LF] @ ''Content-Length: 4'' @ [CR, LF, CR, LF] @ ''ab''"

text \<open>when a body arrives in two pieces the parser takes up to the whole \<open>Content-Length\<close> again
  from the second piece: the body ends up with bytes of the next request.\<close>

theorem body_in_pieces_takes_too_much:
  "\<exists>h1 h2. process_data junk (map Some cut_post) 0 (length cut_post) (request_clear request_new)
       = Some (length cut_post, h1)
    \<and> process_data junk (map Some ''cdGET '') 0 6 h1 = Some (4, h2)
    \<and> is_ready h2 \<and> low (m_ab_body h2) = map Some ''abcdGE''"
  by (simp add: cut_post_def parser_eval request_eval)

definition lower_post :: string where
  "lower_post = ''POST / H'' @ [CR, LF] @ ''content-length: 2'' @ [CR, LF, CR, LF]"

text \<open>the length of the body is taken from the header only when its key is written exactly
  \<open>Content-Length\<close>, although all other lookups ignore case: the body of this request is left in
  the receive buffer, where the next request is expected.\<close>

theorem content_length_key_is_case_sensitive:
  "\<exists>h. process_data junk (map Some (lower_post @ ''ab'')) 0 (length lower_post + 2) (request_clear request_new)
       = Some (length lower_post, h)
    \<and> is_ready h \<and> get_header_parameter h ''Content-Length'' None = Some (Some ''2'')
    \<and> low (m_ab_body h) = []"
  by (simp add: lower_post_def parser_eval request_eval)

section \<open>Query strings\<close>

text \<open>Arguments written out as \<open>key=value\<close> pairs joined by ampersands.\<close>

fun render_args :: "(string \<times> string) list \<Rightarrow> string" where
  "render_args [] = []"
| "render_args [(k, v)] = k @ ''='' @ v"
| "render_args ((k, v) # kv # kvs) = k @ ''='' @ v @ ''&'' @ render_args (kv # kvs)"

definition arg_ok :: "string \<times> string \<Rightarrow> bool" where
  "arg_ok kv \<longleftrightarrow> set (fst kv @ snd kv) \<inter> set (NUL # ''&='') = {}"

lemma split_from_clean: "sep \<notin> set xs \<Longrightarrow> split_from sep seg (xs @ ys) = split_from sep (seg @ xs) ys"
  by (induction xs arbitrary: seg) auto

lemma pair_of_arg:
  assumes "arg_ok (k, v)"
  shows "pair_of False (k @ ''='' @ v) = (k, Some v)"
proof -
  have k: "CHR ''='' \<notin> set k" and v: "CHR ''='' \<notin> set v" using assms by (auto simp: arg_ok_def)
  have "takeWhile (\<lambda>c. c \<noteq> CHR ''='') (rev v @ CHR ''='' # rev k) = rev v"
    using v by (subst takeWhile_append2) auto
  then have "after_last_eq (k @ ''='' @ v) = length k + 1" by (simp add: after_last_eq_def)
  moreover have "takeWhile (\<lambda>c. c \<noteq> CHR ''='') (k @ CHR ''='' # v) = k"
    using k by (subst takeWhile_append2) auto
  ultimately show ?thesis by (simp add: pair_of_def lead_def)
qed

lemma split_args:
  "list_all arg_ok kvs \<Longrightarrow> kvs \<noteq> [] \<Longrightarrow>
     split_from CHR ''&'' [] (render_args kvs) = map (\<lambda>(k, v). k @ ''='' @ v) kvs"
proof (induction kvs rule: render_args.induct)
  case (2 k v)
  then have "CHR ''&'' \<notin> set (k @ ''='' @ v)" by (auto simp: arg_ok_def)
  from split_from_clean [OF this, of "[]" "[]"] show ?case by simp
next
  case (3 k v kv kvs)
  then have "CHR ''&'' \<notin> set (k @ ''='' @ v)" by (auto simp: arg_ok_def)
  from split_from_clean [OF this, of "[]" "''&'' @ render_args (kv # kvs)"] 3 show ?case by simp
qed simp

lemma pairs_of_args:
  assumes "list_all arg_ok kvs" and "kvs \<noteq> []"
  shows "pairs_of CHR ''&'' False (render_args kvs) = header_pairs kvs"
  using split_args [OF assms] assms(1) pair_of_arg
  by (auto simp: pairs_of_def header_pairs_def list_all_iff)

lemma render_args_clean: "list_all arg_ok kvs \<Longrightarrow> NUL \<notin> set (render_args kvs)"
  by (induction kvs rule: render_args.induct) (auto simp: arg_ok_def NUL_def)

text \<open>arguments written as key=value pairs survive the split: after \<open>parse_string\<close> over the text of
  the pairs, the lookup of a key finds the value of its first pair, and every other key is absent.\<close>

theorem query_string_roundtrip:
  assumes "list_all arg_ok kvs" and "kvs \<noteq> []" and "NUL \<notin> set key"
    and "m_buffer b = map Some (render_args kvs) @ Some NUL # R"
  shows "\<exists>b' ps. parse_string 0 (length (render_args kvs) + 1) [] CHR ''&'' False b = Some (b', ps)
     \<and> length ps = length kvs
     \<and> (case lookup_ci key kvs of
          None \<Rightarrow> find_pair key (m_buffer b') ps = Some None
        | Some v \<Rightarrow> \<exists>q. find_pair key (m_buffer b') ps = Some (Some (Some q)) \<and> cstr_at (m_buffer b') q = Some v)"
proof -
  have sep: "CHR ''&'' \<noteq> NUL" "CHR ''&'' \<noteq> CHR ''=''" "CHR ''&'' \<noteq> CHR '' ''" by (simp_all add: NUL_def)
  have cells: "m_buffer b = [] @ map Some (render_args kvs) @ Some NUL # R" using assms(4) by simp
  have "length (render_args kvs) < length (render_args kvs) + 1" by simp
  from parse_string_spec [OF sep cells render_args_clean [OF assms(1)] this, of "[]" False]
  obtain ps where ps: "parse_string 0 (length (render_args kvs) + 1) [] CHR ''&'' False b
      = Some (b\<lparr>m_buffer := map Some (zap CHR ''&'' (render_args kvs)) @ Some NUL # R\<rparr>, ps)"
    "map (read_pair (map Some (zap CHR ''&'' (render_args kvs)) @ Some NUL # R)) ps
      = map pair_view (header_pairs kvs)"
    unfolding pairs_of_args [OF assms(1,2)] by auto
  have "length ps = length kvs"
    using arg_cong [OF ps(2), of length] by (simp add: header_pairs_def)
  moreover note find_pair_views [OF assms(3) ps(2) [folded views_def]]
  ultimately show ?thesis
    using ps(1) by (auto simp: lookup_ci_header_pairs split: option.splits)
qed

lemma query_string_roundtrip_witness:
  "\<exists>b' ps. parse_string 0 8 [] CHR ''&'' False (auto_buffer_external (''a=1&b=2'' @ [NUL])) = Some (b', ps)
     \<and> length ps = 2
     \<and> (\<exists>q. find_pair ''B'' (m_buffer b') ps = Some (Some (Some q)) \<and> cstr_at (m_buffer b') q = Some ''2'')"
proof -
  let ?kvs = "[(''a'', ''1''), (''b'', ''2'')]"
  have "list_all arg_ok ?kvs" "?kvs \<noteq> []" "NUL \<notin> set ''B''"
    "m_buffer (auto_buffer_external (''a=1&b=2'' @ [NUL])) = map Some (render_args ?kvs) @ Some NUL # []"
    by (simp_all add: arg_ok_def NUL_def auto_buffer_external_def)
  moreover have "lookup_ci ''B'' ?kvs = Some ''2''" by (simp add: char_eval)
  ultimately show ?thesis
    using query_string_roundtrip [of ?kvs "''B''" "auto_buffer_external (''a=1&b=2'' @ [NUL])" "[]"]
    by (simp add: eval_nat_numeral)
qed

end
