(* ===== verification/Unicode_Attribute_Tables.thy ===== *)
theory Unicode_Attribute_Tables
  imports Khl_Prelude
begin

text \<open>
  The generated table of \<open>src/unicode/attribute.h\<close> and the attribute bits of
  \<open>src/unicode/iswbits.h\<close>: pages of 256 attribute bytes and the table of pages. The flags that
  are 0 in \<open>iswbits.h\<close> (\<open>digit\<close>, \<open>graph\<close>, \<open>punct\<close>, \<open>alnum\<close>) are left out of the entries.
  Each page is written as its runs of equal entries, first the length of the run.
\<close>

unbundle bit_operations_syntax

section \<open>Attribute bits\<close>

definition c_upper :: nat where "c_upper = 1"
definition c_lower :: nat where "c_lower = 2"
definition c_alpha :: nat where "c_alpha = 4"
definition c_digit :: nat where "c_digit = 0"
definition c_xdigit :: nat where "c_xdigit = 8"
definition c_space :: nat where "c_space = 16"
definition c_print :: nat where "c_print = 32"
definition c_graph :: nat where "c_graph = 0"
definition c_blank :: nat where "c_blank = 64"
definition c_cntrl :: nat where "c_cntrl = 128"
definition c_punct :: nat where "c_punct = 0"
definition c_alnum :: nat where "c_alnum = 0"

lemmas attribute_bits =
  c_upper_def c_lower_def c_alpha_def c_digit_def c_xdigit_def c_space_def c_print_def c_graph_def
  c_blank_def c_cntrl_def c_punct_def c_alnum_def

text \<open>The entries that occur, as combinations of the bits.\<close>

definition a_print :: nat where "a_print = c_print"
definition a_letter :: nat where "a_letter = c_alpha OR c_print"
definition a_upper :: nat where "a_upper = c_upper OR c_alpha OR c_print"
definition a_lower :: nat where "a_lower = c_lower OR c_alpha OR c_print"
definition a_digit :: nat where "a_digit = c_xdigit OR c_print"
definition a_upper_hex :: nat where "a_upper_hex = c_upper OR c_alpha OR c_xdigit OR c_print"
definition a_lower_hex :: nat where "a_lower_hex = c_lower OR c_alpha OR c_xdigit OR c_print"
definition a_blank :: nat where "a_blank = c_space OR c_print OR c_blank"
definition a_cntrl :: nat where "a_cntrl = c_cntrl"
definition a_cntrl_space :: nat where "a_cntrl_space = c_space OR c_cntrl"
definition a_cntrl_blank :: nat where "a_cntrl_blank = c_space OR c_blank OR c_cntrl"

lemmas entries =
  a_print_def a_letter_def a_upper_def a_lower_def a_digit_def a_upper_hex_def a_lower_hex_def a_blank_def a_cntrl_def a_cntrl_space_def a_cntrl_blank_def

definition runs :: "(nat \<times> 'a) list \<Rightarrow> 'a list" where
  "runs rs = concat (map (\<lambda>(n, v). replicate n v) rs)"

section \<open>Pages\<close>

definition attribute_table_page00 :: "nat list" where
  "attribute_table_page00 = runs [
    (9, a_cntrl), (1, a_cntrl_blank), (4, a_cntrl_space), (18, a_cntrl), (1, a_blank), (15, a_print),
    (10, a_digit), (7, a_print), (6, a_upper_hex), (20, a_upper), (6, a_print), (6, a_lower_hex),
    (20, a_lower), (4, a_print), (33, a_cntrl), (10, a_print), (1, a_letter), (10, a_print),
    (1, a_lower), (4, a_print), (1, a_letter), (5, a_print), (23, a_upper), (1, a_print), (7, a_upper),
    (1, a_letter), (23, a_lower), (1, a_print), (8, a_lower)]"

definition attribute_table_page01 :: "nat list" where
  "attribute_table_page01 = runs [
    (1, a_upper), (1, a_lower), (1, a_upper), (1, a_lower), (1, a_upper), (1, a_lower), (1, a_upper),
    (1, a_lower), (1, a_upper), (1, a_lower), (1, a_upper), (1, a_lower), (1, a_upper), (1, a_lower),
    (1, a_upper), (1, a_lower), (1, a_upper), (1, a_lower), (1, a_upper), (1, a_lower), (1, a_upper),
    (1, a_lower), (1, a_upper), (1, a_lower), (1, a_upper), (1, a_lower), (1, a_upper), (1, a_lower),
    (1, a_upper), (1, a_lower), (1, a_upper), (1, a_lower), (1, a_upper), (1, a_lower), (1, a_upper),
    (1, a_lower), (1, a_upper), (1, a_lower), (1, a_upper), (1, a_lower), (1, a_upper), (1, a_lower),
    (1, a_upper), (1, a_lower), (1, a_upper), (1, a_lower), (1, a_upper), (1, a_lower), (1, a_upper),
    (1, a_lower), (1, a_upper), (1, a_lower), (1, a_upper), (1, a_lower), (1, a_upper), (1, a_lower),
    (1, a_letter), (1, a_upper), (1, a_lower), (1, a_upper), (1, a_lower), (1, a_upper), (1, a_lower),
    (1, a_upper), (1, a_lower), (1, a_upper), (1, a_lower), (1, a_upper), (1, a_lower), (1, a_upper),
    (1, a_lower), (1, a_upper), (1, a_lower), (1, a_letter), (1, a_upper), (1, a_lower), (1, a_upper),
    (1, a_lower), (1, a_upper), (1, a_lower), (1, a_upper), (1, a_lower), (1, a_upper), (1, a_lower),
    (1, a_upper), (1, a_lower), (1, a_upper), (1, a_lower), (1, a_upper), (1, a_lower), (1, a_upper),
    (1, a_lower), (1, a_upper), (1, a_lower), (1, a_upper), (1, a_lower), (1, a_upper), (1, a_lower),
    (1, a_upper), (1, a_lower), (1, a_upper), (1, a_lower), (1, a_upper), (1, a_lower), (1, a_upper),
    (1, a_lower), (1, a_upper), (1, a_lower), (1, a_upper), (1, a_lower), (1, a_upper), (1, a_lower),
    (1, a_upper), (1, a_lower), (1, a_upper), (1, a_lower), (1, a_upper), (1, a_lower), (1, a_upper),
    (1, a_lower), (2, a_upper), (1, a_lower), (1, a_upper), (1, a_lower), (1, a_upper), (2, a_lower),
    (1, a_letter), (2, a_upper), (1, a_lower), (1, a_upper), (1, a_lower), (2, a_upper), (1, a_lower),
    (3, a_upper), (1, a_lower), (1, a_letter), (4, a_upper), (1, a_lower), (2, a_upper), (1, a_lower),
    (3, a_upper), (1, a_lower), (2, a_letter), (2, a_upper), (1, a_letter), (2, a_upper), (1, a_lower),
    (1, a_upper), (1, a_lower), (1, a_upper), (1, a_lower), (2, a_upper), (1, a_lower), (1, a_upper),
    (2, a_letter), (1, a_upper), (1, a_lower), (2, a_upper), (1, a_lower), (3, a_upper), (1, a_lower),
    (1, a_upper), (1, a_lower), (2, a_upper), (1, a_lower), (2, a_letter), (1, a_upper), (1, a_lower),
    (1, a_letter), (1, a_lower), (4, a_letter), (2, a_upper), (1, a_lower), (2, a_upper), (1, a_lower),
    (2, a_upper), (1, a_lower), (1, a_upper), (1, a_lower), (1, a_upper), (1, a_lower), (1, a_upper),
    (1, a_lower), (1, a_upper), (1, a_lower), (1, a_upper), (1, a_lower), (1, a_upper), (1, a_lower),
    (1, a_upper), (1, a_lower), (1, a_upper), (2, a_lower), (1, a_upper), (1, a_lower), (1, a_upper),
    (1, a_lower), (1, a_upper), (1, a_lower), (1, a_upper), (1, a_lower), (1, a_upper), (1, a_lower),
    (1, a_upper), (1, a_lower), (1, a_upper), (1, a_lower), (1, a_upper), (1, a_lower), (1, a_upper),
    (1, a_lower), (1, a_letter), (2, a_upper), (1, a_lower), (1, a_upper), (1, a_lower), (3, a_upper),
    (1, a_lower), (1, a_upper), (1, a_lower), (1, a_upper), (1, a_lower), (1, a_upper), (1, a_lower)]"

definition attribute_table_page02 :: "nat list" where
  "attribute_table_page02 = runs [
    (1, a_upper), (1, a_lower), (1, a_upper), (1, a_lower), (1, a_upper), (1, a_lower), (1, a_upper),
    (1, a_lower), (1, a_upper), (1, a_lower), (1, a_upper), (1, a_lower), (1, a_upper), (1, a_lower),
    (1, a_upper), (1, a_lower), (1, a_upper), (1, a_lower), (1, a_upper), (1, a_lower), (1, a_upper),
    (1, a_lower), (1, a_upper), (1, a_lower), (1, a_upper), (1, a_lower), (1, a_upper), (1, a_lower),
    (1, a_upper), (1, a_lower), (1, a_upper), (1, a_lower), (2, 0), (1, a_upper), (1, a_lower),
    (1, a_upper), (1, a_lower), (1, a_upper), (1, a_lower), (1, a_upper), (1, a_lower), (1, a_upper),
    (1, a_lower), (1, a_upper), (1, a_lower), (1, a_upper), (1, a_lower), (1, a_upper), (1, a_lower),
    (1, a_upper), (1, a_lower), (28, 0), (3, a_letter), (2, a_lower), (1, a_letter), (2, a_lower),
    (1, a_letter), (1, a_lower), (1, a_letter), (1, a_lower), (4, a_letter), (1, a_lower),
    (2, a_letter), (1, a_lower), (4, a_letter), (2, a_lower), (5, a_letter), (1, a_lower),
    (2, a_letter), (1, a_lower), (2, a_letter), (1, a_lower), (10, a_letter), (1, a_lower),
    (2, a_letter), (1, a_lower), (4, a_letter), (1, a_lower), (1, a_letter), (2, a_lower),
    (6, a_letter), (1, a_lower), (27, a_letter), (2, 0), (9, a_letter), (2, a_print), (7, a_letter),
    (14, a_print), (2, a_letter), (14, a_print), (5, a_letter), (9, a_print), (1, a_letter), (17, 0)]"

definition attribute_table_page03 :: "nat list" where
  "attribute_table_page03 = runs [
    (69, a_print), (1, a_lower), (9, a_print), (17, 0), (3, a_print), (17, 0), (2, a_print), (4, 0),
    (1, a_letter), (3, 0), (1, a_print), (5, 0), (2, a_print), (1, a_upper), (1, a_print),
    (3, a_upper), (1, 0), (1, a_upper), (1, 0), (2, a_upper), (1, a_letter), (17, a_upper), (1, 0),
    (9, a_upper), (4, a_lower), (1, a_letter), (30, a_lower), (1, 0), (2, a_lower), (3, a_letter),
    (2, a_lower), (1, a_letter), (2, 0), (1, a_upper), (1, a_lower), (1, a_upper), (1, a_lower),
    (1, a_upper), (1, a_lower), (1, a_upper), (1, a_lower), (1, a_upper), (1, a_lower), (1, a_upper),
    (1, a_lower), (1, a_upper), (1, a_lower), (1, a_upper), (1, a_lower), (1, a_upper), (1, a_lower),
    (1, a_upper), (1, a_lower), (1, a_upper), (4, a_lower), (1, a_letter), (1, a_upper), (1, a_lower),
    (10, 0)]"

definition attribute_table_page04 :: "nat list" where
  "attribute_table_page04 = runs [
    (48, a_upper), (48, a_lower), (1, a_upper), (1, a_lower), (1, a_upper), (1, a_lower), (1, a_upper),
    (1, a_lower), (1, a_upper), (1, a_lower), (1, a_upper), (1, a_lower), (1, a_upper), (1, a_lower),
    (1, a_upper), (1, a_lower), (1, a_upper), (1, a_lower), (1, a_upper), (1, a_lower), (1, a_upper),
    (1, a_lower), (1, a_upper), (1, a_lower), (1, a_upper), (1, a_lower), (1, a_upper), (1, a_lower),
    (1, a_upper), (1, a_lower), (1, a_upper), (1, a_lower), (1, a_upper), (1, a_lower), (1, a_upper),
    (1, a_lower), (5, a_print), (1, 0), (2, a_print), (2, 0), (1, a_upper), (1, a_lower), (1, a_upper),
    (1, a_lower), (1, a_upper), (1, a_lower), (1, a_upper), (1, a_lower), (1, a_upper), (1, a_lower),
    (1, a_upper), (1, a_lower), (1, a_upper), (1, a_lower), (1, a_upper), (1, a_lower), (1, a_upper),
    (1, a_lower), (1, a_upper), (1, a_lower), (1, a_upper), (1, a_lower), (1, a_upper), (1, a_lower),
    (1, a_upper), (1, a_lower), (1, a_upper), (1, a_lower), (1, a_upper), (1, a_lower), (1, a_upper),
    (1, a_lower), (1, a_upper), (1, a_lower), (1, a_upper), (1, a_lower), (1, a_upper), (1, a_lower),
    (1, a_upper), (1, a_lower), (1, a_upper), (1, a_lower), (1, a_upper), (1, a_lower), (1, a_upper),
    (1, a_lower), (1, a_upper), (1, a_lower), (1, a_upper), (1, a_lower), (1, a_upper), (1, a_lower),
    (1, a_letter), (1, a_upper), (1, a_lower), (1, a_upper), (1, a_lower), (2, 0), (1, a_upper),
    (1, a_lower), (2, 0), (1, a_upper), (1, a_lower), (3, 0), (1, a_upper), (1, a_lower), (1, a_upper),
    (1, a_lower), (1, a_upper), (1, a_lower), (1, a_upper), (1, a_lower), (1, a_upper), (1, a_lower),
    (1, a_upper), (1, a_lower), (1, a_upper), (1, a_lower), (1, a_upper), (1, a_lower), (1, a_upper),
    (1, a_lower), (1, a_upper), (1, a_lower), (1, a_upper), (1, a_lower), (1, a_upper), (1, a_lower),
    (1, a_upper), (1, a_lower), (1, a_upper), (1, a_lower), (1, a_upper), (1, a_lower), (1, a_upper),
    (1, a_lower), (1, a_upper), (1, a_lower), (1, a_upper), (1, a_lower), (1, a_upper), (1, a_lower),
    (2, 0), (1, a_upper), (1, a_lower), (6, 0)]"

definition attribute_table_page05 :: "nat list" where
  "attribute_table_page05 = runs [
    (49, 0), (38, a_upper), (2, 0), (1, a_letter), (6, a_print), (1, 0), (38, a_lower), (1, a_letter),
    (1, 0), (2, a_print), (6, 0), (17, a_print), (1, 0), (23, a_print), (1, 0), (10, a_print), (11, 0),
    (27, a_letter), (5, 0), (3, a_letter), (2, a_print), (11, 0)]"

definition attribute_table_page06 :: "nat list" where
  "attribute_table_page06 = runs [
    (12, 0), (1, a_print), (14, 0), (1, a_print), (3, 0), (1, a_print), (1, 0), (26, a_letter), (5, 0),
    (11, a_letter), (11, a_print), (10, 0), (14, a_print), (2, 0), (1, a_print), (99, a_letter),
    (1, a_print), (1, a_letter), (15, a_print), (2, a_letter), (7, a_print), (2, 0), (10, a_print),
    (3, a_letter), (2, a_print), (1, 0)]"

definition attribute_table_page07 :: "nat list" where
  "attribute_table_page07 = runs [
    (14, a_print), (1, 0), (1, a_print), (1, a_letter), (1, a_print), (27, a_letter), (3, 0),
    (27, a_print), (53, 0), (38, a_letter), (11, a_print), (79, 0)]"

definition attribute_table_page08 :: "nat list" where
  "attribute_table_page08 = runs [
    (256, 0)]"

definition attribute_table_page09 :: "nat list" where
  "attribute_table_page09 = runs [
    (1, 0), (3, a_print), (1, 0), (53, a_letter), (2, 0), (1, a_print), (1, a_letter), (16, a_print),
    (2, 0), (1, a_letter), (4, a_print), (3, 0), (10, a_letter), (15, a_print), (16, 0), (3, a_print),
    (1, 0), (8, a_letter), (2, 0), (2, a_letter), (2, 0), (22, a_letter), (1, 0), (7, a_letter),
    (1, 0), (1, a_letter), (3, 0), (4, a_letter), (2, 0), (1, a_print), (1, 0), (7, a_print), (2, 0),
    (2, a_print), (2, 0), (3, a_print), (9, 0), (1, a_print), (4, 0), (2, a_letter), (1, 0),
    (3, a_letter), (2, a_print), (2, 0), (10, a_print), (2, a_letter), (9, a_print), (5, 0)]"

definition attribute_table_page0a :: "nat list" where
  "attribute_table_page0a = runs [
    (2, 0), (1, a_print), (2, 0), (6, a_letter), (4, 0), (2, a_letter), (2, 0), (22, a_letter), (1, 0),
    (7, a_letter), (1, 0), (2, a_letter), (1, 0), (2, a_letter), (1, 0), (2, a_letter), (2, 0),
    (1, a_print), (1, 0), (5, a_print), (4, 0), (2, a_print), (2, 0), (3, a_print), (11, 0),
    (4, a_letter), (1, 0), (1, a_letter), (7, 0), (12, a_print), (3, a_letter), (12, 0), (3, a_print),
    (1, 0), (7, a_letter), (1, 0), (1, a_letter), (1, 0), (3, a_letter), (1, 0), (22, a_letter),
    (1, 0), (7, a_letter), (1, 0), (2, a_letter), (1, 0), (5, a_letter), (2, 0), (1, a_print),
    (1, a_letter), (8, a_print), (1, 0), (3, a_print), (1, 0), (3, a_print), (2, 0), (1, a_letter),
    (15, 0), (1, a_letter), (5, 0), (10, a_print), (16, 0)]"

definition attribute_table_page0b :: "nat list" where
  "attribute_table_page0b = runs [
    (1, 0), (3, a_print), (1, 0), (8, a_letter), (2, 0), (2, a_letter), (2, 0), (22, a_letter), (1, 0),
    (7, a_letter), (1, 0), (2, a_letter), (2, 0), (4, a_letter), (2, 0), (1, a_print), (1, a_letter),
    (6, a_print), (3, 0), (2, a_print), (2, 0), (3, a_print), (8, 0), (2, a_print), (4, 0),
    (2, a_letter), (1, 0), (3, a_letter), (4, 0), (11, a_print), (17, 0), (2, a_print), (1, 0),
    (6, a_letter), (3, 0), (3, a_letter), (1, 0), (4, a_letter), (3, 0), (2, a_letter), (1, 0),
    (1, a_letter), (1, 0), (2, a_letter), (3, 0), (2, a_letter), (3, 0), (3, a_letter), (3, 0),
    (8, a_letter), (1, 0), (3, a_letter), (4, 0), (5, a_print), (3, 0), (3, a_print), (1, 0),
    (4, a_print), (9, 0), (1, a_print), (15, 0), (12, a_print), (13, 0)]"

definition attribute_table_page0c :: "nat list" where
  "attribute_table_page0c = runs [
    (1, 0), (3, a_print), (1, 0), (8, a_letter), (1, 0), (3, a_letter), (1, 0), (23, a_letter), (1, 0),
    (10, a_letter), (1, 0), (5, a_letter), (4, 0), (7, a_print), (1, 0), (3, a_print), (1, 0),
    (4, a_print), (7, 0), (2, a_print), (9, 0), (2, a_letter), (4, 0), (10, a_print), (18, 0),
    (2, a_print), (1, 0), (8, a_letter), (1, 0), (3, a_letter), (1, 0), (23, a_letter), (1, 0),
    (10, a_letter), (1, 0), (5, a_letter), (4, 0), (7, a_print), (1, 0), (3, a_print), (1, 0),
    (4, a_print), (7, 0), (2, a_print), (7, 0), (1, a_letter), (1, 0), (2, a_letter), (4, 0),
    (10, a_print), (16, 0)]"

definition attribute_table_page0d :: "nat list" where
  "attribute_table_page0d = runs [
    (2, 0), (2, a_print), (1, 0), (8, a_letter), (1, 0), (3, a_letter), (1, 0), (23, a_letter), (1, 0),
    (16, a_letter), (4, 0), (6, a_print), (2, 0), (3, a_print), (1, 0), (4, a_print), (9, 0),
    (1, a_print), (8, 0), (2, a_letter), (4, 0), (10, a_print), (18, 0), (2, a_print), (1, 0),
    (18, a_letter), (3, 0), (24, a_letter), (1, 0), (9, a_letter), (1, 0), (1, a_letter), (2, 0),
    (7, a_letter), (3, 0), (1, a_print), (4, 0), (6, a_print), (1, 0), (1, a_print), (1, 0),
    (8, a_print), (18, 0), (3, a_print), (11, 0)]"

definition attribute_table_page0e :: "nat list" where
  "attribute_table_page0e = runs [
    (1, 0), (48, a_letter), (1, a_print), (2, a_letter), (7, a_print), (4, 0), (1, a_print),
    (7, a_letter), (21, a_print), (37, 0), (2, a_letter), (1, 0), (1, a_letter), (2, 0), (2, a_letter),
    (1, 0), (1, a_letter), (2, 0), (1, a_letter), (6, 0), (4, a_letter), (1, 0), (7, a_letter), (1, 0),
    (3, a_letter), (1, 0), (1, a_letter), (1, 0), (1, a_letter), (2, 0), (2, a_letter), (1, 0),
    (4, a_letter), (1, a_print), (2, a_letter), (6, a_print), (1, 0), (2, a_print), (1, a_letter),
    (2, 0), (5, a_letter), (1, 0), (1, a_letter), (1, 0), (6, a_print), (2, 0), (10, a_print), (2, 0),
    (2, a_letter), (34, 0)]"

definition attribute_table_page0f :: "nat list" where
  "attribute_table_page0f = runs [
    (1, a_letter), (63, a_print), (8, a_letter), (1, 0), (34, a_letter), (6, 0), (23, a_print),
    (4, a_letter), (4, 0), (8, a_print), (1, 0), (36, a_print), (1, 0), (15, a_print), (2, 0),
    (1, a_print), (48, 0)]"

definition attribute_table_page10 :: "nat list" where
  "attribute_table_page10 = runs [
    (34, a_letter), (1, 0), (5, a_letter), (1, 0), (2, a_letter), (1, 0), (7, a_print), (3, 0),
    (4, a_print), (6, 0), (16, a_print), (6, a_letter), (4, a_print), (70, 0), (38, a_letter), (10, 0),
    (39, a_letter), (4, 0), (1, a_print), (4, 0)]"

definition attribute_table_page11 :: "nat list" where
  "attribute_table_page11 = runs [
    (90, a_letter), (5, 0), (68, a_letter), (5, 0), (82, a_letter), (6, 0)]"

definition attribute_table_page12 :: "nat list" where
  "attribute_table_page12 = runs [
    (7, a_letter), (1, 0), (63, a_letter), (1, 0), (1, a_letter), (1, 0), (4, a_letter), (2, 0),
    (7, a_letter), (1, 0), (1, a_letter), (1, 0), (4, a_letter), (2, 0), (39, a_letter), (1, 0),
    (1, a_letter), (1, 0), (4, a_letter), (2, 0), (31, a_letter), (1, 0), (1, a_letter), (1, 0),
    (4, a_letter), (2, 0), (7, a_letter), (1, 0), (1, a_letter), (1, 0), (4, a_letter), (2, 0),
    (7, a_letter), (1, 0), (7, a_letter), (1, 0), (23, a_letter), (1, 0), (16, a_letter)]"

definition attribute_table_page13 :: "nat list" where
  "attribute_table_page13 = runs [
    (15, a_letter), (1, 0), (1, a_letter), (1, 0), (4, a_letter), (2, 0), (7, a_letter), (1, 0),
    (39, a_letter), (1, 0), (19, a_letter), (6, 0), (28, a_print), (35, 0), (85, a_letter), (11, 0)]"

definition attribute_table_page14 :: "nat list" where
  "attribute_table_page14 = runs [
    (1, 0), (255, a_letter)]"

definition attribute_table_page15 :: "nat list" where
  "attribute_table_page15 = runs [
    (256, a_letter)]"

definition attribute_table_page16 :: "nat list" where
  "attribute_table_page16 = runs [
    (109, a_letter), (2, a_print), (8, a_letter), (9, 0), (1, a_print), (26, a_letter), (2, a_print),
    (3, 0), (75, a_letter), (6, a_print), (15, 0)]"

definition attribute_table_page17 :: "nat list" where
  "attribute_table_page17 = runs [
    (128, 0), (52, a_letter), (41, a_print), (3, 0), (10, a_print), (22, 0)]"

definition attribute_table_page18 :: "nat list" where
  "attribute_table_page18 = runs [
    (15, a_print), (1, 0), (10, a_print), (6, 0), (88, a_letter), (8, 0), (41, a_letter), (1, a_print),
    (86, 0)]"

definition attribute_table_page1e :: "nat list" where
  "attribute_table_page1e = runs [
    (1, a_upper), (1, a_lower), (1, a_upper), (1, a_lower), (1, a_upper), (1, a_lower), (1, a_upper),
    (1, a_lower), (1, a_upper), (1, a_lower), (1, a_upper), (1, a_lower), (1, a_upper), (1, a_lower),
    (1, a_upper), (1, a_lower), (1, a_upper), (1, a_lower), (1, a_upper), (1, a_lower), (1, a_upper),
    (1, a_lower), (1, a_upper), (1, a_lower), (1, a_upper), (1, a_lower), (1, a_upper), (1, a_lower),
    (1, a_upper), (1, a_lower), (1, a_upper), (1, a_lower), (1, a_upper), (1, a_lower), (1, a_upper),
    (1, a_lower), (1, a_upper), (1, a_lower), (1, a_upper), (1, a_lower), (1, a_upper), (1, a_lower),
    (1, a_upper), (1, a_lower), (1, a_upper), (1, a_lower), (1, a_upper), (1, a_lower), (1, a_upper),
    (1, a_lower), (1, a_upper), (1, a_lower), (1, a_upper), (1, a_lower), (1, a_upper), (1, a_lower),
    (1, a_upper), (1, a_lower), (1, a_upper), (1, a_lower), (1, a_upper), (1, a_lower), (1, a_upper),
    (1, a_lower), (1, a_upper), (1, a_lower), (1, a_upper), (1, a_lower), (1, a_upper), (1, a_lower),
    (1, a_upper), (1, a_lower), (1, a_upper), (1, a_lower), (1, a_upper), (1, a_lower), (1, a_upper),
    (1, a_lower), (1, a_upper), (1, a_lower), (1, a_upper), (1, a_lower), (1, a_upper), (1, a_lower),
    (1, a_upper), (1, a_lower), (1, a_upper), (1, a_lower), (1, a_upper), (1, a_lower), (1, a_upper),
    (1, a_lower), (1, a_upper), (1, a_lower), (1, a_upper), (1, a_lower), (1, a_upper), (1, a_lower),
    (1, a_upper), (1, a_lower), (1, a_upper), (1, a_lower), (1, a_upper), (1, a_lower), (1, a_upper),
    (1, a_lower), (1, a_upper), (1, a_lower), (1, a_upper), (1, a_lower), (1, a_upper), (1, a_lower),
    (1, a_upper), (1, a_lower), (1, a_upper), (1, a_lower), (1, a_upper), (1, a_lower), (1, a_upper),
    (1, a_lower), (1, a_upper), (1, a_lower), (1, a_upper), (1, a_lower), (1, a_upper), (1, a_lower),
    (1, a_upper), (1, a_lower), (1, a_upper), (1, a_lower), (1, a_upper), (1, a_lower), (1, a_upper),
    (1, a_lower), (1, a_upper), (1, a_lower), (1, a_upper), (1, a_lower), (1, a_upper), (1, a_lower),
    (1, a_upper), (1, a_lower), (1, a_upper), (1, a_lower), (1, a_upper), (1, a_lower), (1, a_upper),
    (1, a_lower), (1, a_upper), (1, a_lower), (5, a_letter), (1, a_lower), (4, 0), (1, a_upper),
    (1, a_lower), (1, a_upper), (1, a_lower), (1, a_upper), (1, a_lower), (1, a_upper), (1, a_lower),
    (1, a_upper), (1, a_lower), (1, a_upper), (1, a_lower), (1, a_upper), (1, a_lower), (1, a_upper),
    (1, a_lower), (1, a_upper), (1, a_lower), (1, a_upper), (1, a_lower), (1, a_upper), (1, a_lower),
    (1, a_upper), (1, a_lower), (1, a_upper), (1, a_lower), (1, a_upper), (1, a_lower), (1, a_upper),
    (1, a_lower), (1, a_upper), (1, a_lower), (1, a_upper), (1, a_lower), (1, a_upper), (1, a_lower),
    (1, a_upper), (1, a_lower), (1, a_upper), (1, a_lower), (1, a_upper), (1, a_lower), (1, a_upper),
    (1, a_lower), (1, a_upper), (1, a_lower), (1, a_upper), (1, a_lower), (1, a_upper), (1, a_lower),
    (1, a_upper), (1, a_lower), (1, a_upper), (1, a_lower), (1, a_upper), (1, a_lower), (1, a_upper),
    (1, a_lower), (1, a_upper), (1, a_lower), (1, a_upper), (1, a_lower), (1, a_upper), (1, a_lower),
    (1, a_upper), (1, a_lower), (1, a_upper), (1, a_lower), (1, a_upper), (1, a_lower), (1, a_upper),
    (1, a_lower), (1, a_upper), (1, a_lower), (1, a_upper), (1, a_lower), (1, a_upper), (1, a_lower),
    (1, a_upper), (1, a_lower), (1, a_upper), (1, a_lower), (1, a_upper), (1, a_lower), (1, a_upper),
    (1, a_lower), (1, a_upper), (1, a_lower), (1, a_upper), (1, a_lower), (6, 0)]"

definition attribute_table_page1f :: "nat list" where
  "attribute_table_page1f = runs [
    (8, a_lower), (8, a_upper), (6, a_lower), (2, 0), (6, a_upper), (2, 0), (8, a_lower), (8, a_upper),
    (8, a_lower), (8, a_upper), (6, a_lower), (2, 0), (6, a_upper), (2, 0), (1, a_letter),
    (1, a_lower), (1, a_letter), (1, a_lower), (1, a_letter), (1, a_lower), (1, a_letter),
    (1, a_lower), (1, 0), (1, a_upper), (1, 0), (1, a_upper), (1, 0), (1, a_upper), (1, 0),
    (1, a_upper), (8, a_lower), (8, a_upper), (14, a_lower), (2, 0), (8, a_lower), (8, a_upper),
    (8, a_lower), (8, a_upper), (8, a_lower), (8, a_upper), (2, a_lower), (1, a_letter), (1, a_lower),
    (1, a_letter), (1, 0), (2, a_letter), (5, a_upper), (1, a_print), (1, a_lower), (3, a_print),
    (1, a_letter), (1, a_lower), (1, a_letter), (1, 0), (2, a_letter), (5, a_upper), (3, a_print),
    (2, a_lower), (2, a_letter), (2, 0), (2, a_letter), (4, a_upper), (1, 0), (3, a_print),
    (2, a_lower), (3, a_letter), (1, a_lower), (2, a_letter), (5, a_upper), (3, a_print), (2, 0),
    (1, a_letter), (1, a_lower), (1, a_letter), (1, 0), (2, a_letter), (5, a_upper), (2, a_print),
    (1, 0)]"

definition attribute_table_page20 :: "nat list" where
  "attribute_table_page20 = runs [
    (71, a_print), (1, 0), (6, a_print), (28, 0), (7, a_print), (3, 0), (11, a_print), (1, a_letter),
    (15, a_print), (17, 0), (16, a_print), (32, 0), (20, a_print), (28, 0)]"

definition attribute_table_page21 :: "nat list" where
  "attribute_table_page21 = runs [
    (2, a_print), (1, a_letter), (4, a_print), (1, a_letter), (2, a_print), (10, a_letter),
    (1, a_print), (1, a_letter), (3, a_print), (5, a_letter), (6, a_print), (1, a_letter),
    (1, a_print), (1, a_upper), (1, a_print), (1, a_letter), (1, a_print), (2, a_upper), (2, a_letter),
    (1, a_print), (3, a_letter), (1, a_print), (7, a_letter), (1, a_print), (24, 0), (13, a_print),
    (16, a_upper), (16, a_lower), (4, a_print), (12, 0), (100, a_print), (12, 0)]"

definition attribute_table_page22 :: "nat list" where
  "attribute_table_page22 = runs [
    (242, a_print), (14, 0)]"

definition attribute_table_page23 :: "nat list" where
  "attribute_table_page23 = runs [
    (124, a_print), (1, 0), (30, a_print), (101, 0)]"

definition attribute_table_page24 :: "nat list" where
  "attribute_table_page24 = runs [
    (39, a_print), (25, 0), (11, a_print), (21, 0), (86, a_print), (26, a_upper), (26, a_lower),
    (1, a_print), (21, 0)]"

definition attribute_table_page25 :: "nat list" where
  "attribute_table_page25 = runs [
    (150, a_print), (10, 0), (88, a_print), (8, 0)]"

definition attribute_table_page26 :: "nat list" where
  "attribute_table_page26 = runs [
    (20, a_print), (5, 0), (89, a_print), (142, 0)]"

definition attribute_table_page27 :: "nat list" where
  "attribute_table_page27 = runs [
    (1, 0), (4, a_print), (1, 0), (4, a_print), (2, 0), (28, a_print), (1, 0), (35, a_print), (1, 0),
    (1, a_print), (1, 0), (4, a_print), (3, 0), (1, a_print), (1, 0), (7, a_print), (2, 0),
    (7, a_print), (14, 0), (31, a_print), (3, 0), (24, a_print), (1, 0), (14, a_print), (65, 0)]"

definition attribute_table_page28 :: "nat list" where
  "attribute_table_page28 = runs [
    (256, a_print)]"

definition attribute_table_page2e :: "nat list" where
  "attribute_table_page2e = runs [
    (128, 0), (26, a_print), (1, 0), (89, a_print), (12, 0)]"

definition attribute_table_page2f :: "nat list" where
  "attribute_table_page2f = runs [
    (214, a_print), (26, 0), (12, a_print), (4, 0)]"

definition attribute_table_page30 :: "nat list" where
  "attribute_table_page30 = runs [
    (5, a_print), (2, a_letter), (42, a_print), (5, a_letter), (5, a_print), (3, 0), (2, a_print),
    (1, 0), (84, a_letter), (4, 0), (4, a_print), (2, a_letter), (2, 0), (90, a_letter), (1, a_print),
    (3, a_letter), (1, 0)]"

definition attribute_table_page31 :: "nat list" where
  "attribute_table_page31 = runs [
    (5, 0), (40, a_letter), (4, 0), (94, a_letter), (1, 0), (16, a_print), (24, a_letter), (72, 0)]"

definition attribute_table_page32 :: "nat list" where
  "attribute_table_page32 = runs [
    (29, a_print), (3, 0), (36, a_print), (28, 0), (28, a_print), (3, 0), (50, a_print), (15, 0),
    (12, a_print), (4, 0), (47, a_print), (1, 0)]"

definition attribute_table_page33 :: "nat list" where
  "attribute_table_page33 = runs [
    (119, a_print), (4, 0), (99, a_print), (2, 0), (31, a_print), (1, 0)]"

definition attribute_table_page4d :: "nat list" where
  "attribute_table_page4d = runs [
    (182, a_letter), (74, 0)]"

definition attribute_table_page9f :: "nat list" where
  "attribute_table_page9f = runs [
    (166, a_letter), (90, 0)]"

definition attribute_table_pagea4 :: "nat list" where
  "attribute_table_pagea4 = runs [
    (141, a_letter), (3, 0), (18, a_print), (2, 0), (16, a_print), (1, 0), (12, a_print), (1, 0),
    (3, a_print), (1, 0), (1, a_print), (57, 0)]"

definition attribute_table_paged7 :: "nat list" where
  "attribute_table_paged7 = runs [
    (164, a_letter), (92, 0)]"

definition attribute_table_pagefa :: "nat list" where
  "attribute_table_pagefa = runs [
    (46, a_letter), (210, 0)]"

definition attribute_table_pagefb :: "nat list" where
  "attribute_table_pagefb = runs [
    (7, a_letter), (12, 0), (5, a_letter), (5, 0), (1, a_letter), (1, a_print), (10, a_letter),
    (1, a_print), (13, a_letter), (1, 0), (5, a_letter), (1, 0), (1, a_letter), (1, 0), (2, a_letter),
    (1, 0), (2, a_letter), (1, 0), (108, a_letter), (33, 0), (45, a_letter)]"

definition attribute_table_pagefd :: "nat list" where
  "attribute_table_pagefd = runs [
    (62, a_letter), (2, a_print), (16, 0), (64, a_letter), (2, 0), (54, a_letter), (40, 0),
    (12, a_letter), (4, 0)]"

definition attribute_table_pagefe :: "nat list" where
  "attribute_table_pagefe = runs [
    (32, 0), (4, a_print), (12, 0), (21, a_print), (4, 0), (10, a_print), (1, 0), (19, a_print),
    (1, 0), (4, a_print), (4, 0), (3, a_letter), (1, 0), (1, a_letter), (1, 0), (135, a_letter),
    (2, 0), (1, a_print)]"

definition attribute_table_pageff :: "nat list" where
  "attribute_table_pageff = runs [
    (1, 0), (32, a_print), (26, a_upper), (6, a_print), (26, a_lower), (4, a_print), (2, 0),
    (5, a_print), (89, a_letter), (3, 0), (6, a_letter), (2, 0), (6, a_letter), (2, 0), (6, a_letter),
    (2, 0), (3, a_letter), (3, 0), (7, a_print), (1, 0), (7, a_print), (10, 0), (5, a_print), (2, 0)]"

definition attribute_table_page103 :: "nat list" where
  "attribute_table_page103 = runs [
    (31, a_letter), (1, 0), (4, a_print), (12, 0), (26, a_letter), (1, a_print), (181, 0)]"

definition attribute_table_page104 :: "nat list" where
  "attribute_table_page104 = runs [
    (38, a_upper), (2, 0), (38, a_lower), (178, 0)]"

definition attribute_table_page1d0 :: "nat list" where
  "attribute_table_page1d0 = runs [
    (246, a_print), (10, 0)]"

definition attribute_table_page1d1 :: "nat list" where
  "attribute_table_page1d1 = runs [
    (39, a_print), (3, 0), (180, a_print), (34, 0)]"

definition attribute_table_page1d4 :: "nat list" where
  "attribute_table_page1d4 = runs [
    (85, a_letter), (1, 0), (71, a_letter), (1, 0), (2, a_letter), (2, 0), (1, a_letter), (2, 0),
    (2, a_letter), (2, 0), (4, a_letter), (1, 0), (12, a_letter), (1, 0), (1, a_letter), (1, 0),
    (4, a_letter), (1, 0), (2, a_letter), (1, 0), (59, a_letter)]"

definition attribute_table_page1d5 :: "nat list" where
  "attribute_table_page1d5 = runs [
    (6, a_letter), (1, 0), (4, a_letter), (2, 0), (8, a_letter), (1, 0), (7, a_letter), (1, 0),
    (28, a_letter), (1, 0), (4, a_letter), (1, 0), (5, a_letter), (1, 0), (1, a_letter), (3, 0),
    (7, a_letter), (1, 0), (174, a_letter)]"

definition attribute_table_page1d6 :: "nat list" where
  "attribute_table_page1d6 = runs [
    (164, a_letter), (4, 0), (25, a_letter), (1, a_print), (25, a_letter), (1, a_print),
    (31, a_letter), (1, a_print), (4, a_letter)]"

definition attribute_table_page1d7 :: "nat list" where
  "attribute_table_page1d7 = runs [
    (21, a_letter), (1, a_print), (31, a_letter), (1, a_print), (25, a_letter), (1, a_print),
    (31, a_letter), (1, a_print), (25, a_letter), (1, a_print), (31, a_letter), (1, a_print),
    (25, a_letter), (1, a_print), (6, a_letter), (4, 0), (50, a_print)]"

definition attribute_table_page2a6 :: "nat list" where
  "attribute_table_page2a6 = runs [
    (215, a_letter), (41, 0)]"

definition attribute_table_page2fa :: "nat list" where
  "attribute_table_page2fa = runs [
    (30, a_letter), (226, 0)]"

definition attribute_table_pagee00 :: "nat list" where
  "attribute_table_pagee00 = runs [
    (1, 0), (1, a_print), (30, 0), (96, a_print), (128, 0)]"

definition attribute_table_pagefff :: "nat list" where
  "attribute_table_pagefff = runs [
    (254, a_print), (2, 0)]"

lemmas attribute_pages =
  attribute_table_page00_def attribute_table_page01_def attribute_table_page02_def
  attribute_table_page03_def attribute_table_page04_def attribute_table_page05_def
  attribute_table_page06_def attribute_table_page07_def attribute_table_page08_def
  attribute_table_page09_def attribute_table_page0a_def attribute_table_page0b_def
  attribute_table_page0c_def attribute_table_page0d_def attribute_table_page0e_def
  attribute_table_page0f_def attribute_table_page10_def attribute_table_page11_def
  attribute_table_page12_def attribute_table_page13_def attribute_table_page14_def
  attribute_table_page15_def attribute_table_page16_def attribute_table_page17_def
  attribute_table_page18_def attribute_table_page1e_def attribute_table_page1f_def
  attribute_table_page20_def attribute_table_page21_def attribute_table_page22_def
  attribute_table_page23_def attribute_table_page24_def attribute_table_page25_def
  attribute_table_page26_def attribute_table_page27_def attribute_table_page28_def
  attribute_table_page2e_def attribute_table_page2f_def attribute_table_page30_def
  attribute_table_page31_def attribute_table_page32_def attribute_table_page33_def
  attribute_table_page4d_def attribute_table_page9f_def attribute_table_pagea4_def
  attribute_table_paged7_def attribute_table_pagefa_def attribute_table_pagefb_def
  attribute_table_pagefd_def attribute_table_pagefe_def attribute_table_pageff_def
  attribute_table_page103_def attribute_table_page104_def attribute_table_page1d0_def
  attribute_table_page1d1_def attribute_table_page1d4_def attribute_table_page1d5_def
  attribute_table_page1d6_def attribute_table_page1d7_def attribute_table_page2a6_def
  attribute_table_page2fa_def attribute_table_pagee00_def attribute_table_pagefff_def

section \<open>The table\<close>

definition attribute_table :: "nat list list" where
  "attribute_table =
     [attribute_table_page00, attribute_table_page01, attribute_table_page02, attribute_table_page03, attribute_table_page04, attribute_table_page05, attribute_table_page06, attribute_table_page07, attribute_table_page08, attribute_table_page09, attribute_table_page0a, attribute_table_page0b, attribute_table_page0c, attribute_table_page0d, attribute_table_page0e, attribute_table_page0f, attribute_table_page10, attribute_table_page11, attribute_table_page12, attribute_table_page13, attribute_table_page14, attribute_table_page15, attribute_table_page16, attribute_table_page17, attribute_table_page18] @
     replicate 5 attribute_table_page08 @
     [attribute_table_page1e, attribute_table_page1f, attribute_table_page20, attribute_table_page21, attribute_table_page22, attribute_table_page23, attribute_table_page24, attribute_table_page25, attribute_table_page26, attribute_table_page27, attribute_table_page28] @
     replicate 5 attribute_table_page08 @
     [attribute_table_page2e, attribute_table_page2f, attribute_table_page30, attribute_table_page31, attribute_table_page32, attribute_table_page33] @
     replicate 25 attribute_table_page15 @
     [attribute_table_page4d] @
     replicate 81 attribute_table_page15 @
     [attribute_table_page9f] @
     replicate 4 attribute_table_page15 @
     [attribute_table_pagea4] @
     replicate 7 attribute_table_page08 @
     replicate 43 attribute_table_page15 @
     [attribute_table_paged7] @
     replicate 8 attribute_table_page08 @
     replicate 25 attribute_table_page28 @
     [attribute_table_page15, attribute_table_pagefa, attribute_table_pagefb, attribute_table_page15, attribute_table_pagefd, attribute_table_pagefe, attribute_table_pageff] @
     replicate 3 attribute_table_page08 @
     [attribute_table_page103, attribute_table_page104] @
     replicate 203 attribute_table_page08 @
     [attribute_table_page1d0, attribute_table_page1d1] @
     replicate 2 attribute_table_page08 @
     [attribute_table_page1d4, attribute_table_page1d5, attribute_table_page1d6, attribute_table_page1d7] @
     replicate 40 attribute_table_page08 @
     replicate 166 attribute_table_page15 @
     [attribute_table_page2a6] @
     replicate 81 attribute_table_page08 @
     replicate 2 attribute_table_page15 @
     [attribute_table_page2fa] @
     replicate 2821 attribute_table_page08 @
     [attribute_table_pagee00] @
     replicate 255 attribute_table_page08 @
     replicate 255 attribute_table_page28 @
     [attribute_table_pagefff] @
     replicate 255 attribute_table_page28 @
     [attribute_table_pagefff]"

end
