(* ===== verification/Unicode_Case_Tables.thy ===== *)
theory Unicode_Case_Tables
  imports Khl_Prelude
begin

text \<open>
  The generated tables of \<open>src/unicode/tolower.h\<close> and \<open>src/unicode/toupper.h\<close> with the shared
  page \<open>nop_page\<close> of \<open>noppage.cxx\<close>: pages of 256 entries, each the bit pattern of the
  \<open>short\<close> that is added to the character, and the tables of pages, indexed by the character
  without its low byte. Runs of the same page are written with \<open>replicate\<close>.
\<close>

definition nop_page :: "nat list" where
  "nop_page = replicate 256 0"

section \<open>\<open>tolower\<close>\<close>

definition tolower_table_page00 :: "nat list" where
  "tolower_table_page00 = [
    0, 0, 0, 0, 0, 0, 0, 0, 0, 0, 0, 0, 0, 0, 0, 0,
    0, 0, 0, 0, 0, 0, 0, 0, 0, 0, 0, 0, 0, 0, 0, 0,
    0, 0, 0, 0, 0, 0, 0, 0, 0, 0, 0, 0, 0, 0, 0, 0,
    0, 0, 0, 0, 0, 0, 0, 0, 0, 0, 0, 0, 0, 0, 0, 0,
    0, 0x20, 0x20, 0x20, 0x20, 0x20, 0x20, 0x20, 0x20, 0x20, 0x20, 0x20, 0x20, 0x20, 0x20, 0x20,
    0x20, 0x20, 0x20, 0x20, 0x20, 0x20, 0x20, 0x20, 0x20, 0x20, 0x20, 0, 0, 0, 0, 0,
    0, 0, 0, 0, 0, 0, 0, 0, 0, 0, 0, 0, 0, 0, 0, 0,
    0, 0, 0, 0, 0, 0, 0, 0, 0, 0, 0, 0, 0, 0, 0, 0,
    0, 0, 0, 0, 0, 0, 0, 0, 0, 0, 0, 0, 0, 0, 0, 0,
    0, 0, 0, 0, 0, 0, 0, 0, 0, 0, 0, 0, 0, 0, 0, 0,
    0, 0, 0, 0, 0, 0, 0, 0, 0, 0, 0, 0, 0, 0, 0, 0,
    0, 0, 0, 0, 0, 0, 0, 0, 0, 0, 0, 0, 0, 0, 0, 0,
    0x20, 0x20, 0x20, 0x20, 0x20, 0x20, 0x20, 0x20, 0x20, 0x20, 0x20, 0x20, 0x20, 0x20, 0x20, 0x20,
    0x20, 0x20, 0x20, 0x20, 0x20, 0x20, 0x20, 0, 0x20, 0x20, 0x20, 0x20, 0x20, 0x20, 0x20, 0,
    0, 0, 0, 0, 0, 0, 0, 0, 0, 0, 0, 0, 0, 0, 0, 0,
    0, 0, 0, 0, 0, 0, 0, 0, 0, 0, 0, 0, 0, 0, 0, 0]"

definition tolower_table_page01 :: "nat list" where
  "tolower_table_page01 = [
    0x1, 0, 0x1, 0, 0x1, 0, 0x1, 0, 0x1, 0, 0x1, 0, 0x1, 0, 0x1, 0,
    0x1, 0, 0x1, 0, 0x1, 0, 0x1, 0, 0x1, 0, 0x1, 0, 0x1, 0, 0x1, 0,
    0x1, 0, 0x1, 0, 0x1, 0, 0x1, 0, 0x1, 0, 0x1, 0, 0x1, 0, 0x1, 0,
    0xFF39, 0, 0x1, 0, 0x1, 0, 0x1, 0, 0, 0x1, 0, 0x1, 0, 0x1, 0, 0x1,
    0, 0x1, 0, 0x1, 0, 0x1, 0, 0x1, 0, 0, 0x1, 0, 0x1, 0, 0x1, 0,
    0x1, 0, 0x1, 0, 0x1, 0, 0x1, 0, 0x1, 0, 0x1, 0, 0x1, 0, 0x1, 0,
    0x1, 0, 0x1, 0, 0x1, 0, 0x1, 0, 0x1, 0, 0x1, 0, 0x1, 0, 0x1, 0,
    0x1, 0, 0x1, 0, 0x1, 0, 0x1, 0, 0xFF87, 0x1, 0, 0x1, 0, 0x1, 0, 0,
    0, 0xD2, 0x1, 0, 0x1, 0, 0xCE, 0x1, 0, 0xCD, 0xCD, 0x1, 0, 0, 0x4F, 0xCA,
    0xCB, 0x1, 0, 0xCD, 0xCF, 0, 0xD3, 0xD1, 0x1, 0, 0, 0, 0xD3, 0xD5, 0, 0xD6,
    0x1, 0, 0x1, 0, 0x1, 0, 0xDA, 0x1, 0, 0xDA, 0, 0, 0x1, 0, 0xDA, 0x1,
    0, 0xD9, 0xD9, 0x1, 0, 0x1, 0, 0xDB, 0x1, 0, 0, 0, 0x1, 0, 0, 0,
    0, 0, 0, 0, 0x2, 0x1, 0, 0x2, 0x1, 0, 0x2, 0x1, 0, 0x1, 0, 0x1,
    0, 0x1, 0, 0x1, 0, 0x1, 0, 0x1, 0, 0x1, 0, 0x1, 0, 0, 0x1, 0,
    0x1, 0, 0x1, 0, 0x1, 0, 0x1, 0, 0x1, 0, 0x1, 0, 0x1, 0, 0x1, 0,
    0, 0x2, 0x1, 0, 0x1, 0, 0xFF9F, 0xFFC8, 0x1, 0, 0x1, 0, 0x1, 0, 0x1, 0]"

definition tolower_table_page02 :: "nat list" where
  "tolower_table_page02 = [
    0x1, 0, 0x1, 0, 0x1, 0, 0x1, 0, 0x1, 0, 0x1, 0, 0x1, 0, 0x1, 0,
    0x1, 0, 0x1, 0, 0x1, 0, 0x1, 0, 0x1, 0, 0x1, 0, 0x1, 0, 0x1, 0,
    0, 0, 0x1, 0, 0x1, 0, 0x1, 0, 0x1, 0, 0x1, 0, 0x1, 0, 0x1, 0,
    0x1, 0, 0x1, 0, 0, 0, 0, 0, 0, 0, 0, 0, 0, 0, 0, 0,
    0, 0, 0, 0, 0, 0, 0, 0, 0, 0, 0, 0, 0, 0, 0, 0,
    0, 0, 0, 0, 0, 0, 0, 0, 0, 0, 0, 0, 0, 0, 0, 0,
    0, 0, 0, 0, 0, 0, 0, 0, 0, 0, 0, 0, 0, 0, 0, 0,
    0, 0, 0, 0, 0, 0, 0, 0, 0, 0, 0, 0, 0, 0, 0, 0,
    0, 0, 0, 0, 0, 0, 0, 0, 0, 0, 0, 0, 0, 0, 0, 0,
    0, 0, 0, 0, 0, 0, 0, 0, 0, 0, 0, 0, 0, 0, 0, 0,
    0, 0, 0, 0, 0, 0, 0, 0, 0, 0, 0, 0, 0, 0, 0, 0,
    0, 0, 0, 0, 0, 0, 0, 0, 0, 0, 0, 0, 0, 0, 0, 0,
    0, 0, 0, 0, 0, 0, 0, 0, 0, 0, 0, 0, 0, 0, 0, 0,
    0, 0, 0, 0, 0, 0, 0, 0, 0, 0, 0, 0, 0, 0, 0, 0,
    0, 0, 0, 0, 0, 0, 0, 0, 0, 0, 0, 0, 0, 0, 0, 0,
    0, 0, 0, 0, 0, 0, 0, 0, 0, 0, 0, 0, 0, 0, 0, 0]"

definition tolower_table_page03 :: "nat list" where
  "tolower_table_page03 = [
    0, 0, 0, 0, 0, 0, 0, 0, 0, 0, 0, 0, 0, 0, 0, 0,
    0, 0, 0, 0, 0, 0, 0, 0, 0, 0, 0, 0, 0, 0, 0, 0,
    0, 0, 0, 0, 0, 0, 0, 0, 0, 0, 0, 0, 0, 0, 0, 0,
    0, 0, 0, 0, 0, 0, 0, 0, 0, 0, 0, 0, 0, 0, 0, 0,
    0, 0, 0, 0, 0, 0, 0, 0, 0, 0, 0, 0, 0, 0, 0, 0,
    0, 0, 0, 0, 0, 0, 0, 0, 0, 0, 0, 0, 0, 0, 0, 0,
    0, 0, 0, 0, 0, 0, 0, 0, 0, 0, 0, 0, 0, 0, 0, 0,
    0, 0, 0, 0, 0, 0, 0, 0, 0, 0, 0, 0, 0, 0, 0, 0,
    0, 0, 0, 0, 0, 0, 0x26, 0, 0x25, 0x25, 0x25, 0, 0x40, 0, 0x3F, 0x3F,
    0, 0x20, 0x20, 0x20, 0x20, 0x20, 0x20, 0x20, 0x20, 0x20, 0x20, 0x20, 0x20, 0x20, 0x20, 0x20,
    0x20, 0x20, 0, 0x20, 0x20, 0x20, 0x20, 0x20, 0x20, 0x20, 0x20, 0x20, 0, 0, 0, 0,
    0, 0, 0, 0, 0, 0, 0, 0, 0, 0, 0, 0, 0, 0, 0, 0,
    0, 0, 0, 0, 0, 0, 0, 0, 0, 0, 0, 0, 0, 0, 0, 0,
    0, 0, 0, 0, 0, 0, 0, 0, 0, 0, 0x1, 0, 0x1, 0, 0x1, 0,
    0x1, 0, 0x1, 0, 0x1, 0, 0x1, 0, 0x1, 0, 0x1, 0, 0x1, 0, 0x1, 0,
    0, 0, 0, 0, 0xFFC4, 0, 0, 0, 0, 0, 0, 0, 0, 0, 0, 0]"

definition tolower_table_page04 :: "nat list" where
  "tolower_table_page04 = [
    0x50, 0x50, 0x50, 0x50, 0x50, 0x50, 0x50, 0x50, 0x50, 0x50, 0x50, 0x50, 0x50, 0x50, 0x50, 0x50,
    0x20, 0x20, 0x20, 0x20, 0x20, 0x20, 0x20, 0x20, 0x20, 0x20, 0x20, 0x20, 0x20, 0x20, 0x20, 0x20,
    0x20, 0x20, 0x20, 0x20, 0x20, 0x20, 0x20, 0x20, 0x20, 0x20, 0x20, 0x20, 0x20, 0x20, 0x20, 0x20,
    0, 0, 0, 0, 0, 0, 0, 0, 0, 0, 0, 0, 0, 0, 0, 0,
    0, 0, 0, 0, 0, 0, 0, 0, 0, 0, 0, 0, 0, 0, 0, 0,
    0, 0, 0, 0, 0, 0, 0, 0, 0, 0, 0, 0, 0, 0, 0, 0,
    0x1, 0, 0x1, 0, 0x1, 0, 0x1, 0, 0x1, 0, 0x1, 0, 0x1, 0, 0x1, 0,
    0x1, 0, 0x1, 0, 0x1, 0, 0x1, 0, 0x1, 0, 0x1, 0, 0x1, 0, 0x1, 0,
    0x1, 0, 0, 0, 0, 0, 0, 0, 0, 0, 0, 0, 0x1, 0, 0x1, 0,
    0x1, 0, 0x1, 0, 0x1, 0, 0x1, 0, 0x1, 0, 0x1, 0, 0x1, 0, 0x1, 0,
    0x1, 0, 0x1, 0, 0x1, 0, 0x1, 0, 0x1, 0, 0x1, 0, 0x1, 0, 0x1, 0,
    0x1, 0, 0x1, 0, 0x1, 0, 0x1, 0, 0x1, 0, 0x1, 0, 0x1, 0, 0x1, 0,
    0, 0x1, 0, 0x1, 0, 0, 0, 0x1, 0, 0, 0, 0x1, 0, 0, 0, 0,
    0x1, 0, 0x1, 0, 0x1, 0, 0x1, 0, 0x1, 0, 0x1, 0, 0x1, 0, 0x1, 0,
    0x1, 0, 0x1, 0, 0x1, 0, 0x1, 0, 0x1, 0, 0x1, 0, 0x1, 0, 0x1, 0,
    0x1, 0, 0x1, 0, 0x1, 0, 0, 0, 0x1, 0, 0, 0, 0, 0, 0, 0]"

definition tolower_table_page05 :: "nat list" where
  "tolower_table_page05 = [
    0, 0, 0, 0, 0, 0, 0, 0, 0, 0, 0, 0, 0, 0, 0, 0,
    0, 0, 0, 0, 0, 0, 0, 0, 0, 0, 0, 0, 0, 0, 0, 0,
    0, 0, 0, 0, 0, 0, 0, 0, 0, 0, 0, 0, 0, 0, 0, 0,
    0, 0x30, 0x30, 0x30, 0x30, 0x30, 0x30, 0x30, 0x30, 0x30, 0x30, 0x30, 0x30, 0x30, 0x30, 0x30,
    0x30, 0x30, 0x30, 0x30, 0x30, 0x30, 0x30, 0x30, 0x30, 0x30, 0x30, 0x30, 0x30, 0x30, 0x30, 0x30,
    0x30, 0x30, 0x30, 0x30, 0x30, 0x30, 0x30, 0, 0, 0, 0, 0, 0, 0, 0, 0,
    0, 0, 0, 0, 0, 0, 0, 0, 0, 0, 0, 0, 0, 0, 0, 0,
    0, 0, 0, 0, 0, 0, 0, 0, 0, 0, 0, 0, 0, 0, 0, 0,
    0, 0, 0, 0, 0, 0, 0, 0, 0, 0, 0, 0, 0, 0, 0, 0,
    0, 0, 0, 0, 0, 0, 0, 0, 0, 0, 0, 0, 0, 0, 0, 0,
    0, 0, 0, 0, 0, 0, 0, 0, 0, 0, 0, 0, 0, 0, 0, 0,
    0, 0, 0, 0, 0, 0, 0, 0, 0, 0, 0, 0, 0, 0, 0, 0,
    0, 0, 0, 0, 0, 0, 0, 0, 0, 0, 0, 0, 0, 0, 0, 0,
    0, 0, 0, 0, 0, 0, 0, 0, 0, 0, 0, 0, 0, 0, 0, 0,
    0, 0, 0, 0, 0, 0, 0, 0, 0, 0, 0, 0, 0, 0, 0, 0,
    0, 0, 0, 0, 0, 0, 0, 0, 0, 0, 0, 0, 0, 0, 0, 0]"

definition tolower_table_page1e :: "nat list" where
  "tolower_table_page1e = [
    0x1, 0, 0x1, 0, 0x1, 0, 0x1, 0, 0x1, 0, 0x1, 0, 0x1, 0, 0x1, 0,
    0x1, 0, 0x1, 0, 0x1, 0, 0x1, 0, 0x1, 0, 0x1, 0, 0x1, 0, 0x1, 0,
    0x1, 0, 0x1, 0, 0x1, 0, 0x1, 0, 0x1, 0, 0x1, 0, 0x1, 0, 0x1, 0,
    0x1, 0, 0x1, 0, 0x1, 0, 0x1, 0, 0x1, 0, 0x1, 0, 0x1, 0, 0x1, 0,
    0x1, 0, 0x1, 0, 0x1, 0, 0x1, 0, 0x1, 0, 0x1, 0, 0x1, 0, 0x1, 0,
    0x1, 0, 0x1, 0, 0x1, 0, 0x1, 0, 0x1, 0, 0x1, 0, 0x1, 0, 0x1, 0,
    0x1, 0, 0x1, 0, 0x1, 0, 0x1, 0, 0x1, 0, 0x1, 0, 0x1, 0, 0x1, 0,
    0x1, 0, 0x1, 0, 0x1, 0, 0x1, 0, 0x1, 0, 0x1, 0, 0x1, 0, 0x1, 0,
    0x1, 0, 0x1, 0, 0x1, 0, 0x1, 0, 0x1, 0, 0x1, 0, 0x1, 0, 0x1, 0,
    0x1, 0, 0x1, 0, 0x1, 0, 0, 0, 0, 0, 0, 0, 0, 0, 0, 0,
    0x1, 0, 0x1, 0, 0x1, 0, 0x1, 0, 0x1, 0, 0x1, 0, 0x1, 0, 0x1, 0,
    0x1, 0, 0x1, 0, 0x1, 0, 0x1, 0, 0x1, 0, 0x1, 0, 0x1, 0, 0x1, 0,
    0x1, 0, 0x1, 0, 0x1, 0, 0x1, 0, 0x1, 0, 0x1, 0, 0x1, 0, 0x1, 0,
    0x1, 0, 0x1, 0, 0x1, 0, 0x1, 0, 0x1, 0, 0x1, 0, 0x1, 0, 0x1, 0,
    0x1, 0, 0x1, 0, 0x1, 0, 0x1, 0, 0x1, 0, 0x1, 0, 0x1, 0, 0x1, 0,
    0x1, 0, 0x1, 0, 0x1, 0, 0x1, 0, 0x1, 0, 0, 0, 0, 0, 0, 0]"

definition tolower_table_page1f :: "nat list" where
  "tolower_table_page1f = [
    0, 0, 0, 0, 0, 0, 0, 0, 0xFFF8, 0xFFF8, 0xFFF8, 0xFFF8, 0xFFF8, 0xFFF8, 0xFFF8, 0xFFF8,
    0, 0, 0, 0, 0, 0, 0, 0, 0xFFF8, 0xFFF8, 0xFFF8, 0xFFF8, 0xFFF8, 0xFFF8, 0, 0,
    0, 0, 0, 0, 0, 0, 0, 0, 0xFFF8, 0xFFF8, 0xFFF8, 0xFFF8, 0xFFF8, 0xFFF8, 0xFFF8, 0xFFF8,
    0, 0, 0, 0, 0, 0, 0, 0, 0xFFF8, 0xFFF8, 0xFFF8, 0xFFF8, 0xFFF8, 0xFFF8, 0xFFF8, 0xFFF8,
    0, 0, 0, 0, 0, 0, 0, 0, 0xFFF8, 0xFFF8, 0xFFF8, 0xFFF8, 0xFFF8, 0xFFF8, 0, 0,
    0, 0, 0, 0, 0, 0, 0, 0, 0, 0xFFF8, 0, 0xFFF8, 0, 0xFFF8, 0, 0xFFF8,
    0, 0, 0, 0, 0, 0, 0, 0, 0xFFF8, 0xFFF8, 0xFFF8, 0xFFF8, 0xFFF8, 0xFFF8, 0xFFF8, 0xFFF8,
    0, 0, 0, 0, 0, 0, 0, 0, 0, 0, 0, 0, 0, 0, 0, 0,
    0, 0, 0, 0, 0, 0, 0, 0, 0xFFF8, 0xFFF8, 0xFFF8, 0xFFF8, 0xFFF8, 0xFFF8, 0xFFF8, 0xFFF8,
    0, 0, 0, 0, 0, 0, 0, 0, 0xFFF8, 0xFFF8, 0xFFF8, 0xFFF8, 0xFFF8, 0xFFF8, 0xFFF8, 0xFFF8,
    0, 0, 0, 0, 0, 0, 0, 0, 0xFFF8, 0xFFF8, 0xFFF8, 0xFFF8, 0xFFF8, 0xFFF8, 0xFFF8, 0xFFF8,
    0, 0, 0, 0, 0, 0, 0, 0, 0xFFF8, 0xFFF8, 0xFFB6, 0xFFB6, 0xFFF7, 0, 0, 0,
    0, 0, 0, 0, 0, 0, 0, 0, 0xFFAA, 0xFFAA, 0xFFAA, 0xFFAA, 0xFFF7, 0, 0, 0,
    0, 0, 0, 0, 0, 0, 0, 0, 0xFFF8, 0xFFF8, 0xFF9C, 0xFF9C, 0, 0, 0, 0,
    0, 0, 0, 0, 0, 0, 0, 0, 0xFFF8, 0xFFF8, 0xFF90, 0xFF90, 0xFFF9, 0, 0, 0,
    0, 0, 0, 0, 0, 0, 0, 0, 0xFF80, 0xFF80, 0xFF82, 0xFF82, 0xFFF7, 0, 0, 0]"

definition tolower_table_page21 :: "nat list" where
  "tolower_table_page21 = [
    0, 0, 0, 0, 0, 0, 0, 0, 0, 0, 0, 0, 0, 0, 0, 0,
    0, 0, 0, 0, 0, 0, 0, 0, 0, 0, 0, 0, 0, 0, 0, 0,
    0, 0, 0, 0, 0, 0, 0xE2A3, 0, 0, 0, 0xDF41, 0xDFBA, 0, 0, 0, 0,
    0, 0, 0, 0, 0, 0, 0, 0, 0, 0, 0, 0, 0, 0, 0, 0,
    0, 0, 0, 0, 0, 0, 0, 0, 0, 0, 0, 0, 0, 0, 0, 0,
    0, 0, 0, 0, 0, 0, 0, 0, 0, 0, 0, 0, 0, 0, 0, 0,
    0x10, 0x10, 0x10, 0x10, 0x10, 0x10, 0x10, 0x10, 0x10, 0x10, 0x10, 0x10, 0x10, 0x10, 0x10, 0x10,
    0, 0, 0, 0, 0, 0, 0, 0, 0, 0, 0, 0, 0, 0, 0, 0,
    0, 0, 0, 0, 0, 0, 0, 0, 0, 0, 0, 0, 0, 0, 0, 0,
    0, 0, 0, 0, 0, 0, 0, 0, 0, 0, 0, 0, 0, 0, 0, 0,
    0, 0, 0, 0, 0, 0, 0, 0, 0, 0, 0, 0, 0, 0, 0, 0,
    0, 0, 0, 0, 0, 0, 0, 0, 0, 0, 0, 0, 0, 0, 0, 0,
    0, 0, 0, 0, 0, 0, 0, 0, 0, 0, 0, 0, 0, 0, 0, 0,
    0, 0, 0, 0, 0, 0, 0, 0, 0, 0, 0, 0, 0, 0, 0, 0,
    0, 0, 0, 0, 0, 0, 0, 0, 0, 0, 0, 0, 0, 0, 0, 0,
    0, 0, 0, 0, 0, 0, 0, 0, 0, 0, 0, 0, 0, 0, 0, 0]"

definition tolower_table_page24 :: "nat list" where
  "tolower_table_page24 = [
    0, 0, 0, 0, 0, 0, 0, 0, 0, 0, 0, 0, 0, 0, 0, 0,
    0, 0, 0, 0, 0, 0, 0, 0, 0, 0, 0, 0, 0, 0, 0, 0,
    0, 0, 0, 0, 0, 0, 0, 0, 0, 0, 0, 0, 0, 0, 0, 0,
    0, 0, 0, 0, 0, 0, 0, 0, 0, 0, 0, 0, 0, 0, 0, 0,
    0, 0, 0, 0, 0, 0, 0, 0, 0, 0, 0, 0, 0, 0, 0, 0,
    0, 0, 0, 0, 0, 0, 0, 0, 0, 0, 0, 0, 0, 0, 0, 0,
    0, 0, 0, 0, 0, 0, 0, 0, 0, 0, 0, 0, 0, 0, 0, 0,
    0, 0, 0, 0, 0, 0, 0, 0, 0, 0, 0, 0, 0, 0, 0, 0,
    0, 0, 0, 0, 0, 0, 0, 0, 0, 0, 0, 0, 0, 0, 0, 0,
    0, 0, 0, 0, 0, 0, 0, 0, 0, 0, 0, 0, 0, 0, 0, 0,
    0, 0, 0, 0, 0, 0, 0, 0, 0, 0, 0, 0, 0, 0, 0, 0,
    0, 0, 0, 0, 0, 0, 0x1A, 0x1A, 0x1A, 0x1A, 0x1A, 0x1A, 0x1A, 0x1A, 0x1A, 0x1A,
    0x1A, 0x1A, 0x1A, 0x1A, 0x1A, 0x1A, 0x1A, 0x1A, 0x1A, 0x1A, 0x1A, 0x1A, 0x1A, 0x1A, 0x1A, 0x1A,
    0, 0, 0, 0, 0, 0, 0, 0, 0, 0, 0, 0, 0, 0, 0, 0,
    0, 0, 0, 0, 0, 0, 0, 0, 0, 0, 0, 0, 0, 0, 0, 0,
    0, 0, 0, 0, 0, 0, 0, 0, 0, 0, 0, 0, 0, 0, 0, 0]"

definition tolower_table_pageff :: "nat list" where
  "tolower_table_pageff = [
    0, 0, 0, 0, 0, 0, 0, 0, 0, 0, 0, 0, 0, 0, 0, 0,
    0, 0, 0, 0, 0, 0, 0, 0, 0, 0, 0, 0, 0, 0, 0, 0,
    0, 0x20, 0x20, 0x20, 0x20, 0x20, 0x20, 0x20, 0x20, 0x20, 0x20, 0x20, 0x20, 0x20, 0x20, 0x20,
    0x20, 0x20, 0x20, 0x20, 0x20, 0x20, 0x20, 0x20, 0x20, 0x20, 0x20, 0, 0, 0, 0, 0,
    0, 0, 0, 0, 0, 0, 0, 0, 0, 0, 0, 0, 0, 0, 0, 0,
    0, 0, 0, 0, 0, 0, 0, 0, 0, 0, 0, 0, 0, 0, 0, 0,
    0, 0, 0, 0, 0, 0, 0, 0, 0, 0, 0, 0, 0, 0, 0, 0,
    0, 0, 0, 0, 0, 0, 0, 0, 0, 0, 0, 0, 0, 0, 0, 0,
    0, 0, 0, 0, 0, 0, 0, 0, 0, 0, 0, 0, 0, 0, 0, 0,
    0, 0, 0, 0, 0, 0, 0, 0, 0, 0, 0, 0, 0, 0, 0, 0,
    0, 0, 0, 0, 0, 0, 0, 0, 0, 0, 0, 0, 0, 0, 0, 0,
    0, 0, 0, 0, 0, 0, 0, 0, 0, 0, 0, 0, 0, 0, 0, 0,
    0, 0, 0, 0, 0, 0, 0, 0, 0, 0, 0, 0, 0, 0, 0, 0,
    0, 0, 0, 0, 0, 0, 0, 0, 0, 0, 0, 0, 0, 0, 0, 0,
    0, 0, 0, 0, 0, 0, 0, 0, 0, 0, 0, 0, 0, 0, 0, 0,
    0, 0, 0, 0, 0, 0, 0, 0, 0, 0, 0, 0, 0, 0, 0, 0]"

definition tolower_table_page104 :: "nat list" where
  "tolower_table_page104 = [
    0x28, 0x28, 0x28, 0x28, 0x28, 0x28, 0x28, 0x28, 0x28, 0x28, 0x28, 0x28, 0x28, 0x28, 0x28, 0x28,
    0x28, 0x28, 0x28, 0x28, 0x28, 0x28, 0x28, 0x28, 0x28, 0x28, 0x28, 0x28, 0x28, 0x28, 0x28, 0x28,
    0x28, 0x28, 0x28, 0x28, 0x28, 0x28, 0, 0, 0, 0, 0, 0, 0, 0, 0, 0,
    0, 0, 0, 0, 0, 0, 0, 0, 0, 0, 0, 0, 0, 0, 0, 0,
    0, 0, 0, 0, 0, 0, 0, 0, 0, 0, 0, 0, 0, 0, 0, 0,
    0, 0, 0, 0, 0, 0, 0, 0, 0, 0, 0, 0, 0, 0, 0, 0,
    0, 0, 0, 0, 0, 0, 0, 0, 0, 0, 0, 0, 0, 0, 0, 0,
    0, 0, 0, 0, 0, 0, 0, 0, 0, 0, 0, 0, 0, 0, 0, 0,
    0, 0, 0, 0, 0, 0, 0, 0, 0, 0, 0, 0, 0, 0, 0, 0,
    0, 0, 0, 0, 0, 0, 0, 0, 0, 0, 0, 0, 0, 0, 0, 0,
    0, 0, 0, 0, 0, 0, 0, 0, 0, 0, 0, 0, 0, 0, 0, 0,
    0, 0, 0, 0, 0, 0, 0, 0, 0, 0, 0, 0, 0, 0, 0, 0,
    0, 0, 0, 0, 0, 0, 0, 0, 0, 0, 0, 0, 0, 0, 0, 0,
    0, 0, 0, 0, 0, 0, 0, 0, 0, 0, 0, 0, 0, 0, 0, 0,
    0, 0, 0, 0, 0, 0, 0, 0, 0, 0, 0, 0, 0, 0, 0, 0,
    0, 0, 0, 0, 0, 0, 0, 0, 0, 0, 0, 0, 0, 0, 0, 0]"

definition tolower_table :: "nat list list" where
  "tolower_table =
     [tolower_table_page00, tolower_table_page01, tolower_table_page02, tolower_table_page03, tolower_table_page04, tolower_table_page05] @
     replicate 24 nop_page @
     [tolower_table_page1e, tolower_table_page1f] @
     replicate 1 nop_page @
     [tolower_table_page21] @
     replicate 2 nop_page @
     [tolower_table_page24] @
     replicate 218 nop_page @
     [tolower_table_pageff] @
     replicate 4 nop_page @
     [tolower_table_page104] @
     replicate 3 nop_page"

section \<open>\<open>toupper\<close>\<close>

definition toupper_table_page00 :: "nat list" where
  "toupper_table_page00 = [
    0, 0, 0, 0, 0, 0, 0, 0, 0, 0, 0, 0, 0, 0, 0, 0,
    0, 0, 0, 0, 0, 0, 0, 0, 0, 0, 0, 0, 0, 0, 0, 0,
    0, 0, 0, 0, 0, 0, 0, 0, 0, 0, 0, 0, 0, 0, 0, 0,
    0, 0, 0, 0, 0, 0, 0, 0, 0, 0, 0, 0, 0, 0, 0, 0,
    0, 0, 0, 0, 0, 0, 0, 0, 0, 0, 0, 0, 0, 0, 0, 0,
    0, 0, 0, 0, 0, 0, 0, 0, 0, 0, 0, 0, 0, 0, 0, 0,
    0, 0xFFE0, 0xFFE0, 0xFFE0, 0xFFE0, 0xFFE0, 0xFFE0, 0xFFE0, 0xFFE0, 0xFFE0, 0xFFE0, 0xFFE0, 0xFFE0, 0xFFE0, 0xFFE0, 0xFFE0,
    0xFFE0, 0xFFE0, 0xFFE0, 0xFFE0, 0xFFE0, 0xFFE0, 0xFFE0, 0xFFE0, 0xFFE0, 0xFFE0, 0xFFE0, 0, 0, 0, 0, 0,
    0, 0, 0, 0, 0, 0, 0, 0, 0, 0, 0, 0, 0, 0, 0, 0,
    0, 0, 0, 0, 0, 0, 0, 0, 0, 0, 0, 0, 0, 0, 0, 0,
    0, 0, 0, 0, 0, 0, 0, 0, 0, 0, 0, 0, 0, 0, 0, 0,
    0, 0, 0, 0, 0, 0x2E7, 0, 0, 0, 0, 0, 0, 0, 0, 0, 0,
    0, 0, 0, 0, 0, 0, 0, 0, 0, 0, 0, 0, 0, 0, 0, 0,
    0, 0, 0, 0, 0, 0, 0, 0, 0, 0, 0, 0, 0, 0, 0, 0,
    0xFFE0, 0xFFE0, 0xFFE0, 0xFFE0, 0xFFE0, 0xFFE0, 0xFFE0, 0xFFE0, 0xFFE0, 0xFFE0, 0xFFE0, 0xFFE0, 0xFFE0, 0xFFE0, 0xFFE0, 0xFFE0,
    0xFFE0, 0xFFE0, 0xFFE0, 0xFFE0, 0xFFE0, 0xFFE0, 0xFFE0, 0, 0xFFE0, 0xFFE0, 0xFFE0, 0xFFE0, 0xFFE0, 0xFFE0, 0xFFE0, 0x79]"

definition toupper_table_page01 :: "nat list" where
  "toupper_table_page01 = [
    0, 0xFFFF, 0, 0xFFFF, 0, 0xFFFF, 0, 0xFFFF, 0, 0xFFFF, 0, 0xFFFF, 0, 0xFFFF, 0, 0xFFFF,
    0, 0xFFFF, 0, 0xFFFF, 0, 0xFFFF, 0, 0xFFFF, 0, 0xFFFF, 0, 0xFFFF, 0, 0xFFFF, 0, 0xFFFF,
    0, 0xFFFF, 0, 0xFFFF, 0, 0xFFFF, 0, 0xFFFF, 0, 0xFFFF, 0, 0xFFFF, 0, 0xFFFF, 0, 0xFFFF,
    0, 0xFF18, 0, 0xFFFF, 0, 0xFFFF, 0, 0xFFFF, 0, 0, 0xFFFF, 0, 0xFFFF, 0, 0xFFFF, 0,
    0xFFFF, 0, 0xFFFF, 0, 0xFFFF, 0, 0xFFFF, 0, 0xFFFF, 0, 0, 0xFFFF, 0, 0xFFFF, 0, 0xFFFF,
    0, 0xFFFF, 0, 0xFFFF, 0, 0xFFFF, 0, 0xFFFF, 0, 0xFFFF, 0, 0xFFFF, 0, 0xFFFF, 0, 0xFFFF,
    0, 0xFFFF, 0, 0xFFFF, 0, 0xFFFF, 0, 0xFFFF, 0, 0xFFFF, 0, 0xFFFF, 0, 0xFFFF, 0, 0xFFFF,
    0, 0xFFFF, 0, 0xFFFF, 0, 0xFFFF, 0, 0xFFFF, 0, 0, 0xFFFF, 0, 0xFFFF, 0, 0xFFFF, 0xFED4,
    0, 0, 0, 0xFFFF, 0, 0xFFFF, 0, 0, 0xFFFF, 0, 0, 0, 0xFFFF, 0, 0, 0,
    0, 0, 0xFFFF, 0, 0, 0x61, 0, 0, 0, 0xFFFF, 0, 0, 0, 0, 0, 0,
    0, 0xFFFF, 0, 0xFFFF, 0, 0xFFFF, 0, 0, 0xFFFF, 0, 0, 0, 0, 0xFFFF, 0, 0,
    0xFFFF, 0, 0, 0, 0xFFFF, 0, 0xFFFF, 0, 0, 0xFFFF, 0, 0, 0, 0xFFFF, 0, 0x38,
    0, 0, 0, 0, 0, 0xFFFF, 0xFFFE, 0, 0xFFFF, 0xFFFE, 0, 0xFFFF, 0xFFFE, 0, 0xFFFF, 0,
    0xFFFF, 0, 0xFFFF, 0, 0xFFFF, 0, 0xFFFF, 0, 0xFFFF, 0, 0xFFFF, 0, 0xFFFF, 0xFFB1, 0, 0xFFFF,
    0, 0xFFFF, 0, 0xFFFF, 0, 0xFFFF, 0, 0xFFFF, 0, 0xFFFF, 0, 0xFFFF, 0, 0xFFFF, 0, 0xFFFF,
    0, 0, 0xFFFF, 0xFFFE, 0, 0xFFFF, 0, 0, 0, 0xFFFF, 0, 0xFFFF, 0, 0xFFFF, 0, 0xFFFF]"

definition toupper_table_page02 :: "nat list" where
  "toupper_table_page02 = [
    0, 0xFFFF, 0, 0xFFFF, 0, 0xFFFF, 0, 0xFFFF, 0, 0xFFFF, 0, 0xFFFF, 0, 0xFFFF, 0, 0xFFFF,
    0, 0xFFFF, 0, 0xFFFF, 0, 0xFFFF, 0, 0xFFFF, 0, 0xFFFF, 0, 0xFFFF, 0, 0xFFFF, 0, 0xFFFF,
    0, 0, 0, 0xFFFF, 0, 0xFFFF, 0, 0xFFFF, 0, 0xFFFF, 0, 0xFFFF, 0, 0xFFFF, 0, 0xFFFF,
    0, 0xFFFF, 0, 0xFFFF, 0, 0, 0, 0, 0, 0, 0, 0, 0, 0, 0, 0,
    0, 0, 0, 0, 0, 0, 0, 0, 0, 0, 0, 0, 0, 0, 0, 0,
    0, 0, 0, 0xFF2E, 0xFF32, 0, 0xFF33, 0xFF33, 0, 0xFF36, 0, 0xFF35, 0, 0, 0, 0,
    0xFF33, 0, 0, 0xFF31, 0, 0, 0, 0, 0xFF2F, 0xFF2D, 0, 0, 0, 0, 0, 0xFF2D,
    0, 0, 0xFF2B, 0, 0, 0xFF2A, 0, 0, 0, 0, 0, 0, 0, 0, 0, 0,
    0xFF26, 0, 0, 0xFF26, 0, 0, 0, 0, 0xFF26, 0, 0xFF27, 0xFF27, 0, 0, 0, 0,
    0, 0, 0xFF25, 0, 0, 0, 0, 0, 0, 0, 0, 0, 0, 0, 0, 0,
    0, 0, 0, 0, 0, 0, 0, 0, 0, 0, 0, 0, 0, 0, 0, 0,
    0, 0, 0, 0, 0, 0, 0, 0, 0, 0, 0, 0, 0, 0, 0, 0,
    0, 0, 0, 0, 0, 0, 0, 0, 0, 0, 0, 0, 0, 0, 0, 0,
    0, 0, 0, 0, 0, 0, 0, 0, 0, 0, 0, 0, 0, 0, 0, 0,
    0, 0, 0, 0, 0, 0, 0, 0, 0, 0, 0, 0, 0, 0, 0, 0,
    0, 0, 0, 0, 0, 0, 0, 0, 0, 0, 0, 0, 0, 0, 0, 0]"

definition toupper_table_page03 :: "nat list" where
  "toupper_table_page03 = [
    0, 0, 0, 0, 0, 0, 0, 0, 0, 0, 0, 0, 0, 0, 0, 0,
    0, 0, 0, 0, 0, 0, 0, 0, 0, 0, 0, 0, 0, 0, 0, 0,
    0, 0, 0, 0, 0, 0, 0, 0, 0, 0, 0, 0, 0, 0, 0, 0,
    0, 0, 0, 0, 0, 0, 0, 0, 0, 0, 0, 0, 0, 0, 0, 0,
    0, 0, 0, 0, 0, 0x54, 0, 0, 0, 0, 0, 0, 0, 0, 0, 0,
    0, 0, 0, 0, 0, 0, 0, 0, 0, 0, 0, 0, 0, 0, 0, 0,
    0, 0, 0, 0, 0, 0, 0, 0, 0, 0, 0, 0, 0, 0, 0, 0,
    0, 0, 0, 0, 0, 0, 0, 0, 0, 0, 0, 0, 0, 0, 0, 0,
    0, 0, 0, 0, 0, 0, 0, 0, 0, 0, 0, 0, 0, 0, 0, 0,
    0, 0, 0, 0, 0, 0, 0, 0, 0, 0, 0, 0, 0, 0, 0, 0,
    0, 0, 0, 0, 0, 0, 0, 0, 0, 0, 0, 0, 0xFFDA, 0xFFDB, 0xFFDB, 0xFFDB,
    0, 0xFFE0, 0xFFE0, 0xFFE0, 0xFFE0, 0xFFE0, 0xFFE0, 0xFFE0, 0xFFE0, 0xFFE0, 0xFFE0, 0xFFE0, 0xFFE0, 0xFFE0, 0xFFE0, 0xFFE0,
    0xFFE0, 0xFFE0, 0xFFE1, 0xFFE0, 0xFFE0, 0xFFE0, 0xFFE0, 0xFFE0, 0xFFE0, 0xFFE0, 0xFFE0, 0xFFE0, 0xFFC0, 0xFFC1, 0xFFC1, 0,
    0xFFC2, 0xFFC7, 0, 0, 0, 0xFFD1, 0xFFCA, 0, 0, 0, 0, 0xFFFF, 0, 0xFFFF, 0, 0xFFFF,
    0, 0xFFFF, 0, 0xFFFF, 0, 0xFFFF, 0, 0xFFFF, 0, 0xFFFF, 0, 0xFFFF, 0, 0xFFFF, 0, 0xFFFF,
    0xFFAA, 0xFFB0, 0xFFB1, 0, 0, 0xFFA0, 0, 0, 0, 0, 0, 0, 0, 0, 0, 0]"

definition toupper_table_page04 :: "nat list" where
  "toupper_table_page04 = [
    0, 0, 0, 0, 0, 0, 0, 0, 0, 0, 0, 0, 0, 0, 0, 0,
    0, 0, 0, 0, 0, 0, 0, 0, 0, 0, 0, 0, 0, 0, 0, 0,
    0, 0, 0, 0, 0, 0, 0, 0, 0, 0, 0, 0, 0, 0, 0, 0,
    0xFFE0, 0xFFE0, 0xFFE0, 0xFFE0, 0xFFE0, 0xFFE0, 0xFFE0, 0xFFE0, 0xFFE0, 0xFFE0, 0xFFE0, 0xFFE0, 0xFFE0, 0xFFE0, 0xFFE0, 0xFFE0,
    0xFFE0, 0xFFE0, 0xFFE0, 0xFFE0, 0xFFE0, 0xFFE0, 0xFFE0, 0xFFE0, 0xFFE0, 0xFFE0, 0xFFE0, 0xFFE0, 0xFFE0, 0xFFE0, 0xFFE0, 0xFFE0,
    0xFFB0, 0xFFB0, 0xFFB0, 0xFFB0, 0xFFB0, 0xFFB0, 0xFFB0, 0xFFB0, 0xFFB0, 0xFFB0, 0xFFB0, 0xFFB0, 0xFFB0, 0xFFB0, 0xFFB0, 0xFFB0,
    0, 0xFFFF, 0, 0xFFFF, 0, 0xFFFF, 0, 0xFFFF, 0, 0xFFFF, 0, 0xFFFF, 0, 0xFFFF, 0, 0xFFFF,
    0, 0xFFFF, 0, 0xFFFF, 0, 0xFFFF, 0, 0xFFFF, 0, 0xFFFF, 0, 0xFFFF, 0, 0xFFFF, 0, 0xFFFF,
    0, 0xFFFF, 0, 0, 0, 0, 0, 0, 0, 0, 0, 0, 0, 0xFFFF, 0, 0xFFFF,
    0, 0xFFFF, 0, 0xFFFF, 0, 0xFFFF, 0, 0xFFFF, 0, 0xFFFF, 0, 0xFFFF, 0, 0xFFFF, 0, 0xFFFF,
    0, 0xFFFF, 0, 0xFFFF, 0, 0xFFFF, 0, 0xFFFF, 0, 0xFFFF, 0, 0xFFFF, 0, 0xFFFF, 0, 0xFFFF,
    0, 0xFFFF, 0, 0xFFFF, 0, 0xFFFF, 0, 0xFFFF, 0, 0xFFFF, 0, 0xFFFF, 0, 0xFFFF, 0, 0xFFFF,
    0, 0, 0xFFFF, 0, 0xFFFF, 0, 0, 0, 0xFFFF, 0, 0, 0, 0xFFFF, 0, 0, 0,
    0, 0xFFFF, 0, 0xFFFF, 0, 0xFFFF, 0, 0xFFFF, 0, 0xFFFF, 0, 0xFFFF, 0, 0xFFFF, 0, 0xFFFF,
    0, 0xFFFF, 0, 0xFFFF, 0, 0xFFFF, 0, 0xFFFF, 0, 0xFFFF, 0, 0xFFFF, 0, 0xFFFF, 0, 0xFFFF,
    0, 0xFFFF, 0, 0xFFFF, 0, 0xFFFF, 0, 0, 0, 0xFFFF, 0, 0, 0, 0, 0, 0]"

definition toupper_table_page05 :: "nat list" where
  "toupper_table_page05 = [
    0, 0, 0, 0, 0, 0, 0, 0, 0, 0, 0, 0, 0, 0, 0, 0,
    0, 0, 0, 0, 0, 0, 0, 0, 0, 0, 0, 0, 0, 0, 0, 0,
    0, 0, 0, 0, 0, 0, 0, 0, 0, 0, 0, 0, 0, 0, 0, 0,
    0, 0, 0, 0, 0, 0, 0, 0, 0, 0, 0, 0, 0, 0, 0, 0,
    0, 0, 0, 0, 0, 0, 0, 0, 0, 0, 0, 0, 0, 0, 0, 0,
    0, 0, 0, 0, 0, 0, 0, 0, 0, 0, 0, 0, 0, 0, 0, 0,
    0, 0xFFD0, 0xFFD0, 0xFFD0, 0xFFD0, 0xFFD0, 0xFFD0, 0xFFD0, 0xFFD0, 0xFFD0, 0xFFD0, 0xFFD0, 0xFFD0, 0xFFD0, 0xFFD0, 0xFFD0,
    0xFFD0, 0xFFD0, 0xFFD0, 0xFFD0, 0xFFD0, 0xFFD0, 0xFFD0, 0xFFD0, 0xFFD0, 0xFFD0, 0xFFD0, 0xFFD0, 0xFFD0, 0xFFD0, 0xFFD0, 0xFFD0,
    0xFFD0, 0xFFD0, 0xFFD0, 0xFFD0, 0xFFD0, 0xFFD0, 0xFFD0, 0, 0, 0, 0, 0, 0, 0, 0, 0,
    0, 0, 0, 0, 0, 0, 0, 0, 0, 0, 0, 0, 0, 0, 0, 0,
    0, 0, 0, 0, 0, 0, 0, 0, 0, 0, 0, 0, 0, 0, 0, 0,
    0, 0, 0, 0, 0, 0, 0, 0, 0, 0, 0, 0, 0, 0, 0, 0,
    0, 0, 0, 0, 0, 0, 0, 0, 0, 0, 0, 0, 0, 0, 0, 0,
    0, 0, 0, 0, 0, 0, 0, 0, 0, 0, 0, 0, 0, 0, 0, 0,
    0, 0, 0, 0, 0, 0, 0, 0, 0, 0, 0, 0, 0, 0, 0, 0,
    0, 0, 0, 0, 0, 0, 0, 0, 0, 0, 0, 0, 0, 0, 0, 0]"

definition toupper_table_page1e :: "nat list" where
  "toupper_table_page1e = [
    0, 0xFFFF, 0, 0xFFFF, 0, 0xFFFF, 0, 0xFFFF, 0, 0xFFFF, 0, 0xFFFF, 0, 0xFFFF, 0, 0xFFFF,
    0, 0xFFFF, 0, 0xFFFF, 0, 0xFFFF, 0, 0xFFFF, 0, 0xFFFF, 0, 0xFFFF, 0, 0xFFFF, 0, 0xFFFF,
    0, 0xFFFF, 0, 0xFFFF, 0, 0xFFFF, 0, 0xFFFF, 0, 0xFFFF, 0, 0xFFFF, 0, 0xFFFF, 0, 0xFFFF,
    0, 0xFFFF, 0, 0xFFFF, 0, 0xFFFF, 0, 0xFFFF, 0, 0xFFFF, 0, 0xFFFF, 0, 0xFFFF, 0, 0xFFFF,
    0, 0xFFFF, 0, 0xFFFF, 0, 0xFFFF, 0, 0xFFFF, 0, 0xFFFF, 0, 0xFFFF, 0, 0xFFFF, 0, 0xFFFF,
    0, 0xFFFF, 0, 0xFFFF, 0, 0xFFFF, 0, 0xFFFF, 0, 0xFFFF, 0, 0xFFFF, 0, 0xFFFF, 0, 0xFFFF,
    0, 0xFFFF, 0, 0xFFFF, 0, 0xFFFF, 0, 0xFFFF, 0, 0xFFFF, 0, 0xFFFF, 0, 0xFFFF, 0, 0xFFFF,
    0, 0xFFFF, 0, 0xFFFF, 0, 0xFFFF, 0, 0xFFFF, 0, 0xFFFF, 0, 0xFFFF, 0, 0xFFFF, 0, 0xFFFF,
    0, 0xFFFF, 0, 0xFFFF, 0, 0xFFFF, 0, 0xFFFF, 0, 0xFFFF, 0, 0xFFFF, 0, 0xFFFF, 0, 0xFFFF,
    0, 0xFFFF, 0, 0xFFFF, 0, 0xFFFF, 0, 0, 0, 0, 0, 0xFFC5, 0, 0, 0, 0,
    0, 0xFFFF, 0, 0xFFFF, 0, 0xFFFF, 0, 0xFFFF, 0, 0xFFFF, 0, 0xFFFF, 0, 0xFFFF, 0, 0xFFFF,
    0, 0xFFFF, 0, 0xFFFF, 0, 0xFFFF, 0, 0xFFFF, 0, 0xFFFF, 0, 0xFFFF, 0, 0xFFFF, 0, 0xFFFF,
    0, 0xFFFF, 0, 0xFFFF, 0, 0xFFFF, 0, 0xFFFF, 0, 0xFFFF, 0, 0xFFFF, 0, 0xFFFF, 0, 0xFFFF,
    0, 0xFFFF, 0, 0xFFFF, 0, 0xFFFF, 0, 0xFFFF, 0, 0xFFFF, 0, 0xFFFF, 0, 0xFFFF, 0, 0xFFFF,
    0, 0xFFFF, 0, 0xFFFF, 0, 0xFFFF, 0, 0xFFFF, 0, 0xFFFF, 0, 0xFFFF, 0, 0xFFFF, 0, 0xFFFF,
    0, 0xFFFF, 0, 0xFFFF, 0, 0xFFFF, 0, 0xFFFF, 0, 0xFFFF, 0, 0, 0, 0, 0, 0]"

definition toupper_table_page1f :: "nat list" where
  "toupper_table_page1f = [
    0x8, 0x8, 0x8, 0x8, 0x8, 0x8, 0x8, 0x8, 0, 0, 0, 0, 0, 0, 0, 0,
    0x8, 0x8, 0x8, 0x8, 0x8, 0x8, 0, 0, 0, 0, 0, 0, 0, 0, 0, 0,
    0x8, 0x8, 0x8, 0x8, 0x8, 0x8, 0x8, 0x8, 0, 0, 0, 0, 0, 0, 0, 0,
    0x8, 0x8, 0x8, 0x8, 0x8, 0x8, 0x8, 0x8, 0, 0, 0, 0, 0, 0, 0, 0,
    0x8, 0x8, 0x8, 0x8, 0x8, 0x8, 0, 0, 0, 0, 0, 0, 0, 0, 0, 0,
    0, 0x8, 0, 0x8, 0, 0x8, 0, 0x8, 0, 0, 0, 0, 0, 0, 0, 0,
    0x8, 0x8, 0x8, 0x8, 0x8, 0x8, 0x8, 0x8, 0, 0, 0, 0, 0, 0, 0, 0,
    0x4A, 0x4A, 0x56, 0x56, 0x56, 0x56, 0x64, 0x64, 0x80, 0x80, 0x70, 0x70, 0x7E, 0x7E, 0, 0,
    0x8, 0x8, 0x8, 0x8, 0x8, 0x8, 0x8, 0x8, 0, 0, 0, 0, 0, 0, 0, 0,
    0x8, 0x8, 0x8, 0x8, 0x8, 0x8, 0x8, 0x8, 0, 0, 0, 0, 0, 0, 0, 0,
    0x8, 0x8, 0x8, 0x8, 0x8, 0x8, 0x8, 0x8, 0, 0, 0, 0, 0, 0, 0, 0,
    0x8, 0x8, 0, 0x9, 0, 0, 0, 0, 0, 0, 0, 0, 0, 0, 0xE3DB, 0,
    0, 0, 0, 0x9, 0, 0, 0, 0, 0, 0, 0, 0, 0, 0, 0, 0,
    0x8, 0x8, 0, 0, 0, 0, 0, 0, 0, 0, 0, 0, 0, 0, 0, 0,
    0x8, 0x8, 0, 0, 0, 0x7, 0, 0, 0, 0, 0, 0, 0, 0, 0, 0,
    0, 0, 0, 0x9, 0, 0, 0, 0, 0, 0, 0, 0, 0, 0, 0, 0]"

definition toupper_table_page21 :: "nat list" where
  "toupper_table_page21 = [
    0, 0, 0, 0, 0, 0, 0, 0, 0, 0, 0, 0, 0, 0, 0, 0,
    0, 0, 0, 0, 0, 0, 0, 0, 0, 0, 0, 0, 0, 0, 0, 0,
    0, 0, 0, 0, 0, 0, 0, 0, 0, 0, 0, 0, 0, 0, 0, 0,
    0, 0, 0, 0, 0, 0, 0, 0, 0, 0, 0, 0, 0, 0, 0, 0,
    0, 0, 0, 0, 0, 0, 0, 0, 0, 0, 0, 0, 0, 0, 0, 0,
    0, 0, 0, 0, 0, 0, 0, 0, 0, 0, 0, 0, 0, 0, 0, 0,
    0, 0, 0, 0, 0, 0, 0, 0, 0, 0, 0, 0, 0, 0, 0, 0,
    0xFFF0, 0xFFF0, 0xFFF0, 0xFFF0, 0xFFF0, 0xFFF0, 0xFFF0, 0xFFF0, 0xFFF0, 0xFFF0, 0xFFF0, 0xFFF0, 0xFFF0, 0xFFF0, 0xFFF0, 0xFFF0,
    0, 0, 0, 0, 0, 0, 0, 0, 0, 0, 0, 0, 0, 0, 0, 0,
    0, 0, 0, 0, 0, 0, 0, 0, 0, 0, 0, 0, 0, 0, 0, 0,
    0, 0, 0, 0, 0, 0, 0, 0, 0, 0, 0, 0, 0, 0, 0, 0,
    0, 0, 0, 0, 0, 0, 0, 0, 0, 0, 0, 0, 0, 0, 0, 0,
    0, 0, 0, 0, 0, 0, 0, 0, 0, 0, 0, 0, 0, 0, 0, 0,
    0, 0, 0, 0, 0, 0, 0, 0, 0, 0, 0, 0, 0, 0, 0, 0,
    0, 0, 0, 0, 0, 0, 0, 0, 0, 0, 0, 0, 0, 0, 0, 0,
    0, 0, 0, 0, 0, 0, 0, 0, 0, 0, 0, 0, 0, 0, 0, 0]"

definition toupper_table_page24 :: "nat list" where
  "toupper_table_page24 = [
    0, 0, 0, 0, 0, 0, 0, 0, 0, 0, 0, 0, 0, 0, 0, 0,
    0, 0, 0, 0, 0, 0, 0, 0, 0, 0, 0, 0, 0, 0, 0, 0,
    0, 0, 0, 0, 0, 0, 0, 0, 0, 0, 0, 0, 0, 0, 0, 0,
    0, 0, 0, 0, 0, 0, 0, 0, 0, 0, 0, 0, 0, 0, 0, 0,
    0, 0, 0, 0, 0, 0, 0, 0, 0, 0, 0, 0, 0, 0, 0, 0,
    0, 0, 0, 0, 0, 0, 0, 0, 0, 0, 0, 0, 0, 0, 0, 0,
    0, 0, 0, 0, 0, 0, 0, 0, 0, 0, 0, 0, 0, 0, 0, 0,
    0, 0, 0, 0, 0, 0, 0, 0, 0, 0, 0, 0, 0, 0, 0, 0,
    0, 0, 0, 0, 0, 0, 0, 0, 0, 0, 0, 0, 0, 0, 0, 0,
    0, 0, 0, 0, 0, 0, 0, 0, 0, 0, 0, 0, 0, 0, 0, 0,
    0, 0, 0, 0, 0, 0, 0, 0, 0, 0, 0, 0, 0, 0, 0, 0,
    0, 0, 0, 0, 0, 0, 0, 0, 0, 0, 0, 0, 0, 0, 0, 0,
    0, 0, 0, 0, 0, 0, 0, 0, 0, 0, 0, 0, 0, 0, 0, 0,
    0xFFE6, 0xFFE6, 0xFFE6, 0xFFE6, 0xFFE6, 0xFFE6, 0xFFE6, 0xFFE6, 0xFFE6, 0xFFE6, 0xFFE6, 0xFFE6, 0xFFE6, 0xFFE6, 0xFFE6, 0xFFE6,
    0xFFE6, 0xFFE6, 0xFFE6, 0xFFE6, 0xFFE6, 0xFFE6, 0xFFE6, 0xFFE6, 0xFFE6, 0xFFE6, 0, 0, 0, 0, 0, 0,
    0, 0, 0, 0, 0, 0, 0, 0, 0, 0, 0, 0, 0, 0, 0, 0]"

definition toupper_table_pageff :: "nat list" where
  "toupper_table_pageff = [
    0, 0, 0, 0, 0, 0, 0, 0, 0, 0, 0, 0, 0, 0, 0, 0,
    0, 0, 0, 0, 0, 0, 0, 0, 0, 0, 0, 0, 0, 0, 0, 0,
    0, 0, 0, 0, 0, 0, 0, 0, 0, 0, 0, 0, 0, 0, 0, 0,
    0, 0, 0, 0, 0, 0, 0, 0, 0, 0, 0, 0, 0, 0, 0, 0,
    0, 0xFFE0, 0xFFE0, 0xFFE0, 0xFFE0, 0xFFE0, 0xFFE0, 0xFFE0, 0xFFE0, 0xFFE0, 0xFFE0, 0xFFE0, 0xFFE0, 0xFFE0, 0xFFE0, 0xFFE0,
    0xFFE0, 0xFFE0, 0xFFE0, 0xFFE0, 0xFFE0, 0xFFE0, 0xFFE0, 0xFFE0, 0xFFE0, 0xFFE0, 0xFFE0, 0, 0, 0, 0, 0,
    0, 0, 0, 0, 0, 0, 0, 0, 0, 0, 0, 0, 0, 0, 0, 0,
    0, 0, 0, 0, 0, 0, 0, 0, 0, 0, 0, 0, 0, 0, 0, 0,
    0, 0, 0, 0, 0, 0, 0, 0, 0, 0, 0, 0, 0, 0, 0, 0,
    0, 0, 0, 0, 0, 0, 0, 0, 0, 0, 0, 0, 0, 0, 0, 0,
    0, 0, 0, 0, 0, 0, 0, 0, 0, 0, 0, 0, 0, 0, 0, 0,
    0, 0, 0, 0, 0, 0, 0, 0, 0, 0, 0, 0, 0, 0, 0, 0,
    0, 0, 0, 0, 0, 0, 0, 0, 0, 0, 0, 0, 0, 0, 0, 0,
    0, 0, 0, 0, 0, 0, 0, 0, 0, 0, 0, 0, 0, 0, 0, 0,
    0, 0, 0, 0, 0, 0, 0, 0, 0, 0, 0, 0, 0, 0, 0, 0,
    0, 0, 0, 0, 0, 0, 0, 0, 0, 0, 0, 0, 0, 0, 0, 0]"

definition toupper_table_page104 :: "nat list" where
  "toupper_table_page104 = [
    0, 0, 0, 0, 0, 0, 0, 0, 0, 0, 0, 0, 0, 0, 0, 0,
    0, 0, 0, 0, 0, 0, 0, 0, 0, 0, 0, 0, 0, 0, 0, 0,
    0, 0, 0, 0, 0, 0, 0, 0, 0xFFD8, 0xFFD8, 0xFFD8, 0xFFD8, 0xFFD8, 0xFFD8, 0xFFD8, 0xFFD8,
    0xFFD8, 0xFFD8, 0xFFD8, 0xFFD8, 0xFFD8, 0xFFD8, 0xFFD8, 0xFFD8, 0xFFD8, 0xFFD8, 0xFFD8, 0xFFD8, 0xFFD8, 0xFFD8, 0xFFD8, 0xFFD8,
    0xFFD8, 0xFFD8, 0xFFD8, 0xFFD8, 0xFFD8, 0xFFD8, 0xFFD8, 0xFFD8, 0xFFD8, 0xFFD8, 0xFFD8, 0xFFD8, 0xFFD8, 0xFFD8, 0, 0,
    0, 0, 0, 0, 0, 0, 0, 0, 0, 0, 0, 0, 0, 0, 0, 0,
    0, 0, 0, 0, 0, 0, 0, 0, 0, 0, 0, 0, 0, 0, 0, 0,
    0, 0, 0, 0, 0, 0, 0, 0, 0, 0, 0, 0, 0, 0, 0, 0,
    0, 0, 0, 0, 0, 0, 0, 0, 0, 0, 0, 0, 0, 0, 0, 0,
    0, 0, 0, 0, 0, 0, 0, 0, 0, 0, 0, 0, 0, 0, 0, 0,
    0, 0, 0, 0, 0, 0, 0, 0, 0, 0, 0, 0, 0, 0, 0, 0,
    0, 0, 0, 0, 0, 0, 0, 0, 0, 0, 0, 0, 0, 0, 0, 0,
    0, 0, 0, 0, 0, 0, 0, 0, 0, 0, 0, 0, 0, 0, 0, 0,
    0, 0, 0, 0, 0, 0, 0, 0, 0, 0, 0, 0, 0, 0, 0, 0,
    0, 0, 0, 0, 0, 0, 0, 0, 0, 0, 0, 0, 0, 0, 0, 0,
    0, 0, 0, 0, 0, 0, 0, 0, 0, 0, 0, 0, 0, 0, 0, 0]"

definition toupper_table :: "nat list list" where
  "toupper_table =
     [toupper_table_page00, toupper_table_page01, toupper_table_page02, toupper_table_page03, toupper_table_page04, toupper_table_page05] @
     replicate 24 nop_page @
     [toupper_table_page1e, toupper_table_page1f] @
     replicate 1 nop_page @
     [toupper_table_page21] @
     replicate 2 nop_page @
     [toupper_table_page24] @
     replicate 218 nop_page @
     [toupper_table_pageff] @
     replicate 4 nop_page @
     [toupper_table_page104] @
     replicate 3 nop_page"

end
