(* ===== verification/Unicode.thy ===== *)
theory Unicode
  imports Unicode_Attribute_Tables Unicode_Case_Tables
begin

text \<open>
  \<open>src/unicode/attribute.cxx\<close> and \<open>src/unicode/convert.cxx\<close>: the character classes and the case
  mapping of a \<open>wchar_t\<close>. A \<open>wchar_t\<close> is a signed 32-bit integer, given as an \<open>int\<close>;
  \<open>(unsigned int) wc\<close> is its residue.
\<close>

section \<open>The functions\<close>

definition unsigned_int :: "int \<Rightarrow> nat" where
  "unsigned_int wc = nat (wc mod 2 ^ 32)"

definition iswmask :: "nat \<Rightarrow> nat \<Rightarrow> nat \<Rightarrow> nat" where
  "iswmask number incl excl = incl OR push_bit 8 excl OR push_bit 16 number"

definition wmask_incl :: "nat \<Rightarrow> nat" where
  "wmask_incl m = m AND 0xFF"

definition wmask_excl :: "nat \<Rightarrow> nat" where
  "wmask_excl m = drop_bit 8 m AND 0xFF"

definition wctype_upper :: nat where "wctype_upper = iswmask 0 c_upper 0"
definition wctype_lower :: nat where "wctype_lower = iswmask 1 c_lower 0"
definition wctype_alpha :: nat where "wctype_alpha = iswmask 2 c_alpha 0"
definition wctype_digit :: nat where "wctype_digit = iswmask 3 c_xdigit c_alpha"
definition wctype_xdigit :: nat where "wctype_xdigit = iswmask 4 c_xdigit 0"
definition wctype_space :: nat where "wctype_space = iswmask 5 c_space 0"
definition wctype_print :: nat where "wctype_print = iswmask 6 c_print 0"
definition wctype_graph :: nat where "wctype_graph = iswmask 7 c_print c_space"
definition wctype_blank :: nat where "wctype_blank = iswmask 8 c_blank 0"
definition wctype_cntrl :: nat where "wctype_cntrl = iswmask 9 c_cntrl 0"
definition wctype_punct :: nat where "wctype_punct = iswmask 10 c_print (c_alpha OR c_xdigit OR c_space)"
definition wctype_alnum :: nat where "wctype_alnum = iswmask 11 (c_alpha OR c_xdigit) 0"

lemmas wctypes =
  wctype_upper_def wctype_lower_def wctype_alpha_def wctype_digit_def wctype_xdigit_def
  wctype_space_def wctype_print_def wctype_graph_def wctype_blank_def wctype_cntrl_def
  wctype_punct_def wctype_alnum_def

definition attributes :: "nat \<Rightarrow> nat" where
  "attributes u = attribute_table ! drop_bit 8 u ! (u AND 0xFF)"

text \<open>The body the twelve functions share, up to the mask.\<close>

definition in_mask :: "nat \<Rightarrow> nat \<Rightarrow> bool" where
  "in_mask a m \<longleftrightarrow> a AND wmask_incl m \<noteq> 0 \<and> a AND wmask_excl m = 0"

definition isw :: "nat \<Rightarrow> int \<Rightarrow> bool" where
  "isw m wc \<longleftrightarrow> unsigned_int wc \<le> 0xFFFF \<and> in_mask (attributes (unsigned_int wc)) m"

definition iswalnum :: "int \<Rightarrow> bool" where "iswalnum wc = isw wctype_alnum wc"
definition iswalpha :: "int \<Rightarrow> bool" where "iswalpha wc = isw wctype_alpha wc"
definition iswblank :: "int \<Rightarrow> bool" where "iswblank wc = isw wctype_blank wc"
definition iswcntrl :: "int \<Rightarrow> bool" where "iswcntrl wc = isw wctype_cntrl wc"
definition iswdigit :: "int \<Rightarrow> bool" where "iswdigit wc = isw wctype_digit wc"
definition iswgraph :: "int \<Rightarrow> bool" where "iswgraph wc = isw wctype_graph wc"
definition iswlower :: "int \<Rightarrow> bool" where "iswlower wc = isw wctype_lower wc"
definition iswprint :: "int \<Rightarrow> bool" where "iswprint wc = isw wctype_print wc"
definition iswpunct :: "int \<Rightarrow> bool" where "iswpunct wc = isw wctype_punct wc"
definition iswspace :: "int \<Rightarrow> bool" where "iswspace wc = isw wctype_space wc"
definition iswupper :: "int \<Rightarrow> bool" where "iswupper wc = isw wctype_upper wc"
definition iswxdigit :: "int \<Rightarrow> bool" where "iswxdigit wc = isw wctype_xdigit wc"

lemmas isw_functions =
  iswalnum_def iswalpha_def iswblank_def iswcntrl_def iswdigit_def iswgraph_def iswlower_def
  iswprint_def iswpunct_def iswspace_def iswupper_def iswxdigit_def

text \<open>A table entry is the bit pattern of a \<open>short\<close>; the sum is cast to \<open>unsigned short\<close>.\<close>

definition as_short :: "nat \<Rightarrow> int" where
  "as_short n = (if n < 0x8000 then int n else int n - 0x10000)"

definition towupper :: "int \<Rightarrow> int" where
  "towupper wc =
     (let u = unsigned_int wc in
      if u < 0x10800
      then (wc + as_short (toupper_table ! drop_bit 8 u ! (u AND 0xFF))) mod 2 ^ 16
      else wc)"

definition towlower :: "int \<Rightarrow> int" where
  "towlower wc =
     (let u = unsigned_int wc in
      if u < 0x10800
      then (wc + as_short (tolower_table ! drop_bit 8 u ! (u AND 0xFF))) mod 2 ^ 16
      else wc)"

section \<open>Indexing the tables\<close>

lemma byte_index [simp]: "(u::nat) AND 0xFF = u mod 256"
  using take_bit_eq_mask [of 8 u] take_bit_eq_mod [of 8 u] by (simp add: mask_eq_exp_minus_1)

lemma page_index [simp]: "drop_bit 8 (u::nat) = u div 256"
  by (simp add: drop_bit_eq_div)

lemma list_all_replicate: "list_all P (replicate n x) \<longleftrightarrow> n = 0 \<or> P x"
  by (auto simp: list_all_iff)

definition all_pages :: "(nat \<Rightarrow> 'a \<Rightarrow> bool) \<Rightarrow> nat \<Rightarrow> 'a list \<Rightarrow> bool" where
  "all_pages P k ps \<longleftrightarrow> (\<forall>i<length ps. P (k + i) (ps ! i))"

lemma all_pagesD: "all_pages P k ps \<Longrightarrow> i < length ps \<Longrightarrow> P (k + i) (ps ! i)"
  by (simp add: all_pages_def)

lemma all_pages_simps [simp]:
  "all_pages P k []"
  "all_pages P k (p # ps) \<longleftrightarrow> P k p \<and> all_pages P (Suc k) ps"
  by (auto simp: all_pages_def less_Suc_eq_0_disj)

lemma all_pages_append [simp]:
  "all_pages P k (ps @ qs) \<longleftrightarrow> all_pages P k ps \<and> all_pages P (k + length ps) qs"
  by (induction ps arbitrary: k) auto

lemma all_pages_replicate: "(\<And>i. P i x) \<Longrightarrow> all_pages P k (replicate n x)"
  by (auto simp: all_pages_def)

section \<open>The attribute table\<close>

definition attribute_values :: "nat list" where
  "attribute_values = [0, a_print, a_letter, a_upper, a_lower, a_digit, a_upper_hex, a_lower_hex, a_blank,
     a_cntrl, a_cntrl_space, a_cntrl_blank]"

definition attribute_page_ok :: "nat list \<Rightarrow> bool" where
  "attribute_page_ok p \<longleftrightarrow> length p = 256 \<and> set p \<subseteq> set attribute_values"

lemma length_runs: "length (runs rs) = sum_list (map fst rs)"
  by (simp add: runs_def length_concat comp_def split_def)

lemma set_runs: "set (runs rs) \<subseteq> V \<longleftrightarrow> list_all (\<lambda>(n, v). n = 0 \<or> v \<in> V) rs"
  by (induction rs) (auto simp: runs_def)

lemma attribute_page_ok_runs: "attribute_page_ok (runs rs) \<longleftrightarrow>
    sum_list (map fst rs) = 256 \<and> list_all (\<lambda>(n, v). n = 0 \<or> v \<in> set attribute_values) rs"
  by (simp add: attribute_page_ok_def length_runs set_runs)

lemma attribute_table_ok: "list_all attribute_page_ok attribute_table"
  unfolding attribute_table_def list_all_append
  by (simp add: attribute_pages attribute_page_ok_runs attribute_values_def list_all_replicate)

lemma length_attribute_table: "length attribute_table = 0x1100"
  by (simp add: attribute_table_def)

lemma attributes_value: "u \<le> 0xFFFF \<Longrightarrow> attributes u \<in> set attribute_values"
proof -
  assume u: "u \<le> 0xFFFF"
  then have "u div 256 < length attribute_table" by (simp add: length_attribute_table)
  then have "attribute_page_ok (attribute_table ! (u div 256))"
    using attribute_table_ok by (simp add: list_all_length)
  then show ?thesis by (auto simp: attributes_def attribute_page_ok_def)
qed

lemma attribute_value_cases:
  assumes "\<And>a. a \<in> set attribute_values \<Longrightarrow> P a" and "u \<le> 0xFFFF"
  shows "P (attributes u)"
  using assms attributes_value by blast

lemmas class_eval = in_mask_def wmask_incl_def wmask_excl_def iswmask_def wctypes attribute_bits entries

definition class_laws :: "nat \<Rightarrow> bool" where
  "class_laws a \<longleftrightarrow>
     (in_mask a wctype_upper \<or> in_mask a wctype_lower \<longrightarrow> in_mask a wctype_alpha) \<and>
     \<not> (in_mask a wctype_upper \<and> in_mask a wctype_lower) \<and>
     (in_mask a wctype_digit \<longleftrightarrow> in_mask a wctype_xdigit \<and> \<not> in_mask a wctype_alpha) \<and>
     (in_mask a wctype_graph \<longleftrightarrow> in_mask a wctype_print \<and> \<not> in_mask a wctype_space) \<and>
     (in_mask a wctype_alnum \<longleftrightarrow> in_mask a wctype_alpha \<or> in_mask a wctype_xdigit) \<and>
     (in_mask a wctype_punct \<longleftrightarrow> in_mask a wctype_print \<and>
        \<not> (in_mask a wctype_alpha \<or> in_mask a wctype_xdigit \<or> in_mask a wctype_space)) \<and>
     (in_mask a wctype_blank \<longrightarrow> in_mask a wctype_space) \<and>
     \<not> (in_mask a wctype_cntrl \<and> in_mask a wctype_print)"

lemma class_laws: "a \<in> set attribute_values \<Longrightarrow> class_laws a"
proof -
  have "list_all class_laws attribute_values"
    unfolding attribute_values_def by (simp add: class_laws_def class_eval)
  then show "a \<in> set attribute_values \<Longrightarrow> class_laws a" by (simp add: list_all_iff)
qed

section \<open>Classes and case mapping\<close>

text \<open>The four title case letters: they have the attribute \<open>upper\<close> and both mappings.\<close>

definition title_case :: "nat list" where
  "title_case = [0x1C5, 0x1C8, 0x1CB, 0x1F2]"

definition case_entry :: "nat \<Rightarrow> nat \<Rightarrow> nat \<Rightarrow> nat \<Rightarrow> bool" where
  "case_entry u a dl du \<longleftrightarrow>
     dl < 0x10000 \<and> du < 0x10000 \<and>
     (in_mask a wctype_lower \<longleftrightarrow> dl = 0 \<and> du \<noteq> 0) \<and>
     (in_mask a wctype_upper \<longleftrightarrow> dl \<noteq> 0 \<and> (du = 0 \<or> u \<in> set title_case))"

fun case_page :: "nat \<Rightarrow> nat list \<Rightarrow> nat list \<Rightarrow> nat list \<Rightarrow> bool" where
  "case_page u (a # as) (l # ls) (d # ds) \<longleftrightarrow> case_entry u a l d \<and> case_page (u + 1) as ls ds"
| "case_page u as ls ds \<longleftrightarrow> as = [] \<and> ls = [] \<and> ds = []"

lemma upper_values:
  "in_mask 0 wctype_upper = False" "in_mask a_print wctype_upper = False"
  "in_mask a_letter wctype_upper = False" "in_mask a_upper wctype_upper = True"
  "in_mask a_lower wctype_upper = False" "in_mask a_digit wctype_upper = False"
  "in_mask a_upper_hex wctype_upper = True" "in_mask a_lower_hex wctype_upper = False"
  "in_mask a_blank wctype_upper = False" "in_mask a_cntrl wctype_upper = False"
  "in_mask a_cntrl_space wctype_upper = False" "in_mask a_cntrl_blank wctype_upper = False"
  by (simp_all add: class_eval)

lemma lower_values:
  "in_mask 0 wctype_lower = False" "in_mask a_print wctype_lower = False"
  "in_mask a_letter wctype_lower = False" "in_mask a_upper wctype_lower = False"
  "in_mask a_lower wctype_lower = True" "in_mask a_digit wctype_lower = False"
  "in_mask a_upper_hex wctype_lower = False" "in_mask a_lower_hex wctype_lower = True"
  "in_mask a_blank wctype_lower = False" "in_mask a_cntrl wctype_lower = False"
  "in_mask a_cntrl_space wctype_lower = False" "in_mask a_cntrl_blank wctype_lower = False"
  by (simp_all add: class_eval)

lemmas case_eval = case_entry_def upper_values lower_values title_case_def runs_def

lemma replicate_numeral: "replicate (numeral k) x = x # replicate (pred_numeral k) x"
  by (simp add: numeral_eq_Suc)

lemma case_page_00:
  "case_page 0x0000 attribute_table_page00 tolower_table_page00 toupper_table_page00"
  unfolding attribute_table_page00_def tolower_table_page00_def toupper_table_page00_def
  by (simp add: case_eval replicate_numeral)

lemma case_page_01:
  "case_page 0x0100 attribute_table_page01 tolower_table_page01 toupper_table_page01"
  unfolding attribute_table_page01_def tolower_table_page01_def toupper_table_page01_def
  by (simp add: case_eval replicate_numeral)

lemma case_page_02:
  "case_page 0x0200 attribute_table_page02 tolower_table_page02 toupper_table_page02"
  unfolding attribute_table_page02_def tolower_table_page02_def toupper_table_page02_def
  by (simp add: case_eval replicate_numeral)

lemma case_page_03:
  "case_page 0x0300 attribute_table_page03 tolower_table_page03 toupper_table_page03"
  unfolding attribute_table_page03_def tolower_table_page03_def toupper_table_page03_def
  by (simp add: case_eval replicate_numeral)

lemma case_page_04:
  "case_page 0x0400 attribute_table_page04 tolower_table_page04 toupper_table_page04"
  unfolding attribute_table_page04_def tolower_table_page04_def toupper_table_page04_def
  by (simp add: case_eval replicate_numeral)

lemma case_page_05:
  "case_page 0x0500 attribute_table_page05 tolower_table_page05 toupper_table_page05"
  unfolding attribute_table_page05_def tolower_table_page05_def toupper_table_page05_def
  by (simp add: case_eval replicate_numeral)

lemma case_page_1e:
  "case_page 0x1E00 attribute_table_page1e tolower_table_page1e toupper_table_page1e"
  unfolding attribute_table_page1e_def tolower_table_page1e_def toupper_table_page1e_def
  by (simp add: case_eval replicate_numeral)

lemma case_page_1f:
  "case_page 0x1F00 attribute_table_page1f tolower_table_page1f toupper_table_page1f"
  unfolding attribute_table_page1f_def tolower_table_page1f_def toupper_table_page1f_def
  by (simp add: case_eval replicate_numeral)

lemma case_page_21:
  "case_page 0x2100 attribute_table_page21 tolower_table_page21 toupper_table_page21"
  unfolding attribute_table_page21_def tolower_table_page21_def toupper_table_page21_def
  by (simp add: case_eval replicate_numeral)

lemma case_page_24:
  "case_page 0x2400 attribute_table_page24 tolower_table_page24 toupper_table_page24"
  unfolding attribute_table_page24_def tolower_table_page24_def toupper_table_page24_def
  by (simp add: case_eval replicate_numeral)

lemma case_page_ff:
  "case_page 0xFF00 attribute_table_pageff tolower_table_pageff toupper_table_pageff"
  unfolding attribute_table_pageff_def tolower_table_pageff_def toupper_table_pageff_def
  by (simp add: case_eval replicate_numeral)


lemma case_page_nth:
  "case_page u as ls ds \<Longrightarrow> i < length as \<Longrightarrow> case_entry (u + i) (as ! i) (ls ! i) (ds ! i)"
proof (induction u as ls ds arbitrary: i rule: case_page.induct)
  case (1 u a as l ls d ds)
  then show ?case by (cases i) auto
qed auto

text \<open>The pages with case mappings, within the first 256.\<close>

definition cased :: "nat list" where
  "cased = [0, 1, 2, 3, 4, 5, 0x1E, 0x1F, 0x21, 0x24, 0xFF]"

lemma tolower_cased: "all_pages (\<lambda>k p. k \<in> set cased \<or> 256 \<le> k \<or> p = nop_page) 0 tolower_table"
  unfolding tolower_table_def by (simp add: cased_def all_pages_replicate)

lemma toupper_cased: "all_pages (\<lambda>k p. k \<in> set cased \<or> 256 \<le> k \<or> p = nop_page) 0 toupper_table"
  unfolding toupper_table_def by (simp add: cased_def all_pages_replicate)

definition caseless :: "nat list \<Rightarrow> bool" where
  "caseless p \<longleftrightarrow> set p \<subseteq> {a. \<not> in_mask a wctype_upper \<and> \<not> in_mask a wctype_lower}"

lemma caseless_runs: "caseless (runs rs) \<longleftrightarrow>
    list_all (\<lambda>(n, v). n = 0 \<or> \<not> in_mask v wctype_upper \<and> \<not> in_mask v wctype_lower) rs"
  by (simp add: caseless_def set_runs)

lemma attribute_cased: "all_pages (\<lambda>k p. k \<in> set cased \<or> 256 \<le> k \<or> caseless p) 0 attribute_table"
  unfolding attribute_table_def
  by (simp add: cased_def all_pages_replicate attribute_pages caseless_runs upper_values lower_values)

lemma tables_cased:
  assumes "k \<in> set cased"
  shows "case_page (256 * k) (attribute_table ! k) (tolower_table ! k) (toupper_table ! k)"
proof -
  have "\<forall>k\<in>set cased. case_page (256 * k) (attribute_table ! k) (tolower_table ! k) (toupper_table ! k)"
    unfolding cased_def attribute_table_def tolower_table_def toupper_table_def
    by (simp add: nth_append case_page_00 [simplified] case_page_01 [simplified] case_page_02 [simplified] case_page_03 [simplified] case_page_04 [simplified] case_page_05 [simplified] case_page_1e [simplified] case_page_1f [simplified] case_page_21 [simplified] case_page_24 [simplified] case_page_ff [simplified])
  with assms show ?thesis by blast
qed

lemma case_tables:
  assumes u: "u \<le> 0xFFFF"
  shows "case_entry u (attributes u) (tolower_table ! (u div 256) ! (u mod 256))
    (toupper_table ! (u div 256) ! (u mod 256))"
proof -
  let ?k = "u div 256" and ?i = "u mod 256"
  have k: "?k < 256" using u by simp
  show ?thesis
  proof (cases "?k \<in> set cased")
    case True
    have "attribute_page_ok (attribute_table ! ?k)"
      using attribute_table_ok k by (simp add: list_all_length length_attribute_table)
    then have "?i < length (attribute_table ! ?k)" by (simp add: attribute_page_ok_def)
    from case_page_nth [OF tables_cased [OF True] this] show ?thesis
      by (simp add: attributes_def)
  next
    case False
    have len: "length tolower_table = 264" "length toupper_table = 264"
      by (simp_all add: tolower_table_def toupper_table_def)
    have nop: "tolower_table ! ?k = nop_page" "toupper_table ! ?k = nop_page"
      using all_pagesD [OF tolower_cased, of ?k] all_pagesD [OF toupper_cased, of ?k] False k
      by (auto simp: len simp del: div_less_dividend)
    have "nop_page ! ?i = 0" unfolding nop_page_def by (rule nth_replicate) simp
    moreover have "caseless (attribute_table ! ?k)"
      using all_pagesD [OF attribute_cased, of ?k] False k by (auto simp: length_attribute_table)
    moreover have "length (attribute_table ! ?k) = 256"
      using attribute_table_ok k by (simp add: list_all_length length_attribute_table attribute_page_ok_def)
    then have "attributes u \<in> set (attribute_table ! ?k)" by (simp add: attributes_def)
    ultimately show ?thesis by (auto simp: case_entry_def nop caseless_def)
  qed
qed

lemma add_short_fixed:
  assumes "0 \<le> wc" "wc < 65536" "d < 65536"
  shows "(wc + as_short d) mod 65536 = wc \<longleftrightarrow> d = 0"
proof -
  have "(wc + as_short d) mod 65536 = (wc + int d) mod 65536"
    by (auto simp: as_short_def algebra_simps)
  also have "\<dots> = wc \<longleftrightarrow> d = 0"
  proof (cases "wc + int d < 65536")
    case True
    then show ?thesis using assms by (simp add: mod_pos_pos_trivial)
  next
    case False
    have "(wc + int d) mod 65536 = (wc + int d - 65536) mod 65536" by simp
    also have "\<dots> = wc + int d - 65536" using assms False by (intro mod_pos_pos_trivial) auto
    finally show ?thesis using assms False by auto
  qed
  finally show ?thesis .
qed

section \<open>Properties\<close>

text \<open>C39: the attribute table keeps the relations \<open>iswbits.h\<close> documents, for every character value:
  upper and lower case letters are alphabetic and never both, \<open>digit\<close> is \<open>xdigit && !alpha\<close>,
  \<open>graph\<close> is \<open>print && !space\<close>, \<open>alnum\<close> is \<open>alpha || xdigit\<close>, \<open>punct\<close> is what is printed and in
  none of the others; a blank is a space and a control character is not printed.\<close>

theorem character_classes:
  "(iswupper wc \<or> iswlower wc \<longrightarrow> iswalpha wc) \<and> \<not> (iswupper wc \<and> iswlower wc)
   \<and> (iswdigit wc \<longleftrightarrow> iswxdigit wc \<and> \<not> iswalpha wc)
   \<and> (iswgraph wc \<longleftrightarrow> iswprint wc \<and> \<not> iswspace wc)
   \<and> (iswalnum wc \<longleftrightarrow> iswalpha wc \<or> iswxdigit wc)
   \<and> (iswpunct wc \<longleftrightarrow> iswprint wc \<and> \<not> (iswalpha wc \<or> iswxdigit wc \<or> iswspace wc))
   \<and> (iswblank wc \<longrightarrow> iswspace wc) \<and> \<not> (iswcntrl wc \<and> iswprint wc)"
proof (cases "unsigned_int wc \<le> 0xFFFF")
  case True
  from class_laws [OF attributes_value [OF True]] True show ?thesis
    by (auto simp: isw_functions isw_def class_laws_def)
qed (simp add: isw_functions isw_def)

lemma upper_A: "iswupper 65"
  by (simp add: iswupper_def isw_def in_mask_def attributes_def unsigned_int_def wctype_upper_def iswmask_def
      wmask_incl_def wmask_excl_def c_upper_def attribute_table_def attribute_table_page00_def runs_def nth_append a_upper_hex_def attribute_bits)

lemma character_classes_witness:
  "iswupper 65 \<and> iswalpha 65 \<and> iswalnum 65 \<and> \<not> iswlower 65 \<and> \<not> iswpunct 65"
  using character_classes [of 65] upper_A by blast

text \<open>C40: within the first 65536 characters a character is a lower case letter exactly when only
  \<open>towupper\<close> changes it, and an upper case letter exactly when \<open>towlower\<close> changes it and
  \<open>towupper\<close> does not, except for the four title case letters, which count as upper case.\<close>

theorem letter_case_mapping:
  assumes "0 \<le> wc" and "wc \<le> 0xFFFF"
  shows "(iswlower wc \<longleftrightarrow> towlower wc = wc \<and> towupper wc \<noteq> wc)
    \<and> (iswupper wc \<longleftrightarrow> towlower wc \<noteq> wc \<and> (towupper wc = wc \<or> wc \<in> {0x1C5, 0x1C8, 0x1CB, 0x1F2}))"
proof -
  define u where "u = unsigned_int wc"
  have u: "u \<le> 0xFFFF" "int u = wc" using assms by (simp_all add: u_def unsigned_int_def)
  note entry = case_tables [OF u(1)]
  have "towlower wc = wc \<longleftrightarrow> tolower_table ! (u div 256) ! (u mod 256) = 0"
    and "towupper wc = wc \<longleftrightarrow> toupper_table ! (u div 256) ! (u mod 256) = 0"
    using add_short_fixed assms u entry
    by (simp_all add: towlower_def towupper_def u_def [symmetric] case_entry_def)
  moreover have "u \<in> set title_case \<longleftrightarrow> wc \<in> {0x1C5, 0x1C8, 0x1CB, 0x1F2}"
    using u(2) by (auto simp: title_case_def)
  ultimately show ?thesis
    using entry u(1) by (auto simp: iswlower_def iswupper_def isw_def u_def [symmetric] case_entry_def)
qed

lemma letter_case_mapping_witness:
  "iswupper 65 \<and> towlower 65 \<noteq> 65 \<and> towupper 65 = 65"
  using letter_case_mapping [of 65] upper_A by simp

text \<open>Above the first 65536 characters the case mapping is wrong: the sum is cast to
  \<open>unsigned short\<close>, so a character from 0x10000 to 0x103FF, which has no case, is mapped to another
  character, the one with its low 16 bits.\<close>

theorem case_mapping_truncates:
  assumes "0x10000 \<le> wc" and "wc < 0x10400"
  shows "towlower wc = wc - 0x10000 \<and> towupper wc = wc - 0x10000"
proof -
  define u where "u = unsigned_int wc"
  have u: "int u = wc" using assms by (simp add: u_def unsigned_int_def)
  then have k: "u div 256 \<in> set [0x100, 0x101, 0x102, 0x103]" using assms by auto
  have "\<forall>k\<in>set [0x100, 0x101, 0x102, 0x103]. tolower_table ! k = nop_page \<and> toupper_table ! k = nop_page"
    unfolding tolower_table_def toupper_table_def by (simp add: nth_append)
  with k have nop: "tolower_table ! (u div 256) = nop_page" "toupper_table ! (u div 256) = nop_page"
    by blast+
  have "nop_page ! (u mod 256) = 0" unfolding nop_page_def by (rule nth_replicate) simp
  moreover have "(wc - 65536) mod 65536 = wc - 65536"
    using assms by (intro mod_pos_pos_trivial) auto
  then have "wc mod 65536 = wc - 65536" by simp
  ultimately show ?thesis
    using assms u nop by (simp add: towlower_def towupper_def u_def [symmetric] as_short_def)
qed

lemma case_mapping_truncates_witness: "towlower 0x10041 = 0x41 \<and> towupper 0x10041 = 0x41"
  using case_mapping_truncates [of "0x10041"] by simp

end
