(* ===== verification/Utf8.thy ===== *)
theory Utf8
  imports Khl_Prelude
begin

text \<open>
  \<open>include/unicode/transform.h\<close>: \<open>utf8_encode\<close> and \<open>utf8_decode\<close>. A \<open>wchar_t\<close> is an \<open>int\<close>; the
  flag \<open>utf16\<close> is \<open>sizeof (wchar_t) == 2\<close> (Windows), otherwise it has 32 bits. Bytes are natural
  numbers below 256, an \<open>unsigned long\<close> is a natural number below \<open>2 ^ 64\<close>.
\<close>

unbundle bit_operations_syntax

section \<open>The functions\<close>

definition unsigned_long :: "int \<Rightarrow> nat" where
  "unsigned_long w = nat (w mod 2 ^ 64)"

definition as_wchar :: "bool \<Rightarrow> nat \<Rightarrow> int" where
  "as_wchar utf16 wc =
     (if utf16 then int (wc mod 2 ^ 16)
      else let n = wc mod 2 ^ 32 in if n < 2 ^ 31 then int n else int n - 2 ^ 32)"

text \<open>The lead byte and the shift for a character that takes more than one byte.\<close>

definition lead_byte :: "nat \<Rightarrow> nat \<times> nat" where
  "lead_byte wc =
     (if wc < 0x800 then (6, 0xC0) else if wc < 0x10000 then (12, 0xE0)
      else if wc < 0x200000 then (18, 0xF0) else if wc < 0x4000000 then (24, 0xF8) else (30, 0xFC))"

text \<open>The loop over the shifts; the shifts are multiples of 6, so the loop counts in sixes.\<close>

fun emit_loop :: "nat \<Rightarrow> nat \<Rightarrow> nat \<Rightarrow> nat list" where
  "emit_loop wc c 0 = [c OR (wc AND 0x3F)]"
| "emit_loop wc c (Suc k) = (c OR (drop_bit (6 * Suc k) wc AND 0x3F)) # emit_loop wc 0x80 k"

definition emit :: "nat \<Rightarrow> nat list" where
  "emit wc = (case lead_byte wc of (shift, c) \<Rightarrow> emit_loop wc c (shift div 6))"

text \<open>\<open>encode_over\<close> starts at the label \<open>over\<close>, \<open>encode_next\<close> at the head of the loop.\<close>

function encode_over :: "bool \<Rightarrow> nat \<Rightarrow> int list \<Rightarrow> nat list"
  and encode_next :: "bool \<Rightarrow> int list \<Rightarrow> nat list" where
  "encode_over utf16 wc ws =
     (if wc < 0x80 then wc # encode_next utf16 ws
      else if utf16 \<and> 0xD800 \<le> wc \<and> wc < 0xE000 then
        (if 0xDC00 \<le> wc then encode_over utf16 0x3F ws
         else case ws of
                [] \<Rightarrow> []
              | w # ws' \<Rightarrow>
                  (let lo = unsigned_long w in
                   if lo \<ge> 0xDC00 \<and> wc < 0xE000
                   then emit (0x10000 + (push_bit 10 (wc AND 0x3FF) OR (lo AND 0x3FF))) @ encode_next utf16 ws'
                   else 0x3F # encode_over utf16 lo ws'))
      else emit wc @ encode_next utf16 ws)"
| "encode_next utf16 [] = []"
| "encode_next utf16 (w # ws) = encode_over utf16 (unsigned_long w) ws"
  by pat_completeness auto
termination
  by (relation "measure (\<lambda>x. case x of Inl (u, wc, ws) \<Rightarrow> 3 * length ws + (if wc < 0x80 then 1 else 2)
                             | Inr (u, ws) \<Rightarrow> 3 * length ws)") auto

declare encode_over.simps [simp del]

definition utf8_encode :: "bool \<Rightarrow> int list \<Rightarrow> nat list" where
  "utf8_encode utf16 ws = encode_next utf16 ws"

text \<open>The number of continuation bytes and the bits of a start byte.\<close>

definition start_byte :: "nat \<Rightarrow> (nat \<times> nat) option" where
  "start_byte wc =
     (if 0xE0 AND wc = 0xC0 then Some (1, wc AND 0x1F)
      else if 0xF0 AND wc = 0xE0 then Some (2, wc AND 0xF)
      else if 0xF8 AND wc = 0xF0 then Some (3, wc AND 0x7)
      else if 0xFC AND wc = 0xF8 then Some (4, wc AND 0x3)
      else if 0xFE AND wc = 0xFC then Some (5, wc AND 0x1)
      else None)"

definition decoded :: "bool \<Rightarrow> nat \<Rightarrow> int list" where
  "decoded utf16 wc =
     (let wc = (if 0x80000000 AND wc \<noteq> 0 then 0x3F else wc) in
      if utf16 \<and> wc > 0xFFFF then
        (let wc = wc - 0x10000 in
         [as_wchar utf16 (0xD800 OR (drop_bit 10 wc AND 0x3FF)), as_wchar utf16 (0xDC00 OR (wc AND 0x3FF))])
      else [as_wchar utf16 wc])"

text \<open>
  \<open>decode_over\<close> starts at the label \<open>over\<close>; \<open>decode_cont\<close> is the loop over the continuation
  bytes, whose end inside a character makes the function return.
\<close>

function decode_over :: "bool \<Rightarrow> nat \<Rightarrow> nat list \<Rightarrow> int list"
  and decode_cont :: "bool \<Rightarrow> nat \<Rightarrow> nat \<Rightarrow> nat list \<Rightarrow> int list"
  and decode_next :: "bool \<Rightarrow> nat list \<Rightarrow> int list" where
  "decode_over utf16 wc bs =
     (if wc AND 0x80 \<noteq> 0 then
        (case start_byte wc of
           None \<Rightarrow> as_wchar utf16 0x3F # decode_next utf16 bs
         | Some (cnt, v) \<Rightarrow> decode_cont utf16 cnt (if v = 0 then 2 ^ 64 - 1 else v) bs)
      else as_wchar utf16 wc # decode_next utf16 bs)"
| "decode_cont utf16 cnt wc [] = []"
| "decode_cont utf16 cnt wc (c # bs) =
     (if 0xC0 AND c \<noteq> 0x80 then as_wchar utf16 wc # decode_over utf16 c bs
      else let wc = take_bit 64 (push_bit 6 wc) OR (c AND 0x3F) in
           if cnt \<le> 1 then decoded utf16 wc @ decode_next utf16 bs
           else decode_cont utf16 (cnt - 1) wc bs)"
| "decode_next utf16 [] = []"
| "decode_next utf16 (b # bs) = decode_over utf16 b bs"
  by pat_completeness auto
termination
  by (relation "measure (\<lambda>x. case x of Inl (u, wc, bs) \<Rightarrow> 3 * length bs + 2
         | Inr (Inl (u, cnt, wc, bs)) \<Rightarrow> 3 * length bs + 1
         | Inr (Inr (u, bs)) \<Rightarrow> 3 * length bs)") auto

declare decode_over.simps [simp del]

definition utf8_decode :: "bool \<Rightarrow> nat list \<Rightarrow> int list" where
  "utf8_decode utf16 bs = decode_next utf16 bs"

section \<open>Bits\<close>

lemma and_low_bits: "(x::nat) AND 0x3F = x mod 64"
  using take_bit_eq_mask [of 6 x] take_bit_eq_mod [of 6 x] by (simp add: mask_eq_exp_minus_1)

lemma shift_or:
  assumes "(y::nat) < 64"
  shows "push_bit 6 x OR y = 64 * x + y"
proof -
  have "take_bit 6 y = y" using assms by (simp add: take_bit_nat_eq_self)
  then have "\<not> bit y n" if "6 \<le> n" for n using that by (metis bit_take_bit_iff not_le)
  then have "push_bit 6 x + y = push_bit 6 x OR y"
    by (intro disjunctive_add) (auto simp: bit_push_bit_iff)
  then show ?thesis by (simp add: push_bit_eq_mult)
qed

lemma upt_numeral: "[0..<numeral k] = [0..<pred_numeral k] @ [pred_numeral k]"
  by (simp add: numeral_eq_Suc)

lemma cont_bits: "y < 64 \<Longrightarrow> 0x80 OR y = 0x80 + y \<and> 0xC0 AND (0x80 + y) = (0x80::nat)"
proof -
  have "list_all (\<lambda>y. 0x80 OR y = 0x80 + y \<and> 0xC0 AND (0x80 + y) = (0x80::nat)) [0..<64]"
    by (simp add: upt_numeral)
  then show "y < 64 \<Longrightarrow> 0x80 OR y = 0x80 + y \<and> 0xC0 AND (0x80 + y) = (0x80::nat)" by (simp add: list_all_iff)
qed

lemma start_two: "x < 32 \<Longrightarrow> 0xC0 OR x = 0xC0 + x \<and> (0xC0 + x) AND 0x80 \<noteq> 0
    \<and> start_byte (0xC0 + x) = Some (1, x)"
proof -
  have "list_all (\<lambda>x. 0xC0 OR x = 0xC0 + x \<and> (0xC0 + x) AND 0x80 \<noteq> 0
    \<and> start_byte (0xC0 + x) = Some (1, x)) [0..<32]"
    by (simp add: upt_numeral start_byte_def)
  then show "x < 32 \<Longrightarrow> 0xC0 OR x = 0xC0 + x \<and> (0xC0 + x) AND 0x80 \<noteq> 0
    \<and> start_byte (0xC0 + x) = Some (1, x)" by (simp add: list_all_iff)
qed

lemma start_three: "x < 16 \<Longrightarrow> 0xE0 OR x = 0xE0 + x \<and> (0xE0 + x) AND 0x80 \<noteq> 0
    \<and> start_byte (0xE0 + x) = Some (2, x)"
proof -
  have "list_all (\<lambda>x. 0xE0 OR x = 0xE0 + x \<and> (0xE0 + x) AND 0x80 \<noteq> 0
    \<and> start_byte (0xE0 + x) = Some (2, x)) [0..<16]"
    by (simp add: upt_numeral start_byte_def)
  then show "x < 16 \<Longrightarrow> 0xE0 OR x = 0xE0 + x \<and> (0xE0 + x) AND 0x80 \<noteq> 0
    \<and> start_byte (0xE0 + x) = Some (2, x)" by (simp add: list_all_iff)
qed

lemma start_four: "x < 8 \<Longrightarrow> 0xF0 OR x = 0xF0 + x \<and> (0xF0 + x) AND 0x80 \<noteq> 0
    \<and> start_byte (0xF0 + x) = Some (3, x)"
proof -
  have "list_all (\<lambda>x. 0xF0 OR x = 0xF0 + x \<and> (0xF0 + x) AND 0x80 \<noteq> 0
    \<and> start_byte (0xF0 + x) = Some (3, x)) [0..<8]"
    by (simp add: upt_numeral start_byte_def)
  then show "x < 8 \<Longrightarrow> 0xF0 OR x = 0xF0 + x \<and> (0xF0 + x) AND 0x80 \<noteq> 0
    \<and> start_byte (0xF0 + x) = Some (3, x)" by (simp add: list_all_iff)
qed

lemma plain_byte: "x < 128 \<Longrightarrow> x AND 0x80 = (0::nat)"
proof -
  assume "x < 128"
  then have "take_bit 7 x = x" by (simp add: take_bit_nat_eq_self)
  moreover have "take_bit 7 x AND 0x80 = (0::nat)"
  proof (rule bit_eqI)
    fix n
    have "(0x80::nat) = 2 ^ 7" by simp
    then show "bit (take_bit 7 x AND 0x80) n = bit (0::nat) n"
      by (simp only: bit_and_iff bit_take_bit_iff bit_exp_iff bit_0_eq) auto
  qed
  ultimately show ?thesis by simp
qed

section \<open>Round trip\<close>

text \<open>
  What decoding returns for an encoded character on a platform with 32-bit \<open>wchar_t\<close>: the
  decoder takes a start byte without payload bits for an overlong sequence.
\<close>

definition utf8_lost :: "int \<Rightarrow> bool" where
  "utf8_lost w \<longleftrightarrow> 0x800 \<le> w \<and> w < 0x1000 \<or> 0x10000 \<le> w \<and> w < 0x40000"

lemma six_bits: "x mod 64 < (64::nat)"
  by simp

lemma decode_cont_step:
  assumes "y < 64"
  shows "decode_cont False cnt wc ((0x80 + y) # bs)
     = (let v = (64 * wc) mod 2 ^ 64 + y in
        if cnt \<le> 1 then decoded False v @ decode_next False bs else decode_cont False (cnt - 1) v bs)"
proof -
  have c: "0xC0 AND (0x80 + y) = (0x80::nat)" using cont_bits [OF assms] by simp
  have "(0x80 + y) mod 64 = (y + 2 * 64) mod 64" by (simp add: add.commute)
  then have low: "(0x80 + y) AND 0x3F = y" using assms unfolding and_low_bits mod_mult_self1 by simp
  have "take_bit 64 (push_bit 6 wc) = push_bit 6 (take_bit 58 wc)"
    by (simp add: take_bit_push_bit)
  then have "take_bit 64 (push_bit 6 wc) OR y = take_bit 64 (push_bit 6 wc) + y"
    using shift_or [OF assms, of "take_bit 58 wc"] by (simp add: push_bit_eq_mult)
  then show ?thesis using c low by (simp add: take_bit_eq_mod push_bit_eq_mult Let_def mult.commute)
qed

lemma bit_31_small: "v < 2 ^ 31 \<Longrightarrow> 0x80000000 AND v = (0::nat)"
proof -
  assume v: "v < 2 ^ 31"
  have e: "(0x80000000::nat) = 2 ^ 31" by simp
  have "v div 2 ^ 31 = 0" using v by simp
  then have "\<not> bit v 31" unfolding bit_iff_odd by simp
  then show ?thesis unfolding e and.commute [of "2 ^ 31"] by (simp only: and_exp_eq_0_iff_not_bit simp_thms)
qed

lemma bit_31_large: "2 ^ 64 - 2 ^ 31 \<le> v \<Longrightarrow> v < 2 ^ 64 \<Longrightarrow> 0x80000000 AND v \<noteq> (0::nat)"
proof -
  assume v: "2 ^ 64 - 2 ^ 31 \<le> v" "v < 2 ^ 64"
  have e: "(0x80000000::nat) = 2 ^ 31" by simp
  have "v div 2 ^ 31 = 2 ^ 33 - 1" using v by (intro div_nat_eqI) simp_all
  then have "bit v 31" unfolding bit_iff_odd by simp
  then show ?thesis unfolding e and.commute [of "2 ^ 31"] by (simp only: and_exp_eq_0_iff_not_bit simp_thms)
qed

lemma decoded_small: "v < 2 ^ 31 \<Longrightarrow> decoded False v = [int v]"
  by (simp add: decoded_def bit_31_small as_wchar_def Let_def)

lemma decoded_large: "2 ^ 64 - 2 ^ 31 \<le> v \<Longrightarrow> v < 2 ^ 64 \<Longrightarrow> decoded False v = [0x3F]"
  using bit_31_large [of v] by (simp add: decoded_def as_wchar_def Let_def)

lemma emit_one: "emit_loop wc c (Suc 0) = [c OR (wc div 64 mod 64), 0x80 OR (wc mod 64)]"
  by (simp add: and_low_bits drop_bit_eq_div)

lemma emit_two: "emit_loop wc c 2 = (c OR (wc div 4096 mod 64)) # emit_loop wc 0x80 (Suc 0)"
  unfolding numeral_2_eq_2 emit_loop.simps by (simp add: and_low_bits drop_bit_eq_div del: emit_loop.simps)

lemma emit_three: "emit_loop wc c 3 = (c OR (wc div 262144 mod 64)) # emit_loop wc 0x80 2"
  unfolding numeral_3_eq_3 numeral_2_eq_2 emit_loop.simps
  by (simp add: and_low_bits drop_bit_eq_div del: emit_loop.simps)

lemmas emit_bytes = emit_one emit_two emit_three

lemma sextets: "(wc::nat) = 64 * (wc div 64) + wc mod 64" "wc div 64 = 64 * (wc div 4096) + wc div 64 mod 64"
  "wc div 4096 = 64 * (wc div 262144) + wc div 4096 mod 64"
  using mult_div_mod_eq [of 64 "wc div 64"] mult_div_mod_eq [of 64 "wc div 4096"]
  by (simp_all add: div_mult2_eq [symmetric])

lemma decode_plain: "wc < 0x80 \<Longrightarrow> decode_next False (wc # bs) = int wc # decode_next False bs"
  by (simp add: decode_over.simps plain_byte as_wchar_def)

lemma decode_two:
  assumes "0x80 \<le> wc" "wc < 0x800"
  shows "decode_next False (emit wc @ bs) = int wc # decode_next False bs"
proof -
  define x y where "x = wc div 64" and "y = wc mod 64"
  have x: "x < 32" "x \<noteq> 0" and y: "y < 64" and wc: "64 * x + y = wc"
    using assms by (auto simp: x_def y_def)
  have "emit wc = [0xC0 OR x, 0x80 OR y]"
    using assms x by (simp add: emit_def lead_byte_def emit_bytes x_def y_def del: emit_loop.simps)
  then have e: "emit wc = [0xC0 + x, 0x80 + y]" using start_two [OF x(1)] cont_bits [OF y] by simp
  show ?thesis
    unfolding e using start_two [OF x(1)] x y wc assms
    by (simp add: decode_over.simps decode_cont_step Let_def decoded_small del: decode_cont.simps(2))
qed

lemma decode_three:
  assumes "0x800 \<le> wc" "wc < 0x10000"
  shows "decode_next False (emit wc @ bs) = (if wc < 0x1000 then 0x3F else int wc) # decode_next False bs"
proof -
  define x y z where "x = wc div 4096" and "y = wc div 64 mod 64" and "z = wc mod 64"
  have x: "x < 16" "x = 0 \<longleftrightarrow> wc < 0x1000" and y: "y < 64" and z: "z < 64"
    using assms by (auto simp: x_def y_def z_def)
  have wc: "64 * (64 * x + y) + z = wc" unfolding x_def y_def z_def using sextets [of wc] by metis
  have "emit wc = [0xE0 OR x, 0x80 OR y, 0x80 OR z]"
    using assms x by (simp add: emit_def lead_byte_def emit_bytes x_def y_def z_def del: emit_loop.simps)
  then have e: "emit wc = [0xE0 + x, 0x80 + y, 0x80 + z]"
    using start_three [OF x(1)] cont_bits [OF y] cont_bits [OF z] by simp
  show ?thesis
  proof (cases "x = 0")
    case False
    then show ?thesis
      unfolding e using start_three [OF x(1)] x y z wc assms
      by (simp add: decode_over.simps decode_cont_step Let_def decoded_small del: decode_cont.simps(2))
  next
    case True
    then have v: "64 * (18446744073709551552 + y) mod 18446744073709551616 = 18446744073709547520 + 64 * y"
      using y by (simp add: mod_if)
    show ?thesis
      unfolding e using start_three [OF x(1)] x y z True v
      by (simp add: decode_over.simps decode_cont_step Let_def decoded_large del: decode_cont.simps(2))
  qed
qed

lemma decode_four:
  assumes "0x10000 \<le> wc" "wc < 0x200000"
  shows "decode_next False (emit wc @ bs) = (if wc < 0x40000 then 0x3F else int wc) # decode_next False bs"
proof -
  define x y z t where "x = wc div 262144" and "y = wc div 4096 mod 64" and "z = wc div 64 mod 64"
    and "t = wc mod 64"
  have x: "x < 8" "x = 0 \<longleftrightarrow> wc < 0x40000" and y: "y < 64" and z: "z < 64" and t: "t < 64"
    using assms by (auto simp: x_def y_def z_def t_def)
  have wc: "64 * (64 * (64 * x + y) + z) + t = wc"
    unfolding x_def y_def z_def t_def using sextets [of wc] by metis
  have "emit wc = [0xF0 OR x, 0x80 OR y, 0x80 OR z, 0x80 OR t]"
    using assms x by (simp add: emit_def lead_byte_def emit_bytes x_def y_def z_def t_def del: emit_loop.simps)
  then have e: "emit wc = [0xF0 + x, 0x80 + y, 0x80 + z, 0x80 + t]"
    using start_four [OF x(1)] cont_bits [OF y] cont_bits [OF z] cont_bits [OF t] by simp
  have start: "decode_next False (emit wc @ bs) = decode_cont False 3 (if x = 0 then 2 ^ 64 - 1 else x)
      ((0x80 + y) # (0x80 + z) # (0x80 + t) # bs)"
    unfolding e using start_four [OF x(1)] by (simp add: decode_over.simps del: decode_cont.simps(2))
  show ?thesis
  proof (cases "x = 0")
    case False
    have "64 * x mod 2 ^ 64 = 64 * x" using x by simp
    moreover have "64 * (64 * x + y) mod 2 ^ 64 = 64 * (64 * x + y)" using x y by (intro mod_less) simp
    moreover have "64 * (64 * (64 * x + y) + z) mod 2 ^ 64 = 64 * (64 * (64 * x + y) + z)"
      using x y z by (intro mod_less) simp
    moreover have "wc < 2 ^ 31" using assms by simp
    ultimately show ?thesis
      unfolding start using False x(2)
      by (simp only: if_False decode_cont_step y z t Let_def wc decoded_small) simp
  next
    case True
    have "64 * (2 ^ 64 - 1) mod 2 ^ 64 = (2 ^ 64 - 64 :: nat)" by simp
    moreover have "64 * (2 ^ 64 - 64 + y) mod 2 ^ 64 = 2 ^ 64 - 4096 + 64 * y" using y by (simp add: mod_if)
    moreover have "64 * (2 ^ 64 - 4096 + 64 * y + z) mod 2 ^ 64 = 2 ^ 64 - 262144 + 4096 * y + 64 * z"
      using y z by (simp add: mod_if)
    moreover have "2 ^ 64 - 2 ^ 31 \<le> 2 ^ 64 - 262144 + 4096 * y + 64 * z + t"
      "2 ^ 64 - 262144 + 4096 * y + 64 * z + t < (2 ^ 64 :: nat)"
      using y z t by simp_all
    ultimately show ?thesis
      unfolding start using True x(2)
      by (simp only: if_True decode_cont_step y z t Let_def decoded_large) simp
  qed
qed

lemma encode_over_wide: "encode_over False wc ws = (if wc < 0x80 then [wc] else emit wc) @ encode_next False ws"
  by (simp add: encode_over.simps)

lemma decode_encode_one:
  assumes "0 \<le> w" "w < 0x110000"
  shows "decode_next False (encode_over False (unsigned_long w) ws) =
     (if utf8_lost w then 0x3F else w) # decode_next False (encode_next False ws)"
proof -
  define wc where "wc = unsigned_long w"
  have wc: "int wc = w" using assms by (simp add: wc_def unsigned_long_def)
  consider "wc < 0x80" | "0x80 \<le> wc" "wc < 0x800" | "0x800 \<le> wc" "wc < 0x10000"
    | "0x10000 \<le> wc" "wc < 0x200000"
    using wc assms by linarith
  then show ?thesis
  proof cases
    case 1
    with wc show ?thesis
      by (simp add: encode_over_wide wc_def [symmetric] decode_plain utf8_lost_def del: decode_next.simps)
  next
    case 2
    with wc show ?thesis
      by (auto simp: encode_over_wide wc_def [symmetric] decode_two utf8_lost_def simp del: decode_next.simps)
  next
    case 3
    with wc show ?thesis
      by (auto simp: encode_over_wide wc_def [symmetric] decode_three utf8_lost_def simp del: decode_next.simps)
  next
    case 4
    with wc show ?thesis
      by (auto simp: encode_over_wide wc_def [symmetric] decode_four utf8_lost_def simp del: decode_next.simps)
  qed
qed

section \<open>Properties\<close>

text \<open>C37: with 32-bit characters, decoding the encoding of a text of Unicode characters gives the text
  back, except that every character from U+0800 to U+0FFF and from U+10000 to U+3FFFF, whose start
  byte has no payload bits, comes back as a question mark.\<close>

theorem utf8_roundtrip:
  assumes "list_all (\<lambda>w. 0 \<le> w \<and> w < 0x110000) ws"
  shows "utf8_decode False (utf8_encode False ws) =
     map (\<lambda>w. if 0x800 \<le> w \<and> w < 0x1000 \<or> 0x10000 \<le> w \<and> w < 0x40000 then 0x3F else w) ws"
  using assms
proof (induction ws)
  case (Cons w ws)
  then show ?case
    using decode_encode_one [of w ws] by (simp add: utf8_decode_def utf8_encode_def utf8_lost_def)
qed (simp add: utf8_decode_def utf8_encode_def)

lemma utf8_roundtrip_witness:
  "utf8_decode False (utf8_encode False [0x41, 0x416, 0x915, 0x20AC, 0x1F600]) = [0x41, 0x416, 0x3F, 0x20AC, 0x3F]"
  using utf8_roundtrip [of "[0x41, 0x416, 0x915, 0x20AC, 0x1F600]"] by simp

text \<open>with 16-bit characters, a high surrogate followed by a character above the surrogates, such as
  U+FFFD, is encoded as if that character were its low surrogate: the test of the second half
  looks at the first.\<close>

theorem unpaired_surrogate_swallows_character:
  assumes "0xD800 \<le> hi" "hi < 0xDC00" "0xE000 \<le> c" "c \<le> 0xFFFF"
  shows "utf8_encode True [hi, c] = utf8_encode True [hi, 0xDC00 + c mod 0x400]"
proof -
  define h where "h = nat hi"
  define d where "d = nat c"
  define l where "l = nat (0xDC00 + c mod 0x400)"
  have u: "unsigned_long hi = h" "unsigned_long c = d" "unsigned_long (0xDC00 + c mod 0x400) = l"
    using assms by (simp_all add: unsigned_long_def h_def d_def l_def)
  have h: "0xD800 \<le> h" "h < 0xDC00" and d: "0xDC00 \<le> d" using assms by (simp_all add: h_def d_def)
  have l: "l = 0xDC00 + d mod 0x400" using assms by (simp add: l_def d_def nat_add_distrib nat_mod_distrib)
  have low: "(n::nat) AND 0x3FF = n mod 0x400" for n
    using take_bit_eq_mask [of 10 n] take_bit_eq_mod [of 10 n] by (simp add: mask_eq_exp_minus_1)
  have "l mod 0x400 = d mod 0x400"
    unfolding l using mod_mult_self3 [of 55 "0x400" "d mod 0x400"] by simp
  then have same: "l AND 0x3FF = d AND 0x3FF" by (simp only: low)
  have enc: "encode_over True h [w] = emit (0x10000 + (push_bit 10 (h AND 0x3FF) OR (unsigned_long w AND 0x3FF)))"
    if "0xDC00 \<le> unsigned_long w" for w
    using that h by (subst encode_over.simps) (simp add: Let_def)
  have "0xDC00 \<le> l" by (simp add: l)
  then show ?thesis
    using enc [of c] enc [of "0xDC00 + c mod 0x400"] d same by (simp add: utf8_encode_def u)
qed

lemma unpaired_surrogate_swallows_character_witness:
  "utf8_encode True [0xD800, 0xFFFD] = utf8_encode True [0xD800, 0xDFFD]"
  using unpaired_surrogate_swallows_character [of "0xD800" "0xFFFD"] by simp

end
