(* ===== verification/Connection.thy ===== *)
theory Connection
  imports Autobuffer
begin

text \<open>
  \<open>include/net/connection.h\<close>, \<open>src/net/connection.cpp\<close>: a connection with its receive buffer and
  what was written to it, the loop that hands received bytes to the protocol
  (\<open>compile_buffer_data\<close>), the closing of a connection and the numbering of connections. The
  protocol is the parameter \<open>data_processing\<close>: it gets the memory of the receive buffer, a
  position and a size, and returns the number of bytes it took. libevent's \<open>bufferevent\<close> is the
  state of the connection's socket and the bytes written to it.
\<close>

type_synonym byte = "8 word"

section \<open>State\<close>

datatype bev_state = Bev_None | Bev_Running | Bev_Flushing | Bev_Freed

record connection =
  m_id :: int
  m_bev :: bev_state
  m_socket_buffer :: "byte auto_buffer"
  m_receive_bytes :: nat
  m_send_bytes :: nat
  c_written :: "byte list"
  c_pending :: "byte list"
  c_deleted :: bool

definition connection_new :: "int \<Rightarrow> connection" where
  "connection_new cid =
     \<lparr>m_id = cid, m_bev = Bev_None, m_socket_buffer = auto_buffer_new, m_receive_bytes = 0,
      m_send_bytes = 0, c_written = [], c_pending = [], c_deleted = False\<rparr>"

section \<open>Sending\<close>

definition char_byte :: "char \<Rightarrow> byte" where
  "char_byte c = of_char c"

text \<open>\<open>bufferevent_write\<close> on a null or freed \<open>bufferevent\<close> is undefined.\<close>

definition has_bev :: "connection \<Rightarrow> bool" where
  "has_bev c \<longleftrightarrow> m_bev c = Bev_Running \<or> m_bev c = Bev_Flushing"

definition send_data :: "byte list \<Rightarrow> connection \<Rightarrow> connection option" where
  "send_data bs c =
     (if has_bev c then
        Some (c\<lparr>m_send_bytes := uadd (m_send_bytes c) (length bs),
                c_written := c_written c @ bs, c_pending := c_pending c @ bs\<rparr>)
      else None)"

definition send_string :: "string \<Rightarrow> connection \<Rightarrow> connection option" where
  "send_string value c = send_data (map char_byte value) c"

text \<open>Decimal digits; \<open>sprintf\<close> with \<open>%d\<close> takes the \<open>unsigned int\<close> for a signed one.\<close>

definition digit_char :: "nat \<Rightarrow> char" where
  "digit_char d = char_of (48 + d)"

fun decimal :: "nat \<Rightarrow> string" where
  "decimal n = (if n < 10 then [digit_char n] else decimal (n div 10) @ [digit_char (n mod 10)])"

declare decimal.simps [simp del]

definition print_d :: "nat \<Rightarrow> string" where
  "print_d number =
     (let n = number mod 2 ^ 32 in
      if n < 2 ^ 31 then decimal n else CHR ''-'' # decimal (2 ^ 32 - n))"

definition send_number :: "nat \<Rightarrow> connection \<Rightarrow> connection option" where
  "send_number number c = send_string (print_d number) c"

section \<open>Receiving\<close>

type_synonym 's data_processing = "byte memory \<Rightarrow> nat \<Rightarrow> nat \<Rightarrow> 's \<Rightarrow> (nat \<times> 's) option"

text \<open>\<open>for (s = 0; fill_size > s; s += processed_bytes)\<close>\<close>

function compile_loop :: "'s data_processing \<Rightarrow> byte memory \<Rightarrow> nat \<Rightarrow> nat \<Rightarrow> 's \<Rightarrow> (nat \<times> 's) option" where
  "compile_loop data_processing mem fill s st =
     (if s < fill then
        (case data_processing mem s (fill - s) st of
           None \<Rightarrow> None
         | Some (processed_bytes, st1) \<Rightarrow>
             if processed_bytes = 0 then Some (s, st1)
             else compile_loop data_processing mem fill (s + processed_bytes) st1)
      else Some (s, st))"
  by pat_completeness auto
termination
  by (relation "measure (\<lambda>(dp, mem, fill, s, st). fill - s)") auto

declare compile_loop.simps [simp del]

definition compile_buffer_data :: "'s data_processing \<Rightarrow> connection \<Rightarrow> 's \<Rightarrow> (connection \<times> 's) option" where
  "compile_buffer_data data_processing c st =
     do { let b = m_socket_buffer c;
          (s, st1) \<leftarrow> compile_loop data_processing (m_buffer b) (get_fill_size b) 0 st;
          Some (c\<lparr>m_socket_buffer := cut_from_head s b\<rparr>, st1) }"

text \<open>\<open>bufferevent_read\<close> copies the input to the free position before the write position moves.\<close>

definition receive_input :: "byte list \<Rightarrow> byte auto_buffer \<Rightarrow> byte auto_buffer option" where
  "receive_input xs b =
     do { let b1 = check_size True (get_fill_size b + length xs) default_granulate b;
          cells \<leftarrow> write_cells (m_buffer b1) (m_ready_position b1) (map Some xs);
          Some (decrement_free_size (length xs) (b1\<lparr>m_buffer := cells\<rparr>)) }"

definition stub_conn_read ::
  "'s data_processing \<Rightarrow> byte list \<Rightarrow> connection \<Rightarrow> 's \<Rightarrow> (connection \<times> 's) option" where
  "stub_conn_read data_processing xs c st =
     (if xs = [] then Some (c, st)
      else do { b \<leftarrow> receive_input xs (m_socket_buffer c);
                compile_buffer_data data_processing
                  (c\<lparr>m_socket_buffer := b, m_receive_bytes := uadd (m_receive_bytes c) (length xs)\<rparr>) st })"

section \<open>Opening and closing\<close>

definition open_connection :: "connection \<Rightarrow> connection" where
  "open_connection c = c\<lparr>m_bev := Bev_Running\<rparr>"

text \<open>
  With output pending the connection waits for it to be written (\<open>stub_conn_write\<close>), else the
  \<open>bufferevent\<close> is freed at once; the object itself is not deleted then (the TODO of the source).
\<close>

definition close_connection :: "connection \<Rightarrow> connection option" where
  "close_connection c =
     (if has_bev c then
        Some (if c_pending c \<noteq> [] then c\<lparr>m_bev := Bev_Flushing\<rparr> else c\<lparr>m_bev := Bev_Freed\<rparr>)
      else None)"

text \<open>The events of libevent: bytes were written out, bytes came in, the peer closed.\<close>

definition stub_conn_write :: "connection \<Rightarrow> connection" where
  "stub_conn_write c =
     (if c_pending c = [] then c\<lparr>m_bev := Bev_Freed, c_deleted := True\<rparr> else c)"

definition stub_conn_event :: "connection \<Rightarrow> connection" where
  "stub_conn_event c = c\<lparr>m_bev := (if has_bev c then Bev_Freed else m_bev c), c_deleted := True\<rparr>"

definition flushed :: "nat \<Rightarrow> connection \<Rightarrow> connection" where
  "flushed n c = c\<lparr>c_pending := drop n (c_pending c)\<rparr>"

section \<open>The controller\<close>

text \<open>\<open>++m_uniq_id_\<close> on an \<open>int\<close>; behind the largest \<open>int\<close> it is undefined.\<close>

record controller =
  m_uniq_id :: int

definition controller_new :: controller where
  "controller_new = \<lparr>m_uniq_id = 0\<rparr>"

definition get_uniq_id :: "controller \<Rightarrow> (int \<times> controller) option" where
  "get_uniq_id k =
     (let n = m_uniq_id k + 1 in if n < 2 ^ 31 then Some (n, k\<lparr>m_uniq_id := n\<rparr>) else None)"

definition create_connection :: "int \<Rightarrow> connection" where
  "create_connection cid = connection_new cid"

definition add_connection :: "controller \<Rightarrow> (connection \<times> controller) option" where
  "add_connection k =
     do { (n, k1) \<leftarrow> get_uniq_id k; Some (open_connection (create_connection n), k1) }"

text \<open>A number of connections accepted one after the other (\<open>stub_accept\<close>).\<close>

fun accept_connections :: "nat \<Rightarrow> controller \<Rightarrow> (connection list \<times> controller) option" where
  "accept_connections 0 k = Some ([], k)"
| "accept_connections (Suc n) k =
     do { (c, k1) \<leftarrow> add_connection k; (cs, k2) \<leftarrow> accept_connections n k1; Some (c # cs, k2) }"

subsection \<open>The peer address\<close>

datatype sockaddr = AF_INET string nat | AF_INET6 string nat | AF_other int

text \<open>
  The textual form \<open>inet_ntop\<close> gives is part of the address; \<open>snprintf\<close> keeps at most
  \<open>outlen - 1\<close> characters.
\<close>

definition show_int :: "int \<Rightarrow> string" where
  "show_int i = (if i < 0 then CHR ''-'' # decimal (nat (- i)) else decimal (nat i))"

definition format_sockaddr_port :: "sockaddr \<Rightarrow> nat \<Rightarrow> string" where
  "format_sockaddr_port sa outlen =
     take (outlen - 1)
       (case sa of
          AF_INET b port \<Rightarrow> b @ '':'' @ decimal port
        | AF_INET6 b port \<Rightarrow> ''['' @ b @ '']:'' @ decimal port
        | AF_other family \<Rightarrow> ''<addr with socktype '' @ show_int family @ ''>'')"

definition get_client_ip :: "sockaddr \<Rightarrow> nat \<Rightarrow> string" where
  "get_client_ip sa buffer_size = takeWhile (\<lambda>c. c \<noteq> CHR '':'') (format_sockaddr_port sa buffer_size)"

section \<open>What a connection does\<close>

lemma receive_input_holds:
  assumes "holds b xs" and "length xs + length ys < size_modulus"
  shows "\<exists>b'. receive_input ys b = Some b' \<and> holds b' (xs @ ys)"
proof -
  define b1 where "b1 = check_size True (get_fill_size b + length ys) default_granulate b"
  have b1: "holds b1 xs" unfolding b1_def by (rule holds_check_size [OF assms(1)]) simp
  have cap: "length xs + length ys \<le> m_full_size b1"
    using check_size_capacity [OF default_granulate_pos, of "get_fill_size b + length ys" True b] assms(1)
    by (simp add: b1_def get_fill_size_def holds_fill)
  from b1 obtain rest where rest: "m_buffer b1 = map Some xs @ rest" "m_full_size b1 = length xs + length rest"
    "m_ready_position b1 = length xs"
    by (auto simp: holds_def)
  have len: "length ys \<le> length rest" using cap rest(2) by simp
  let ?b = "b1\<lparr>m_buffer := map Some (xs @ ys) @ drop (length ys) rest\<rparr>"
  have w: "write_cells (m_buffer b1) (m_ready_position b1) (map Some ys) = Some (m_buffer ?b)"
    using rest len by (simp add: write_cells_def)
  have "m_ready_position (decrement_free_size (length ys) ?b) = length xs + length ys"
    using rest cap assms(2) by (simp add: decrement_free_size_def)
  then have "holds (decrement_free_size (length ys) ?b) (xs @ ys)"
    using rest len by (auto simp: holds_def decrement_free_size_def)
  then show ?thesis using w by (simp add: receive_input_def b1_def [symmetric])
qed

section \<open>Protocols that take whole messages\<close>

text \<open>
  \<open>drain\<close>: take messages from the head of a byte sequence as long as there is a complete one.
\<close>

function drain :: "(byte list \<Rightarrow> 's \<Rightarrow> (nat \<times> 's) option) \<Rightarrow> byte list \<Rightarrow> 's \<Rightarrow> byte list \<times> 's" where
  "drain message xs s =
     (case message xs s of
        None \<Rightarrow> (xs, s)
      | Some (k, s1) \<Rightarrow> if 0 < k \<and> k \<le> length xs then drain message (drop k xs) s1 else (xs, s))"
  by pat_completeness auto
termination
  by (relation "measure (\<lambda>(message, xs, s). length xs)") auto

declare drain.simps [simp del]

text \<open>
  What the receive loop relies on: a message is not empty, lies within the bytes given, and is
  the same message when more bytes follow. \<open>processing\<close> takes a number of messages, at least one
  when there is one, and reports their length.
\<close>

inductive took :: "(byte list \<Rightarrow> 's \<Rightarrow> (nat \<times> 's) option) \<Rightarrow> byte list \<Rightarrow> 's \<Rightarrow> nat \<Rightarrow> 's \<Rightarrow> bool"
  for message where
  took_none: "took message xs s 0 s"
| took_more: "message xs s = Some (k, s1) \<Longrightarrow> took message (drop k xs) s1 n s2 \<Longrightarrow> took message xs s (k + n) s2"

locale message_stream =
  fixes message :: "byte list \<Rightarrow> 's \<Rightarrow> (nat \<times> 's) option"
    and processing :: "'s data_processing"
  assumes message_size: "message xs s = Some (k, s1) \<Longrightarrow> 0 < k \<and> k \<le> length xs"
    and message_more: "message xs s = Some (k, s1) \<Longrightarrow> message (xs @ ys) s = Some (k, s1)"
    and processing_took: "drop p mem = map Some xs @ tail \<Longrightarrow> length xs = n \<Longrightarrow>
      \<exists>k s1. processing mem p n s = Some (k, s1) \<and> took message xs s k s1 \<and>
        (message xs s = None \<longleftrightarrow> k = 0)"
begin

lemma drain_message: "message xs s = Some (k, s1) \<Longrightarrow> drain message xs s = drain message (drop k xs) s1"
  using message_size [of xs s k s1] by (subst drain.simps) simp

lemma drain_idle: "message xs s = None \<Longrightarrow> drain message xs s = (xs, s)"
  by (subst drain.simps) simp

lemma took_size: "took message xs s n s1 \<Longrightarrow> n \<le> length xs"
  by (induction rule: took.induct) (fastforce dest: message_size)+

lemma took_drain: "took message xs s n s1 \<Longrightarrow> drain message xs s = drain message (drop n xs) s1"
proof (induction rule: took.induct)
  case (took_more xs s k s1 n s2)
  then show ?case using drain_message [of xs s k s1] by (simp add: add.commute)
qed simp

text \<open>The bytes may arrive in any pieces.\<close>

lemma drain_append: "drain message (xs @ ys) s = (case drain message xs s of (rest, s1) \<Rightarrow> drain message (rest @ ys) s1)"
proof (induction "length xs" arbitrary: xs s rule: less_induct)
  case less
  show ?case
  proof (cases "message xs s")
    case None
    then show ?thesis by (simp add: drain_idle)
  next
    case (Some t)
    obtain k s1 where t: "t = (k, s1)" by (cases t)
    have k: "0 < k" "k \<le> length xs" using message_size Some t by auto
    have "drain message (xs @ ys) s = drain message (drop k xs @ ys) s1"
      using drain_message [OF message_more [OF Some [unfolded t], of ys]] k by simp
    also have "\<dots> = (case drain message (drop k xs) s1 of (rest, s1) \<Rightarrow> drain message (rest @ ys) s1)"
      using less [of "drop k xs" s1] k by simp
    also have "drain message (drop k xs) s1 = drain message xs s"
      using drain_message [OF Some [unfolded t]] by simp
    finally show ?thesis .
  qed
qed

lemma drain_rest: "drain message xs s = (rest, s1) \<Longrightarrow>
    message rest s1 = None \<and> (\<exists>n. n \<le> length xs \<and> rest = drop n xs)"
proof (induction "length xs" arbitrary: xs s rule: less_induct)
  case less
  show ?case
  proof (cases "message xs s")
    case None
    with less.prems show ?thesis by (auto simp: drain_idle intro: exI [of _ 0])
  next
    case (Some t)
    obtain k s2 where t: "t = (k, s2)" by (cases t)
    have k: "0 < k" "k \<le> length xs" using message_size Some t by auto
    have "drain message (drop k xs) s2 = (rest, s1)"
      using less.prems drain_message [OF Some [unfolded t]] by simp
    moreover have "length (drop k xs) < length xs" using k by simp
    ultimately obtain n where n: "message rest s1 = None" "n \<le> length (drop k xs)"
      "rest = drop n (drop k xs)"
      using less.hyps by blast
    then have "rest = drop (n + k) xs" "n + k \<le> length xs" using k by auto
    with n(1) show ?thesis by blast
  qed
qed

lemma compile_loop_drain:
  assumes mem: "mem = map Some xs @ tail"
  shows "p \<le> length xs \<Longrightarrow> \<exists>q s1. compile_loop processing mem (length xs) p s = Some (q, s1)
     \<and> q \<le> length xs \<and> drain message (drop p xs) s = (drop q xs, s1)"
proof (induction "length xs - p" arbitrary: p s rule: less_induct)
  case less
  show ?case
  proof (cases "p < length xs")
    case False
    then have p: "p = length xs" using less.prems by simp
    have "message [] s = None"
    proof (cases "message [] s")
      case (Some t)
      then show ?thesis using message_size [of "[]" s "fst t" "snd t"] by auto
    qed simp
    then have "drain message [] s = ([], s)" by (simp add: drain_idle)
    then show ?thesis by (subst compile_loop.simps) (simp add: p)
  next
    case True
    have "drop p mem = map Some (drop p xs) @ tail" using True by (simp add: mem drop_map)
    from processing_took [OF this, of "length xs - p" s] obtain k s2 where
      k: "processing mem p (length xs - p) s = Some (k, s2)" "took message (drop p xs) s k s2"
        "message (drop p xs) s = None \<longleftrightarrow> k = 0"
      by auto
    show ?thesis
    proof (cases "k = 0")
      case True
      from k(2) have "drain message (drop p xs) s = drain message (drop p xs) s2"
        using took_drain [OF k(2)] True by simp
      moreover have "s2 = s" using k(2) True by cases (use message_size k(3) True in fastforce)+
      ultimately show ?thesis
        using k True less.prems by (subst compile_loop.simps) (auto simp: drain_idle)
    next
      case False
      have q: "p + k \<le> length xs" using took_size [OF k(2)] True by simp
      have "length xs - (p + k) < length xs - p" using False True by simp
      from less.hyps [OF this q, of s2] obtain q s1 where
        "compile_loop processing mem (length xs) (p + k) s2 = Some (q, s1)" "q \<le> length xs"
        "drain message (drop (p + k) xs) s2 = (drop q xs, s1)"
        by blast
      moreover have "drain message (drop p xs) s = drain message (drop (p + k) xs) s2"
        using took_drain [OF k(2)] by (simp add: add.commute)
      ultimately show ?thesis
        using True False k(1) by (subst compile_loop.simps) auto
    qed
  qed
qed

lemma compile_buffer_data_drain:
  assumes "holds (m_socket_buffer c) xs"
  shows "\<exists>c' rest s1. compile_buffer_data processing c s = Some (c', s1) \<and> drain message xs s = (rest, s1)
     \<and> holds (m_socket_buffer c') rest \<and> c' = c\<lparr>m_socket_buffer := m_socket_buffer c'\<rparr>"
proof -
  obtain tail where mem: "m_buffer (m_socket_buffer c) = map Some xs @ tail"
    using assms by (auto simp: holds_def)
  obtain q s1 where q: "compile_loop processing (m_buffer (m_socket_buffer c)) (length xs) 0 s = Some (q, s1)"
    "q \<le> length xs" "drain message xs s = (drop q xs, s1)"
    using compile_loop_drain [OF mem, of 0 s] by auto
  show ?thesis
    using q holds_cut [OF assms q(2)] assms
    by (simp add: compile_buffer_data_def get_fill_size_def holds_fill)
qed

text \<open>
  However the bytes are cut into pieces, the messages taken and the bytes kept are those of the
  whole sequence.
\<close>

lemma stub_conn_read_drain:
  assumes "holds (m_socket_buffer c) xs" and "length xs + length ys < size_modulus"
    and "message xs s = None"
  shows "\<exists>c' rest s1. stub_conn_read processing ys c s = Some (c', s1)
     \<and> drain message (xs @ ys) s = (rest, s1) \<and> holds (m_socket_buffer c') rest"
proof (cases "ys = []")
  case True
  then show ?thesis using assms by (simp add: stub_conn_read_def drain_idle)
next
  case False
  obtain b where b: "receive_input ys (m_socket_buffer c) = Some b" "holds b (xs @ ys)"
    using receive_input_holds [OF assms(1,2)] by blast
  let ?c = "c\<lparr>m_socket_buffer := b, m_receive_bytes := uadd (m_receive_bytes c) (length ys)\<rparr>"
  have "holds (m_socket_buffer ?c) (xs @ ys)" using b(2) by simp
  from compile_buffer_data_drain [OF this, of s] obtain c' rest s1 where
    "compile_buffer_data processing ?c s = Some (c', s1)" "drain message (xs @ ys) s = (rest, s1)"
    "holds (m_socket_buffer c') rest"
    by blast
  with False b(1) show ?thesis by (simp add: stub_conn_read_def)
qed

end

fun receive_all :: "'s data_processing \<Rightarrow> byte list list \<Rightarrow> connection \<Rightarrow> 's \<Rightarrow> (connection \<times> 's) option" where
  "receive_all dp [] c st = Some (c, st)"
| "receive_all dp (xs # xss) c st =
     do { (c1, st1) \<leftarrow> stub_conn_read dp xs c st; receive_all dp xss c1 st1 }"

context message_stream
begin

lemma receive_all_drain:
  assumes "holds (m_socket_buffer c) xs" and "length xs + length (concat yss) < size_modulus"
    and "message xs s = None"
  shows "\<exists>c' rest s1. receive_all processing yss c s = Some (c', s1)
     \<and> drain message (xs @ concat yss) s = (rest, s1) \<and> holds (m_socket_buffer c') rest"
  using assms
proof (induction yss arbitrary: c xs s)
  case Nil
  then show ?case by (simp add: drain_idle)
next
  case (Cons ys yss)
  then obtain c1 rest s1 where c1: "stub_conn_read processing ys c s = Some (c1, s1)"
    "drain message (xs @ ys) s = (rest, s1)" "holds (m_socket_buffer c1) rest"
    using stub_conn_read_drain [OF Cons.prems(1) _ Cons.prems(3), of ys] by auto
  obtain n where n: "message rest s1 = None" "rest = drop n (xs @ ys)"
    using drain_rest [OF c1(2)] by blast
  have "length rest + length (concat yss) < size_modulus" using Cons.prems(2) n(2) by simp
  from Cons.IH [OF c1(3) this n(1)] obtain c' rest' s2 where
    "receive_all processing yss c1 s1 = Some (c', s2)"
    "drain message (rest @ concat yss) s1 = (rest', s2)" "holds (m_socket_buffer c') rest'"
    by blast
  moreover have "drain message ((xs @ ys) @ concat yss) s = drain message (rest @ concat yss) s1"
    using drain_append [of "xs @ ys" "concat yss" s] c1(2) by simp
  ultimately show ?case using c1(1) by simp
qed

end


section \<open>Numbering, closing, the peer address\<close>

lemma accept_connections_ids:
  assumes "m_uniq_id k + int n < 2 ^ 31"
  shows "\<exists>cs. accept_connections n k = Some (cs, k\<lparr>m_uniq_id := m_uniq_id k + int n\<rparr>)
     \<and> map m_id cs = map (\<lambda>i. m_uniq_id k + 1 + int i) [0..<n]
     \<and> (\<forall>c\<in>set cs. m_bev c = Bev_Running \<and> c_written c = [])"
  using assms
proof (induction n arbitrary: k)
  case (Suc n)
  let ?k = "k\<lparr>m_uniq_id := m_uniq_id k + 1\<rparr>"
  have "m_uniq_id ?k + int n < 2 ^ 31" using Suc.prems by simp
  from Suc.IH [OF this] obtain cs where cs: "accept_connections n ?k = Some (cs, k\<lparr>m_uniq_id := m_uniq_id k + 1 + int n\<rparr>)"
    "map m_id cs = map (\<lambda>i. m_uniq_id k + 1 + 1 + int i) [0..<n]"
    "\<forall>c\<in>set cs. m_bev c = Bev_Running \<and> c_written c = []"
    by auto
  have "map (\<lambda>i. m_uniq_id k + 1 + int i) [0..<Suc n]
      = (m_uniq_id k + 1) # map (\<lambda>i. m_uniq_id k + 1 + 1 + int i) [0..<n]"
    by (simp add: upt_conv_Cons map_Suc_upt [symmetric] o_def add.commute del: upt_Suc map_Suc_upt)
  with cs Suc.prems show ?case
    by (auto simp: add_connection_def get_uniq_id_def create_connection_def connection_new_def
        open_connection_def Let_def algebra_simps)
qed simp

text \<open>connections accepted by a new controller are numbered 1, 2, 3, ... in the order of
  arrival, so two connections never share a number, as long as the counter stays an \<open>int\<close>.\<close>

theorem connections_numbered:
  assumes "int n < 2 ^ 31"
  shows "\<exists>cs k. accept_connections n controller_new = Some (cs, k) \<and> map m_id cs = map (\<lambda>i. int i + 1) [0..<n]
     \<and> distinct (map m_id cs)"
proof -
  have "m_uniq_id controller_new + int n < 2 ^ 31" using assms by (simp add: controller_new_def)
  from accept_connections_ids [OF this] obtain cs where
    "accept_connections n controller_new = Some (cs, controller_new\<lparr>m_uniq_id := m_uniq_id controller_new + int n\<rparr>)"
    "map m_id cs = map (\<lambda>i. int i + 1) [0..<n]"
    by (auto simp: controller_new_def add.commute)
  moreover have "distinct (map (\<lambda>i. int i + 1) [0..<n])" by (simp add: distinct_map inj_on_def)
  ultimately show ?thesis by metis
qed

theorem connections_numbered_witness:
  "\<exists>cs k. accept_connections 2 controller_new = Some (cs, k) \<and> map m_id cs = [1, 2]"
  using connections_numbered [of 2] by (auto simp: upt_rec numeral_2_eq_2)

text \<open>The calls a handler makes on its connection, in order.\<close>

datatype send = Send_data "byte list" | Send_string string | Send_number nat

fun do_send :: "send \<Rightarrow> connection \<Rightarrow> connection option" where
  "do_send (Send_data bs) c = send_data bs c"
| "do_send (Send_string t) c = send_string t c"
| "do_send (Send_number n) c = send_number n c"

fun do_sends :: "send list \<Rightarrow> connection \<Rightarrow> connection option" where
  "do_sends [] c = Some c"
| "do_sends (x # xs) c = do { c1 \<leftarrow> do_send x c; do_sends xs c1 }"

fun sent_bytes :: "send \<Rightarrow> byte list" where
  "sent_bytes (Send_data bs) = bs"
| "sent_bytes (Send_string t) = map char_byte t"
| "sent_bytes (Send_number n) = map char_byte (print_d n)"

lemma do_send_spec:
  assumes "has_bev c"
  shows "do_send x c =
    Some (c\<lparr>m_send_bytes := uadd (m_send_bytes c) (length (sent_bytes x)),
      c_written := c_written c @ sent_bytes x, c_pending := c_pending c @ sent_bytes x\<rparr>)"
  using assms by (cases x) (simp_all add: send_data_def send_string_def send_number_def)

lemma do_sends_spec:
  assumes "has_bev c"
  shows "\<exists>c'. do_sends xs c = Some c' \<and> has_bev c' \<and> m_bev c' = m_bev c
     \<and> c_written c' = c_written c @ concat (map sent_bytes xs)
     \<and> c_pending c' = c_pending c @ concat (map sent_bytes xs)"
  using assms
proof (induction xs arbitrary: c)
  case (Cons x xs)
  let ?c = "c\<lparr>m_send_bytes := uadd (m_send_bytes c) (length (sent_bytes x)),
      c_written := c_written c @ sent_bytes x, c_pending := c_pending c @ sent_bytes x\<rparr>"
  have "has_bev ?c" using Cons.prems by (simp add: has_bev_def)
  from Cons.IH [OF this] show ?case using do_send_spec [OF Cons.prems] by auto
qed simp

text \<open>
  The life of a connection after the handler is done with it: libevent writes some of the
  pending output and calls \<open>stub_conn_write\<close> when the connection is being closed. (The event
  callback, when the peer goes away, deletes the connection at once: \<open>stub_conn_event\<close>.)
\<close>

inductive conn_step :: "connection \<Rightarrow> connection \<Rightarrow> bool" where
  step_flush: "m_bev c = Bev_Flushing \<Longrightarrow> \<not> c_deleted c \<Longrightarrow> conn_step c (stub_conn_write (flushed n c))"
| step_output: "m_bev c = Bev_Running \<Longrightarrow> \<not> c_deleted c \<Longrightarrow> conn_step c (flushed n c)"

inductive_cases conn_stepE: "conn_step c c'"

lemma conn_step_flushing:
  assumes "conn_step c c'" and "m_bev c = Bev_Flushing \<and> \<not> c_deleted c"
  shows "(m_bev c' = Bev_Flushing \<and> \<not> c_deleted c') \<or> (c_deleted c' \<and> m_bev c' = Bev_Freed \<and> c_pending c' = [])"
  using assms by (auto elim!: conn_stepE simp: stub_conn_write_def flushed_def split: if_splits)

lemma conn_step_deleted: "c_deleted c \<Longrightarrow> \<not> conn_step c c'"
  by (auto elim: conn_stepE)

text \<open>after \<open>close_connection\<close> with output still pending, the connection is deleted only
  when all its output was written to the socket, however libevent splits the writing (and
  unless the peer goes away).\<close>

theorem close_flushes_output:
  assumes "close_connection c = Some c1" and "c_pending c \<noteq> []" and "\<not> c_deleted c"
    and "conn_step\<^sup>*\<^sup>* c1 c2"
  shows "(c_deleted c2 \<longrightarrow> c_pending c2 = [] \<and> m_bev c2 = Bev_Freed)
     \<and> (\<not> c_deleted c2 \<longrightarrow> m_bev c2 = Bev_Flushing)"
  using assms(4)
proof (induction rule: rtranclp_induct)
  case base
  then show ?case using assms by (auto simp: close_connection_def split: if_splits)
next
  case (step c2 c3)
  then have "\<not> c_deleted c2" using conn_step_deleted by blast
  with step show ?case using conn_step_flushing [of c2 c3] by auto
qed

definition busy_connection :: connection where
  "busy_connection = (connection_new 1)\<lparr>m_bev := Bev_Running, c_pending := [1, 2]\<rparr>"

theorem close_flushes_output_witness:
  "\<exists>c1 c2. close_connection busy_connection = Some c1 \<and> conn_step\<^sup>*\<^sup>* c1 c2 \<and> c_deleted c2 \<and> c_pending c2 = []"
proof -
  let ?c1 = "busy_connection\<lparr>m_bev := Bev_Flushing\<rparr>"
  let ?c2 = "stub_conn_write (flushed 2 ?c1)"
  have close: "close_connection busy_connection = Some ?c1"
    by (simp add: close_connection_def busy_connection_def has_bev_def)
  have "conn_step ?c1 ?c2"
    by (rule step_flush) (simp_all add: busy_connection_def connection_new_def)
  then have steps: "conn_step\<^sup>*\<^sup>* ?c1 ?c2" by simp
  have "c_deleted ?c2" by (simp add: stub_conn_write_def flushed_def busy_connection_def)
  with close_flushes_output [OF close _ _ steps] close steps show ?thesis
    by (auto simp: busy_connection_def connection_new_def)
qed

text \<open>\<open>close_connection\<close> without pending output frees the \<open>bufferevent\<close> but does not delete the
  connection: nothing is left that would delete it, and any further send or close is undefined.\<close>

theorem close_leaks_connection:
  assumes "has_bev c" and "c_pending c = []" and "\<not> c_deleted c"
  shows "\<exists>c1. close_connection c = Some c1 \<and> m_bev c1 = Bev_Freed \<and> \<not> c_deleted c1
     \<and> (\<forall>c2. conn_step\<^sup>*\<^sup>* c1 c2 \<longrightarrow> c2 = c1) \<and> close_connection c1 = None \<and> send_data bs c1 = None"
proof -
  let ?c1 = "c\<lparr>m_bev := Bev_Freed\<rparr>"
  have stuck: "\<not> conn_step ?c1 c2" for c2 by (auto elim: conn_stepE)
  then have "conn_step\<^sup>*\<^sup>* ?c1 c2 \<Longrightarrow> c2 = ?c1" for c2 by (auto elim: converse_rtranclpE)
  then show ?thesis using assms by (simp add: close_connection_def send_data_def has_bev_def)
qed

theorem close_leaks_connection_witness:
  "\<exists>c1. close_connection (open_connection (connection_new 1)) = Some c1 \<and> \<not> c_deleted c1 \<and> close_connection c1 = None"
  using close_leaks_connection [of "open_connection (connection_new 1)" "[]"]
  by (auto simp: open_connection_def connection_new_def has_bev_def)

lemma takeWhile_take_colon:
  "CHR '':'' \<notin> set p \<Longrightarrow> length p \<le> k \<Longrightarrow> takeWhile (\<lambda>c. c \<noteq> CHR '':'') (take k (p @ CHR '':'' # q)) = p"
proof (induction p arbitrary: k)
  case Nil
  then show ?case by (cases k) auto
next
  case (Cons x p)
  then show ?case by (cases k) auto
qed

text \<open>\<open>get_client_ip\<close> gives the textual address of an IPv4 peer when the buffer has room
  for it; of an IPv6 peer it gives only a bracket and the first group, because it cuts at the
  first colon.\<close>

theorem client_ip:
  assumes "CHR '':'' \<notin> set ip" and "length ip + 2 \<le> buffer_size"
  shows "get_client_ip (AF_INET ip port) buffer_size = ip
     \<and> get_client_ip (AF_INET6 (ip @ CHR '':'' # groups) port) buffer_size = CHR ''['' # ip"
  using assms takeWhile_take_colon [of ip "buffer_size - 1" "decimal port"]
    takeWhile_take_colon [of "CHR ''['' # ip" "buffer_size - 1" "groups @ '']:'' @ decimal port"]
  by (simp add: get_client_ip_def format_sockaddr_port_def)

theorem client_ip_witness:
  "get_client_ip (AF_INET ''10.0.0.7'' 80) 255 = ''10.0.0.7'' \<and> get_client_ip (AF_INET6 ''fe80::1'' 80) 255 = ''[fe80''"
  using client_ip [of "''10.0.0.7''" 255 80 "[]"] client_ip [of "''fe80''" 255 80 "'':1''"] by simp

end
