(* ===== verification/Compact_Binary.thy ===== *)
theory Compact_Binary
  imports Connection
begin

text \<open>
  \<open>include/net/compactbinary.h\<close>, \<open>src/net/compactbinary.cpp\<close> and the messages of
  \<open>include/app/server2hb-np.h\<close>: the binary protocol. A packet is a signature byte, the size of the
  body, a type and a body; the body is a sequence of chunks (identifier, type, length, value).
  The host is little endian; \<open>ntohs\<close> and \<open>ntohl\<close> swap the bytes.

  The virtual functions of \<open>cbChunkIn\<close> that receive the parsed values are a record of functions
  over a state \<open>'s\<close>; \<open>'o\<close> is the type of the references to \<open>cbChunkIn\<close> objects.
\<close>

section \<open>Numbers in memory\<close>

definition be16 :: "nat \<Rightarrow> byte list" where
  "be16 v = [word_of_nat (v div 256), word_of_nat v]"

definition le16 :: "nat \<Rightarrow> byte list" where
  "le16 v = [word_of_nat v, word_of_nat (v div 256)]"

definition le32 :: "nat \<Rightarrow> byte list" where
  "le32 v = [word_of_nat v, word_of_nat (v div 2 ^ 8), word_of_nat (v div 2 ^ 16), word_of_nat (v div 2 ^ 24)]"

text \<open>The value of bytes, the most significant one first; a little endian read reverses them.\<close>

definition be_value :: "byte list \<Rightarrow> nat" where
  "be_value bs = foldl (\<lambda>n b. 256 * n + unat b) 0 bs"

definition ntoh :: "byte list \<Rightarrow> nat" where
  "ntoh bs = be_value bs"

definition native :: "byte list \<Rightarrow> nat" where
  "native bs = be_value (rev bs)"

text \<open>\<open>CheckBuffer\<close> and \<open>ReadBuffer\<close>; reading outside the allocation is undefined.\<close>

definition check_buffer :: "nat \<Rightarrow> nat \<Rightarrow> bool" where
  "check_buffer sz k \<longleftrightarrow> k \<le> sz"

definition read_buffer :: "byte memory \<Rightarrow> nat \<Rightarrow> nat \<Rightarrow> byte list option" where
  "read_buffer mem p k =
     (let cells = take k (drop p mem) in if length cells = k then those cells else None)"

section \<open>\<open>ParsePacket\<close>\<close>

definition CHUNK_TYPE_BYTE :: nat where "CHUNK_TYPE_BYTE = 1"
definition CHUNK_TYPE_SHORT :: nat where "CHUNK_TYPE_SHORT = 2"
definition CHUNK_TYPE_INTEGER :: nat where "CHUNK_TYPE_INTEGER = 3"
definition CHUNK_TYPE_LONG :: nat where "CHUNK_TYPE_LONG = 4"
definition CHUNK_TYPE_STRING :: nat where "CHUNK_TYPE_STRING = 5"
definition CHUNK_TYPE_BINARY :: nat where "CHUNK_TYPE_BINARY = 7"
definition CHUNK_TYPE_ARRAY :: nat where "CHUNK_TYPE_ARRAY = 8"

lemmas chunk_types =
  CHUNK_TYPE_BYTE_def CHUNK_TYPE_SHORT_def CHUNK_TYPE_INTEGER_def CHUNK_TYPE_LONG_def
  CHUNK_TYPE_STRING_def CHUNK_TYPE_BINARY_def CHUNK_TYPE_ARRAY_def

record ('o, 's) chunk_in =
  SetValue_string :: "'o \<Rightarrow> nat \<Rightarrow> byte list \<Rightarrow> 's \<Rightarrow> 's"
  SetValue_buffer :: "'o \<Rightarrow> nat \<Rightarrow> byte list \<Rightarrow> 's \<Rightarrow> 's"
  SetValue8 :: "'o \<Rightarrow> nat \<Rightarrow> nat \<Rightarrow> 's \<Rightarrow> 's"
  SetValue16 :: "'o \<Rightarrow> nat \<Rightarrow> nat \<Rightarrow> 's \<Rightarrow> 's"
  SetValue32 :: "'o \<Rightarrow> nat \<Rightarrow> nat \<Rightarrow> 's \<Rightarrow> 's"
  SetValue64 :: "'o \<Rightarrow> nat \<Rightarrow> nat \<Rightarrow> 's \<Rightarrow> 's"
  SetArray :: "'o \<Rightarrow> nat \<Rightarrow> nat \<Rightarrow> 's \<Rightarrow> 'o option \<times> 's"
  EnterNode :: "'o \<Rightarrow> nat \<Rightarrow> nat \<Rightarrow> 's \<Rightarrow> 'o option \<times> 's"
  LeaveNode :: "'o \<Rightarrow> nat \<Rightarrow> nat \<Rightarrow> 's \<Rightarrow> 's"

text \<open>The header of a chunk: identifier, type and length, and the bytes behind it.\<close>

definition chunk_header :: "byte memory \<Rightarrow> nat \<Rightarrow> (nat \<times> nat \<times> nat) option" where
  "chunk_header mem p =
     do { i \<leftarrow> read_buffer mem p 1;
          t \<leftarrow> read_buffer mem (p + 1) 1;
          l \<leftarrow> read_buffer mem (p + 2) 2;
          Some (native i, native t, ntoh l) }"

text \<open>A fixed size value: read and reported when enough bytes are left, else skipped in place.\<close>

definition fixed_value ::
  "byte memory \<Rightarrow> nat \<Rightarrow> nat \<Rightarrow> nat \<Rightarrow> (byte list \<Rightarrow> 's \<Rightarrow> 's) \<Rightarrow> 's \<Rightarrow> (nat \<times> 's) option" where
  "fixed_value mem p sz k report s =
     (if check_buffer sz k
      then do { bs \<leftarrow> read_buffer mem p k; Some (k, report bs s) }
      else Some (0, s))"

text \<open>The two halves of a 64-bit value are swapped one by one; the low half comes first.\<close>

definition value64 :: "byte list \<Rightarrow> nat" where
  "value64 bs = ntoh (take 4 bs) + 2 ^ 32 * ntoh (drop 4 bs)"

definition simple_chunk ::
  "('o, 's) chunk_in \<Rightarrow> 'o \<Rightarrow> byte memory \<Rightarrow> nat \<Rightarrow> nat \<Rightarrow> nat \<Rightarrow> nat \<Rightarrow> nat \<Rightarrow> 's \<Rightarrow> (nat \<times> 's) option" where
  "simple_chunk h ob mem p sz i t l s =
     (if t = CHUNK_TYPE_BYTE then fixed_value mem p sz 1 (\<lambda>bs. SetValue8 h ob i (native bs)) s
      else if t = CHUNK_TYPE_SHORT then fixed_value mem p sz 2 (\<lambda>bs. SetValue16 h ob i (ntoh bs)) s
      else if t = CHUNK_TYPE_INTEGER then fixed_value mem p sz 4 (\<lambda>bs. SetValue32 h ob i (ntoh bs)) s
      else if t = CHUNK_TYPE_LONG then fixed_value mem p sz 8 (\<lambda>bs. SetValue64 h ob i (value64 bs)) s
      else if t = CHUNK_TYPE_STRING then fixed_value mem p sz l (SetValue_string h ob i) s
      else if t = CHUNK_TYPE_BINARY then fixed_value mem p sz l (SetValue_buffer h ob i) s
      else Some (l, s))"

text \<open>
  The loop over the chunks and the loop over the nodes of an array. The node length is used as
  it stands in memory (it is not swapped) and is not compared with the bytes of the array.
\<close>

function parse_packet :: "('o, 's) chunk_in \<Rightarrow> 'o \<Rightarrow> byte memory \<Rightarrow> nat \<Rightarrow> nat \<Rightarrow> 's \<Rightarrow> 's option"
  and parse_nodes :: "('o, 's) chunk_in \<Rightarrow> 'o \<Rightarrow> nat \<Rightarrow> byte memory \<Rightarrow> nat \<Rightarrow> nat \<Rightarrow> nat \<Rightarrow> 's \<Rightarrow> 's option" where
  "parse_packet h ob mem p sz s =
     (if sz < 4 then (if read_buffer mem p (min sz 2) = None then None else Some s)
      else if length mem < p + 4 then None
      else (case chunk_header mem p of
              None \<Rightarrow> None
            | Some (i, t, l) \<Rightarrow>
                if sz - 4 < l then Some s
                else if t = CHUNK_TYPE_ARRAY then
                  (case (if check_buffer l 2 then
                           (case read_buffer mem (p + 4) 2 of
                              None \<Rightarrow> None
                            | Some c \<Rightarrow>
                                (case SetArray h ob i (native c) s of
                                   (None, s1) \<Rightarrow> Some s1
                                 | (Some ar, s1) \<Rightarrow> parse_nodes h ar i mem (p + 6) (l - 2) 0 s1))
                         else Some s) of
                     None \<Rightarrow> None
                   | Some s2 \<Rightarrow> parse_packet h ob mem (p + 4 + l) (sz - 4 - l) s2)
                else (case simple_chunk h ob mem (p + 4) (sz - 4) i t l s of
                        None \<Rightarrow> None
                      | Some (k, s1) \<Rightarrow> parse_packet h ob mem (p + 4 + k) (sz - 4 - k) s1)))"
| "parse_nodes h ar i mem p sz idx s =
     (if sz < 2 then Some s
      else if length mem < p + 2 then None
      else (case read_buffer mem p 2 of
              None \<Rightarrow> None
            | Some n \<Rightarrow>
                (let node_length = native n in
                 case (case EnterNode h ar i idx s of
                         (None, s1) \<Rightarrow> Some s1
                       | (Some node, s1) \<Rightarrow>
                           map_option (LeaveNode h node i idx) (parse_packet h node mem (p + 2) node_length s1)) of
                   None \<Rightarrow> None
                 | Some s2 \<Rightarrow> parse_nodes h ar i mem (p + 2 + node_length) (usub (sz - 2) node_length)
                                ((idx + 1) mod 2 ^ 16) s2)))"
  by pat_completeness auto
termination
  by (relation "measure (\<lambda>x. case x of Inl (h, ob, mem, p, sz, s) \<Rightarrow> length mem - p
         | Inr (h, ar, i, mem, p, sz, idx, s) \<Rightarrow> length mem - p)") auto

declare parse_packet.simps [simp del] parse_nodes.simps [simp del]

section \<open>Writing chunks\<close>

fun append_pieces :: "byte list list \<Rightarrow> byte auto_buffer \<Rightarrow> byte auto_buffer option" where
  "append_pieces [] b = Some b"
| "append_pieces (x # xs) b = Option.bind (buffer_append True x b) (append_pieces xs)"

text \<open>
  \<open>AppendChunkT\<close>: the length is put into network order, the value is appended as it stands in
  memory.
\<close>

definition append_chunk_t :: "nat \<Rightarrow> nat \<Rightarrow> byte list \<Rightarrow> byte auto_buffer \<Rightarrow> byte auto_buffer option" where
  "append_chunk_t tv i value b =
     append_pieces [[word_of_nat i], [word_of_nat tv], be16 (length value), value] b"

definition AppendChunkByte :: "nat \<Rightarrow> nat \<Rightarrow> byte auto_buffer \<Rightarrow> byte auto_buffer option" where
  "AppendChunkByte i v = append_chunk_t CHUNK_TYPE_BYTE i [word_of_nat v]"

definition AppendChunkShort :: "nat \<Rightarrow> nat \<Rightarrow> byte auto_buffer \<Rightarrow> byte auto_buffer option" where
  "AppendChunkShort i v = append_chunk_t CHUNK_TYPE_SHORT i (le16 v)"

definition AppendChunkInteger :: "nat \<Rightarrow> nat \<Rightarrow> byte auto_buffer \<Rightarrow> byte auto_buffer option" where
  "AppendChunkInteger i v = append_chunk_t CHUNK_TYPE_INTEGER i (le32 v)"

definition AppendChunkString :: "nat \<Rightarrow> byte list \<Rightarrow> byte auto_buffer \<Rightarrow> byte auto_buffer option" where
  "AppendChunkString i value b =
     append_pieces [[word_of_nat i], [word_of_nat CHUNK_TYPE_STRING], be16 (length value mod 2 ^ 16), value] b"

text \<open>The length announced is the fill size, the bytes appended are the whole allocation.\<close>

definition AppendChunkBuffer :: "nat \<Rightarrow> byte auto_buffer \<Rightarrow> byte auto_buffer \<Rightarrow> byte auto_buffer option" where
  "AppendChunkBuffer i value b =
     do { b1 \<leftarrow> append_pieces [[word_of_nat i], [word_of_nat CHUNK_TYPE_BINARY],
                  be16 (get_fill_size value mod 2 ^ 16)] b;
          append_cells True (take (get_full_size value) (m_buffer value)) default_granulate b1 }"

definition GetSize :: "byte auto_buffer \<Rightarrow> nat" where
  "GetSize b = get_fill_size b mod 2 ^ 16"

section \<open>Packets\<close>

definition GetHeaderSize :: nat where
  "GetHeaderSize = 1 + 2 + 2"

text \<open>
  \<open>DoProcessCB\<close>: \<open>callbacks\<close> is the map of registered commands; a command gets the memory of the
  packet, the position and the size of its body.
\<close>

type_synonym 's command = "nat \<Rightarrow> byte memory \<Rightarrow> nat \<Rightarrow> nat \<Rightarrow> 's \<Rightarrow> 's option"

definition RegisterProcessCommandCB ::
  "nat \<Rightarrow> 's command \<Rightarrow> (nat \<Rightarrow> 's command option) \<Rightarrow> (nat \<Rightarrow> 's command option)" where
  "RegisterProcessCommandCB tp f callbacks = callbacks(tp := Some f)"

function do_process_loop ::
  "byte \<Rightarrow> (nat \<Rightarrow> 's command option) \<Rightarrow> byte memory \<Rightarrow> nat \<Rightarrow> nat \<Rightarrow> nat \<Rightarrow> 's \<Rightarrow> (nat \<times> 's) option" where
  "do_process_loop sign callbacks mem p sz processed s =
     (if sz < GetHeaderSize then Some (processed, s)
      else (case read_buffer mem p GetHeaderSize of
              None \<Rightarrow> None
            | Some hdr \<Rightarrow>
                if hdr ! 0 \<noteq> sign then Some (processed, s)
                else (let size_packet = ntoh (take 2 (drop 1 hdr)); type_packet = ntoh (take 2 (drop 3 hdr)) in
                      if size_packet \<le> sz - GetHeaderSize then
                        (case callbacks type_packet of
                           None \<Rightarrow> Some (processed + (GetHeaderSize + size_packet), s)
                         | Some f \<Rightarrow>
                             (case f type_packet mem (p + GetHeaderSize) size_packet s of
                                None \<Rightarrow> None
                              | Some s1 \<Rightarrow>
                                  do_process_loop sign callbacks mem (p + GetHeaderSize + size_packet)
                                    (sz - GetHeaderSize - size_packet)
                                    (processed + (GetHeaderSize + size_packet)) s1))
                      else Some (processed, s))))"
  by pat_completeness auto
termination
  by (relation "measure (\<lambda>(sign, callbacks, mem, p, sz, processed, s). sz)") (auto simp: GetHeaderSize_def)

declare do_process_loop.simps [simp del]

definition DoProcessCB :: "byte \<Rightarrow> (nat \<Rightarrow> 's command option) \<Rightarrow> 's data_processing" where
  "DoProcessCB sign callbacks mem p sz s = do_process_loop sign callbacks mem p sz 0 s"

definition SendChunkInPacket ::
  "byte \<Rightarrow> nat \<Rightarrow> byte auto_buffer \<Rightarrow> connection \<Rightarrow> connection option" where
  "SendChunkInPacket sign tp ch c =
     do { c1 \<leftarrow> send_data [sign] c;
          c2 \<leftarrow> send_data (be16 (GetSize ch)) c1;
          c3 \<leftarrow> send_data (be16 tp) c2;
          body \<leftarrow> read_buffer (m_buffer ch) 0 (GetSize ch);
          send_data body c3 }"

section \<open>Numbers\<close>

lemma unat_byte [simp]: "unat (word_of_nat n :: byte) = n mod 256"
  by (simp add: unat_of_nat)

lemma length_numbers [simp]: "length (be16 v) = 2" "length (le16 v) = 2" "length (le32 v) = 4"
  by (simp_all add: be16_def le16_def le32_def)

lemma ntoh_be16: "v < 2 ^ 16 \<Longrightarrow> ntoh (be16 v) = v"
  by (simp add: ntoh_def be_value_def be16_def div_mod_decomp)

lemma ntoh_le16: "v < 2 ^ 16 \<Longrightarrow> ntoh (le16 v) = 256 * (v mod 256) + v div 256"
  by (simp add: ntoh_def be_value_def le16_def)

lemma native_one: "native [b] = unat b"
  by (simp add: native_def be_value_def)

lemma read_buffer_at:
  assumes "drop p mem = map Some (xs @ ys) @ tail" and "length xs = k"
  shows "read_buffer mem p k = Some xs"
proof -
  have "take k (drop p mem) = map Some xs" using assms by simp
  then show ?thesis using assms(2) by (simp add: read_buffer_def those_map_Some)
qed

section \<open>Chunks: round trip\<close>

text \<open>Chunks with a byte or a string value, and how they are written and reported.\<close>

datatype wire_chunk = WByte nat nat | WString nat "byte list"

definition chunk_ok :: "wire_chunk \<Rightarrow> bool" where
  "chunk_ok c = (case c of WByte i v \<Rightarrow> i < 256 \<and> v < 256 | WString i bs \<Rightarrow> i < 256 \<and> length bs < 2 ^ 16)"

definition append_chunk :: "wire_chunk \<Rightarrow> byte auto_buffer \<Rightarrow> byte auto_buffer option" where
  "append_chunk c b = (case c of WByte i v \<Rightarrow> AppendChunkByte i v b | WString i bs \<Rightarrow> AppendChunkString i bs b)"

definition chunk_bytes :: "wire_chunk \<Rightarrow> byte list" where
  "chunk_bytes c =
     (case c of
        WByte i v \<Rightarrow> [word_of_nat i, word_of_nat CHUNK_TYPE_BYTE] @ be16 1 @ [word_of_nat v]
      | WString i bs \<Rightarrow> [word_of_nat i, word_of_nat CHUNK_TYPE_STRING] @ be16 (length bs) @ bs)"

definition report :: "('o, 's) chunk_in \<Rightarrow> 'o \<Rightarrow> wire_chunk \<Rightarrow> 's \<Rightarrow> 's" where
  "report h ob c s = (case c of WByte i v \<Rightarrow> SetValue8 h ob i v s | WString i bs \<Rightarrow> SetValue_string h ob i bs s)"

fun append_chunks :: "wire_chunk list \<Rightarrow> byte auto_buffer \<Rightarrow> byte auto_buffer option" where
  "append_chunks [] b = Some b"
| "append_chunks (c # cs) b = Option.bind (append_chunk c b) (append_chunks cs)"

lemma append_pieces_push: "append_pieces xss b = ab.push_all xss b"
proof (induction xss arbitrary: b)
  case (Cons xs xss)
  then show ?case by (simp add: Cons.IH [abs_def])
qed simp

lemma append_pieces_holds: "holds b xs \<Longrightarrow> \<exists>b'. append_pieces yss b = Some b' \<and> holds b' (xs @ concat yss)"
  unfolding append_pieces_push by (rule ab.push_all_stores)

lemma append_chunk_holds:
  "chunk_ok c \<Longrightarrow> holds b xs \<Longrightarrow> \<exists>b'. append_chunk c b = Some b' \<and> holds b' (xs @ chunk_bytes c)"
proof (cases c)
  case (WByte i v)
  then show "holds b xs \<Longrightarrow> ?thesis"
    using append_pieces_holds [of b xs "[[word_of_nat i], [word_of_nat CHUNK_TYPE_BYTE], be16 1, [word_of_nat v]]"]
    by (simp add: append_chunk_def chunk_bytes_def AppendChunkByte_def append_chunk_t_def del: append_pieces.simps)
next
  case (WString i bs)
  then show "chunk_ok c \<Longrightarrow> holds b xs \<Longrightarrow> ?thesis"
    using append_pieces_holds [of b xs "[[word_of_nat i], [word_of_nat CHUNK_TYPE_STRING], be16 (length bs), bs]"]
    by (simp add: append_chunk_def chunk_bytes_def chunk_ok_def AppendChunkString_def del: append_pieces.simps)
qed

lemma append_chunks_holds:
  "list_all chunk_ok cs \<Longrightarrow> holds b xs \<Longrightarrow>
     \<exists>b'. append_chunks cs b = Some b' \<and> holds b' (xs @ concat (map chunk_bytes cs))"
proof (induction cs arbitrary: b xs)
  case (Cons c cs)
  then obtain b1 where "append_chunk c b = Some b1" "holds b1 (xs @ chunk_bytes c)"
    using append_chunk_holds [of c b xs] by auto
  moreover from Cons.IH [OF _ this(2)] Cons.prems(1) obtain b2 where
    "append_chunks cs b1 = Some b2" "holds b2 ((xs @ chunk_bytes c) @ concat (map chunk_bytes cs))"
    by auto
  ultimately show ?case by simp
qed simp

lemma chunk_header_at:
  assumes "drop p mem = map Some ([i, t] @ l @ ys) @ tail" and "length l = 2"
  shows "chunk_header mem p = Some (unat i, unat t, ntoh l)"
proof -
  have "drop (p + 1) mem = drop 1 (drop p mem)" by simp
  then have 1: "drop (p + 1) mem = map Some ([t] @ l @ ys) @ tail" by (simp add: assms(1))
  have "drop (p + 2) mem = drop 2 (drop p mem)" by simp
  then have 2: "drop (p + 2) mem = map Some (l @ ys) @ tail" by (simp add: assms(1))
  have "read_buffer mem p 1 = Some [i]" by (rule read_buffer_at [of _ _ _ "t # l @ ys" tail]) (simp_all add: assms(1))
  moreover have "read_buffer mem (p + 1) 1 = Some [t]" by (rule read_buffer_at [OF 1]) simp
  moreover have "read_buffer mem (p + 2) 2 = Some l" by (rule read_buffer_at [OF 2 assms(2)])
  ultimately show ?thesis by (simp add: chunk_header_def native_one)
qed

lemma length_of_drop:
  assumes "drop p mem = map Some xs @ tail" and "xs \<noteq> []"
  shows "p + length xs \<le> length mem"
proof -
  have "length mem - p = length xs + length tail" using arg_cong [OF assms(1), of length] by simp
  moreover have "0 < length xs" using assms(2) by simp
  ultimately show ?thesis by linarith
qed

lemma simple_chunk_at:
  assumes c: "chunk_ok c" and mem: "drop p mem = map Some (chunk_bytes c @ ys) @ tail"
    and sz: "length (chunk_bytes c) \<le> sz"
  shows "\<exists>i t l. chunk_header mem p = Some (i, t, l) \<and> l \<le> sz - 4 \<and> t \<noteq> CHUNK_TYPE_ARRAY
     \<and> simple_chunk h ob mem (p + 4) (sz - 4) i t l s = Some (length (chunk_bytes c) - 4, report h ob c s)"
proof -
  have step: "drop (p + 4) mem = map Some (v @ ys) @ tail" if "chunk_bytes c = [a, b] @ be16 n @ v" for a b n v
  proof -
    have "drop (p + 4) mem = drop 4 (drop p mem)" by (simp add: add.commute)
    then show ?thesis using that by (simp add: mem be16_def)
  qed
  show ?thesis
  proof (cases c)
    case (WByte i v)
    have b: "chunk_bytes c = [word_of_nat i, word_of_nat CHUNK_TYPE_BYTE] @ be16 1 @ [word_of_nat v]"
      by (simp add: WByte chunk_bytes_def)
    have "chunk_header mem p = Some (i, CHUNK_TYPE_BYTE, 1)"
      using chunk_header_at [OF trans [OF mem], of "word_of_nat i" "word_of_nat CHUNK_TYPE_BYTE" "be16 1" "[word_of_nat v] @ ys" tail]
        c by (simp add: chunk_bytes_def WByte chunk_ok_def ntoh_be16 chunk_types)
    moreover have "read_buffer mem (p + 4) 1 = Some [word_of_nat v]"
      by (rule read_buffer_at [OF step [OF b]]) simp
    ultimately show ?thesis
      using sz c by (simp add: chunk_bytes_def WByte chunk_ok_def simple_chunk_def fixed_value_def check_buffer_def
          native_one report_def chunk_types)
  next
    case (WString i bs)
    have b: "chunk_bytes c = [word_of_nat i, word_of_nat CHUNK_TYPE_STRING] @ be16 (length bs) @ bs"
      by (simp add: WString chunk_bytes_def)
    have "chunk_header mem p = Some (i, CHUNK_TYPE_STRING, length bs)"
      using chunk_header_at [OF trans [OF mem], of "word_of_nat i" "word_of_nat CHUNK_TYPE_STRING" "be16 (length bs)" "bs @ ys" tail]
        c by (simp add: chunk_bytes_def WString chunk_ok_def ntoh_be16 chunk_types)
    moreover have "read_buffer mem (p + 4) (length bs) = Some bs"
      by (rule read_buffer_at [OF step [OF b]]) simp
    moreover have "length bs \<le> sz - 4" using sz by (simp add: b)
    ultimately show ?thesis
      by (simp add: chunk_bytes_def WString simple_chunk_def fixed_value_def check_buffer_def
          report_def chunk_types)
  qed
qed

lemma chunk_bytes_length: "4 \<le> length (chunk_bytes c)"
  by (cases c) (simp_all add: chunk_bytes_def)

lemma parse_packet_chunks:
  "list_all chunk_ok cs \<Longrightarrow> drop p mem = map Some (concat (map chunk_bytes cs)) @ tail \<Longrightarrow>
   parse_packet h ob mem p (length (concat (map chunk_bytes cs))) s = Some (fold (report h ob) cs s)"
proof (induction cs arbitrary: p s)
  case Nil
  then show ?case by (subst parse_packet.simps) (simp add: read_buffer_def)
next
  case (Cons c cs)
  let ?n = "length (chunk_bytes c)" and ?ys = "concat (map chunk_bytes cs)"
  have mem: "drop p mem = map Some (chunk_bytes c @ ?ys) @ tail" using Cons.prems(2) by simp
  have c: "chunk_ok c" using Cons.prems(1) by simp
  have n4: "4 \<le> ?n" by (rule chunk_bytes_length)
  have "chunk_bytes c @ ?ys \<noteq> []" using n4 by auto
  from length_of_drop [OF mem this] have len: "p + 4 \<le> length mem" using n4 by simp
  obtain i t l where hd: "chunk_header mem p = Some (i, t, l)" "l \<le> ?n + length ?ys - 4" "t \<noteq> CHUNK_TYPE_ARRAY"
    and simple: "simple_chunk h ob mem (p + 4) (?n + length ?ys - 4) i t l s = Some (?n - 4, report h ob c s)"
    using simple_chunk_at [OF c mem, of "?n + length ?ys" h ob s] by auto
  have "drop (p + ?n) mem = drop ?n (drop p mem)" by (simp add: add.commute)
  then have mem': "drop (p + ?n) mem = map Some ?ys @ tail" by (simp add: mem)
  have IH: "parse_packet h ob mem (p + ?n) (length ?ys) (report h ob c s)
      = Some (fold (report h ob) cs (report h ob c s))"
    using Cons.IH [OF _ mem'] Cons.prems(1) by simp
  have sizes: "p + 4 + (?n - 4) = p + ?n" "?n + length ?ys - 4 - (?n - 4) = length ?ys"
    using n4 by simp_all
  have "\<not> ?n + length ?ys < 4" "\<not> length mem < p + 4" "\<not> ?n + length ?ys - 4 < l"
    using n4 len hd(2) by linarith+
  then show ?case
    using hd simple IH sizes by (simp add: parse_packet.simps [of h ob mem p "?n + length ?ys"])
qed

section \<open>Packets: the receive loop\<close>

text \<open>
  Commands that read only the body of their packet. \<open>message\<close> is one packet at the head of the
  bytes; a packet of an unknown type is taken without effect.
\<close>

type_synonym 's body_command = "nat \<Rightarrow> byte list \<Rightarrow> 's \<Rightarrow> 's"

definition on_body :: "'s body_command \<Rightarrow> 's command" where
  "on_body g tp mem p n s = map_option (\<lambda>bs. g tp bs s) (read_buffer mem p n)"

definition on_bodies :: "(nat \<Rightarrow> 's body_command option) \<Rightarrow> nat \<Rightarrow> 's command option" where
  "on_bodies cmds tp = map_option on_body (cmds tp)"

definition deliver :: "(nat \<Rightarrow> 's body_command option) \<Rightarrow> nat \<Rightarrow> byte list \<Rightarrow> 's \<Rightarrow> 's" where
  "deliver cmds tp bs s = (case cmds tp of None \<Rightarrow> s | Some g \<Rightarrow> g tp bs s)"

definition packet_message ::
  "byte \<Rightarrow> (nat \<Rightarrow> 's body_command option) \<Rightarrow> byte list \<Rightarrow> 's \<Rightarrow> (nat \<times> 's) option" where
  "packet_message sign cmds xs s =
     (if length xs < 5 \<or> xs ! 0 \<noteq> sign then None
      else let n = ntoh (take 2 (drop 1 xs)); tp = ntoh (take 2 (drop 3 xs)) in
           if n \<le> length xs - 5 then Some (5 + n, deliver cmds tp (take n (drop 5 xs)) s) else None)"

lemma packet_message_size: "packet_message sign cmds xs s = Some (k, s1) \<Longrightarrow> 0 < k \<and> k \<le> length xs"
  by (auto simp: packet_message_def Let_def split: if_splits)

lemma packet_message_more:
  "packet_message sign cmds xs s = Some (k, s1) \<Longrightarrow> packet_message sign cmds (xs @ ys) s = Some (k, s1)"
  by (auto simp: packet_message_def Let_def nth_append split: if_splits)

lemma header_five: "GetHeaderSize = 5"
  by (simp add: GetHeaderSize_def)

lemma do_process_took:
  "drop p mem = map Some xs @ tail \<Longrightarrow>
   \<exists>k s1. do_process_loop sign (on_bodies cmds) mem p (length xs) processed s = Some (processed + k, s1)
     \<and> took (packet_message sign cmds) xs s k s1 \<and> (packet_message sign cmds xs s = None \<longleftrightarrow> k = 0)"
proof (induction "length xs" arbitrary: p xs processed s rule: less_induct)
  case less
  let ?msg = "packet_message sign cmds"
  let ?n = "ntoh (take 2 (drop 1 xs))" and ?tp = "ntoh (take 2 (drop 3 xs))"
  show ?case
  proof (cases "?msg xs s")
    case None
    have "do_process_loop sign (on_bodies cmds) mem p (length xs) processed s = Some (processed, s)"
    proof (cases "length xs < 5")
      case True
      then show ?thesis by (subst do_process_loop.simps) (simp add: header_five)
    next
      case False
      then have "read_buffer mem p 5 = Some (take 5 xs)"
        by (intro read_buffer_at [of _ _ _ "drop 5 xs" tail]) (simp_all add: less.prems)
      moreover have "take 2 (drop 1 (take 5 xs)) = take 2 (drop 1 xs)"
        by (simp add: drop_take)
      moreover have "xs ! 0 \<noteq> sign \<or> \<not> ?n \<le> length xs - 5"
        using None False by (auto simp: packet_message_def Let_def split: if_splits)
      ultimately show ?thesis
        using False by (subst do_process_loop.simps) (auto simp: header_five Let_def)
    qed
    with None show ?thesis by (auto intro: took_none)
  next
    case (Some t)
    then have xs: "5 \<le> length xs" "xs ! 0 = sign" "?n \<le> length xs - 5"
      and t: "t = (5 + ?n, deliver cmds ?tp (take ?n (drop 5 xs)) s)"
      by (auto simp: packet_message_def Let_def split: if_splits)
    let ?s1 = "deliver cmds ?tp (take ?n (drop 5 xs)) s"
    have hdr: "read_buffer mem p 5 = Some (take 5 xs)"
      using xs by (intro read_buffer_at [of _ _ _ "drop 5 xs" tail]) (simp_all add: less.prems)
    have fields: "take 2 (drop 1 (take 5 xs)) = take 2 (drop 1 xs)"
      "take 2 (drop 3 (take 5 xs)) = take 2 (drop 3 xs)" "take 5 xs ! 0 = xs ! 0"
      by (simp_all add: drop_take)
    have "drop (p + 5) mem = drop 5 (drop p mem)" by (simp add: add.commute)
    then have at5: "drop (p + 5) mem = map Some (drop 5 xs) @ tail" using xs by (simp add: less.prems drop_map)
    have "drop (p + 5) mem = map Some (take ?n (drop 5 xs) @ drop ?n (drop 5 xs)) @ tail"
      unfolding append_take_drop_id by (rule at5)
    then have body: "read_buffer mem (p + 5) ?n = Some (take ?n (drop 5 xs))"
      by (rule read_buffer_at) (use xs in simp)
    show ?thesis
    proof (cases "cmds ?tp")
      case None
      then have "do_process_loop sign (on_bodies cmds) mem p (length xs) processed s = Some (processed + (5 + ?n), s)"
        using xs hdr fields by (subst do_process_loop.simps) (simp add: header_five Let_def on_bodies_def)
      moreover have "took ?msg xs s (5 + ?n + 0) s"
        using Some t None by (intro took_more [of ?msg xs s]) (auto simp: deliver_def intro: took_none)
      ultimately show ?thesis using Some by auto
    next
      case g: (Some g)
      have at: "drop (p + 5 + ?n) mem = map Some (drop (5 + ?n) xs) @ tail"
      proof -
        have "drop (p + 5 + ?n) mem = drop ?n (drop (p + 5) mem)" by (simp add: add.commute)
        then show ?thesis using xs by (simp add: at5 drop_map add.commute)
      qed
      have "length (drop (5 + ?n) xs) < length xs" using xs by simp
      from less.hyps [OF this at, of "processed + (5 + ?n)" ?s1] obtain k s2 where
        k: "do_process_loop sign (on_bodies cmds) mem (p + 5 + ?n) (length xs - 5 - ?n) (processed + (5 + ?n)) ?s1
            = Some (processed + (5 + ?n) + k, s2)" "took ?msg (drop (5 + ?n) xs) ?s1 k s2"
        by (auto simp: diff_diff_left)
      have "do_process_loop sign (on_bodies cmds) mem p (length xs) processed s
          = do_process_loop sign (on_bodies cmds) mem (p + 5 + ?n) (length xs - 5 - ?n) (processed + (5 + ?n)) ?s1"
        using xs hdr fields body g
        by (subst do_process_loop.simps) (simp add: header_five Let_def on_bodies_def on_body_def deliver_def)
      moreover have "took ?msg xs s (5 + ?n + k) s2"
        using Some t k(2) by (intro took_more [of ?msg xs s]) auto
      ultimately show ?thesis using k(1) Some by (auto simp: add.assoc)
    qed
  qed
qed

interpretation cb: message_stream "packet_message sign cmds" "DoProcessCB sign (on_bodies cmds)" for sign cmds
proof unfold_locales
  show "\<And>xs s k s1. packet_message sign cmds xs s = Some (k, s1) \<Longrightarrow> 0 < k \<and> k \<le> length xs"
    by (rule packet_message_size)
  show "\<And>xs s k s1 ys. packet_message sign cmds xs s = Some (k, s1) \<Longrightarrow>
      packet_message sign cmds (xs @ ys) s = Some (k, s1)"
    by (rule packet_message_more)
  show "\<And>p mem xs tail n s. drop p mem = map Some xs @ tail \<Longrightarrow> length xs = n \<Longrightarrow>
      \<exists>k s1. DoProcessCB sign (on_bodies cmds) mem p n s = Some (k, s1)
        \<and> took (packet_message sign cmds) xs s k s1 \<and> (packet_message sign cmds xs s = None \<longleftrightarrow> k = 0)"
    using do_process_took [of _ _ _ _ sign cmds 0] by (auto simp: DoProcessCB_def)
qed

section \<open>Packets on the wire\<close>

definition packet_bytes :: "byte \<Rightarrow> nat \<times> byte list \<Rightarrow> byte list" where
  "packet_bytes sign pk = [sign] @ be16 (length (snd pk)) @ be16 (fst pk) @ snd pk"

definition packet_ok :: "nat \<times> byte list \<Rightarrow> bool" where
  "packet_ok pk \<longleftrightarrow> fst pk < 2 ^ 16 \<and> length (snd pk) < 2 ^ 16"

lemma packet_message_packet:
  assumes "packet_ok pk"
  shows "packet_message sign cmds (packet_bytes sign pk @ ys) s
     = Some (length (packet_bytes sign pk), deliver cmds (fst pk) (snd pk) s)"
proof -
  have "take 2 (drop 1 (packet_bytes sign pk @ ys)) = be16 (length (snd pk))"
    "take 2 (drop 3 (packet_bytes sign pk @ ys)) = be16 (fst pk)"
    "drop 5 (packet_bytes sign pk @ ys) = snd pk @ ys"
    by (simp_all add: packet_bytes_def be16_def)
  then show ?thesis
    using assms by (simp add: packet_message_def Let_def packet_ok_def ntoh_be16) (simp add: packet_bytes_def)
qed

lemma drain_packets:
  "list_all packet_ok pks \<Longrightarrow>
     drain (packet_message sign cmds) (concat (map (packet_bytes sign) pks) @ ys) s
     = drain (packet_message sign cmds) ys (fold (\<lambda>pk. deliver cmds (fst pk) (snd pk)) pks s)"
proof (induction pks arbitrary: s)
  case (Cons pk pks)
  then have pk: "packet_ok pk" by simp
  have "drain (packet_message sign cmds) (packet_bytes sign pk @ zs) s
      = drain (packet_message sign cmds) zs (deliver cmds (fst pk) (snd pk) s)" for zs
    using cb.drain_message [OF packet_message_packet [OF pk, of sign cmds zs s]] by simp
  then show ?case using Cons by simp
qed simp

lemma packet_message_Nil [simp]: "packet_message sign cmds [] s = None"
  by (simp add: packet_message_def)

section \<open>Messages of the server\<close>

definition S2B_NP_SIGNATURE :: byte where "S2B_NP_SIGNATURE = 7"
definition S2B_NPP_LOGON :: nat where "S2B_NPP_LOGON = 1"
definition S2B_NPP_CONNECT :: nat where "S2B_NPP_CONNECT = 2"

definition S2BC_LOGIN :: nat where "S2BC_LOGIN = 2"
definition S2BC_SALT :: nat where "S2BC_SALT = 3"
definition S2BC_SALTM :: nat where "S2BC_SALTM = 4"
definition S2BC_STATUS :: nat where "S2BC_STATUS = 5"
definition S2BC_HASH :: nat where "S2BC_HASH = 6"

lemmas chunk_ids = S2BC_LOGIN_def S2BC_SALT_def S2BC_SALTM_def S2BC_STATUS_def S2BC_HASH_def

text \<open>The functions of \<open>cbChunkIn\<close> that are not overridden do nothing.\<close>

definition cbChunkIn :: "('o, 's) chunk_in" where
  "cbChunkIn = \<lparr>SetValue_string = (\<lambda>_ _ _ s. s), SetValue_buffer = (\<lambda>_ _ _ s. s), SetValue8 = (\<lambda>_ _ _ s. s),
     SetValue16 = (\<lambda>_ _ _ s. s), SetValue32 = (\<lambda>_ _ _ s. s), SetValue64 = (\<lambda>_ _ _ s. s),
     SetArray = (\<lambda>_ _ _ s. (None, s)), EnterNode = (\<lambda>_ _ _ s. (None, s)), LeaveNode = (\<lambda>_ _ _ s. s)\<rparr>"

record connect_client =
  cc_login :: "byte list"

record connect_server =
  cs_salt :: "byte list"
  cs_saltm :: "byte list"

record logon_client =
  lc_login :: "byte list"
  lc_hash :: "byte list"

record logon_server =
  ls_status :: nat

definition s2bConnectClient :: "(unit, connect_client) chunk_in" where
  "s2bConnectClient = cbChunkIn\<lparr>SetValue_string :=
     (\<lambda>_ i v s. if i = S2BC_LOGIN then s\<lparr>cc_login := v\<rparr> else s)\<rparr>"

definition s2bConnectServer :: "(unit, connect_server) chunk_in" where
  "s2bConnectServer = cbChunkIn\<lparr>SetValue_string :=
     (\<lambda>_ i v s. if i = S2BC_SALT then s\<lparr>cs_salt := v\<rparr>
                else if i = S2BC_SALTM then s\<lparr>cs_saltm := v\<rparr> else s)\<rparr>"

definition s2bLogonClient :: "(unit, logon_client) chunk_in" where
  "s2bLogonClient = cbChunkIn\<lparr>SetValue_string :=
     (\<lambda>_ i v s. if i = S2BC_LOGIN then s\<lparr>lc_login := v\<rparr>
                else if i = S2BC_HASH then s\<lparr>lc_hash := v\<rparr> else s)\<rparr>"

definition s2bLogonServer :: "(unit, logon_server) chunk_in" where
  "s2bLogonServer = cbChunkIn\<lparr>SetValue8 := (\<lambda>_ i v s. if i = S2BC_STATUS then s\<lparr>ls_status := v\<rparr> else s)\<rparr>"

section \<open>Properties\<close>

lemma packets_in_pieces:
  assumes "holds (m_socket_buffer c) []" and "list_all packet_ok pks"
    and "concat yss = concat (map (packet_bytes sign) pks) @ part"
    and "length (concat yss) < size_modulus" and "\<And>s. packet_message sign cmds part s = None"
  shows "\<exists>c'. receive_all (DoProcessCB sign (on_bodies cmds)) yss c s
       = Some (c', fold (\<lambda>pk. deliver cmds (fst pk) (snd pk)) pks s)
     \<and> holds (m_socket_buffer c') part"
proof -
  obtain c' rest s1 where
    r: "receive_all (DoProcessCB sign (on_bodies cmds)) yss c s = Some (c', s1)"
    "drain (packet_message sign cmds) (concat yss) s = (rest, s1)" "holds (m_socket_buffer c') rest"
    using cb.receive_all_drain [OF assms(1), of yss sign cmds s] assms(4) by auto
  moreover have "drain (packet_message sign cmds) (concat yss) s
      = (part, fold (\<lambda>pk. deliver cmds (fst pk) (snd pk)) pks s)"
    unfolding assms(3) drain_packets [OF assms(2)] by (rule cb.drain_idle [OF assms(5)])
  ultimately show ?thesis by auto
qed

text \<open>C7: packets arriving over a connection are delivered to their commands in order, each exactly once
  and with its body, however the bytes are cut into pieces on the way; the receive buffer keeps
  exactly the bytes of a packet that is not complete yet.\<close>

theorem packets_delivered_in_pieces:
  assumes "holds (m_socket_buffer c) []" and "list_all packet_ok pks"
    and "concat yss = concat (map (packet_bytes sign) pks) @ part"
    and "length (concat yss) < size_modulus" and "\<And>s. packet_message sign cmds part s = None"
  shows "\<exists>c'. receive_all (DoProcessCB sign (on_bodies cmds)) yss c s
       = Some (c', fold (\<lambda>pk. deliver cmds (fst pk) (snd pk)) pks s)
     \<and> holds (m_socket_buffer c') part"
  by (rule packets_in_pieces [OF assms])

definition count_command :: "nat list body_command" where
  "count_command tp bs s = s @ [tp, length bs]"

lemma packets_delivered_in_pieces_witness:
  "\<exists>c'. receive_all (DoProcessCB 7 (on_bodies [1 \<mapsto> count_command])) [[7, 0], [1, 0, 1], [9, 7, 0]] (connection_new 1) []
       = Some (c', [1, 1]) \<and> holds (m_socket_buffer c') [7, 0]"
proof -
  have "holds (m_socket_buffer (connection_new 1)) []" by (simp add: connection_new_def holds_new)
  moreover have "packet_message 7 [1 \<mapsto> count_command] [7, 0] s = None" for s by (simp add: packet_message_def)
  ultimately show ?thesis
    using packets_delivered_in_pieces [of "connection_new 1" "[(1, [9])]" "[[7, 0], [1, 0, 1], [9, 7, 0]]" 7 "[7, 0]"
        "[1 \<mapsto> count_command]" "[]"]
    by (simp add: packet_ok_def packet_bytes_def be16_def size_modulus_def deliver_def count_command_def)
qed

text \<open>once the first buffered byte is not the signature, nothing that arrives later is processed and
  nothing is ever removed from the receive buffer.\<close>

theorem wrong_signature_blocks:
  assumes "holds (m_socket_buffer c) (b # xs)" and "b \<noteq> sign"
    and "length (b # xs) + length (concat yss) < size_modulus"
  shows "\<exists>c'. receive_all (DoProcessCB sign (on_bodies cmds)) yss c s = Some (c', s)
     \<and> holds (m_socket_buffer c') (b # xs @ concat yss)"
proof -
  have none: "packet_message sign cmds (b # zs) s = None" for zs s
    using assms(2) by (simp add: packet_message_def)
  obtain c' rest s1 where
    "receive_all (DoProcessCB sign (on_bodies cmds)) yss c s = Some (c', s1)"
    "drain (packet_message sign cmds) ((b # xs) @ concat yss) s = (rest, s1)" "holds (m_socket_buffer c') rest"
    using cb.receive_all_drain [OF assms(1,3) none] by blast
  then show ?thesis using cb.drain_idle [OF none] by auto
qed

lemma wrong_signature_blocks_witness:
  "\<exists>c'. receive_all (DoProcessCB 7 (on_bodies [1 \<mapsto> count_command])) [[7, 0, 0, 0, 1]]
       ((connection_new 1)\<lparr>m_socket_buffer := auto_buffer_external [8]\<rparr>) [] = Some (c', [])
     \<and> holds (m_socket_buffer c') [8, 7, 0, 0, 0, 1]"
  using wrong_signature_blocks [of "(connection_new 1)\<lparr>m_socket_buffer := auto_buffer_external [8]\<rparr>" 8 "[]" 7 "[[7, 0, 0, 0, 1]]"
      "[1 \<mapsto> count_command]" "[]"]
  by (simp add: holds_external size_modulus_def)

lemma do_process_loop_bound:
  "do_process_loop sign callbacks mem p sz processed s = Some (k, s1) \<Longrightarrow> k \<le> processed + sz"
proof (induction sign callbacks mem p sz processed s rule: do_process_loop.induct)
  case (1 sign callbacks mem p sz processed s)
  show ?case
  proof (cases "sz < GetHeaderSize")
    case True
    with "1.prems" show ?thesis by (subst (asm) do_process_loop.simps) simp
  next
    case False
    obtain hdr where hdr: "read_buffer mem p GetHeaderSize = Some hdr"
      using "1.prems" False by (subst (asm) do_process_loop.simps) (auto split: option.splits)
    let ?n = "ntoh (take 2 (drop 1 hdr))" and ?tp = "ntoh (take 2 (drop 3 hdr))"
    consider "hdr ! 0 \<noteq> sign \<or> \<not> ?n \<le> sz - GetHeaderSize" | "hdr ! 0 = sign" "?n \<le> sz - GetHeaderSize" by blast
    then show ?thesis
    proof cases
      case 1
      then show ?thesis using "1.prems" False hdr
        by (subst (asm) do_process_loop.simps) (auto simp: Let_def split: if_splits)
    next
      case 2
      show ?thesis
      proof (cases "callbacks ?tp")
        case None
        then have "k = processed + (GetHeaderSize + ?n)" using "1.prems" False hdr 2
          by (subst (asm) do_process_loop.simps) (simp add: Let_def)
        then show ?thesis using 2(2) False by linarith
      next
        case (Some f)
        obtain s2 where s2: "f ?tp mem (p + GetHeaderSize) ?n s = Some s2"
          using "1.prems" False hdr 2 Some
          by (subst (asm) do_process_loop.simps) (auto simp: Let_def split: option.splits)
        have rec: "do_process_loop sign callbacks mem (p + GetHeaderSize + ?n) (sz - GetHeaderSize - ?n)
            (processed + (GetHeaderSize + ?n)) s2 = Some (k, s1)"
          using "1.prems" False hdr 2 Some s2 by (subst (asm) do_process_loop.simps) (simp add: Let_def)
        have sign: "\<not> hdr ! 0 \<noteq> sign" using 2(1) by simp
        from "1.IH" [OF False hdr sign refl refl 2(2) Some s2 rec] show ?thesis
          using 2(2) False by linarith
      qed
    qed
  qed
qed

text \<open>the dispatcher never reports more bytes than it was given, whatever the commands do and
  whatever the memory holds.\<close>

theorem dispatcher_bound:
  assumes "DoProcessCB sign callbacks mem p sz s = Some (k, s1)"
  shows "k \<le> sz"
  using do_process_loop_bound [of sign callbacks mem p sz 0 s k s1] assms by (simp add: DoProcessCB_def)

lemma dispatcher_bound_witness:
  "DoProcessCB 7 (on_bodies [1 \<mapsto> count_command]) (map Some [7, 0, 0, 0, 1, 7]) 0 6 [] = Some (5, [1, 0]) \<and> (5::nat) \<le> 6"
proof -
  have "DoProcessCB 7 (on_bodies [1 \<mapsto> count_command]) (map Some [7, 0, 0, 0, 1, 7]) 0 6 [] = Some (5, [1, 0])"
    by (simp add: DoProcessCB_def do_process_loop.simps header_five read_buffer_def ntoh_def be_value_def
        Let_def on_bodies_def on_body_def count_command_def)
  from dispatcher_bound [OF this] this show ?thesis by simp
qed

text \<open>chunks with byte and string values survive the way through a packet: parsing what the appending
  functions wrote reports the same identifiers and values in the same order.\<close>

theorem chunks_roundtrip:
  assumes "list_all chunk_ok cs"
  shows "\<exists>b. append_chunks cs auto_buffer_new = Some b
     \<and> parse_packet h ob (m_buffer b) 0 (get_fill_size b) s = Some (fold (report h ob) cs s)"
proof -
  obtain b where b: "append_chunks cs auto_buffer_new = Some b" "holds b (concat (map chunk_bytes cs))"
    using append_chunks_holds [OF assms holds_new] by auto
  then obtain rest where "m_buffer b = map Some (concat (map chunk_bytes cs)) @ rest" by (auto simp: holds_def)
  then have "drop 0 (m_buffer b) = map Some (concat (map chunk_bytes cs)) @ rest" by simp
  from parse_packet_chunks [OF assms this, of h ob s] b show ?thesis
    by (simp add: get_fill_size_def holds_fill)
qed

text \<open>A receiver that logs every call it gets.\<close>

definition log_all :: "(unit, (string \<times> nat \<times> nat list) list) chunk_in" where
  "log_all = \<lparr>SetValue_string = (\<lambda>_ i bs s. s @ [(''string'', i, map unat bs)]),
     SetValue_buffer = (\<lambda>_ i bs s. s @ [(''buffer'', i, map unat bs)]),
     SetValue8 = (\<lambda>_ i v s. s @ [(''8'', i, [v])]), SetValue16 = (\<lambda>_ i v s. s @ [(''16'', i, [v])]),
     SetValue32 = (\<lambda>_ i v s. s @ [(''32'', i, [v])]), SetValue64 = (\<lambda>_ i v s. s @ [(''64'', i, [v])]),
     SetArray = (\<lambda>_ i n s. (Some (), s @ [(''array'', i, [n])])),
     EnterNode = (\<lambda>_ i n s. (Some (), s @ [(''enter'', i, [n])])),
     LeaveNode = (\<lambda>_ i n s. s @ [(''leave'', i, [n])])\<rparr>"

lemma chunks_roundtrip_witness:
  "\<exists>b. append_chunks [WByte 5 3, WString 2 [97, 98]] auto_buffer_new = Some b
     \<and> parse_packet log_all () (m_buffer b) 0 (get_fill_size b) [] = Some [(''8'', 5, [3]), (''string'', 2, [97, 98])]"
  using chunks_roundtrip [of "[WByte 5 3, WString 2 [97, 98]]" log_all "()" "[]"]
  by (simp add: chunk_ok_def report_def log_all_def)

text \<open>a 16-bit value does not survive: it is written as it stands in memory and swapped when it is
  read, so the receiver gets it with its bytes exchanged.\<close>

theorem short_value_swapped:
  assumes "i < 256" and "v < 2 ^ 16"
  shows "\<exists>b. AppendChunkShort i v auto_buffer_new = Some b
     \<and> parse_packet h ob (m_buffer b) 0 (get_fill_size b) s
         = Some (SetValue16 h ob i (256 * (v mod 256) + v div 256) s)"
proof -
  let ?bs = "[word_of_nat i, word_of_nat CHUNK_TYPE_SHORT] @ be16 2 @ le16 v"
  obtain b where b: "AppendChunkShort i v auto_buffer_new = Some b" "holds b ?bs"
    using append_pieces_holds [OF holds_new, of "[[word_of_nat i], [word_of_nat CHUNK_TYPE_SHORT], be16 2, le16 v]"]
    by (auto simp: AppendChunkShort_def append_chunk_t_def simp del: append_pieces.simps)
  then obtain rest where mem: "m_buffer b = map Some ?bs @ rest" by (auto simp: holds_def)
  have hdr: "chunk_header (m_buffer b) 0 = Some (i, CHUNK_TYPE_SHORT, 2)"
    using chunk_header_at [of 0 "m_buffer b" "word_of_nat i" "word_of_nat CHUNK_TYPE_SHORT" "be16 2" "le16 v" rest]
      assms(1) by (simp add: mem ntoh_be16 chunk_types)
  have "drop 4 (m_buffer b) = map Some (le16 v @ []) @ rest" by (simp add: mem be16_def)
  then have "read_buffer (m_buffer b) 4 2 = Some (le16 v)" by (rule read_buffer_at) simp
  moreover have "6 \<le> length (m_buffer b)" by (simp add: mem)
  moreover have "get_fill_size b = 6" using b(2) by (simp add: get_fill_size_def holds_fill)
  ultimately have "parse_packet h ob (m_buffer b) 0 (get_fill_size b) s
      = parse_packet h ob (m_buffer b) 6 0 (SetValue16 h ob i (ntoh (le16 v)) s)"
    using hdr by (subst parse_packet.simps) (simp add: simple_chunk_def fixed_value_def check_buffer_def chunk_types)
  also have "\<dots> = Some (SetValue16 h ob i (256 * (v mod 256) + v div 256) s)"
    by (subst parse_packet.simps) (simp add: read_buffer_def ntoh_le16 [OF assms(2)])
  finally show ?thesis using b(1) by blast
qed

lemma short_value_swapped_witness:
  "\<exists>b. AppendChunkShort 1 0x0102 auto_buffer_new = Some b
     \<and> parse_packet log_all () (m_buffer b) 0 (get_fill_size b) [] = Some [(''16'', 1, [0x0201])]"
  using short_value_swapped [of 1 "0x0102" log_all "()" "[]"] by (simp add: log_all_def)

text \<open>a buffer value is appended with its whole allocation, although the chunk announces only the part
  in use: the packet grows by the capacity and carries bytes that were never part of the value.\<close>

theorem buffer_chunk_leaks_allocation:
  assumes "holds b xs" and "holds value ys" and "i < 256" and "length ys < 2 ^ 16"
  shows "\<exists>b'. AppendChunkBuffer i value b = Some b'
     \<and> get_fill_size b' = length xs + 4 + get_full_size value
     \<and> take (length xs + 4 + length ys) (m_buffer b')
         = map Some (xs @ [word_of_nat i, 7] @ be16 (length ys) @ ys)"
proof -
  let ?hdr = "[word_of_nat i, 7] @ be16 (length ys)"
  obtain b1 where b1: "append_pieces [[word_of_nat i], [7], be16 (length ys)] b = Some b1" "holds b1 (xs @ ?hdr)"
    using append_pieces_holds [OF assms(1), of "[[word_of_nat i], [7], be16 (length ys)]"]
    by (auto simp del: append_pieces.simps)
  obtain rest where cells: "m_buffer value = map Some ys @ rest" "m_full_size value = length ys + length rest"
    using assms(2) by (auto simp: holds_def)
  obtain b2 r where b2: "append_cells True (m_buffer value) default_granulate b1 = Some b2"
    "m_buffer b2 = take (m_ready_position b1) (m_buffer b1) @ m_buffer value @ r"
    "m_ready_position b2 = m_ready_position b1 + length (m_buffer value)"
    using append_cells_wf [OF holds_wf [OF b1(2)] default_granulate_pos, of "m_buffer value"] by blast
  have "AppendChunkBuffer i value b = Some b2"
    using b1(1) b2(1) assms(2,4) cells
    by (simp add: AppendChunkBuffer_def get_fill_size_def get_full_size_def holds_fill chunk_types
        del: append_pieces.simps)
  moreover have "m_ready_position b1 = length xs + 4" using b1(2) by (simp add: holds_fill)
  moreover have "take (m_ready_position b1) (m_buffer b1) = map Some (xs @ ?hdr)" by (rule holds_take [OF b1(2)])
  moreover have "take (length xs + 4 + length ys) (m_buffer b2) = map Some (xs @ ?hdr @ ys)"
  proof -
    have "m_buffer b2 = map Some (xs @ ?hdr @ ys) @ rest @ r" using calculation(3) b2(2) cells by simp
    moreover have "length (map Some (xs @ ?hdr @ ys)) = length xs + 4 + length ys" by simp
    ultimately show ?thesis by (metis append_eq_conv_conj)
  qed
  ultimately show ?thesis
    using b2 cells by (simp add: get_fill_size_def get_full_size_def)
qed

lemma buffer_chunk_leaks_allocation_witness:
  "\<exists>b'. AppendChunkBuffer 1 \<lparr>m_buffer = [Some 5, Some 9, None], m_full_size = 3, m_ready_position = 1, m_auto_free = True\<rparr>
       (auto_buffer_external []) = Some b' \<and> get_fill_size b' = 7"
proof -
  have v: "holds \<lparr>m_buffer = [Some 5, Some 9, None], m_full_size = 3, m_ready_position = 1, m_auto_free = True\<rparr> [5 :: byte]"
    by (auto simp: holds_def)
  show ?thesis
    using buffer_chunk_leaks_allocation [OF holds_external v, of 1 "[]"]
    by (auto simp: get_full_size_def)
qed

text \<open>the length of an array node is not compared with the bytes of the array: a packet of eight bytes whose
  node announces more than is there makes the parser read outside the packet.\<close>

theorem array_node_length_unchecked:
  "parse_packet log_all () (map Some [1, 8, 0, 4, 1, 0, 5, 0]) 0 8 [] = None"
  by (simp add: parse_packet.simps parse_nodes.simps chunk_header_def read_buffer_def native_def ntoh_def
      be_value_def check_buffer_def chunk_types log_all_def Let_def)


section \<open>A message from end to end\<close>

lemma send_chunk_bytes:
  assumes "holds ch xs" and "length xs < 2 ^ 16" and "has_bev c"
  shows "\<exists>c'. SendChunkInPacket sign tp ch c = Some c' \<and> c_written c' = c_written c @ packet_bytes sign (tp, xs)"
proof -
  obtain rest where "m_buffer ch = map Some xs @ rest" using assms(1) by (auto simp: holds_def)
  then have "drop 0 (m_buffer ch) = map Some (xs @ []) @ rest" by simp
  then have body: "read_buffer (m_buffer ch) 0 (length xs) = Some xs" by (rule read_buffer_at) simp
  have sz: "GetSize ch = length xs" using assms(1,2) by (simp add: GetSize_def get_fill_size_def holds_fill)
  have bev: "has_bev (d\<lparr>m_send_bytes := n, c_written := w, c_pending := q\<rparr>) = has_bev d" for d n w q
    by (simp add: has_bev_def)
  show ?thesis using assms(3)
    by (simp add: SendChunkInPacket_def send_data_def sz body bev packet_bytes_def)
qed

text \<open>The command the server registers for a log-on, and the message of the client.\<close>

definition logon_command :: "logon_client body_command" where
  "logon_command tp body s =
     (case parse_packet s2bLogonClient () (map Some body) 0 (length body) s of None \<Rightarrow> s | Some s1 \<Rightarrow> s1)"

definition logon_message :: "byte list \<Rightarrow> byte list \<Rightarrow> wire_chunk list" where
  "logon_message login hash = [WString S2BC_LOGIN login, WString S2BC_HASH hash]"

lemma logon_command_message:
  assumes "length login < 2 ^ 16" and "length hash < 2 ^ 16"
  shows "logon_command tp (concat (map chunk_bytes (logon_message login hash))) s
     = s\<lparr>lc_login := login, lc_hash := hash\<rparr>"
proof -
  let ?cs = "logon_message login hash" and ?bs = "concat (map chunk_bytes (logon_message login hash))"
  have ok: "list_all chunk_ok ?cs" using assms by (simp add: logon_message_def chunk_ok_def chunk_ids)
  have "drop 0 (map Some ?bs) = map Some ?bs @ []" by simp
  from parse_packet_chunks [OF ok this, of s2bLogonClient "()" s]
  show ?thesis
    by (simp add: logon_command_def) (simp add: logon_message_def report_def s2bLogonClient_def cbChunkIn_def chunk_ids)
qed

text \<open>a log-on message travels: what the client appends and sends in a packet, received by a server
  in any pieces, sets exactly the login and the hash of the server's message object, and nothing
  is left in the receive buffer.\<close>

theorem logon_travels:
  assumes "length login + length hash < 2 ^ 16 - 8" and "has_bev c" and "c_written c = []"
    and "holds (m_socket_buffer d) []"
  shows "\<exists>ch c'. append_chunks (logon_message login hash) auto_buffer_new = Some ch
     \<and> SendChunkInPacket S2B_NP_SIGNATURE S2B_NPP_LOGON ch c = Some c'
     \<and> (\<forall>yss. concat yss = c_written c' \<longrightarrow>
          (\<exists>d'. receive_all (DoProcessCB S2B_NP_SIGNATURE (on_bodies [S2B_NPP_LOGON \<mapsto> logon_command])) yss d s
               = Some (d', s\<lparr>lc_login := login, lc_hash := hash\<rparr>)
             \<and> holds (m_socket_buffer d') []))"
proof -
  let ?bs = "concat (map chunk_bytes (logon_message login hash))"
  have len: "length ?bs < 2 ^ 16" using assms(1) by (simp add: logon_message_def chunk_bytes_def)
  have "list_all chunk_ok (logon_message login hash)"
    using assms(1) by (simp add: logon_message_def chunk_ok_def chunk_ids)
  from append_chunks_holds [OF this holds_new] obtain ch where
    ch: "append_chunks (logon_message login hash) auto_buffer_new = Some ch" "holds ch ?bs" by auto
  from send_chunk_bytes [OF ch(2) len assms(2), of S2B_NP_SIGNATURE S2B_NPP_LOGON] assms(3) obtain c' where
    c': "SendChunkInPacket S2B_NP_SIGNATURE S2B_NPP_LOGON ch c = Some c'"
    "c_written c' = packet_bytes S2B_NP_SIGNATURE (S2B_NPP_LOGON, ?bs)" by auto
  have pk: "packet_ok (S2B_NPP_LOGON, ?bs)" using len by (simp add: packet_ok_def S2B_NPP_LOGON_def)
  have small: "length (packet_bytes S2B_NP_SIGNATURE (S2B_NPP_LOGON, ?bs)) < size_modulus"
    using len by (simp add: packet_bytes_def size_modulus_def)
  have cmd: "deliver [S2B_NPP_LOGON \<mapsto> logon_command] S2B_NPP_LOGON ?bs s = s\<lparr>lc_login := login, lc_hash := hash\<rparr>"
    using logon_command_message [of login hash S2B_NPP_LOGON s] assms(1) by (simp add: deliver_def)
  show ?thesis
    using packets_in_pieces [OF assms(4), of "[(S2B_NPP_LOGON, ?bs)]" _ S2B_NP_SIGNATURE "[]"
        "[S2B_NPP_LOGON \<mapsto> logon_command]" s] ch(1) c' pk small cmd
    by (auto simp del: concat_eq_Nil_conv)
qed

definition no_logon :: logon_client where
  "no_logon = \<lparr>lc_login = [], lc_hash = []\<rparr>"

theorem logon_travels_witness:
  "\<exists>ch c'. append_chunks (logon_message [97] [98, 99]) auto_buffer_new = Some ch
     \<and> SendChunkInPacket S2B_NP_SIGNATURE S2B_NPP_LOGON ch (open_connection (connection_new 1)) = Some c'
     \<and> (\<forall>yss. concat yss = c_written c' \<longrightarrow>
          (\<exists>d'. receive_all (DoProcessCB S2B_NP_SIGNATURE (on_bodies [S2B_NPP_LOGON \<mapsto> logon_command])) yss (connection_new 2) no_logon
               = Some (d', \<lparr>lc_login = [97], lc_hash = [98, 99]\<rparr>)))"
proof -
  have "length [97::byte] + length [98, 99::byte] < 2 ^ 16 - 8" "has_bev (open_connection (connection_new 1))"
    "c_written (open_connection (connection_new 1)) = []" "holds (m_socket_buffer (connection_new 2)) []"
    by (simp_all add: has_bev_def open_connection_def connection_new_def holds_new)
  from logon_travels [OF this, of no_logon] show ?thesis by (fastforce simp: no_logon_def)
qed

end
