(* ===== verification/Std_Map.thy ===== *)
theory Std_Map
  imports Khl_Prelude "HOL-Library.List_Lexorder" "HOL-Library.Char_ord"
begin

text \<open>
  What the sources use of the C++ library's \<open>std::map\<close> and \<open>std::shared_ptr\<close>: an ordered
  dictionary as the list of its entries in key order (the order in which a loop over the map
  visits them), and objects shared through pointers as an arena of objects with the pointers as
  indices. \<open>std::string\<close> keys are compared bytewise (\<open>HOL-Library.List_Lexorder\<close> and
  \<open>HOL-Library.Char_ord\<close>).
\<close>

section \<open>Dictionaries\<close>

type_synonym ('k, 'v) std_map = "('k \<times> 'v) list"

definition std_find :: "'k \<Rightarrow> ('k, 'v) std_map \<Rightarrow> 'v option" where
  "std_find k m = map_of m k"

lemma std_find_Nil [simp]: "std_find x [] = None"
  by (simp add: std_find_def)

lemma std_find_Cons [simp]: "std_find x ((k, v) # m) = (if x = k then Some v else std_find x m)"
  by (simp add: std_find_def)

text \<open>\<open>insert\<close> keeps the entry that is there; \<open>operator[]\<close> with an assignment replaces it.\<close>

fun std_insert :: "'k::linorder \<Rightarrow> 'v \<Rightarrow> ('k, 'v) std_map \<Rightarrow> ('k, 'v) std_map" where
  "std_insert k v [] = [(k, v)]"
| "std_insert k v ((a, b) # m) =
     (if k < a then (k, v) # (a, b) # m
      else if k = a then (a, b) # m
      else (a, b) # std_insert k v m)"

fun std_assign :: "'k::linorder \<Rightarrow> 'v \<Rightarrow> ('k, 'v) std_map \<Rightarrow> ('k, 'v) std_map" where
  "std_assign k v [] = [(k, v)]"
| "std_assign k v ((a, b) # m) =
     (if k < a then (k, v) # (a, b) # m
      else if k = a then (k, v) # m
      else (a, b) # std_assign k v m)"

definition std_erase :: "'k \<Rightarrow> ('k, 'v) std_map \<Rightarrow> ('k, 'v) std_map" where
  "std_erase k m = filter (\<lambda>e. fst e \<noteq> k) m"

definition sorted_map :: "('k::linorder, 'v) std_map \<Rightarrow> bool" where
  "sorted_map m \<longleftrightarrow> sorted_wrt (<) (map fst m)"

lemma sorted_map_Nil [simp]: "sorted_map []"
  by (simp add: sorted_map_def)

lemma sorted_map_Cons: "sorted_map ((a, b) # m) \<longleftrightarrow> (\<forall>k \<in> fst ` set m. a < k) \<and> sorted_map m"
  by (simp add: sorted_map_def)

lemma std_find_above: "\<forall>k \<in> fst ` set m. a < k \<Longrightarrow> k \<le> (a::'k::linorder) \<Longrightarrow> map_of m k = None"
  by (force simp: map_of_eq_None_iff)

lemma keys_insert: "fst ` set (std_insert k v m) = insert k (fst ` set m)"
  by (induction k v m rule: std_insert.induct) auto

lemma keys_assign: "fst ` set (std_assign k v m) = insert k (fst ` set m)"
  by (induction k v m rule: std_assign.induct) auto

lemma sorted_map_insert: "sorted_map m \<Longrightarrow> sorted_map (std_insert k v m)"
  by (induction k v m rule: std_insert.induct)
    (auto simp: sorted_map_Cons keys_insert intro: less_trans simp del: set_map)

lemma sorted_map_assign: "sorted_map m \<Longrightarrow> sorted_map (std_assign k v m)"
  by (induction k v m rule: std_assign.induct)
    (auto simp: sorted_map_Cons keys_assign intro: less_trans)

lemma sorted_map_erase: "sorted_map m \<Longrightarrow> sorted_map (std_erase k m)"
  by (induction m) (auto simp: sorted_map_def std_erase_def)

lemma std_find_insert:
  "sorted_map m \<Longrightarrow> std_find x (std_insert k v m)
     = (if x = k then (case std_find k m of None \<Rightarrow> Some v | Some b \<Rightarrow> Some b) else std_find x m)"
  by (induction k v m rule: std_insert.induct)
    (auto simp: std_find_def sorted_map_Cons std_find_above)

lemma std_find_assign:
  "sorted_map m \<Longrightarrow> std_find x (std_assign k v m) = (if x = k then Some v else std_find x m)"
  by (induction k v m rule: std_assign.induct) (auto simp: std_find_def sorted_map_Cons)

lemma std_find_erase: "std_find x (std_erase k m) = (if x = k then None else std_find x m)"
  by (induction m) (auto simp: std_find_def std_erase_def)

lemma std_find_entry: "sorted_map m \<Longrightarrow> (k, v) \<in> set m \<longleftrightarrow> std_find k m = Some v"
  by (induction m) (force simp: std_find_def sorted_map_Cons)+

subsection \<open>The dictionary as an interface\<close>

text \<open>
  What the components rely on. \<open>find\<close> sees the last surviving \<open>insert\<close> of a key, an \<open>insert\<close>
  does not replace an entry, \<open>erase\<close> removes exactly its key.
\<close>

locale lookup_table =
  fixes ok :: "'m \<Rightarrow> bool"
    and find :: "'k \<Rightarrow> 'm \<Rightarrow> 'v option"
    and insert_new :: "'k \<Rightarrow> 'v \<Rightarrow> 'm \<Rightarrow> 'm"
  assumes ok_insert: "ok m \<Longrightarrow> ok (insert_new k v m)"
    and find_insert: "ok m \<Longrightarrow> find x (insert_new k v m) = (if x = k \<and> find k m = None then Some v else find x m)"
begin

lemma find_insert_new: "ok m \<Longrightarrow> find k m = None \<Longrightarrow> find x (insert_new k v m) = (if x = k then Some v else find x m)"
  by (simp add: find_insert)

lemma find_insert_kept: "ok m \<Longrightarrow> find k m = Some w \<Longrightarrow> find x (insert_new k v m) = find x m"
  by (simp add: find_insert)

text \<open>Of several values for a key the first one stays.\<close>

lemma find_fold_insert:
  "ok m \<Longrightarrow> ok (fold (\<lambda>(k, v). insert_new k v) es m)
     \<and> find x (fold (\<lambda>(k, v). insert_new k v) es m) = (case find x m of Some v \<Rightarrow> Some v | None \<Rightarrow> map_of es x)"
proof (induction es arbitrary: m)
  case (Cons e es)
  obtain k v where e: "e = (k, v)" by fastforce
  show ?case
    using Cons.IH [OF ok_insert [OF Cons.prems, of k v]] find_insert [OF Cons.prems, of x k v]
    by (cases "x = k"; cases "find k m"; cases "find x m"; auto simp: e)
qed (simp split: option.splits)

end

locale dictionary = lookup_table ok find insert_new
  for ok :: "'m \<Rightarrow> bool" and find :: "'k \<Rightarrow> 'm \<Rightarrow> 'v option" and insert_new :: "'k \<Rightarrow> 'v \<Rightarrow> 'm \<Rightarrow> 'm" +
  fixes erase :: "'k \<Rightarrow> 'm \<Rightarrow> 'm"
  assumes ok_erase: "ok m \<Longrightarrow> ok (erase k m)"
    and find_erase: "ok m \<Longrightarrow> find x (erase k m) = (if x = k then None else find x m)"
begin

lemma ok_erase2: "ok m \<Longrightarrow> ok (erase a (erase b m))"
  by (simp add: ok_erase)

lemma find_erase2: "ok m \<Longrightarrow> find x (erase a (erase b m)) = (if x = a \<or> x = b then None else find x m)"
  by (simp add: find_erase ok_erase)

text \<open>Two keys that lead to one value are exchanged for two others.\<close>

lemma find_rekey:
  assumes "ok m" and "find a2 m = None \<or> a2 \<in> {a, b}" and "find b2 m = None \<or> b2 \<in> {a, b}"
  shows "find x (insert_new a2 v (insert_new b2 v (erase a (erase b m))))
     = (if x \<in> {a2, b2} then Some v else if x \<in> {a, b} then None else find x m)"
  using assms by (auto simp: find_insert ok_insert ok_erase find_erase)

end

interpretation sd: dictionary sorted_map std_find std_insert std_erase
  by unfold_locales
    (auto simp: sorted_map_insert sorted_map_erase std_find_insert std_find_erase split: option.splits)

section \<open>Shared objects\<close>

type_synonym 'a arena = "'a list"

definition new_object :: "'a \<Rightarrow> 'a arena \<Rightarrow> nat \<times> 'a arena" where
  "new_object x h = (length h, h @ [x])"

definition deref :: "nat \<Rightarrow> 'a arena \<Rightarrow> 'a option" where
  "deref p h = (if p < length h then Some (h ! p) else None)"

definition modify :: "nat \<Rightarrow> ('a \<Rightarrow> 'a) \<Rightarrow> 'a arena \<Rightarrow> 'a arena" where
  "modify p f h = (if p < length h then h[p := f (h ! p)] else h)"

lemma deref_new [simp]: "deref p (h @ [x]) = (if p = length h then Some x else deref p h)"
  by (auto simp: deref_def nth_append)

lemma deref_modify [simp]: "deref q (modify p f h) = (if q = p then map_option f (deref q h) else deref q h)"
  by (auto simp: deref_def modify_def)

lemma deref_less: "deref p h = Some x \<Longrightarrow> p < length h"
  by (auto simp: deref_def split: if_splits)

lemma length_modify [simp]: "length (modify p f h) = length h"
  by (simp add: modify_def)

end
