(* ===== verification/Json.thy ===== *)
theory Json
  imports Std_Map Connection
begin

text \<open>
  \<open>external/src/json/json_value.cpp\<close>: the part of \<open>Json::Value\<close> the library uses. Members of an
  object are kept in key order as in the source. A failed assertion or an impossible conversion
  throws, which is the value \<open>None\<close>. Signed and unsigned integers are one constructor, which no
  operation here can tell apart. The library never stores a double, but a document it reads may
  hold one: a double is represented by what the operations observe of it.
\<close>

text \<open>The text it is printed as, its integral part when that is an \<open>int\<close>, and whether it is zero.\<close>

record double =
  double_text :: string
  double_int :: "int option"
  double_zero :: bool

datatype json =
  JNull
| JInt int
| JReal double
| JString string
| JBool bool
| JArray "json list"
| JObject "(string, json) std_map"

definition is_int32 :: "int \<Rightarrow> bool" where
  "is_int32 i \<longleftrightarrow> - (2 ^ 31) \<le> i \<and> i < 2 ^ 31"

fun asBool :: "json \<Rightarrow> bool option" where
  "asBool (JBool b) = Some b"
| "asBool JNull = Some False"
| "asBool (JInt i) = Some (i \<noteq> 0)"
| "asBool (JReal d) = Some (\<not> double_zero d)"
| "asBool _ = None"

fun asInt :: "json \<Rightarrow> int option" where
  "asInt (JInt i) = (if is_int32 i then Some i else None)"
| "asInt JNull = Some 0"
| "asInt (JReal d) = double_int d"
| "asInt (JBool b) = Some (if b then 1 else 0)"
| "asInt _ = None"

fun asString :: "json \<Rightarrow> string option" where
  "asString JNull = Some []"
| "asString (JString s) = Some s"
| "asString (JBool b) = Some (if b then ''true'' else ''false'')"
| "asString (JInt i) = Some (show_int i)"
| "asString (JReal d) = Some (double_text d)"
| "asString _ = None"

text \<open>
  \<open>find\<close>, the constant \<open>operator[]\<close>, \<open>get\<close> and \<open>isMember\<close>: on a value that is neither null nor an
  object they throw.
\<close>

fun json_find :: "string \<Rightarrow> json \<Rightarrow> json option option" where
  "json_find k JNull = Some None"
| "json_find k (JObject m) = Some (std_find k m)"
| "json_find k _ = None"

definition json_at :: "string \<Rightarrow> json \<Rightarrow> json option" where
  "json_at k v = map_option (\<lambda>r. case r of None \<Rightarrow> JNull | Some x \<Rightarrow> x) (json_find k v)"

definition json_get :: "string \<Rightarrow> json \<Rightarrow> json \<Rightarrow> json option" where
  "json_get k dflt v = map_option (\<lambda>r. case r of None \<Rightarrow> dflt | Some x \<Rightarrow> x) (json_find k v)"

definition isMember :: "string \<Rightarrow> json \<Rightarrow> bool option" where
  "isMember k v = map_option (\<lambda>r. r \<noteq> None) (json_find k v)"

text \<open>\<open>value[key] = x\<close>: a null value becomes an object first.\<close>

fun json_set :: "string \<Rightarrow> json \<Rightarrow> json \<Rightarrow> json option" where
  "json_set k x JNull = Some (JObject [(k, x)])"
| "json_set k x (JObject m) = Some (JObject (std_assign k x m))"
| "json_set k x _ = None"

fun json_append :: "json \<Rightarrow> json \<Rightarrow> json option" where
  "json_append x JNull = Some (JArray [x])"
| "json_append x (JArray xs) = Some (JArray (xs @ [x]))"
| "json_append x _ = None"

text \<open>The loop \<open>for (const auto& r : value)\<close> over an array, an object or a null value.\<close>

fun json_items :: "json \<Rightarrow> json list" where
  "json_items (JArray xs) = xs"
| "json_items (JObject m) = map snd m"
| "json_items _ = []"

text \<open>The elements by index, up to \<open>size()\<close>: the index operator throws on an object.\<close>

fun json_elements :: "json \<Rightarrow> json list option" where
  "json_elements (JArray xs) = Some xs"
| "json_elements (JObject m) = (if m = [] then Some [] else None)"
| "json_elements _ = Some []"

definition is_object :: "json \<Rightarrow> bool" where
  "is_object v \<longleftrightarrow> (case v of JObject m \<Rightarrow> sorted_map m | JNull \<Rightarrow> True | _ \<Rightarrow> False)"

lemma json_set_object:
  assumes "is_object v"
  shows "\<exists>w. json_set k x v = Some w \<and> is_object w \<and> w \<noteq> JNull
     \<and> (\<forall>j. json_at j w = (if j = k then Some x else json_at j v))"
  using assms
  by (cases v) (auto simp: is_object_def json_at_def std_find_assign sorted_map_assign sorted_map_Cons)

lemma is_object_at: "is_object v \<Longrightarrow> \<exists>x. json_at k v = Some x"
  by (cases v) (auto simp: is_object_def json_at_def)

text \<open>Setting a member of an object, as a function that does not throw.\<close>

definition json_put :: "string \<Rightarrow> json \<Rightarrow> json \<Rightarrow> json" where
  "json_put k x v = (case v of JObject m \<Rightarrow> JObject (std_assign k x m) | _ \<Rightarrow> JObject [(k, x)])"

lemma json_put_object [simp]:
  assumes "is_object v"
  shows "json_set k x v = Some (json_put k x v)" and "is_object (json_put k x v)" and "json_put k x v \<noteq> JNull"
    and "json_at j (json_put k x v) = (if j = k then Some x else json_at j v)"
  using assms
  by (cases v; simp add: is_object_def json_at_def std_find_assign sorted_map_assign sorted_map_Cons json_put_def)+

lemma isMember_at: "is_object v \<Longrightarrow> json_at k v = Some x \<Longrightarrow> x \<noteq> JNull \<Longrightarrow> isMember k v = Some True"
  by (cases v) (auto simp: is_object_def json_at_def isMember_def split: option.splits)

end
