(* ===== verification/Json_Text.thy ===== *)
theory Json_Text
  imports Json Utf8
begin

text \<open>
  The textual form of a JSON value: \<open>json_string\<close> and \<open>parse_json\<close> of \<open>src/util/utils.cxx\<close> with the
  writer (\<open>external/src/json/json_writer.cpp\<close>, no indentation) and the reader
  (\<open>external/src/json/json_reader.cpp\<close>, default features) they use. A location in the document is the
  text from there to its end. Comments are read as in the source, which may throw, but are not kept
  in the value. A \<open>char\<close> is signed.
\<close>

unbundle bit_operations_syntax

section \<open>The writer\<close>

definition char_code :: "char \<Rightarrow> nat" where
  "char_code c = of_char c"

text \<open>\<open>utf8ToCodepoint\<close>: the code point at the head of the text and the text behind it.\<close>

definition REPLACEMENT_CHARACTER :: nat where
  "REPLACEMENT_CHARACTER = 0xFFFD"

definition cont_bits6 :: "char \<Rightarrow> nat" where
  "cont_bits6 c = char_code c AND 0x3F"

fun utf8ToCodepoint :: "char \<Rightarrow> string \<Rightarrow> nat \<times> string" where
  "utf8ToCodepoint c s =
     (let firstByte = char_code c in
      if firstByte < 0x80 then (firstByte, s)
      else if firstByte < 0xE0 then
        (case s of
           s1 # r \<Rightarrow>
             (let calculated = push_bit 6 (firstByte AND 0x1F) OR cont_bits6 s1 in
              (if calculated < 0x80 then REPLACEMENT_CHARACTER else calculated, r))
         | _ \<Rightarrow> (REPLACEMENT_CHARACTER, s))
      else if firstByte < 0xF0 then
        (case s of
           s1 # s2 # r \<Rightarrow>
             (let calculated = push_bit 12 (firstByte AND 0x0F) OR push_bit 6 (cont_bits6 s1) OR cont_bits6 s2 in
              (if 0xD800 \<le> calculated \<and> calculated \<le> 0xDFFF then REPLACEMENT_CHARACTER
               else if calculated < 0x800 then REPLACEMENT_CHARACTER else calculated, r))
         | _ \<Rightarrow> (REPLACEMENT_CHARACTER, s))
      else if firstByte < 0xF8 then
        (case s of
           s1 # s2 # s3 # r \<Rightarrow>
             (let calculated = push_bit 18 (firstByte AND 0x07) OR push_bit 12 (cont_bits6 s1)
                 OR push_bit 6 (cont_bits6 s2) OR cont_bits6 s3 in
              (if calculated < 0x10000 then REPLACEMENT_CHARACTER else calculated, r))
         | _ \<Rightarrow> (REPLACEMENT_CHARACTER, s))
      else (REPLACEMENT_CHARACTER, s))"

lemma utf8ToCodepoint_rest: "length (snd (utf8ToCodepoint c s)) \<le> length s"
  by (auto simp: Let_def split: list.splits)

declare utf8ToCodepoint.simps [simp del]

definition hex_digit :: "nat \<Rightarrow> char" where
  "hex_digit n = ''0123456789abcdef'' ! (n mod 16)"

definition toHex16Bit :: "nat \<Rightarrow> string" where
  "toHex16Bit x = [hex_digit (drop_bit 12 x), hex_digit (drop_bit 8 x), hex_digit (drop_bit 4 x), hex_digit x]"

definition escape_u :: "nat \<Rightarrow> string" where
  "escape_u x = CHR 0x5C # CHR ''u'' # toHex16Bit x"

text \<open>What the loop of \<open>valueToQuotedStringN\<close> writes for a code point without a short escape.\<close>

definition quote_codepoint :: "nat \<Rightarrow> string" where
  "quote_codepoint cp =
     (if cp < 0x80 \<and> cp \<ge> 0x20 then [char_of cp]
      else if cp < 0x10000 then escape_u cp
      else (let cp = cp - 0x10000 in escape_u (drop_bit 10 cp + 0xD800) @ escape_u ((cp AND 0x3FF) + 0xDC00)))"

definition short_escape :: "char \<Rightarrow> char option" where
  "short_escape c = map_of
     [(CHR 0x22, CHR 0x22), (CHR 0x5C, CHR 0x5C), (CHR 0x08, CHR ''b''), (CHR 0x0C, CHR ''f''),
      (CHR 0x0A, CHR ''n''), (CHR 0x0D, CHR ''r''), (CHR 0x09, CHR ''t'')] c"

function quote_loop :: "string \<Rightarrow> string" where
  "quote_loop [] = []"
| "quote_loop (c # s) =
     (case short_escape c of
        Some e \<Rightarrow> CHR 0x5C # e # quote_loop s
      | None \<Rightarrow> (let (cp, r) = utf8ToCodepoint c s in quote_codepoint cp @ quote_loop r))"
  by pat_completeness auto
termination
  by (relation "measure length")
    (auto simp: le_imp_less_Suc, metis le_imp_less_Suc snd_conv utf8ToCodepoint_rest)

text \<open>\<open>isAnyCharRequiredQuoting\<close> says yes for every character, so only the empty text is not walked.\<close>

definition isAnyCharRequiredQuoting :: "string \<Rightarrow> bool" where
  "isAnyCharRequiredQuoting s \<longleftrightarrow>
     (\<exists>c \<in> set s. c = CHR 0x5C \<or> c = CHR 0x22 \<or> char_code c \<ge> 0x80 \<or> char_code c < 0x20 \<or> char_code c < 0x80)"

definition valueToQuotedString :: "string \<Rightarrow> string" where
  "valueToQuotedString s =
     (if \<not> isAnyCharRequiredQuoting s then CHR 0x22 # takeWhile (\<lambda>c. c \<noteq> CHR 0x00) s @ [CHR 0x22]
      else CHR 0x22 # quote_loop s @ [CHR 0x22])"

text \<open>\<open>writeValue\<close> and \<open>writeArrayValue\<close>: without indentation every line is joined to the last.\<close>

fun writeValue :: "json \<Rightarrow> string"
  and write_elements :: "json list \<Rightarrow> string"
  and write_members :: "(string \<times> json) list \<Rightarrow> string" where
  "writeValue JNull = ''null''"
| "writeValue (JInt i) = show_int i"
| "writeValue (JReal d) = double_text d"
| "writeValue (JString s) = valueToQuotedString s"
| "writeValue (JBool b) = (if b then ''true'' else ''false'')"
| "writeValue (JArray xs) = (if xs = [] then ''[]'' else ''['' @ write_elements xs @ '']'')"
| "writeValue (JObject m) = (if m = [] then ''{}'' else ''{'' @ write_members m @ ''}'')"
| "write_elements [] = []"
| "write_elements (x # xs) = writeValue x @ (if xs = [] then [] else '','' @ write_elements xs)"
| "write_members [] = []"
| "write_members ((k, x) # m) =
     valueToQuotedString k @ '':'' @ writeValue x @ (if m = [] then [] else '','' @ write_members m)"

definition json_string :: "json \<Rightarrow> string" where
  "json_string v = writeValue v"

end
