(* ===== verification/Json_Reader.thy ===== *)
theory Json_Reader
  imports Json_Text
begin

text \<open>
  \<open>OurReader\<close> of \<open>external/src/json/json_reader.cpp\<close> with the default features: comments allowed and
  collected, 1000 nested values, nothing else relaxed. \<open>None\<close> is an exception (or signed overflow).
  The recursion is bounded by fuel; running out of it is recorded in the state and never happens
  from \<open>parse_json\<close> (\<open>Json_Theorems\<close>). \<open>sscanf\<close> of a double is an argument.
\<close>

section \<open>Tokens\<close>

datatype token_type =
  tokenEndOfStream | tokenObjectBegin | tokenObjectEnd | tokenArrayBegin | tokenArrayEnd | tokenString
| tokenNumber | tokenTrue | tokenFalse | tokenNull | tokenNaN | tokenPosInf | tokenNegInf
| tokenArraySeparator | tokenMemberSeparator | tokenComment | tokenError

text \<open>A location is the text from there to the end of the document.\<close>

type_synonym location = string

record json_token =
  tok_type :: token_type
  tok_start :: location
  tok_end :: location

record json_reader =
  j_current :: location
  j_lastValueEnd :: "location option"
  j_commentsBefore :: string
  out_of_fuel :: bool

definition text_between :: "location \<Rightarrow> location \<Rightarrow> string" where
  "text_between b e = take (length b - length e) b"

definition skipSpaces :: "location \<Rightarrow> location" where
  "skipSpaces s = dropWhile (\<lambda>c. c \<in> {CHR '' '', CHR 0x09, CHR 0x0D, CHR 0x0A}) s"

definition match :: "string \<Rightarrow> location \<Rightarrow> bool \<times> location" where
  "match pattern s =
     (if take (length pattern) s = pattern then (True, drop (length pattern) s) else (False, s))"

fun readString :: "location \<Rightarrow> bool \<times> location" where
  "readString [] = (False, [])"
| "readString (c # s) =
     (if c = CHR 0x5C then (case s of [] \<Rightarrow> (False, []) | _ # r \<Rightarrow> readString r)
      else if c = CHR 0x22 then (True, s)
      else readString s)"

definition is_digit :: "char \<Rightarrow> bool" where
  "is_digit c \<longleftrightarrow> char_code c \<in> {48..57}"

definition readNumber :: "bool \<Rightarrow> location \<Rightarrow> bool \<times> location" where
  "readNumber checkInf s =
     (if checkInf \<and> s \<noteq> [] \<and> hd s = CHR ''I'' then (False, tl s)
      else
        (let s1 = dropWhile is_digit s;
             s2 = (if s1 \<noteq> [] \<and> hd s1 = CHR ''.'' then dropWhile is_digit (tl s1) else s1);
             s3 = (if s2 \<noteq> [] \<and> hd s2 \<in> {CHR ''e'', CHR ''E''}
                   then (let t = tl s2 in dropWhile is_digit (if t \<noteq> [] \<and> hd t \<in> {CHR ''+'', CHR ''-''} then tl t else t))
                   else s2)
         in (True, s3)))"

section \<open>Comments\<close>

fun readCStyleComment :: "location \<Rightarrow> bool \<times> location" where
  "readCStyleComment [] = (False, [])"
| "readCStyleComment [c] = (c = CHR ''/'', [])"
| "readCStyleComment (c # d # s) =
     (if c = CHR ''*'' \<and> d = CHR ''/'' then (True, s) else readCStyleComment (d # s))"

fun readCppStyleComment :: "location \<Rightarrow> location" where
  "readCppStyleComment [] = []"
| "readCppStyleComment (c # s) =
     (if c = CHR 0x0A then s
      else if c = CHR 0x0D then (case s of d # r \<Rightarrow> if d = CHR 0x0A then r else s | [] \<Rightarrow> s)
      else readCppStyleComment s)"

fun normalizeEOL :: "string \<Rightarrow> string" where
  "normalizeEOL [] = []"
| "normalizeEOL [c] = [if c = CHR 0x0D then CHR 0x0A else c]"
| "normalizeEOL (c # d # s) =
     (if c = CHR 0x0D then CHR 0x0A # (if d = CHR 0x0A then normalizeEOL s else normalizeEOL (d # s))
      else c # normalizeEOL (d # s))"

definition containsNewLine :: "location \<Rightarrow> location \<Rightarrow> bool" where
  "containsNewLine b e \<longleftrightarrow> (\<exists>c \<in> set (text_between b e). c = CHR 0x0A \<or> c = CHR 0x0D)"

text \<open>\<open>Value::setComment\<close> accepts only texts that begin with a slash and throws for others.\<close>

definition setComment :: "string \<Rightarrow> unit option" where
  "setComment comment = (if comment = [] \<or> hd comment \<in> {CHR 0x00, CHR ''/''} then Some () else None)"

text \<open>\<open>readComment\<close> and \<open>addComment\<close>; \<open>commentBegin\<close> is the location of the character just read.\<close>

definition readComment :: "location \<Rightarrow> json_reader \<Rightarrow> (bool \<times> json_reader) option" where
  "readComment commentBegin st =
     (case j_current st of
        [] \<Rightarrow> Some (False, st)
      | c # s \<Rightarrow>
          (let (successful, s1) = (if c = CHR ''*'' then readCStyleComment s
                                   else if c = CHR ''/'' then (True, readCppStyleComment s) else (False, s));
               st1 = st\<lparr>j_current := s1\<rparr> in
           if \<not> successful then Some (False, st1)
           else (let normalized = normalizeEOL (text_between commentBegin s1) in
                 if (case j_lastValueEnd st of None \<Rightarrow> False | Some l \<Rightarrow> \<not> containsNewLine l commentBegin)
                    \<and> (c \<noteq> CHR ''*'' \<or> \<not> containsNewLine commentBegin s1)
                 then do { setComment normalized; Some (True, st1) }
                 else Some (True, st1\<lparr>j_commentsBefore := j_commentsBefore st @ normalized\<rparr>))))"

text \<open>The cases of \<open>readToken\<close> but for comments: whether it is a token, its type, and the text behind it.\<close>

definition plain_token :: "char \<Rightarrow> location \<Rightarrow> bool \<times> token_type \<times> location" where
  "plain_token c s =
     (if c = CHR 0x7B then (True, tokenObjectBegin, s)
      else if c = CHR 0x7D then (True, tokenObjectEnd, s)
      else if c = CHR ''['' then (True, tokenArrayBegin, s)
      else if c = CHR '']'' then (True, tokenArrayEnd, s)
      else if c = CHR 0x22 then (let (ok, r) = readString s in (ok, tokenString, r))
      else if is_digit c then (let (_, r) = readNumber False s in (True, tokenNumber, r))
      else if c = CHR ''-'' then (let (ok, r) = readNumber True s in (ok, tokenNumber, r))
      else if c = CHR ''t'' then (let (ok, r) = match ''rue'' s in (ok, tokenTrue, r))
      else if c = CHR ''f'' then (let (ok, r) = match ''alse'' s in (ok, tokenFalse, r))
      else if c = CHR ''n'' then (let (ok, r) = match ''ull'' s in (ok, tokenNull, r))
      else if c = CHR '','' then (True, tokenArraySeparator, s)
      else if c = CHR '':'' then (True, tokenMemberSeparator, s)
      else if c = CHR 0x00 then (True, tokenEndOfStream, s)
      else (False, tokenError, s))"

definition readToken :: "json_reader \<Rightarrow> (json_token \<times> json_reader) option" where
  "readToken st =
     (let start = skipSpaces (j_current st) in
      case start of
        [] \<Rightarrow> Some (\<lparr>tok_type = tokenEndOfStream, tok_start = [], tok_end = []\<rparr>, st\<lparr>j_current := []\<rparr>)
      | c # s \<Rightarrow>
          (if c = CHR 0x27 \<or> c = CHR ''/'' then
             do { (ok, st1) \<leftarrow> readComment start (st\<lparr>j_current := s\<rparr>);
                  Some (\<lparr>tok_type = (if ok then tokenComment else tokenError), tok_start = start, tok_end = j_current st1\<rparr>, st1) }
           else
             (let (ok, t, r) = plain_token c s in
              Some (\<lparr>tok_type = (if ok then t else tokenError), tok_start = start, tok_end = r\<rparr>, st\<lparr>j_current := r\<rparr>))))"

lemma readString_shorter: "length (snd (readString s)) \<le> length s"
proof (induction s rule: length_induct)
  case (1 s)
  show ?case
  proof (cases s)
    case (Cons c t)
    have "length (snd (readString t)) \<le> length t" using 1 Cons by simp
    moreover have "length (snd (readString (tl t))) \<le> length t"
      using 1 [rule_format, of "tl t"] Cons by (cases t) auto
    ultimately show ?thesis by (cases t) (simp_all add: Cons)
  qed simp
qed

lemma dropWhile_shorter: "length t \<le> n \<Longrightarrow> length (dropWhile P t) \<le> n"
  using length_dropWhile_le [of P t] by linarith

lemma tl_shorter: "length t \<le> n \<Longrightarrow> length (tl t) \<le> n"
  by simp

lemma readNumber_shorter: "length (snd (readNumber b s)) \<le> length s"
  unfolding readNumber_def Let_def
  by (simp only: snd_conv if_distrib [of snd] if_distrib [of length] split: if_split)
    (intro conjI impI dropWhile_shorter tl_shorter order.refl)

lemma readCStyleComment_shorter: "length (snd (readCStyleComment s)) \<le> length s"
  by (induction s rule: readCStyleComment.induct) (simp_all add: le_SucI)

lemma readCppStyleComment_shorter: "length (readCppStyleComment s) \<le> length s"
proof (induction s)
  case (Cons c s)
  then show ?case by (cases s) simp_all
qed simp

lemma skipSpaces_shorter: "length (skipSpaces s) \<le> length s"
  by (simp add: skipSpaces_def length_dropWhile_le)

lemma match_shorter: "length (snd (match p s)) \<le> length s"
  by (simp add: match_def)

lemma readComment_shorter:
  assumes "readComment b st = Some (ok, st')"
  shows "length (j_current st') \<le> length (j_current st) \<and> out_of_fuel st' = out_of_fuel st"
proof (cases "j_current st")
  case Nil
  with assms show ?thesis by (simp add: readComment_def)
next
  case (Cons c s)
  have "j_current st' \<in> {snd (readCStyleComment s), readCppStyleComment s, s} \<and> out_of_fuel st' = out_of_fuel st"
    using assms by (auto simp: readComment_def Cons Let_def bind_eq_Some_conv split: if_splits prod.splits)
  with Cons readCStyleComment_shorter [of s] readCppStyleComment_shorter [of s] show ?thesis by (auto simp: le_SucI)
qed

lemma readString_consumes: "fst (readString s) \<Longrightarrow> length (snd (readString s)) < length s"
proof (induction s rule: length_induct)
  case (1 s)
  show ?case
  proof (cases s)
    case Nil
    with "1.prems" show ?thesis by simp
  next
    case (Cons c t)
    have a: "fst (readString t) \<Longrightarrow> length (snd (readString t)) < length t" using 1 Cons by simp
    have b: "fst (readString (tl t)) \<Longrightarrow> length (snd (readString (tl t))) < length t"
      using "1.IH" [rule_format, of "tl t"] Cons by (cases t) auto
    from "1.prems" a b show ?thesis by (cases t) (auto simp: Cons split: if_splits)
  qed
qed

lemma plain_token_progress:
  assumes "plain_token c s = (ok, t, r)"
  shows "length r \<le> length s \<and> (ok \<and> t = tokenString \<longrightarrow> length r < length s)"
proof -
  note parts = readString_shorter [of s] readString_consumes [of s] readNumber_shorter [of False s]
    readNumber_shorter [of True s] match_shorter [of "''rue''" s] match_shorter [of "''alse''" s] match_shorter [of "''ull''" s]
  obtain a1 r1 a2 r2 a3 r3 a4 r4 a5 r5 a6 r6 where eqs: "readString s = (a1, r1)" "readNumber False s = (a2, r2)"
    "readNumber True s = (a3, r3)" "match ''rue'' s = (a4, r4)" "match ''alse'' s = (a5, r5)" "match ''ull'' s = (a6, r6)"
    by (meson surj_pair)
  show ?thesis
    using assms parts unfolding eqs by (auto simp: plain_token_def eqs split: if_splits)
qed

lemma readToken_progress:
  assumes "readToken st = Some (t, st')"
  shows "length (j_current st') \<le> length (j_current st) \<and> out_of_fuel st' = out_of_fuel st
     \<and> (tok_type t \<noteq> tokenEndOfStream \<longrightarrow> length (j_current st') < length (j_current st))
     \<and> (tok_type t = tokenString \<longrightarrow> Suc (length (j_current st')) < length (j_current st))"
proof (cases "skipSpaces (j_current st)")
  case Nil
  with assms show ?thesis by (auto simp: readToken_def Let_def)
next
  case (Cons c s)
  have l: "Suc (length s) \<le> length (j_current st)" using skipSpaces_shorter [of "j_current st"] Cons by simp
  have "length (j_current st') \<le> length s \<and> out_of_fuel st' = out_of_fuel st
     \<and> (tok_type t = tokenString \<longrightarrow> length (j_current st') < length s)"
  proof (cases "c = CHR 0x27 \<or> c = CHR ''/''")
    case True
    then show ?thesis
      using assms Cons by (auto simp: readToken_def Let_def bind_eq_Some_conv dest!: readComment_shorter split: if_splits)
  next
    case False
    obtain ok tt r where p: "plain_token c s = (ok, tt, r)" by (metis prod_cases3)
    with plain_token_progress [OF p] False show ?thesis
      using assms Cons by (auto simp: readToken_def Let_def split: if_splits)
  qed
  with l show ?thesis by auto
qed

section \<open>Skipping\<close>

text \<open>\<open>skipCommentTokens\<close>, and \<open>recoverFromError\<close>, which always gives \<open>false\<close>.\<close>

function skipCommentTokens :: "json_reader \<Rightarrow> (json_token \<times> json_reader) option" where
  "skipCommentTokens st =
     (case readToken st of
        None \<Rightarrow> None
      | Some (t, st1) \<Rightarrow> if tok_type t = tokenComment then skipCommentTokens st1 else Some (t, st1))"
  by pat_completeness auto
termination
  by (relation "measure (\<lambda>st. length (j_current st))") (auto dest!: readToken_progress)

function recoverFromError :: "token_type \<Rightarrow> json_reader \<Rightarrow> json_reader option" where
  "recoverFromError skipUntilToken st =
     (case readToken st of
        None \<Rightarrow> None
      | Some (t, st1) \<Rightarrow>
          if tok_type t = skipUntilToken \<or> tok_type t = tokenEndOfStream then Some st1
          else recoverFromError skipUntilToken st1)"
  by pat_completeness auto
termination
  by (relation "measure (\<lambda>(_, st). length (j_current st))") (auto dest!: readToken_progress)

declare skipCommentTokens.simps [simp del] recoverFromError.simps [simp del]

section \<open>Strings and numbers\<close>

definition hex_value :: "char \<Rightarrow> nat option" where
  "hex_value c =
     (let n = char_code c in
      if n \<in> {48..57} then Some (n - 48)
      else if n \<in> {97..102} then Some (n - 97 + 10)
      else if n \<in> {65..70} then Some (n - 65 + 10)
      else None)"

fun decodeUnicodeEscapeSequence :: "string \<Rightarrow> (nat \<times> string) option" where
  "decodeUnicodeEscapeSequence (a # b # c # d # s) =
     do { w \<leftarrow> hex_value a; x \<leftarrow> hex_value b; y \<leftarrow> hex_value c; z \<leftarrow> hex_value d;
          Some (((w * 16 + x) * 16 + y) * 16 + z, s) }"
| "decodeUnicodeEscapeSequence _ = None"

definition decodeUnicodeCodePoint :: "string \<Rightarrow> (nat \<times> string) option" where
  "decodeUnicodeCodePoint s =
     do { (unicode, r) \<leftarrow> decodeUnicodeEscapeSequence s;
          if 0xD800 \<le> unicode \<and> unicode \<le> 0xDBFF then
            (case r of
               a # b # r1 \<Rightarrow>
                 (if length r < 6 then None
                  else if a = CHR 0x5C \<and> b = CHR ''u'' then
                    do { (surrogatePair, r2) \<leftarrow> decodeUnicodeEscapeSequence r1;
                         Some (0x10000 + push_bit 10 (unicode AND 0x3FF) + (surrogatePair AND 0x3FF), r2) }
                  else None)
             | _ \<Rightarrow> None)
          else Some (unicode, r) }"

definition codePointToUTF8 :: "nat \<Rightarrow> string" where
  "codePointToUTF8 cp =
     (if cp \<le> 0x7F then [char_of cp]
      else if cp \<le> 0x7FF then [char_of (0xC0 OR (0x1F AND drop_bit 6 cp)), char_of (0x80 OR (0x3F AND cp))]
      else if cp \<le> 0xFFFF then
        [char_of (0xE0 OR (0xF AND drop_bit 12 cp)), char_of (0x80 OR (0x3F AND drop_bit 6 cp)), char_of (0x80 OR (0x3F AND cp))]
      else if cp \<le> 0x10FFFF then
        [char_of (0xF0 OR (0x7 AND drop_bit 18 cp)), char_of (0x80 OR (0x3F AND drop_bit 12 cp)),
         char_of (0x80 OR (0x3F AND drop_bit 6 cp)), char_of (0x80 OR (0x3F AND cp))]
      else [])"

definition short_unescape :: "char \<Rightarrow> char option" where
  "short_unescape c = map_of
     [(CHR 0x22, CHR 0x22), (CHR ''/'', CHR ''/''), (CHR 0x5C, CHR 0x5C), (CHR ''b'', CHR 0x08), (CHR ''f'', CHR 0x0C),
      (CHR ''n'', CHR 0x0A), (CHR ''r'', CHR 0x0D), (CHR ''t'', CHR 0x09)] c"

text \<open>\<open>decodeString\<close> on the text between the quotes; \<open>None\<close> is a bad escape.\<close>

lemma decodeUnicodeEscapeSequence_rest:
  "decodeUnicodeEscapeSequence s = Some (u, r) \<Longrightarrow> length r < length s"
  by (induction s rule: decodeUnicodeEscapeSequence.induct) (auto simp: bind_eq_Some_conv)

lemma decodeUnicodeCodePoint_rest: "decodeUnicodeCodePoint s = Some (u, r) \<Longrightarrow> length r < length s"
  by (auto simp: decodeUnicodeCodePoint_def bind_eq_Some_conv dest!: decodeUnicodeEscapeSequence_rest
      split: if_splits list.splits)

function decode_chars :: "string \<Rightarrow> string option" where
  "decode_chars [] = Some []"
| "decode_chars (c # s) =
     (if c = CHR 0x22 then Some []
      else if c = CHR 0x5C then
        (case s of
           [] \<Rightarrow> None
         | e # r \<Rightarrow>
             (case short_unescape e of
                Some d \<Rightarrow> map_option (Cons d) (decode_chars r)
              | None \<Rightarrow>
                  if e = CHR ''u'' then
                    (case decodeUnicodeCodePoint r of
                       None \<Rightarrow> None
                     | Some (unicode, r1) \<Rightarrow> map_option (append (codePointToUTF8 unicode)) (decode_chars r1))
                  else None))
      else map_option (Cons c) (decode_chars s))"
  by pat_completeness auto
termination
  by (relation "measure length") (auto dest!: decodeUnicodeCodePoint_rest)

declare decode_chars.simps(2) [simp del]

text \<open>The text of a string token without its quotes.\<close>

definition decodeString :: "json_token \<Rightarrow> string option" where
  "decodeString t = decode_chars (butlast (tl (text_between (tok_start t) (tok_end t))))"

text \<open>The digits of a number; \<open>None\<close> leaves it to \<open>decodeDouble\<close>.\<close>

fun decode_digits :: "nat \<Rightarrow> nat \<Rightarrow> string \<Rightarrow> nat option" where
  "decode_digits maxIntegerValue v [] = Some v"
| "decode_digits maxIntegerValue v (c # s) =
     (if \<not> is_digit c then None
      else
        (let digit = char_code c - 48; threshold = maxIntegerValue div 10 in
         if v \<ge> threshold \<and> (v > threshold \<or> s \<noteq> [] \<or> digit > maxIntegerValue mod 10) then None
         else decode_digits maxIntegerValue (v * 10 + digit) s))"

text \<open>\<open>decodeNumber\<close>: the value, nothing when it is no number; negating \<open>-2\<^sup>6\<^sup>3\<close> overflows.\<close>

definition decodeNumber :: "(string \<Rightarrow> double option) \<Rightarrow> json_token \<Rightarrow> json option option" where
  "decodeNumber sscanf_double t =
     (let txt = text_between (tok_start t) (tok_end t);
          isNegative = (txt \<noteq> [] \<and> hd txt = CHR ''-'') in
      case decode_digits (if isNegative then 2 ^ 63 else 2 ^ 64 - 1) 0 (if isNegative then tl txt else txt) of
        Some v \<Rightarrow> if isNegative then (if v = 2 ^ 63 then None else Some (Some (JInt (- int v)))) else Some (Some (JInt (int v)))
      | None \<Rightarrow> Some (map_option JReal (sscanf_double txt)))"

section \<open>Values\<close>

definition stackLimit :: nat where
  "stackLimit = 1000"

text \<open>The comments collected before a value are given to it, which throws when they are not comments.\<close>

definition take_comments :: "json_reader \<Rightarrow> json_reader option" where
  "take_comments st =
     (if j_commentsBefore st = [] then Some st
      else do { setComment (j_commentsBefore st); Some (st\<lparr>j_commentsBefore := []\<rparr>) })"

text \<open>
  The tokens of \<open>readValue\<close> that are a value of their own: whether the token can be a value at all,
  whether it was decoded, and what the current value \<open>v\<close> holds then.
\<close>

definition leaf_value :: "(string \<Rightarrow> double option) \<Rightarrow> json_token \<Rightarrow> json \<Rightarrow> (bool \<times> bool \<times> json) option" where
  "leaf_value sc t v =
     (case tok_type t of
        tokenNumber \<Rightarrow>
          do { r \<leftarrow> decodeNumber sc t; Some (case r of None \<Rightarrow> (True, False, v) | Some x \<Rightarrow> (True, True, x)) }
      | tokenString \<Rightarrow> Some (case decodeString t of None \<Rightarrow> (True, False, v) | Some x \<Rightarrow> (True, True, JString x))
      | tokenTrue \<Rightarrow> Some (True, True, JBool True)
      | tokenFalse \<Rightarrow> Some (True, True, JBool False)
      | tokenNull \<Rightarrow> Some (True, True, JNull)
      | _ \<Rightarrow> Some (False, False, v))"

text \<open>What the loops meet: the end of the container, a step to go on with, or an error to recover from.\<close>

datatype 'a step = Finished | Proceed 'a | Recover

text \<open>The loop head of \<open>readObject\<close>: the name of the next member and its colon; \<open>name\<close> is the last one.\<close>

definition member_name :: "string \<Rightarrow> json_reader \<Rightarrow> (string step \<times> json_reader) option" where
  "member_name name st =
     do { (tokenName, st1) \<leftarrow> skipCommentTokens st;
          if tok_type tokenName = tokenObjectEnd \<and> name = [] then Some (Finished, st1)
          else if tok_type tokenName \<noteq> tokenString then Some (Recover, st1)
          else case decodeString tokenName of
            None \<Rightarrow> Some (Recover, st1)
          | Some name1 \<Rightarrow>
              do { (colon, st2) \<leftarrow> readToken st1;
                   if tok_type colon \<noteq> tokenMemberSeparator then Some (Recover, st2)
                   else if length name1 \<ge> 2 ^ 30 then None
                   else Some (Proceed name1, st2) } }"

text \<open>The end of its loop body; behind a comment any token but the end goes on.\<close>

definition member_end :: "json_reader \<Rightarrow> (unit step \<times> json_reader) option" where
  "member_end st =
     do { (comma, st1) \<leftarrow> readToken st;
          if tok_type comma \<notin> {tokenObjectEnd, tokenArraySeparator, tokenComment} then Some (Recover, st1)
          else do { (comma1, st2) \<leftarrow> (if tok_type comma = tokenComment then skipCommentTokens st1 else Some (comma, st1));
                    Some (if tok_type comma1 = tokenObjectEnd then Finished else Proceed (), st2) } }"

definition element_end :: "json_reader \<Rightarrow> (unit step \<times> json_reader) option" where
  "element_end st =
     do { (t, st1) \<leftarrow> skipCommentTokens st;
          Some (if tok_type t = tokenArrayEnd then Finished
                else if tok_type t = tokenArraySeparator then Proceed () else Recover, st1) }"

definition recover_with :: "token_type \<Rightarrow> json \<Rightarrow> json_reader \<Rightarrow> (bool \<times> json \<times> json_reader) option" where
  "recover_with t v st = map_option (\<lambda>st1. (False, v, st1)) (recoverFromError t st)"

definition value_read :: "bool \<times> json \<times> json_reader \<Rightarrow> bool \<times> json \<times> json_reader" where
  "value_read r = (case r of (ok, v, st) \<Rightarrow> (ok, v, st\<lparr>j_lastValueEnd := Some (j_current st)\<rparr>))"

text \<open>
  \<open>read_value n d v st\<close>: \<open>d\<close> is the number of nodes, \<open>v\<close> what the current value holds; the result is
  whether it was read, what it holds then, and the state. \<open>read_members\<close> and \<open>read_elements\<close> are the
  loops of \<open>readObject\<close> (with the last member name) and \<open>readArray\<close>.
\<close>

function read_value :: "(string \<Rightarrow> double option) \<Rightarrow> nat \<Rightarrow> nat \<Rightarrow> json \<Rightarrow> json_reader \<Rightarrow> (bool \<times> json \<times> json_reader) option"
  and read_members :: "(string \<Rightarrow> double option) \<Rightarrow> nat \<Rightarrow> nat \<Rightarrow> (string, json) std_map \<Rightarrow> string \<Rightarrow> json_reader \<Rightarrow>
    (bool \<times> json \<times> json_reader) option"
  and read_elements :: "(string \<Rightarrow> double option) \<Rightarrow> nat \<Rightarrow> nat \<Rightarrow> json list \<Rightarrow> json_reader \<Rightarrow>
    (bool \<times> json \<times> json_reader) option" where
  "read_value sc 0 d v st = Some (False, v, st\<lparr>out_of_fuel := True\<rparr>)"
| "read_value sc (Suc n) d v st =
     (if d > stackLimit then None
      else do { (t, st1) \<leftarrow> skipCommentTokens st;
                st2 \<leftarrow> take_comments st1;
                if tok_type t = tokenObjectBegin then map_option value_read (read_members sc n d [] [] st2)
                else if tok_type t = tokenArrayBegin then
                  (let s = skipSpaces (j_current st2) in
                   if s \<noteq> [] \<and> hd s = CHR '']'' then Some (value_read (True, JArray [], st2\<lparr>j_current := tl s\<rparr>))
                   else map_option value_read (read_elements sc n d [] (st2\<lparr>j_current := s\<rparr>)))
                else do { (known, ok, v1) \<leftarrow> leaf_value sc t v;
                          Some (if known then value_read (ok, v1, st2) else (ok, v1, st2)) } })"
| "read_members sc 0 d m name st = Some (False, JObject m, st\<lparr>out_of_fuel := True\<rparr>)"
| "read_members sc (Suc n) d m name st =
     do { (s, st1) \<leftarrow> member_name name st;
          case s of
            Finished \<Rightarrow> Some (True, JObject m, st1)
          | Recover \<Rightarrow> recover_with tokenObjectEnd (JObject m) st1
          | Proceed name1 \<Rightarrow>
              do { (ok, x, st2) \<leftarrow> read_value sc n (Suc d) (case std_find name1 m of None \<Rightarrow> JNull | Some y \<Rightarrow> y) st1;
                   let m1 = std_assign name1 x m;
                   if \<not> ok then recover_with tokenObjectEnd (JObject m1) st2
                   else do { (e, st3) \<leftarrow> member_end st2;
                             case e of
                               Finished \<Rightarrow> Some (True, JObject m1, st3)
                             | Recover \<Rightarrow> recover_with tokenObjectEnd (JObject m1) st3
                             | Proceed _ \<Rightarrow> read_members sc n d m1 name1 st3 } } }"
| "read_elements sc 0 d xs st = Some (False, JArray xs, st\<lparr>out_of_fuel := True\<rparr>)"
| "read_elements sc (Suc n) d xs st =
     do { (ok, x, st1) \<leftarrow> read_value sc n (Suc d) JNull st;
          let xs1 = xs @ [x];
          if \<not> ok then recover_with tokenArrayEnd (JArray xs1) st1
          else do { (e, st2) \<leftarrow> element_end st1;
                    case e of
                      Finished \<Rightarrow> Some (True, JArray xs1, st2)
                    | Recover \<Rightarrow> recover_with tokenArrayEnd (JArray xs1) st2
                    | Proceed _ \<Rightarrow> read_elements sc n d xs1 st2 } }"
  by pat_completeness auto
termination
  by (relation "measure (\<lambda>x. case x of Inl (sc, n, d, v, st) \<Rightarrow> n
       | Inr (Inl (sc, n, d, m, name, st)) \<Rightarrow> n | Inr (Inr (sc, n, d, xs, st)) \<Rightarrow> n)") auto

text \<open>\<open>parse\<close>: behind the value one more token is read, for its comments.\<close>

definition reader_new :: "string \<Rightarrow> json_reader" where
  "reader_new doc = \<lparr>j_current = doc, j_lastValueEnd = None, j_commentsBefore = [], out_of_fuel = False\<rparr>"

definition reader_parse :: "(string \<Rightarrow> double option) \<Rightarrow> string \<Rightarrow> (bool \<times> json \<times> json_reader) option" where
  "reader_parse sc doc =
     do { (ok, root, st) \<leftarrow> read_value sc (2 * length doc + 1) 1 JNull (reader_new doc);
          (t, st1) \<leftarrow> skipCommentTokens st;
          st2 \<leftarrow> take_comments st1;
          Some (ok, root, st2) }"

text \<open>\<open>khorost::data::parse_json\<close>: whether it was read, and the value.\<close>

definition parse_json :: "(string \<Rightarrow> double option) \<Rightarrow> string \<Rightarrow> (bool \<times> json) option" where
  "parse_json sc doc = map_option (\<lambda>(ok, root, _). (ok, root)) (reader_parse sc doc)"

end
