(* ===== verification/Session.thy ===== *)
theory Session
  imports Json_Reader
begin

text \<open>
  \<open>src/net/session.cpp\<close>, \<open>include/net/session.h\<close>, \<open>src/app/s2h-session.cxx\<close>: the session object of
  a client, the controller that finds, creates, prolongs and drops sessions, and the table of
  sessions it keeps in a SQLite database. Times are seconds since 1970; the clock and the random
  session identifiers are arguments. Sessions are shared
  objects: the controller's dictionary holds pointers into an arena. The statements of
  \<open>session_db\<close> are modelled by what they do to the rows of the table.
\<close>

section \<open>The session object\<close>

record session =
  m_session_id :: string
  m_created :: int
  m_expired :: int
  m_last_activity :: int
  m_count :: int
  m_ips :: "(string, bool) std_map"
  m_stats_update :: bool
  m_bAuthenticate :: bool
  m_idUser :: int
  m_sNickname :: string
  m_sPosition :: string
  m_dRoles :: "(string, unit) std_map"

definition DEFAULT_EXPIRE_MINUTES :: int where
  "DEFAULT_EXPIRE_MINUTES = 30"

text \<open>The default position is a Russian word in UTF-8.\<close>

definition default_position :: string where
  "default_position = [CHR 0xD1, CHR 0x83, CHR 0xD1, CHR 0x87, CHR 0xD0, CHR 0xB0, CHR 0xD1, CHR 0x81,
     CHR 0xD1, CHR 0x82, CHR 0xD0, CHR 0xBD, CHR 0xD0, CHR 0xB8, CHR 0xD0, CHR 0xBA]"

definition base_reset :: "session \<Rightarrow> session" where
  "base_reset s = s\<lparr>m_count := 0, m_stats_update := False\<rparr>"

definition session_reset :: "session \<Rightarrow> session" where
  "session_reset s = (base_reset s)\<lparr>m_bAuthenticate := False, m_idUser := 0, m_sNickname := [],
     m_sPosition := default_position, m_dRoles := []\<rparr>"

definition s2h_session_new :: "string \<Rightarrow> int \<Rightarrow> int \<Rightarrow> session" where
  "s2h_session_new sid created expired = session_reset
     \<lparr>m_session_id = sid, m_created = created, m_expired = expired, m_last_activity = created,
      m_count = 0, m_ips = [], m_stats_update = False, m_bAuthenticate = False, m_idUser = 0,
      m_sNickname = [], m_sPosition = [], m_dRoles = []\<rparr>"

definition set_ip :: "string \<Rightarrow> session \<Rightarrow> session" where
  "set_ip ip s =
     (case std_find ip (m_ips s) of
        Some _ \<Rightarrow> s
      | None \<Rightarrow> s\<lparr>m_ips := std_insert ip False (m_ips s), m_stats_update := True\<rparr>)"

text \<open>\<open>get_ip\<close> lists the addresses not reported yet, and marks them when asked to.\<close>

fun get_ip_loop :: "bool \<Rightarrow> (string, bool) std_map \<Rightarrow> string list \<times> (string, bool) std_map" where
  "get_ip_loop reset [] = ([], [])"
| "get_ip_loop reset ((ip, seen) # m) =
     (let (ips, m1) = get_ip_loop reset m in
      if seen then (ips, (ip, seen) # m1) else (ip # ips, (ip, reset) # m1))"

definition get_ip :: "bool \<Rightarrow> session \<Rightarrow> string list \<times> session" where
  "get_ip reset s = (let (ips, m) = get_ip_loop reset (m_ips s) in (ips, s\<lparr>m_ips := m\<rparr>))"

text \<open>\<open>time_duration::minutes\<close> is the minutes field of the duration, not its length in minutes.\<close>

definition td_minutes :: "int \<Rightarrow> int" where
  "td_minutes td = sgn td * ((\<bar>td\<bar> div 60) mod 60)"

definition td_hours :: "int \<Rightarrow> int" where
  "td_hours td = sgn td * (\<bar>td\<bar> div 3600)"

definition set_last_activity :: "int \<Rightarrow> session \<Rightarrow> session" where
  "set_last_activity v s =
     s\<lparr>m_count := (if td_minutes (v - m_last_activity s) > 20 then m_count s + 1 else m_count s),
       m_last_activity := v, m_stats_update := True\<rparr>"

definition IsStatsUpdate :: "bool \<Rightarrow> session \<Rightarrow> bool \<times> session" where
  "IsStatsUpdate reset s = (m_stats_update s, if reset then s\<lparr>m_stats_update := False\<rparr> else s)"

definition base_expire_shift :: int where
  "base_expire_shift = DEFAULT_EXPIRE_MINUTES * 60"

definition get_expire_shift :: "session \<Rightarrow> int" where
  "get_expire_shift s = (if m_bAuthenticate s then 24 * 14 * 3600 else base_expire_shift)"

definition AppendRole :: "string \<Rightarrow> session \<Rightarrow> session" where
  "AppendRole r s = s\<lparr>m_dRoles := std_insert r () (m_dRoles s)\<rparr>"

definition IsRoleExist :: "string \<Rightarrow> session \<Rightarrow> bool" where
  "IsRoleExist r s \<longleftrightarrow> std_find r (m_dRoles s) \<noteq> None"

subsection \<open>Storing a session as JSON\<close>

fun append_all_json :: "json list \<Rightarrow> json \<Rightarrow> json option" where
  "append_all_json [] v = Some v"
| "append_all_json (x # xs) v = do { v1 \<leftarrow> json_append x v; append_all_json xs v1 }"

definition fill_roles :: "session \<Rightarrow> json \<Rightarrow> json option" where
  "fill_roles s v = append_all_json (map (\<lambda>(r, _). JString r) (m_dRoles s)) v"

definition export_data :: "session \<Rightarrow> json option" where
  "export_data s =
     do { r1 \<leftarrow> json_set ''bAuthenticate'' (JBool (m_bAuthenticate s)) JNull;
          r2 \<leftarrow> json_set ''sNickname'' (JString (m_sNickname s)) r1;
          r3 \<leftarrow> json_set ''sPosition'' (JString (m_sPosition s)) r2;
          r4 \<leftarrow> json_set ''idUser'' (JInt (m_idUser s)) r3;
          roles \<leftarrow> fill_roles s JNull;
          json_set ''Roles'' roles r4 }"

fun insert_roles :: "json list \<Rightarrow> session \<Rightarrow> session option" where
  "insert_roles [] s = Some s"
| "insert_roles (r # rs) s = do { x \<leftarrow> asString r; insert_roles rs (AppendRole x s) }"

text \<open>A conversion may throw, and so may the reader; \<open>sc\<close> is \<open>sscanf\<close> of a double.\<close>

definition import_data :: "(string \<Rightarrow> double option) \<Rightarrow> string \<Rightarrow> session \<Rightarrow> (bool \<times> session) option" where
  "import_data sc data s =
     do { (ok, root) \<leftarrow> parse_json sc data;
          if \<not> ok then Some (False, s)
          else do { let s1 = session_reset s;
                    auth \<leftarrow> json_get ''bAuthenticate'' (JBool False) root \<bind> asBool;
                    nickname \<leftarrow> json_get ''sNickname'' (JString []) root \<bind> asString;
                    position \<leftarrow> json_get ''sPosition'' (JString default_position) root \<bind> asString;
                    user \<leftarrow> json_get ''idUser'' (JString []) root \<bind> asInt;
                    roles \<leftarrow> json_at ''Roles'' root;
                    s2 \<leftarrow> insert_roles (json_items roles)
                      (s1\<lparr>m_bAuthenticate := auth, m_sNickname := nickname, m_sPosition := position, m_idUser := user\<rparr>);
                    Some (True, s2) } }"

section \<open>The table of sessions\<close>

text \<open>
  One row per session identifier, in the order of the table. \<open>INSERT OR REPLACE\<close> removes the row
  with the key and adds the new one; times are cast to \<open>int\<close>.
\<close>

record session_row =
  r_Version :: int
  r_dtCreate :: int
  r_dtUpdate :: int
  r_dtExpire :: int
  r_Data :: string

type_synonym session_table = "(string \<times> session_row) list"

definition upsert_row :: "string \<Rightarrow> session_row \<Rightarrow> session_table \<Rightarrow> session_table" where
  "upsert_row sid row t = std_erase sid t @ [(sid, row)]"

definition db_update_session ::
  "int \<Rightarrow> int \<Rightarrow> session \<Rightarrow> session_table \<Rightarrow> session_table option" where
  "db_update_session now version s t =
     do { data \<leftarrow> export_data s;
          Some (upsert_row (m_session_id s)
            \<lparr>r_Version = version, r_dtCreate = to_int (m_created s), r_dtUpdate = to_int now,
             r_dtExpire = to_int (m_expired s), r_Data = json_string data\<rparr> t) }"

definition db_remove_session :: "session \<Rightarrow> session_table \<Rightarrow> session_table" where
  "db_remove_session s t = std_erase (m_session_id s) t"

definition live_row :: "int \<Rightarrow> int \<Rightarrow> session_row \<Rightarrow> bool" where
  "live_row now version_min r \<longleftrightarrow> \<not> (r_dtExpire r < to_int now \<or> r_Version r < version_min)"

section \<open>The controller\<close>

record session_controller =
  m_session_db :: "session_table"
  m_session_memory :: "(string, nat) std_map"
  m_version_min :: int
  m_version_current :: int
  sc_objects :: "session arena"

type_synonym session_creator = "string \<Rightarrow> int \<Rightarrow> int \<Rightarrow> session"

definition session_controller_new :: "session_controller" where
  "session_controller_new = \<lparr>m_session_db = [], m_session_memory = [], m_version_min = 1,
     m_version_current = 1, sc_objects = []\<rparr>"

definition memory_insert :: "session \<Rightarrow> session_controller \<Rightarrow> nat \<times> session_controller" where
  "memory_insert s c =
     (let (p, objects) = new_object s (sc_objects c)
      in (p, c\<lparr>sc_objects := objects, m_session_memory := std_insert (m_session_id s) p (m_session_memory c)\<rparr>))"

text \<open>\<open>load_sessions\<close>: outdated rows are deleted, the others become objects.\<close>

fun load_rows ::
  "(string \<Rightarrow> double option) \<Rightarrow> session_creator \<Rightarrow> session_table \<Rightarrow> session_controller \<Rightarrow> session_controller option" where
  "load_rows sc creator [] c = Some c"
| "load_rows sc creator ((sid, r) # rows) c =
     do { (_, s) \<leftarrow> import_data sc (r_Data r) (creator sid (r_dtCreate r) (r_dtExpire r));
          load_rows sc creator rows (snd (memory_insert s c)) }"

definition load_sessions ::
  "(string \<Rightarrow> double option) \<Rightarrow> session_creator option \<Rightarrow> int \<Rightarrow> session_controller \<Rightarrow> session_controller option" where
  "load_sessions sc creator now c =
     (let t = filter (\<lambda>(_, r). live_row now (m_version_min c) r) (m_session_db c);
          c1 = c\<lparr>m_session_db := t\<rparr>
      in case creator of None \<Rightarrow> Some c1 | Some cr \<Rightarrow> load_rows sc cr t c1)"

definition session_open ::
  "(string \<Rightarrow> double option) \<Rightarrow> int \<Rightarrow> int \<Rightarrow> session_creator option \<Rightarrow> int \<Rightarrow> session_controller \<Rightarrow> session_controller option" where
  "session_open sc version_min version_current creator now c =
     load_sessions sc creator now
       (c\<lparr>m_version_min := version_min, m_version_current := version_current\<rparr>)"

fun check_alive_loop :: "int \<Rightarrow> (string, nat) std_map \<Rightarrow> session_controller \<Rightarrow> session_controller option" where
  "check_alive_loop now [] c = Some c"
| "check_alive_loop now ((sid, p) # m) c =
     do { s \<leftarrow> deref p (sc_objects c);
          check_alive_loop now m
            (if m_expired s < now
             then c\<lparr>m_session_db := db_remove_session s (m_session_db c),
                    m_session_memory := std_erase sid (m_session_memory c)\<rparr>
             else c) }"

definition check_alive_sessions :: "int \<Rightarrow> session_controller \<Rightarrow> session_controller option" where
  "check_alive_sessions now c = check_alive_loop now (m_session_memory c) c"

fun active_stats_loop :: "(string, nat) std_map \<Rightarrow> session arena \<Rightarrow> (nat list \<times> session arena) option" where
  "active_stats_loop [] h = Some ([], h)"
| "active_stats_loop ((sid, p) # m) h =
     do { s \<leftarrow> deref p h;
          let (update, s1) = IsStatsUpdate True s;
          (ps, h2) \<leftarrow> active_stats_loop m (modify p (\<lambda>_. s1) h);
          Some (if update then p # ps else ps, h2) }"

definition get_active_sessions_stats ::
  "nat list \<Rightarrow> session_controller \<Rightarrow> (bool \<times> nat list \<times> session_controller) option" where
  "get_active_sessions_stats ps c =
     do { (qs, h) \<leftarrow> active_stats_loop (m_session_memory c) (sc_objects c);
          Some (ps @ qs \<noteq> [], ps @ qs, c\<lparr>sc_objects := h\<rparr>) }"

definition find_session :: "string \<Rightarrow> session_controller \<Rightarrow> nat option" where
  "find_session sid c = std_find sid (m_session_memory c)"

text \<open>\<open>created\<close> is written only where the source writes it; \<open>uid\<close> is what \<open>generate_session_id\<close> gives.\<close>

definition new_session ::
  "session_creator option \<Rightarrow> int \<Rightarrow> string \<Rightarrow> bool \<Rightarrow> session_controller \<Rightarrow>
   (nat option \<times> bool \<times> session_controller) option" where
  "new_session creator now uid created c =
     (case creator of
        None \<Rightarrow> Some (None, created, c)
      | Some cr \<Rightarrow>
          do { let s = (cr uid now (now + DEFAULT_EXPIRE_MINUTES * 60))\<lparr>m_count := 1\<rparr>;
               let (p, c1) = memory_insert s c;
               t \<leftarrow> db_update_session now (m_version_current c1) s (m_session_db c1);
               Some (Some p, True, c1\<lparr>m_session_db := t\<rparr>) })"

definition get_session ::
  "session_creator option \<Rightarrow> int \<Rightarrow> string \<Rightarrow> string \<Rightarrow> bool \<Rightarrow> session_controller \<Rightarrow>
   (nat option \<times> bool \<times> session_controller) option" where
  "get_session creator now uid sid created c =
     (case std_find sid (m_session_memory c) of
        None \<Rightarrow> new_session creator now uid created c
      | Some p \<Rightarrow>
          do { s \<leftarrow> deref p (sc_objects c);
               if m_expired s > now
               then Some (Some p, False,
                      c\<lparr>sc_objects := modify p (\<lambda>s. s\<lparr>m_expired := now + get_expire_shift s\<rparr>) (sc_objects c)\<rparr>)
               else new_session creator now uid created
                      (c\<lparr>m_session_memory := std_erase sid (m_session_memory c),
                         m_session_db := db_remove_session s (m_session_db c)\<rparr>) })"

definition update_session ::
  "int \<Rightarrow> nat \<Rightarrow> session_controller \<Rightarrow> session_controller option" where
  "update_session now p c =
     do { s \<leftarrow> deref p (sc_objects c);
          t \<leftarrow> db_update_session now (m_version_current c) s (m_session_db c);
          Some (c\<lparr>m_session_db := t\<rparr>) }"

definition remove_session :: "nat \<Rightarrow> session_controller \<Rightarrow> session_controller option" where
  "remove_session p c =
     do { s \<leftarrow> deref p (sc_objects c);
          Some (c\<lparr>m_session_db := db_remove_session s (m_session_db c),
                  m_session_memory := std_erase (m_session_id s) (m_session_memory c)\<rparr>) }"

text \<open>A method of a session object called through its pointer.\<close>

definition on_session :: "(session \<Rightarrow> session) \<Rightarrow> nat \<Rightarrow> session_controller \<Rightarrow> session_controller option" where
  "on_session f p c =
     (if p < length (sc_objects c) then Some (c\<lparr>sc_objects := modify p f (sc_objects c)\<rparr>) else None)"

text \<open>The creator the server hands in (\<open>server2_hb::get_session_creator\<close>).\<close>

definition get_session_creator :: "session_creator option" where
  "get_session_creator = Some s2h_session_new"

end
