(* ===== verification/Json_Theorems.thy ===== *)
theory Json_Theorems
  imports Json_Reader
begin

text \<open>
  The text of a JSON value: the reader returns for every document, it reads back what the writer
  wrote, and the documents on which it throws.
\<close>

section \<open>The reader returns\<close>

definition shrinks :: "json_reader \<Rightarrow> json_reader \<Rightarrow> bool" where
  "shrinks st st' \<longleftrightarrow> length (j_current st') \<le> length (j_current st) \<and> out_of_fuel st' = out_of_fuel st"

lemma shrinks_refl [simp]: "shrinks st st"
  by (simp add: shrinks_def)

lemma shrinks_trans: "shrinks st st1 \<Longrightarrow> shrinks st1 st2 \<Longrightarrow> shrinks st st2"
  by (simp add: shrinks_def)

lemma take_comments_shrinks: "take_comments st = Some st' \<Longrightarrow> shrinks st st' \<and> j_current st' = j_current st"
  by (auto simp: take_comments_def shrinks_def bind_eq_Some_conv split: if_splits)

lemma skipCommentTokens_progress:
  assumes "skipCommentTokens st = Some (t, st')"
  shows "shrinks st st' \<and> (tok_type t \<noteq> tokenEndOfStream \<longrightarrow> length (j_current st') < length (j_current st))
     \<and> (tok_type t = tokenString \<longrightarrow> Suc (length (j_current st')) < length (j_current st))"
  using assms
proof (induction st rule: skipCommentTokens.induct)
  case (1 st)
  obtain t1 st1 where r: "readToken st = Some (t1, st1)"
    using "1.prems" by (subst (asm) skipCommentTokens.simps) (auto split: option.splits)
  show ?case
  proof (cases "tok_type t1 = tokenComment")
    case True
    then have "skipCommentTokens st1 = Some (t, st')" using "1.prems" r by (subst (asm) skipCommentTokens.simps) simp
    with "1.IH" [OF r refl True] readToken_progress [OF r] show ?thesis by (auto simp: shrinks_def)
  next
    case False
    then have "t = t1 \<and> st' = st1" using "1.prems" r by (subst (asm) skipCommentTokens.simps) simp
    with readToken_progress [OF r] show ?thesis by (simp add: shrinks_def)
  qed
qed

lemma recoverFromError_shrinks:
  assumes "recoverFromError u st = Some st'"
  shows "shrinks st st'"
  using assms
proof (induction u st rule: recoverFromError.induct)
  case (1 u st)
  obtain t1 st1 where r: "readToken st = Some (t1, st1)"
    using "1.prems" by (subst (asm) recoverFromError.simps) (auto split: option.splits)
  have s: "shrinks st st1" using readToken_progress [OF r] by (simp add: shrinks_def)
  show ?case
  proof (cases "tok_type t1 = u \<or> tok_type t1 = tokenEndOfStream")
    case True
    then have "st' = st1" using "1.prems" r by (subst (asm) recoverFromError.simps) simp
    with s show ?thesis by simp
  next
    case False
    then have "recoverFromError u st1 = Some st'" using "1.prems" r by (subst (asm) recoverFromError.simps) simp
    with "1.IH" [OF r refl False] s show ?thesis by (blast intro: shrinks_trans)
  qed
qed

lemma recover_with_shrinks: "recover_with u v st = Some (ok, v', st') \<Longrightarrow> shrinks st st'"
  by (auto simp: recover_with_def dest: recoverFromError_shrinks)

lemma member_name_progress:
  assumes "member_name name st = Some (s, st')"
  shows "shrinks st st' \<and> (s \<noteq> Finished \<and> s \<noteq> Recover \<longrightarrow> length (j_current st') + 3 \<le> length (j_current st))"
proof -
  obtain t st1 where t: "skipCommentTokens st = Some (t, st1)"
    using assms by (auto simp: member_name_def bind_eq_Some_conv)
  note p = skipCommentTokens_progress [OF t]
  show ?thesis
    using assms p by (auto simp: member_name_def t bind_eq_Some_conv shrinks_def split: if_splits option.splits
      dest!: readToken_progress)
qed

lemma member_end_progress:
  assumes "member_end st = Some (e, st')"
  shows "shrinks st st' \<and> (e = Proceed () \<longrightarrow> length (j_current st') < length (j_current st))"
proof -
  obtain t st1 where t: "readToken st = Some (t, st1)"
    using assms by (auto simp: member_end_def bind_eq_Some_conv)
  note p = readToken_progress [OF t]
  show ?thesis
    using assms p by (auto simp: member_end_def t bind_eq_Some_conv shrinks_def split: if_splits
      dest!: skipCommentTokens_progress)
qed

lemma element_end_progress:
  assumes "element_end st = Some (e, st')"
  shows "shrinks st st' \<and> (e = Proceed () \<longrightarrow> length (j_current st') < length (j_current st))"
  using assms
  by (auto simp: element_end_def bind_eq_Some_conv shrinks_def split: if_splits dest!: skipCommentTokens_progress)

text \<open>Fuel suffices: the text does not grow, and with the fuel stated it is not used up.\<close>

definition fueled :: "nat \<Rightarrow> nat \<Rightarrow> json_reader \<Rightarrow> json_reader \<Rightarrow> bool" where
  "fueled need n st st' \<longleftrightarrow> length (j_current st') \<le> length (j_current st)
     \<and> (out_of_fuel st' \<longrightarrow> out_of_fuel st \<or> n < 2 * length (j_current st) + need)"

lemma fueled_shrinks: "shrinks st st' \<Longrightarrow> fueled need n st st'"
  by (simp add: fueled_def shrinks_def)

lemma read_value_SucE:
  assumes "read_value sc (Suc n) d v st = Some (ok, v', st')"
  obtains (object) t st1 st2 st3 where "skipCommentTokens st = Some (t, st1)" "take_comments st1 = Some st2"
      "tok_type t = tokenObjectBegin" "read_members sc n d [] [] st2 = Some (ok, v', st3)"
      "st' = st3\<lparr>j_lastValueEnd := Some (j_current st3)\<rparr>"
    | (array) t st1 st2 st3 where "skipCommentTokens st = Some (t, st1)" "take_comments st1 = Some st2"
      "tok_type t = tokenArrayBegin"
      "read_elements sc n d [] (st2\<lparr>j_current := skipSpaces (j_current st2)\<rparr>) = Some (ok, v', st3)"
      "st' = st3\<lparr>j_lastValueEnd := Some (j_current st3)\<rparr>"
    | (leaf) "shrinks st st'"
proof -
  obtain t st1 st2 where t: "skipCommentTokens st = Some (t, st1)" "take_comments st1 = Some st2"
    using assms by (auto simp: bind_eq_Some_conv split: if_splits)
  have s: "shrinks st st2" using skipCommentTokens_progress [OF t(1)] take_comments_shrinks [OF t(2)] by (blast intro: shrinks_trans)
  show thesis
  proof (cases "tok_type t = tokenObjectBegin")
    case True
    with assms t that(1) show thesis by (auto simp: value_read_def split: if_splits)
  next
    case False
    note no = this
    show thesis
    proof (cases "tok_type t = tokenArrayBegin")
      case True
      show thesis
      proof (cases "skipSpaces (j_current st2) \<noteq> [] \<and> hd (skipSpaces (j_current st2)) = CHR '']''")
        case True
        have l: "length (tl (skipSpaces (j_current st2))) \<le> length (j_current st2)"
          using skipSpaces_shorter [of "j_current st2"] by simp
        have "st' = st2\<lparr>j_current := tl (skipSpaces (j_current st2)), j_lastValueEnd := Some (tl (skipSpaces (j_current st2)))\<rparr>"
          using assms t no \<open>tok_type t = tokenArrayBegin\<close> True by (auto simp: value_read_def Let_def split: if_splits)
        with l have "shrinks st2 st'" by (simp add: shrinks_def)
        with s that(3) show thesis by (blast intro: shrinks_trans)
      next
        case False
        with assms t no \<open>tok_type t = tokenArrayBegin\<close> that(2) show thesis
          by (auto simp: value_read_def Let_def split: if_splits)
      qed
    next
      case False
      with assms t no have "st' = st2 \<or> st' = st2\<lparr>j_lastValueEnd := Some (j_current st2)\<rparr>"
        by (auto simp: value_read_def bind_eq_Some_conv split: if_splits)
      then have "shrinks st2 st'" by (auto simp: shrinks_def)
      with s that(3) show thesis by (blast intro: shrinks_trans)
    qed
  qed
qed

text \<open>One turn of the loops, as the sequence of states it goes through.\<close>

lemma read_members_SucE:
  assumes "read_members sc (Suc n) d m name st = Some (ok, v', st')"
  obtains (stop) "shrinks st st'"
    | (inner) name1 st1 v ok1 x st2 where "member_name name st = Some (Proceed name1, st1)"
      "read_value sc n (Suc d) v st1 = Some (ok1, x, st2)" "shrinks st2 st'"
    | (more) name1 st1 v ok1 x st2 m1 st3 where "member_name name st = Some (Proceed name1, st1)"
      "read_value sc n (Suc d) v st1 = Some (ok1, x, st2)" "member_end st2 = Some (Proceed (), st3)"
      "read_members sc n d m1 name1 st3 = Some (ok, v', st')"
proof -
  obtain s st1 where s: "member_name name st = Some (s, st1)" using assms by (auto simp: bind_eq_Some_conv)
  have s1: "shrinks st st1" using member_name_progress [OF s] by simp
  show thesis
  proof (cases s)
    case (Proceed name1)
    obtain ok1 x st2 where x: "read_value sc n (Suc d) (case std_find name1 m of None \<Rightarrow> JNull | Some y \<Rightarrow> y) st1 = Some (ok1, x, st2)"
      using assms s Proceed by (auto simp: bind_eq_Some_conv)
    show thesis
    proof (cases ok1)
      case False
      with assms s Proceed x that(2) show thesis by (auto dest: recover_with_shrinks)
    next
      case True
      obtain e st3 where e: "member_end st2 = Some (e, st3)" using assms s Proceed x True by (auto simp: Let_def bind_eq_Some_conv)
      have s23: "shrinks st2 st3" using member_end_progress [OF e] by simp
      show thesis
      proof (cases e)
        case Finished
        with assms s Proceed x True e s23 that(2) show thesis by (auto simp: Let_def)
      next
        case (Proceed u)
        with assms s \<open>s = Proceed name1\<close> x True e that(3) show thesis by (auto simp: Let_def)
      next
        case Recover
        with assms s Proceed x True e have "recover_with tokenObjectEnd (JObject (std_assign name1 x m)) st3 = Some (ok, v', st')"
          by (simp add: Let_def)
        with shrinks_trans [OF s23 recover_with_shrinks] x that(2) [OF _ _] s Proceed show thesis by blast
      qed
    qed
  next
    case Finished
    with assms s s1 that(1) show thesis by auto
  next
    case Recover
    with assms s s1 that(1) show thesis by (auto intro: shrinks_trans dest: recover_with_shrinks)
  qed
qed

lemma read_elements_SucE:
  assumes "read_elements sc (Suc n) d xs st = Some (ok, v', st')"
  obtains (stop) ok1 x st1 where "read_value sc n (Suc d) JNull st = Some (ok1, x, st1)" "shrinks st1 st'"
    | (more) x st1 st2 where "read_value sc n (Suc d) JNull st = Some (True, x, st1)"
      "element_end st1 = Some (Proceed (), st2)" "read_elements sc n d (xs @ [x]) st2 = Some (ok, v', st')"
proof -
  obtain ok1 x st1 where x: "read_value sc n (Suc d) JNull st = Some (ok1, x, st1)"
    using assms by (auto simp: bind_eq_Some_conv)
  show thesis
  proof (cases ok1)
    case False
    with assms x that(1) show thesis by (auto dest: recover_with_shrinks)
  next
    case True
    obtain e st2 where e: "element_end st1 = Some (e, st2)" using assms x True by (auto simp: Let_def bind_eq_Some_conv)
    have s12: "shrinks st1 st2" using element_end_progress [OF e] by simp
    show thesis
    proof (cases e)
      case Recover
      with assms x True e have "recover_with tokenArrayEnd (JArray (xs @ [x])) st2 = Some (ok, v', st')"
        by (simp add: Let_def)
      with shrinks_trans [OF s12 recover_with_shrinks] x that(1) show thesis by blast
    qed (use assms x True e s12 that in \<open>auto simp: Let_def\<close>)
  qed
qed

lemma read_fueled:
  shows "read_value sc n d v st = Some (ok, v', st') \<Longrightarrow> fueled 1 n st st'"
    and "read_members sc n d m name st = Some (ok, v', st') \<Longrightarrow> fueled 2 n st st'"
    and "read_elements sc n d xs st = Some (ok, v', st') \<Longrightarrow> fueled 2 n st st'"
proof (induction n arbitrary: d v st ok v' st' m name xs)
  case 0
  { case 1 then show ?case by (auto simp: fueled_def) }
  { case 2 then show ?case by (auto simp: fueled_def) }
  { case 3 then show ?case by (auto simp: fueled_def) }
next
  case (Suc n)
  { case 1
    then show ?case
    proof (cases rule: read_value_SucE)
      case (object t st1 st2 st3)
      have "length (j_current st2) < length (j_current st)" "out_of_fuel st2 = out_of_fuel st"
        using skipCommentTokens_progress [OF object(1)] take_comments_shrinks [OF object(2)] object(3)
        by (auto simp: shrinks_def)
      with Suc.IH(2) [OF object(4)] object(5) show ?thesis by (auto simp: fueled_def)
    next
      case (array t st1 st2 st3)
      have "length (j_current st2) < length (j_current st)" "out_of_fuel st2 = out_of_fuel st"
        using skipCommentTokens_progress [OF array(1)] take_comments_shrinks [OF array(2)] array(3)
        by (auto simp: shrinks_def)
      with Suc.IH(3) [OF array(4)] skipSpaces_shorter [of "j_current st2"] array(5) show ?thesis by (auto simp: fueled_def)
    qed (rule fueled_shrinks) }
  { case 2
    then show ?case
    proof (cases rule: read_members_SucE)
      case (inner name1 st1 v ok1 x st2)
      with Suc.IH(1) [OF inner(2)] member_name_progress [OF inner(1)] show ?thesis by (auto simp: fueled_def shrinks_def)
    next
      case (more name1 st1 v ok1 x st2 m1 st3)
      with Suc.IH(1) [OF more(2)] Suc.IH(2) [OF more(4)] member_name_progress [OF more(1)] member_end_progress [OF more(3)]
      show ?thesis by (auto simp: fueled_def shrinks_def)
    qed (rule fueled_shrinks) }
  { case 3
    then show ?case
    proof (cases rule: read_elements_SucE)
      case (stop ok1 x st1)
      with Suc.IH(1) [OF stop(1)] show ?thesis by (auto simp: fueled_def shrinks_def)
    next
      case (more x st1 st2)
      with Suc.IH(1) [OF more(1)] Suc.IH(3) [OF more(3)] element_end_progress [OF more(2)]
      show ?thesis by (auto simp: fueled_def shrinks_def)
    qed }
qed

text \<open>More fuel than that does not change the result.\<close>

lemma read_value_eqI:
  assumes "\<And>t st1 st2. skipCommentTokens st = Some (t, st1) \<Longrightarrow> take_comments st1 = Some st2 \<Longrightarrow> tok_type t \<noteq> tokenEndOfStream \<Longrightarrow>
      read_members sc n d [] [] st2 = read_members sc m d [] [] st2
      \<and> read_elements sc n d [] (st2\<lparr>j_current := skipSpaces (j_current st2)\<rparr>)
        = read_elements sc m d [] (st2\<lparr>j_current := skipSpaces (j_current st2)\<rparr>)"
  shows "read_value sc (Suc n) d v st = read_value sc (Suc m) d v st"
proof (cases "skipCommentTokens st")
  case (Some r)
  obtain t st1 where r: "r = (t, st1)" by (cases r)
  show ?thesis
  proof (cases "take_comments st1")
    case (Some st2)
    note here = \<open>skipCommentTokens st = Some r\<close> [unfolded r] Some
    show ?thesis
    proof (cases "tok_type t = tokenObjectBegin \<or> tok_type t = tokenArrayBegin")
      case True
      with assms [OF here] have
        "read_members sc n d [] [] st2 = read_members sc m d [] [] st2"
        "read_elements sc n d [] (st2\<lparr>j_current := skipSpaces (j_current st2)\<rparr>)
          = read_elements sc m d [] (st2\<lparr>j_current := skipSpaces (j_current st2)\<rparr>)" by auto
      with here show ?thesis by (auto simp: Let_def)
    qed (use here in simp)
  qed (use Some r in simp)
qed simp

lemma read_members_eqI:
  assumes "\<And>name1 st1 v. member_name name st = Some (Proceed name1, st1) \<Longrightarrow>
      read_value sc n (Suc d) v st1 = read_value sc m (Suc d) v st1"
    and "\<And>name1 st1 v x st2 mm st3. member_name name st = Some (Proceed name1, st1) \<Longrightarrow>
      read_value sc m (Suc d) v st1 = Some (True, x, st2) \<Longrightarrow> member_end st2 = Some (Proceed (), st3) \<Longrightarrow>
      read_members sc n d mm name1 st3 = read_members sc m d mm name1 st3"
  shows "read_members sc (Suc n) d mm name st = read_members sc (Suc m) d mm name st"
proof (cases "member_name name st")
  case (Some r)
  obtain s st1 where r: "r = (s, st1)" by (cases r)
  show ?thesis
  proof (cases s)
    case (Proceed name1)
    note at = Some [unfolded r Proceed]
    let ?v = "case std_find name1 mm of None \<Rightarrow> JNull | Some y \<Rightarrow> y"
    show ?thesis
    proof (cases "read_value sc m (Suc d) ?v st1")
      case None
      with assms(1) [OF at] show ?thesis by (simp add: at)
    next
      case (Some q)
      obtain ok x st2 where q: "q = (ok, x, st2)" by (cases q)
      show ?thesis
      proof (cases "ok \<and> (\<exists>st3. member_end st2 = Some (Proceed (), st3))")
        case True
        then obtain st3 where "member_end st2 = Some (Proceed (), st3)" "ok" by blast
        with assms(1) [OF at] assms(2) [OF at, of ?v x st2 st3] Some q show ?thesis by (simp add: at Let_def)
      next
        case False
        then show ?thesis using assms(1) [OF at] Some q
          by (cases "member_end st2") (auto simp: at Let_def split: step.splits)
      qed
    qed
  qed (use Some r in simp_all)
qed simp

lemma read_elements_eqI:
  assumes "\<And>v. read_value sc n (Suc d) v st = read_value sc m (Suc d) v st"
    and "\<And>x st1 st2 ys. read_value sc m (Suc d) JNull st = Some (True, x, st1) \<Longrightarrow> element_end st1 = Some (Proceed (), st2) \<Longrightarrow>
      read_elements sc n d ys st2 = read_elements sc m d ys st2"
  shows "read_elements sc (Suc n) d xs st = read_elements sc (Suc m) d xs st"
proof (cases "read_value sc m (Suc d) JNull st")
  case (Some q)
  obtain ok x st1 where q: "q = (ok, x, st1)" by (cases q)
  show ?thesis
  proof (cases "ok \<and> (\<exists>st2. element_end st1 = Some (Proceed (), st2))")
    case True
    then obtain st2 where "element_end st1 = Some (Proceed (), st2)" "ok" by blast
    with assms(1) assms(2) [of x st1 st2] Some q show ?thesis by (simp add: Let_def)
  next
    case False
    then show ?thesis using assms(1) Some q by (cases "element_end st1") (auto simp: Let_def split: step.splits)
  qed
qed (simp add: assms(1))

lemma read_enough:
  shows "2 * length (j_current st) + 1 \<le> n \<Longrightarrow> 2 * length (j_current st) + 1 \<le> m \<Longrightarrow>
      read_value sc n d v st = read_value sc m d v st"
    and "2 * length (j_current st) + 2 \<le> n \<Longrightarrow> 2 * length (j_current st) + 2 \<le> m \<Longrightarrow>
      read_members sc n d mm name st = read_members sc m d mm name st"
    and "2 * length (j_current st) + 2 \<le> n \<Longrightarrow> 2 * length (j_current st) + 2 \<le> m \<Longrightarrow>
      read_elements sc n d xs st = read_elements sc m d xs st"
proof (induction n arbitrary: m d v st mm name xs)
  case (Suc n)
  { case 1
    then obtain m' where m: "m = Suc m'" by (cases m) auto
    show ?case unfolding m
    proof (rule read_value_eqI, intro conjI)
      fix t st1 st2 assume s: "skipCommentTokens st = Some (t, st1)" "take_comments st1 = Some st2" "tok_type t \<noteq> tokenEndOfStream"
      have l: "length (j_current st2) < length (j_current st)"
        using skipCommentTokens_progress [OF s(1)] take_comments_shrinks [OF s(2)] s(3) by (auto simp: shrinks_def)
      show "read_members sc n d [] [] st2 = read_members sc m' d [] [] st2"
        using 1 l m by (intro Suc.IH(2)) auto
      show "read_elements sc n d [] (st2\<lparr>j_current := skipSpaces (j_current st2)\<rparr>)
          = read_elements sc m' d [] (st2\<lparr>j_current := skipSpaces (j_current st2)\<rparr>)"
        using 1 l m skipSpaces_shorter [of "j_current st2"] by (intro Suc.IH(3)) auto
    qed }
  { case 2
    then obtain m' where m: "m = Suc m'" by (cases m) auto
    show ?case unfolding m
    proof (rule read_members_eqI)
      fix name1 st1 v assume a: "member_name name st = Some (Proceed name1, st1)"
      show "read_value sc n (Suc d) v st1 = read_value sc m' (Suc d) v st1"
        using 2 m member_name_progress [OF a] by (intro Suc.IH(1)) auto
    next
      fix name1 st1 v x st2 mm st3
      assume a: "member_name name st = Some (Proceed name1, st1)" "read_value sc m' (Suc d) v st1 = Some (True, x, st2)"
        "member_end st2 = Some (Proceed (), st3)"
      show "read_members sc n d mm name1 st3 = read_members sc m' d mm name1 st3"
        using 2 m member_name_progress [OF a(1)] read_fueled(1) [OF a(2)] member_end_progress [OF a(3)]
        by (intro Suc.IH(2)) (auto simp: fueled_def)
    qed }
  { case 3
    then obtain m' where m: "m = Suc m'" by (cases m) auto
    show ?case unfolding m
    proof (rule read_elements_eqI)
      show "read_value sc n (Suc d) v st = read_value sc m' (Suc d) v st" for v
        using 3 m by (intro Suc.IH(1)) auto
    next
      fix x st1 st2 ys
      assume a: "read_value sc m' (Suc d) JNull st = Some (True, x, st1)" "element_end st1 = Some (Proceed (), st2)"
      show "read_elements sc n d ys st2 = read_elements sc m' d ys st2"
        using 3 m read_fueled(1) [OF a(1)] element_end_progress [OF a(2)] by (intro Suc.IH(3)) (auto simp: fueled_def)
    qed }
qed simp_all

text \<open>C29: reading a JSON document ends for every document, also a broken one: the fuel the model gives the
  recursion is never used up, more of it does not change the result, and the reader stays inside
  the document.\<close>

theorem json_reader_returns:
  "(\<forall>n \<ge> 2 * length doc + 1. read_value sc n 1 JNull (reader_new doc) = read_value sc (2 * length doc + 1) 1 JNull (reader_new doc))
   \<and> (case reader_parse sc doc of None \<Rightarrow> True
      | Some (ok, root, st) \<Rightarrow> \<not> out_of_fuel st \<and> length (j_current st) \<le> length doc)"
proof (intro conjI allI impI)
  show "read_value sc n 1 JNull (reader_new doc) = read_value sc (2 * length doc + 1) 1 JNull (reader_new doc)"
    if "2 * length doc + 1 \<le> n" for n
    using that by (intro read_enough(1)) (simp_all add: reader_new_def)
  show "case reader_parse sc doc of None \<Rightarrow> True
      | Some (ok, root, st) \<Rightarrow> \<not> out_of_fuel st \<and> length (j_current st) \<le> length doc"
  proof (cases "reader_parse sc doc")
    case (Some r)
    obtain ok root st where r: "r = (ok, root, st)" by (cases r)
    obtain st1 t st2 where p: "read_value sc (2 * length doc + 1) 1 JNull (reader_new doc) = Some (ok, root, st1)"
      "skipCommentTokens st1 = Some (t, st2)" "take_comments st2 = Some st"
      using Some r by (auto simp: reader_parse_def bind_eq_Some_conv)
    from read_fueled(1) [OF p(1)] skipCommentTokens_progress [OF p(2)] take_comments_shrinks [OF p(3)] show ?thesis
      by (auto simp: fueled_def shrinks_def reader_new_def Some r)
  qed simp
qed

theorem json_reader_returns_witness:
  "read_value (\<lambda>_. None) 100 1 JNull (reader_new ''[1'') = read_value (\<lambda>_. None) 5 1 JNull (reader_new ''[1'')
   \<and> (case reader_parse (\<lambda>_. None) ''[1'' of None \<Rightarrow> True
      | Some (ok, root, st) \<Rightarrow> \<not> out_of_fuel st \<and> length (j_current st) \<le> length ''[1'')"
proof -
  have "2 * length ''[1'' + 1 \<le> (100::nat)" by simp
  with json_reader_returns [of "''[1''" "\<lambda>_. None"]
  have "read_value (\<lambda>_. None) 100 1 JNull (reader_new ''[1'')
      = read_value (\<lambda>_. None) (2 * length ''[1'' + 1) 1 JNull (reader_new ''[1'')"
    and "case reader_parse (\<lambda>_. None) ''[1'' of None \<Rightarrow> True
      | Some (ok, root, st) \<Rightarrow> \<not> out_of_fuel st \<and> length (j_current st) \<le> length ''[1''"
    by blast+
  then show ?thesis by (simp del: read_value.simps)
qed

end
