(* ===== verification/Json_Roundtrip.thy ===== *)
theory Json_Roundtrip
  imports Json_Theorems
begin

text \<open>
  The reader on the output of the writer: strings come back as valid UTF-8, every value as itself
  but for the characters of its strings that are not.
\<close>

section \<open>Bits\<close>

lemma and_mask_mod: "(x::nat) AND 0x7 = x mod 8" "x AND 0xF = x mod 16" "x AND 0x1F = x mod 32" "x AND 0x3FF = x mod 1024"
  using take_bit_eq_mask [of 3 x] take_bit_eq_mask [of 4 x] take_bit_eq_mask [of 5 x] take_bit_eq_mask [of 10 x]
  by (simp_all add: mask_eq_exp_minus_1 take_bit_eq_mod)

lemma mask_and_mod: "0x7 AND (x::nat) = x mod 8" "0xF AND x = x mod 16" "0x1F AND x = x mod 32" "0x3F AND x = x mod 64"
  using and_mask_mod [of x] and_low_bits [of x] by (simp_all add: and.commute)

lemma push_or:
  assumes "(y::nat) < 2 ^ n"
  shows "push_bit n x OR y = 2 ^ n * x + y"
proof -
  have "take_bit n y = y" using assms by (simp add: take_bit_nat_eq_self)
  then have "\<not> bit y k" if "n \<le> k" for k using that by (metis bit_take_bit_iff not_le)
  then have "push_bit n x + y = push_bit n x OR y"
    by (intro disjunctive_add) (auto simp: bit_push_bit_iff)
  then show ?thesis by (simp add: push_bit_eq_mult mult.commute)
qed

lemma lead_or: "x < 32 \<Longrightarrow> 0xC0 OR x = 0xC0 + (x::nat)" "x < 16 \<Longrightarrow> 0xE0 OR x = 0xE0 + x" "x < 8 \<Longrightarrow> 0xF0 OR x = 0xF0 + x"
  using start_two start_three start_four by blast+

lemma char_code_of [simp]: "n < 256 \<Longrightarrow> char_code (char_of n) = n"
  by (simp add: char_code_def)

lemma char_of_code [simp]: "char_of (char_code c) = c"
  by (simp add: char_code_def)

lemma char_code_less: "char_code c < 256"
  by (simp add: char_code_def)

section \<open>UTF-8 in the writer\<close>

lemma codePointToUTF8_eq:
  "cp < 0x80 \<Longrightarrow> codePointToUTF8 cp = [char_of cp]"
  "0x80 \<le> cp \<Longrightarrow> cp < 0x800 \<Longrightarrow> codePointToUTF8 cp = [char_of (0xC0 + cp div 64), char_of (0x80 + cp mod 64)]"
  "0x800 \<le> cp \<Longrightarrow> cp < 0x10000 \<Longrightarrow>
     codePointToUTF8 cp = [char_of (0xE0 + cp div 4096), char_of (0x80 + cp div 64 mod 64), char_of (0x80 + cp mod 64)]"
  "0x10000 \<le> cp \<Longrightarrow> cp < 0x110000 \<Longrightarrow>
     codePointToUTF8 cp = [char_of (0xF0 + cp div 262144), char_of (0x80 + cp div 4096 mod 64),
       char_of (0x80 + cp div 64 mod 64), char_of (0x80 + cp mod 64)]"
  using cont_bits [of "cp mod 64"] cont_bits [of "cp div 64 mod 64"] cont_bits [of "cp div 4096 mod 64"]
    lead_or(1) [of "cp div 64"] lead_or(2) [of "cp div 4096"] lead_or(3) [of "cp div 262144"]
  by (simp_all add: codePointToUTF8_def mask_and_mod drop_bit_eq_div)

lemma cont_bits6_of: "y < 64 \<Longrightarrow> cont_bits6 (char_of (0x80 + y)) = y"
proof -
  assume y: "y < 64"
  have "(0x80 + y) mod 64 = y" using y mod_mult_self1 [of y 2 64] by (simp add: add.commute)
  with y show ?thesis by (simp add: cont_bits6_def and_low_bits)
qed

definition scalar :: "nat \<Rightarrow> bool" where
  "scalar cp \<longleftrightarrow> cp < 0x110000 \<and> \<not> (0xD800 \<le> cp \<and> cp \<le> 0xDFFF)"

lemma lead_bits: "x < 32 \<Longrightarrow> (0xC0 + x) AND 0x1F = (x::nat)" "x < 16 \<Longrightarrow> (0xE0 + x) AND 0xF = x" "x < 8 \<Longrightarrow> (0xF0 + x) AND 0x7 = x"
  using mod_mult_self1 [of x 6 32] mod_mult_self1 [of x 14 16] mod_mult_self1 [of x 30 8]
  by (simp_all add: and_mask_mod add.commute)

lemma div_64: "x div 4096 = x div 64 div (64::nat)" "x div 262144 = x div 64 div 64 div (64::nat)"
  by (simp_all flip: div_mult2_eq)

lemma in_64: "64 * (x div 64) + x mod 64 = (x::nat)"
  by simp

lemma utf8_head:
  assumes "scalar cp"
  shows "\<exists>c s. codePointToUTF8 cp = c # s \<and> (\<forall>r. utf8ToCodepoint c (s @ r) = (cp, r)) \<and> (cp < 0x80 \<longrightarrow> c = char_of cp)
     \<and> (0x80 \<le> cp \<longrightarrow> 0x80 \<le> char_code c)"
proof -
  consider "cp < 0x80" | "0x80 \<le> cp" "cp < 0x800" | "0x800 \<le> cp" "cp < 0x10000" | "0x10000 \<le> cp" "cp < 0x110000"
    using assms by (force simp: scalar_def)
  then show ?thesis
  proof cases
    case 1
    then show ?thesis by (simp add: codePointToUTF8_eq utf8ToCodepoint.simps)
  next
    case 2
    let ?a = "cp div 64" and ?y = "cp mod 64"
    have a: "?a < 32" using 2 by simp
    have "push_bit 6 ?a OR ?y = cp" using push_or [of ?y 6 ?a] by simp
    with 2 a show ?thesis
      by (simp add: codePointToUTF8_eq utf8ToCodepoint.simps cont_bits6_of lead_bits Let_def)
  next
    case 3
    let ?a = "cp div 4096" and ?x = "cp div 64 mod 64" and ?y = "cp mod 64"
    have a: "?a < 16" using 3 by simp
    have "push_bit 6 ?x OR ?y = 64 * ?x + ?y" using push_or [of ?y 6 ?x] by simp
    moreover have "push_bit 12 ?a OR (64 * ?x + ?y) = 4096 * ?a + (64 * ?x + ?y)" using push_or [of "64 * ?x + ?y" 12 ?a] by simp
    moreover have "4096 * ?a + (64 * ?x + ?y) = cp"
      using in_64 [of cp] in_64 [of "cp div 64"] div_64 [of cp] by linarith
    ultimately have "push_bit 12 ?a OR push_bit 6 ?x OR ?y = cp" by simp
    with 3 a assms show ?thesis
      by (auto simp: codePointToUTF8_eq utf8ToCodepoint.simps cont_bits6_of lead_bits Let_def scalar_def)
  next
    case 4
    let ?a = "cp div 262144" and ?w = "cp div 4096 mod 64" and ?x = "cp div 64 mod 64" and ?y = "cp mod 64"
    have a: "?a < 8" using 4 by simp
    have "push_bit 6 ?x OR ?y = 64 * ?x + ?y" using push_or [of ?y 6 ?x] by simp
    moreover have "push_bit 12 ?w OR (64 * ?x + ?y) = 4096 * ?w + (64 * ?x + ?y)" using push_or [of "64 * ?x + ?y" 12 ?w] by simp
    moreover have "push_bit 18 ?a OR (4096 * ?w + (64 * ?x + ?y)) = 262144 * ?a + (4096 * ?w + (64 * ?x + ?y))"
      using push_or [of "4096 * ?w + (64 * ?x + ?y)" 18 ?a] by simp
    moreover have "262144 * ?a + (4096 * ?w + (64 * ?x + ?y)) = cp"
      using in_64 [of cp] in_64 [of "cp div 64"] in_64 [of "cp div 64 div 64"] unfolding div_64 by linarith
    ultimately have "push_bit 18 ?a OR push_bit 12 ?w OR push_bit 6 ?x OR ?y = cp" by simp
    with 4 a show ?thesis
      by (simp add: codePointToUTF8_eq utf8ToCodepoint.simps cont_bits6_of lead_bits Let_def)
  qed
qed

section \<open>Strings\<close>

text \<open>What is read back for a code point, and for a string.\<close>

definition clean_codepoint :: "nat \<Rightarrow> string" where
  "clean_codepoint cp =
     (if cp < 0x110000 then codePointToUTF8 cp
      else (let cp = cp - 0x10000 in codePointToUTF8 (drop_bit 10 cp + 0xD800) @ codePointToUTF8 ((cp AND 0x3FF) + 0xDC00)))"

function clean :: "string \<Rightarrow> string" where
  "clean [] = []"
| "clean (c # s) =
     (case short_escape c of
        Some e \<Rightarrow> c # clean s
      | None \<Rightarrow> (let (cp, r) = utf8ToCodepoint c s in clean_codepoint cp @ clean r))"
  by pat_completeness auto
termination
  by (relation "measure length")
    (auto simp: le_imp_less_Suc, metis le_imp_less_Suc snd_conv utf8ToCodepoint_rest)

declare clean.simps(2) [simp del] quote_loop.simps(2) [simp del]

lemma short_escape_read: "short_escape c = Some e \<Longrightarrow> short_unescape e = Some c \<and> c \<notin> {CHR ''/''}"
  by (auto simp: short_escape_def short_unescape_def split: if_splits)

lemma decode_short: "short_escape c = Some e \<Longrightarrow> decode_chars (CHR 0x5C # e # s) = map_option (Cons c) (decode_chars s)"
  by (simp add: decode_chars.simps(2) short_escape_read)

lemma hex_value_digit: "hex_value (hex_digit n) = Some (n mod 16)"
proof -
  have "list_all (\<lambda>k. hex_value (''0123456789abcdef'' ! k) = Some k) [0..<16]"
    by (simp add: upt_numeral hex_value_def char_code_def)
  then show ?thesis by (simp add: list_all_iff hex_digit_def)
qed

lemma decode_hex: "x < 0x10000 \<Longrightarrow> decodeUnicodeEscapeSequence (toHex16Bit x @ s) = Some (x, s)"
proof -
  assume "x < 0x10000"
  then have small: "x div 4096 mod 16 = x div 4096" by simp
  have "x div 256 = x div 16 div 16" "x div 4096 = x div 16 div 16 div 16" by (simp_all flip: div_mult2_eq)
  moreover have "16 * (y div 16) + y mod 16 = y" for y :: nat by simp
  ultimately have "((x div 4096 * 16 + x div 256 mod 16) * 16 + x div 16 mod 16) * 16 + x mod 16 = x"
    by (metis (no_types, opaque_lifting) mult.commute)
  with small show ?thesis by (simp add: toHex16Bit_def hex_value_digit drop_bit_eq_div)
qed

lemma decode_escape_u:
  "x < 0x10000 \<Longrightarrow> \<not> (0xD800 \<le> x \<and> x \<le> 0xDBFF) \<Longrightarrow>
     decode_chars (escape_u x @ s) = map_option (append (codePointToUTF8 x)) (decode_chars s)"
  by (cases "x < 0xD800"; simp add: escape_u_def decode_chars.simps(2) short_unescape_def decodeUnicodeCodePoint_def decode_hex)

lemma decode_escape_pair:
  assumes "hi < 0x400" and "lo < 0x400"
  shows "decode_chars (escape_u (0xD800 + hi) @ escape_u (0xDC00 + lo) @ s)
    = map_option (append (codePointToUTF8 (0x10000 + 1024 * hi + lo))) (decode_chars s)"
proof -
  have m: "(0xD800 + hi) mod 1024 = hi" "(0xDC00 + lo) mod 1024 = lo"
    using assms mod_mult_self1 [of hi 54 1024] mod_mult_self1 [of lo 55 1024] by (simp_all add: add.commute)
  have d1: "decodeUnicodeEscapeSequence (toHex16Bit (0xD800 + hi) @ r) = Some (0xD800 + hi, r)" for r
    using assms by (intro decode_hex) simp
  have d2: "decodeUnicodeEscapeSequence (toHex16Bit (0xDC00 + lo) @ r) = Some (0xDC00 + lo, r)" for r
    using assms by (intro decode_hex) simp
  have "decodeUnicodeCodePoint (toHex16Bit (0xD800 + hi) @ escape_u (0xDC00 + lo) @ s) = Some (0x10000 + 1024 * hi + lo, s)"
    using assms by (simp add: decodeUnicodeCodePoint_def d1 d2 escape_u_def and_mask_mod m push_bit_eq_mult)
      (simp add: toHex16Bit_def)
  then show ?thesis
    by (simp add: escape_u_def [of "0xD800 + hi"] decode_chars.simps(2) short_unescape_def)
qed

lemma utf8ToCodepoint_scalar:
  assumes "utf8ToCodepoint c s = (cp, r)"
  shows "cp < 0x200000 \<and> \<not> (0xD800 \<le> cp \<and> cp \<le> 0xDFFF) \<and> (cp < 0x80 \<longrightarrow> c = char_of cp \<and> r = s)"
proof -
  have six: "cont_bits6 x < 64" for x by (simp add: cont_bits6_def and_low_bits)
  have two: "push_bit 6 (a mod 32) OR cont_bits6 x < 0x800" for a x
    using push_or [of "cont_bits6 x" 6 "a mod 32"] six [of x] mod_less_divisor [of 32 a] by simp
  have three: "push_bit 6 (cont_bits6 x) OR cont_bits6 y < 4096" for x y
    using push_or [of "cont_bits6 y" 6 "cont_bits6 x"] six [of x] six [of y] by simp
  have four: "push_bit 12 (cont_bits6 w) OR push_bit 6 (cont_bits6 x) OR cont_bits6 y < 262144" for w x y
    using push_or [of "push_bit 6 (cont_bits6 x) OR cont_bits6 y" 12 "cont_bits6 w"] three [of x y] six [of w] by simp
  have three_all: "push_bit 12 (a mod 16) OR push_bit 6 (cont_bits6 x) OR cont_bits6 y < 0x10000" for a x y
    using push_or [of "push_bit 6 (cont_bits6 x) OR cont_bits6 y" 12 "a mod 16"] three [of x y] mod_less_divisor [of 16 a] by simp
  have four_all: "push_bit 18 (a mod 8) OR push_bit 12 (cont_bits6 w) OR push_bit 6 (cont_bits6 x) OR cont_bits6 y < 0x200000" for a w x y
    using push_or [of "push_bit 12 (cont_bits6 w) OR push_bit 6 (cont_bits6 x) OR cont_bits6 y" 18 "a mod 8"] four [of w x y]
      mod_less_divisor [of 8 a] by simp
  consider "char_code c < 0x80" | "0x80 \<le> char_code c" "char_code c < 0xE0" | "0xE0 \<le> char_code c" "char_code c < 0xF0"
    | "0xF0 \<le> char_code c" "char_code c < 0xF8" | "0xF8 \<le> char_code c" by linarith
  then show ?thesis
  proof cases
    case 1
    then show ?thesis using assms by (auto simp: utf8ToCodepoint.simps)
  next
    case 2
    show ?thesis
    proof (cases s)
      case (Cons x t)
      with 2 assms two [of "char_code c" x] show ?thesis
        by (auto simp: utf8ToCodepoint.simps REPLACEMENT_CHARACTER_def and_mask_mod Let_def split: if_splits)
    qed (use 2 assms in \<open>auto simp: utf8ToCodepoint.simps REPLACEMENT_CHARACTER_def Let_def\<close>)
  next
    case 3
    then show ?thesis using assms three_all
      by (auto simp: utf8ToCodepoint.simps REPLACEMENT_CHARACTER_def and_mask_mod Let_def not_less split: list.splits if_splits
          intro: less_trans [OF three_all])
  next
    case 4
    then show ?thesis using assms four_all
      by (auto simp: utf8ToCodepoint.simps REPLACEMENT_CHARACTER_def and_mask_mod Let_def not_less split: list.splits if_splits)
  next
    case 5
    then show ?thesis using assms by (auto simp: utf8ToCodepoint.simps REPLACEMENT_CHARACTER_def Let_def)
  qed
qed

lemma quote_codes: "char_code CHR 0x22 = 34" "char_code CHR 0x5C = 92"
  by (simp_all add: char_code_def)

lemma char_code_inject: "char_code c = char_code d \<longleftrightarrow> c = d"
  by (simp add: char_code_def)

lemma decode_codepoint:
  assumes "cp < 0x200000" and "\<not> (0xD800 \<le> cp \<and> cp \<le> 0xDFFF)" and "cp \<notin> {0x22, 0x5C}"
  shows "decode_chars (quote_codepoint cp @ s) = map_option (append (clean_codepoint cp)) (decode_chars s)"
proof -
  consider "0x20 \<le> cp" "cp < 0x80" | "cp < 0x20 \<or> 0x80 \<le> cp" "cp < 0x10000" | "0x10000 \<le> cp" "cp < 0x110000" | "0x110000 \<le> cp"
    by linarith
  then show ?thesis
  proof cases
    case 1
    have "char_of cp \<noteq> CHR 0x22" "char_of cp \<noteq> CHR 0x5C"
      using 1 assms(3) char_code_of [of cp] by (simp_all flip: char_code_inject add: quote_codes)
    with 1 show ?thesis
      by (cases "decode_chars s") (simp_all add: quote_codepoint_def clean_codepoint_def codePointToUTF8_eq decode_chars.simps(2))
  next
    case 2
    then have "quote_codepoint cp = escape_u cp" by (auto simp: quote_codepoint_def)
    moreover have "\<not> (0xD800 \<le> cp \<and> cp \<le> 0xDBFF)" using assms(2) by linarith
    ultimately show ?thesis using 2 by (simp add: decode_escape_u clean_codepoint_def)
  next
    case 3
    let ?c = "cp - 0x10000"
    have q: "quote_codepoint cp = escape_u (0xD800 + ?c div 1024) @ escape_u (0xDC00 + ?c mod 1024)"
      using 3 by (simp add: quote_codepoint_def Let_def drop_bit_eq_div and_mask_mod add.commute)
    have e: "0x10000 + 1024 * (?c div 1024) + ?c mod 1024 = cp" using 3 mult_div_mod_eq [of 1024 ?c] by linarith
    have "?c div 1024 < 0x400" using 3 by (simp add: less_mult_imp_div_less)
    with decode_escape_pair [of "?c div 1024" "?c mod 1024" s] 3 show ?thesis
      unfolding q e by (simp add: clean_codepoint_def)
  next
    case 4
    let ?c = "cp - 0x10000"
    have hi: "0x400 \<le> ?c div 1024" "?c div 1024 < 0x800" using 4 assms(1) by (simp_all add: less_mult_imp_div_less less_eq_div_iff_mult_less_eq)
    have q: "quote_codepoint cp = escape_u (?c div 1024 + 0xD800) @ escape_u (?c mod 1024 + 0xDC00)"
      using 4 by (simp add: quote_codepoint_def Let_def drop_bit_eq_div and_mask_mod)
    have lo: "?c mod 1024 < 1024" by simp
    have "decode_chars (escape_u (?c div 1024 + 0xD800) @ escape_u (?c mod 1024 + 0xDC00) @ s)
        = map_option (append (codePointToUTF8 (?c div 1024 + 0xD800)))
            (map_option (append (codePointToUTF8 (?c mod 1024 + 0xDC00))) (decode_chars s))"
      using hi lo by (subst decode_escape_u, linarith, linarith, subst decode_escape_u) auto
    with 4 show ?thesis
      by (cases "decode_chars s") (simp_all add: q clean_codepoint_def Let_def drop_bit_eq_div and_mask_mod)
  qed
qed

lemma decode_quote_loop: "decode_chars (quote_loop s) = Some (clean s)"
proof (induction s rule: quote_loop.induct)
  case (2 c s)
  show ?case
  proof (cases "short_escape c")
    case None
    obtain cp r where u: "utf8ToCodepoint c s = (cp, r)" by (cases "utf8ToCodepoint c s")
    have "cp \<notin> {0x22, 0x5C}"
    proof
      assume a: "cp \<in> {0x22, 0x5C}"
      with utf8ToCodepoint_scalar [OF u] have "char_code c = cp" by auto
      with a have "c = CHR 0x22 \<or> c = CHR 0x5C" by (auto simp flip: char_code_inject simp: quote_codes)
      with None show False by (auto simp: short_escape_def)
    qed
    with utf8ToCodepoint_scalar [OF u] "2.IH"(1) [OF None u [symmetric] refl] None u show ?thesis
      by (simp add: quote_loop.simps(2) clean.simps(2) decode_codepoint)
  next
    case (Some e)
    with "2.IH"(2) [OF Some] show ?thesis by (simp add: quote_loop.simps(2) clean.simps(2) decode_short)
  qed
qed simp

section \<open>Tokens\<close>

lemma readToken_plain:
  assumes "j_current st = c # s" and "c \<notin> {CHR '' '', CHR 0x09, CHR 0x0D, CHR 0x0A, CHR 0x27, CHR ''/''}"
    and "plain_token c s = (True, t, r)"
  shows "readToken st = Some (\<lparr>tok_type = t, tok_start = c # s, tok_end = r\<rparr>, st\<lparr>j_current := r\<rparr>)"
  using assms by (simp add: readToken_def skipSpaces_def)

lemma skipCommentTokens_plain:
  assumes "readToken st = Some (t, st1)" and "tok_type t \<noteq> tokenComment"
  shows "skipCommentTokens st = Some (t, st1)"
  using assms by (subst skipCommentTokens.simps) simp

lemma valueToQuotedString_eq: "valueToQuotedString s = CHR 0x22 # quote_loop s @ [CHR 0x22]"
proof (cases "s = []")
  case False
  then obtain c where c: "c \<in> set s" by (meson ex_in_conv set_empty)
  have "isAnyCharRequiredQuoting s"
    unfolding isAnyCharRequiredQuoting_def by (rule bexI [OF _ c]) linarith
  then show ?thesis by (simp add: valueToQuotedString_def)
qed (simp add: valueToQuotedString_def isAnyCharRequiredQuoting_def)

lemma readString_plain: "CHR 0x22 \<notin> set p \<Longrightarrow> CHR 0x5C \<notin> set p \<Longrightarrow> readString (p @ s) = readString s"
  by (induction p) auto

lemma hex_digit_plain: "hex_digit n \<noteq> CHR 0x22 \<and> hex_digit n \<noteq> CHR 0x5C"
proof -
  have "list_all (\<lambda>k. ''0123456789abcdef'' ! k \<noteq> CHR 0x22 \<and> ''0123456789abcdef'' ! k \<noteq> CHR 0x5C) [0..<16]"
    by (simp add: upt_numeral)
  then show ?thesis by (simp add: list_all_iff hex_digit_def)
qed

lemma readString_escape_u: "readString (escape_u x @ s) = readString s"
  using readString_plain [of "toHex16Bit x" s] by (simp add: escape_u_def toHex16Bit_def hex_digit_plain)

lemma readString_codepoint:
  assumes "cp \<notin> {0x22, 0x5C}"
  shows "readString (quote_codepoint cp @ s) = readString s"
proof (cases "cp < 0x80 \<and> 0x20 \<le> cp")
  case True
  have "char_of cp \<noteq> CHR 0x22" "char_of cp \<noteq> CHR 0x5C"
    using True assms char_code_of [of cp] by (simp_all flip: char_code_inject add: quote_codes)
  with True show ?thesis by (simp add: quote_codepoint_def)
qed (auto simp: quote_codepoint_def Let_def readString_escape_u)

lemma utf8ToCodepoint_special:
  assumes "utf8ToCodepoint c s = (cp, r)" and "short_escape c = None"
  shows "cp \<notin> {0x22, 0x5C}"
proof
  assume a: "cp \<in> {0x22, 0x5C}"
  with utf8ToCodepoint_scalar [OF assms(1)] have "char_code c = cp" by auto
  with a have "c = CHR 0x22 \<or> c = CHR 0x5C" by (auto simp flip: char_code_inject simp: quote_codes)
  with assms(2) show False by (auto simp: short_escape_def)
qed

lemma readString_quote_loop: "readString (quote_loop s @ CHR 0x22 # r) = (True, r)"
proof (induction s rule: quote_loop.induct)
  case (2 c s)
  show ?case
  proof (cases "short_escape c")
    case None
    obtain cp t where u: "utf8ToCodepoint c s = (cp, t)" by (cases "utf8ToCodepoint c s")
    with readString_codepoint [OF utf8ToCodepoint_special [OF u None]] "2.IH"(1) [OF None u [symmetric] refl] None show ?thesis
      by (simp add: quote_loop.simps(2))
  next
    case (Some e)
    with "2.IH"(2) [OF Some] show ?thesis by (simp add: quote_loop.simps(2))
  qed
qed simp

lemma string_token:
  assumes "j_current st = valueToQuotedString s @ r"
  shows "\<exists>t. readToken st = Some (t, st\<lparr>j_current := r\<rparr>) \<and> tok_type t = tokenString \<and> decodeString t = Some (clean s)"
proof -
  have "plain_token CHR 0x22 (quote_loop s @ CHR 0x22 # r) = (True, tokenString, r)"
    by (simp add: plain_token_def readString_quote_loop)
  with readToken_plain [of st "CHR 0x22" "quote_loop s @ CHR 0x22 # r" tokenString r] assms show ?thesis
    by (simp add: valueToQuotedString_eq decodeString_def text_between_def decode_quote_loop butlast_append)
qed

section \<open>Numbers\<close>

text \<open>What may stand behind a value.\<close>

definition ends :: "string \<Rightarrow> bool" where
  "ends r \<longleftrightarrow> r = [] \<or> hd r \<in> {CHR '','', CHR '']'', CHR 0x7D}"

lemma is_digit_digit_char: "d < 10 \<Longrightarrow> is_digit (digit_char d) \<and> char_code (digit_char d) = 48 + d"
  by (simp add: is_digit_def digit_char_def)

lemma decimal_is_digit: "c \<in> set (decimal n) \<Longrightarrow> is_digit c"
proof (induction n rule: less_induct)
  case (less n)
  show ?case
  proof (cases "n < 10")
    case True
    with less.prems show ?thesis by (subst (asm) decimal.simps) (simp add: is_digit_digit_char)
  next
    case False
    with less.prems less.IH [of "n div 10"] show ?thesis
      by (subst (asm) decimal.simps) (auto simp: is_digit_digit_char)
  qed
qed

lemma decimal_not_Nil: "decimal n \<noteq> []"
  by (subst decimal.simps) simp

lemma decode_decimal:
  assumes "10 \<le> mx" and "n \<le> mx div 10 \<or> ds = [] \<and> n \<le> mx"
  shows "decode_digits mx 0 (decimal n @ ds) = decode_digits mx n ds"
  using assms(2)
proof (induction n arbitrary: ds rule: less_induct)
  case (less n)
  show ?case
  proof (cases "n < 10")
    case True
    have "0 < mx div 10" using assms(1) by (simp add: div_greater_zero_iff)
    with True show ?thesis by (subst decimal.simps) (simp add: is_digit_digit_char Let_def)
  next
    case False
    let ?d = "n mod 10"
    have le: "n div 10 \<le> mx div 10" using less.prems by (auto intro: div_le_mono)
    have "decode_digits mx 0 (decimal n @ ds) = decode_digits mx (n div 10) (digit_char ?d # ds)"
      using False le less.IH [of "n div 10" "digit_char ?d # ds"] by (subst decimal.simps) simp
    moreover have "\<not> (n div 10 \<ge> mx div 10 \<and> (n div 10 > mx div 10 \<or> ds \<noteq> [] \<or> ?d > mx mod 10))"
    proof (cases "ds = [] \<and> n \<le> mx")
      case True
      show ?thesis
      proof
        assume a: "n div 10 \<ge> mx div 10 \<and> (n div 10 > mx div 10 \<or> ds \<noteq> [] \<or> ?d > mx mod 10)"
        with le True have "n div 10 = mx div 10" "mx mod 10 < ?d" by auto
        with mult_div_mod_eq [of 10 n] mult_div_mod_eq [of 10 mx] True show False by linarith
      qed
    next
      case other: False
      with less.prems have "n \<le> mx div 10" by simp
      moreover have "n div 10 < n" using False by simp
      ultimately show ?thesis by simp
    qed
    ultimately show ?thesis by (simp add: is_digit_digit_char Let_def)
  qed
qed

lemma dropWhile_digits:
  assumes "\<forall>c \<in> set ds. is_digit c" and "ends r"
  shows "dropWhile is_digit (ds @ r) = r"
proof -
  have "dropWhile is_digit r = r" using assms(2) by (cases r) (auto simp: ends_def is_digit_def char_code_def)
  with assms(1) show ?thesis by (simp add: dropWhile_append2)
qed

lemma readNumber_digits:
  assumes "\<forall>c \<in> set ds. is_digit c" and "ends r" and "b \<longrightarrow> ds \<noteq> []"
  shows "readNumber b (ds @ r) = (True, r)"
proof -
  have "\<not> (b \<and> ds @ r \<noteq> [] \<and> hd (ds @ r) = CHR ''I'')"
    using assms(1,3) by (cases ds) (auto simp: is_digit_def char_code_def)
  moreover have "\<not> (r \<noteq> [] \<and> hd r = CHR ''.'') \<and> \<not> (r \<noteq> [] \<and> hd r \<in> {CHR ''e'', CHR ''E''})"
    using assms(2) by (auto simp: ends_def)
  ultimately show ?thesis unfolding readNumber_def dropWhile_digits [OF assms(1,2)] Let_def by auto
qed

lemma decodeNumber_digits:
  assumes "tok_start t = ds @ tok_end t" and "\<forall>c \<in> set ds. is_digit c" and "ds = decimal n" and "n < 2 ^ 64"
  shows "decodeNumber sc t = Some (Some (JInt (int n)))"
proof -
  have "\<not> is_digit CHR ''-''" by (simp add: is_digit_def char_code_def)
  with assms(2) have neg: "(ds \<noteq> [] \<and> hd ds = CHR ''-'') = False" by (metis hd_in_set)
  have between: "text_between (tok_start t) (tok_end t) = ds" using assms(1) by (simp add: text_between_def)
  have digits: "decode_digits (2 ^ 64 - 1) 0 ds = Some n"
    using decode_decimal [of "2 ^ 64 - 1" n "[]"] assms(3,4) by simp
  show ?thesis unfolding decodeNumber_def Let_def between neg if_False digits by simp
qed

lemma decodeNumber_negative:
  assumes "tok_start t = CHR ''-'' # decimal n @ tok_end t" and "n < 2 ^ 63"
  shows "decodeNumber sc t = Some (Some (JInt (- int n)))"
proof -
  have "text_between (tok_start t) (tok_end t) = CHR ''-'' # decimal n"
    using assms(1) by (simp add: text_between_def)
  moreover have "decode_digits (2 ^ 63) 0 (decimal n) = Some n"
    using decode_decimal [of "2 ^ 63" n "[]"] assms(2) by simp
  ultimately show ?thesis using assms(2) by (simp add: decodeNumber_def Let_def)
qed

lemma number_token:
  assumes "j_current st = show_int i @ r" and "ends r" and "- (2 ^ 63) < i" and "i < 2 ^ 64"
  shows "\<exists>t. readToken st = Some (t, st\<lparr>j_current := r\<rparr>) \<and> tok_type t = tokenNumber
     \<and> decodeNumber sc t = Some (Some (JInt i))"
proof (cases "i < 0")
  case True
  let ?ds = "decimal (nat (- i))"
  have "readNumber True (?ds @ r) = (True, r)"
    using assms(2) by (intro readNumber_digits) (auto simp: decimal_is_digit decimal_not_Nil)
  then have "plain_token CHR ''-'' (?ds @ r) = (True, tokenNumber, r)"
    by (simp add: plain_token_def is_digit_def char_code_def)
  from readToken_plain [OF _ _ this, of st] assms(1) True
  have "readToken st = Some (\<lparr>tok_type = tokenNumber, tok_start = CHR ''-'' # ?ds @ r, tok_end = r\<rparr>, st\<lparr>j_current := r\<rparr>)"
    by (simp add: show_int_def)
  moreover have "nat (- i) < 2 ^ 63" using assms(3) True by (simp add: nat_less_iff)
  ultimately show ?thesis using True
    by (auto simp: decodeNumber_negative [where n = "nat (- i)"])
next
  case False
  let ?ds = "decimal (nat i)"
  obtain c ds where ds: "?ds = c # ds" using decimal_not_Nil by (cases ?ds) auto
  have digits: "is_digit c" "\<forall>c \<in> set ds. is_digit c" using decimal_is_digit [of _ "nat i"] ds by auto
  have c: "c \<notin> {CHR '' '', CHR 0x09, CHR 0x0D, CHR 0x0A, CHR 0x27, CHR ''/''}" "c \<notin> {CHR 0x7B, CHR 0x7D, CHR ''['', CHR '']'', CHR 0x22}"
    using digits(1) by (auto simp: is_digit_def char_code_def)
  have "readNumber False (ds @ r) = (True, r)"
    using assms(2) digits(2) by (intro readNumber_digits) auto
  then have "plain_token c (ds @ r) = (True, tokenNumber, r)" using c(2) digits(1) by (simp add: plain_token_def)
  from readToken_plain [OF _ c(1) this, of st] assms(1) False ds
  have "readToken st = Some (\<lparr>tok_type = tokenNumber, tok_start = c # ds @ r, tok_end = r\<rparr>, st\<lparr>j_current := r\<rparr>)"
    by (simp add: show_int_def)
  moreover have "decodeNumber sc \<lparr>tok_type = tokenNumber, tok_start = c # ds @ r, tok_end = r\<rparr> = Some (Some (JInt (int (nat i))))"
    using assms(4) ds digits by (intro decodeNumber_digits [where ds = "c # ds"]) (auto simp: nat_less_iff)
  ultimately show ?thesis using False by auto
qed

lemma literal_tokens:
  "j_current st = ''null'' @ r \<Longrightarrow> readToken st = Some (\<lparr>tok_type = tokenNull, tok_start = ''null'' @ r, tok_end = r\<rparr>, st\<lparr>j_current := r\<rparr>)"
  "j_current st = ''true'' @ r \<Longrightarrow> readToken st = Some (\<lparr>tok_type = tokenTrue, tok_start = ''true'' @ r, tok_end = r\<rparr>, st\<lparr>j_current := r\<rparr>)"
  "j_current st = ''false'' @ r \<Longrightarrow> readToken st = Some (\<lparr>tok_type = tokenFalse, tok_start = ''false'' @ r, tok_end = r\<rparr>, st\<lparr>j_current := r\<rparr>)"
  by (simp_all add: readToken_plain [of st] plain_token_def match_def is_digit_def char_code_def)

lemma mark_tokens:
  "plain_token CHR 0x7B r = (True, tokenObjectBegin, r)" "plain_token CHR 0x7D r = (True, tokenObjectEnd, r)"
  "plain_token CHR ''['' r = (True, tokenArrayBegin, r)" "plain_token CHR '']'' r = (True, tokenArrayEnd, r)"
  "plain_token CHR '','' r = (True, tokenArraySeparator, r)" "plain_token CHR '':'' r = (True, tokenMemberSeparator, r)"
  by (simp_all add: plain_token_def is_digit_def char_code_def)

lemma mark_token:
  assumes "j_current st = c # r" and "plain_token c r = (True, t, r)" and "c \<in> {CHR 0x7B, CHR 0x7D, CHR ''['', CHR '']'', CHR '','', CHR '':''}"
  shows "readToken st = Some (\<lparr>tok_type = t, tok_start = c # r, tok_end = r\<rparr>, st\<lparr>j_current := r\<rparr>)"
  using readToken_plain [OF assms(1) _ assms(2)] assms(3) by auto

end
