(* ===== verification/Json_Read_Back.thy ===== *)
theory Json_Read_Back
  imports Json_Roundtrip
begin

text \<open>
  The reader on a whole value as the writer wrote it, and the documents on which it throws.
\<close>

section \<open>Values\<close>

text \<open>The value that is read back: its strings and member names as valid UTF-8.\<close>

fun clean_json :: "json \<Rightarrow> json"
  and clean_elements :: "json list \<Rightarrow> json list"
  and clean_members :: "(string \<times> json) list \<Rightarrow> (string, json) std_map \<Rightarrow> (string, json) std_map" where
  "clean_json (JString s) = JString (clean s)"
| "clean_json (JArray xs) = JArray (clean_elements xs)"
| "clean_json (JObject m) = JObject (clean_members m [])"
| "clean_json v = v"
| "clean_elements [] = []"
| "clean_elements (x # xs) = clean_json x # clean_elements xs"
| "clean_members [] acc = acc"
| "clean_members ((k, x) # m) acc = clean_members m (std_assign (clean k) (clean_json x) acc)"

text \<open>
  What the reader accepts at a node of depth \<open>d\<close>: not too deep, integers of 64 bits, no doubles, member
  names below \<open>2\<^sup>3\<^sup>0\<close> characters.
\<close>

fun readable :: "nat \<Rightarrow> json \<Rightarrow> bool"
  and readable_elements :: "nat \<Rightarrow> json list \<Rightarrow> bool"
  and readable_members :: "nat \<Rightarrow> (string \<times> json) list \<Rightarrow> bool" where
  "readable d (JInt i) \<longleftrightarrow> d \<le> stackLimit \<and> - (2 ^ 63) < i \<and> i < 2 ^ 64"
| "readable d (JReal x) \<longleftrightarrow> False"
| "readable d (JArray xs) \<longleftrightarrow> d \<le> stackLimit \<and> readable_elements (Suc d) xs"
| "readable d (JObject m) \<longleftrightarrow> d \<le> stackLimit \<and> readable_members (Suc d) m"
| "readable d v \<longleftrightarrow> d \<le> stackLimit"
| "readable_elements d [] \<longleftrightarrow> True"
| "readable_elements d (x # xs) \<longleftrightarrow> readable d x \<and> readable_elements d xs"
| "readable_members d [] \<longleftrightarrow> True"
| "readable_members d ((k, x) # m) \<longleftrightarrow> length (clean k) < 2 ^ 30 \<and> readable d x \<and> readable_members d m"

text \<open>The state behind a value: \<open>r\<close> is what is left.\<close>

definition behind :: "string \<Rightarrow> json_reader \<Rightarrow> json_reader" where
  "behind r st = st\<lparr>j_current := r, j_lastValueEnd := Some r\<rparr>"

declare read_value.simps(2) [simp del] read_members.simps(2) [simp del] read_elements.simps(2) [simp del]

lemma ends_mark: "ends (CHR '','' # r)" "ends (CHR '']'' # r)" "ends (CHR 0x7D # r)" "ends []"
  by (simp_all add: ends_def)

lemma read_leaf:
  assumes "readToken st = Some (t, st\<lparr>j_current := r\<rparr>)" and "j_commentsBefore st = []" and "d \<le> stackLimit"
    and "leaf_value sc t v = Some (True, True, x)"
  shows "read_value sc (Suc n) d v st = Some (True, x, behind r st)"
proof -
  have "tok_type t \<noteq> tokenComment \<and> tok_type t \<noteq> tokenObjectBegin \<and> tok_type t \<noteq> tokenArrayBegin"
    using assms(4) by (auto simp: leaf_value_def)
  with assms skipCommentTokens_plain [OF assms(1)] show ?thesis
    by (simp add: read_value.simps(2) take_comments_def value_read_def behind_def)
qed

lemma member_name_written:
  assumes "j_current st = valueToQuotedString k @ CHR '':'' # r" and "length (clean k) < 2 ^ 30"
  shows "member_name name st = Some (Proceed (clean k), st\<lparr>j_current := r\<rparr>)"
proof -
  from string_token [OF assms(1)] obtain t where t: "readToken st = Some (t, st\<lparr>j_current := CHR '':'' # r\<rparr>)"
    "tok_type t = tokenString" "decodeString t = Some (clean k)" by blast
  have "readToken (st\<lparr>j_current := CHR '':'' # r\<rparr>)
      = Some (\<lparr>tok_type = tokenMemberSeparator, tok_start = CHR '':'' # r, tok_end = r\<rparr>, st\<lparr>j_current := r\<rparr>)"
    using mark_token [of "st\<lparr>j_current := CHR '':'' # r\<rparr>", OF _ mark_tokens(6)] by simp
  with t skipCommentTokens_plain [OF t(1)] assms(2) show ?thesis by (simp add: member_name_def)
qed

lemma member_end_written:
  "j_current st = CHR '','' # r \<Longrightarrow> member_end st = Some (Proceed (), st\<lparr>j_current := r\<rparr>)"
  "j_current st = CHR 0x7D # r \<Longrightarrow> member_end st = Some (Finished, st\<lparr>j_current := r\<rparr>)"
  by (simp_all add: member_end_def mark_token [OF _ mark_tokens(5)] mark_token [OF _ mark_tokens(2)])

lemma element_end_written:
  "j_current st = CHR '','' # r \<Longrightarrow> element_end st = Some (Proceed (), st\<lparr>j_current := r\<rparr>)"
  "j_current st = CHR '']'' # r \<Longrightarrow> element_end st = Some (Finished, st\<lparr>j_current := r\<rparr>)"
  by (simp_all add: element_end_def skipCommentTokens_plain [OF mark_token [OF _ mark_tokens(5)]]
      skipCommentTokens_plain [OF mark_token [OF _ mark_tokens(4)]])

lemma writeValue_front:
  "readable d v \<Longrightarrow> \<exists>c s. writeValue v = c # s \<and> c \<notin> {CHR '' '', CHR 0x09, CHR 0x0D, CHR 0x0A, CHR '']''}"
proof (cases v)
  case (JInt i)
  have "decimal n \<noteq> [] \<and> hd (decimal n) \<notin> {CHR '' '', CHR 0x09, CHR 0x0D, CHR 0x0A, CHR '']''}" for n
    using decimal_not_Nil [of n] decimal_is_digit [of "hd (decimal n)" n]
    by (auto simp: is_digit_def char_code_def)
  then show ?thesis by (simp add: JInt show_int_def neq_Nil_conv) (metis list.sel(1))
qed (auto simp: valueToQuotedString_eq)

lemma read_written:
  "readable d v \<Longrightarrow> j_current st = writeValue v @ r \<Longrightarrow> ends r \<Longrightarrow> j_commentsBefore st = [] \<Longrightarrow>
     2 * length (j_current st) + 1 \<le> n \<Longrightarrow> read_value sc n d v0 st = Some (True, clean_json v, behind r st)"
  "readable_elements (Suc d) xs \<Longrightarrow> xs \<noteq> [] \<Longrightarrow> j_current st = write_elements xs @ CHR '']'' # r \<Longrightarrow> j_commentsBefore st = [] \<Longrightarrow>
     2 * length (j_current st) + 2 \<le> n \<Longrightarrow>
     read_elements sc n d ys st = Some (True, JArray (ys @ clean_elements xs), (behind (CHR '']'' # r) st)\<lparr>j_current := r\<rparr>)"
  "readable_members (Suc d) m \<Longrightarrow> m \<noteq> [] \<Longrightarrow> j_current st = write_members m @ CHR 0x7D # r \<Longrightarrow> j_commentsBefore st = [] \<Longrightarrow>
     2 * length (j_current st) + 2 \<le> n \<Longrightarrow>
     read_members sc n d acc name st = Some (True, JObject (clean_members m acc), (behind (CHR 0x7D # r) st)\<lparr>j_current := r\<rparr>)"
proof (induction v and xs and m arbitrary: d st r n v0 and d st r n ys and d st r n acc name
    rule: writeValue_write_elements_write_members.induct)
  case 1
  then obtain n' where n: "n = Suc n'" by (cases n) auto
  from 1 literal_tokens(1) [of st r] show ?case unfolding n by (auto intro!: read_leaf simp: leaf_value_def)
next
  case (2 i)
  then obtain n' where n: "n = Suc n'" by (cases n) auto
  have "j_current st = show_int i @ r" "- (2 ^ 63) < i" "i < 2 ^ 64" using 2 by simp_all
  from number_token [OF this(1) 2(3) this(2,3), of sc] obtain t where
    "readToken st = Some (t, st\<lparr>j_current := r\<rparr>)" "tok_type t = tokenNumber" "decodeNumber sc t = Some (Some (JInt i))" by blast
  with 2 show ?case unfolding n by (auto intro!: read_leaf simp: leaf_value_def)
next
  case (4 s)
  then obtain n' where n: "n = Suc n'" by (cases n) auto
  have "j_current st = valueToQuotedString s @ r" using 4 by simp
  from string_token [OF this] obtain t where
    "readToken st = Some (t, st\<lparr>j_current := r\<rparr>)" "tok_type t = tokenString" "decodeString t = Some (clean s)" by blast
  with 4 show ?case unfolding n by (auto intro!: read_leaf simp: leaf_value_def)
next
  case (5 b)
  then obtain n' where n: "n = Suc n'" by (cases n) auto
  from 5 literal_tokens(2,3) [of st r] show ?case unfolding n
    by (cases b) (auto intro!: read_leaf simp: leaf_value_def)
next
  case (6 xs)
  then obtain n' where n: "n = Suc n'" by (cases n) auto
  let ?s = "tl (writeValue (JArray xs)) @ r"
  have cur: "j_current st = CHR ''['' # ?s" using 6 by simp
  note tok = skipCommentTokens_plain [OF mark_token [OF cur mark_tokens(3)]]
  have tok: "skipCommentTokens st = Some (\<lparr>tok_type = tokenArrayBegin, tok_start = CHR ''['' # ?s, tok_end = ?s\<rparr>, st\<lparr>j_current := ?s\<rparr>)"
    by (rule tok) simp_all
  show ?case
  proof (cases "xs = []")
    case True
    with tok 6 show ?thesis unfolding n
      by (simp add: read_value.simps(2) take_comments_def skipSpaces_def value_read_def behind_def)
  next
    case False
    then obtain x xs' where xs: "xs = x # xs'" by (cases xs) auto
    have s: "?s = write_elements xs @ CHR '']'' # r" using False by simp
    have "readable (Suc d) x" using 6 xs by simp
    from writeValue_front [OF this] obtain c t where "writeValue x = c # t" "c \<notin> {CHR '' '', CHR 0x09, CHR 0x0D, CHR 0x0A, CHR '']''}"
      by blast
    then have sp: "skipSpaces ?s = ?s" and hd: "hd ?s \<noteq> CHR '']''" using xs by (simp_all add: skipSpaces_def s)
    have "read_elements sc n' d [] (st\<lparr>j_current := ?s\<rparr>)
        = Some (True, JArray ([] @ clean_elements xs), (behind (CHR '']'' # r) (st\<lparr>j_current := ?s\<rparr>))\<lparr>j_current := r\<rparr>)"
      using 6 False n cur by (intro "6.IH") (auto simp: s)
    with tok 6 sp hd show ?thesis unfolding n
      by (simp add: read_value.simps(2) take_comments_def value_read_def behind_def Let_def)
  qed
next
  case (7 m)
  then obtain n' where n: "n = Suc n'" by (cases n) auto
  let ?s = "tl (writeValue (JObject m)) @ r"
  have cur: "j_current st = CHR 0x7B # ?s" using 7 by simp
  note tok = skipCommentTokens_plain [OF mark_token [OF cur mark_tokens(1)]]
  have tok: "skipCommentTokens st = Some (\<lparr>tok_type = tokenObjectBegin, tok_start = CHR 0x7B # ?s, tok_end = ?s\<rparr>, st\<lparr>j_current := ?s\<rparr>)"
    by (rule tok) simp_all
  show ?case
  proof (cases "m = []")
    case True
    with cur have "?s = CHR 0x7D # r" by simp
    then have "skipCommentTokens (st\<lparr>j_current := ?s\<rparr>)
        = Some (\<lparr>tok_type = tokenObjectEnd, tok_start = ?s, tok_end = r\<rparr>, st\<lparr>j_current := r\<rparr>)"
      using skipCommentTokens_plain [OF mark_token [OF _ mark_tokens(2)], of "st\<lparr>j_current := ?s\<rparr>" r] by simp
    moreover obtain n2 where "n' = Suc n2" using 7 n True by (cases n') auto
    ultimately show ?thesis using tok 7 True unfolding n
      by (simp add: read_value.simps(2) read_members.simps(2) member_name_def take_comments_def value_read_def behind_def)
  next
    case False
    have s: "?s = write_members m @ CHR 0x7D # r" using False by simp
    have "read_members sc n' d [] [] (st\<lparr>j_current := ?s\<rparr>)
        = Some (True, JObject (clean_members m []), (behind (CHR 0x7D # r) (st\<lparr>j_current := ?s\<rparr>))\<lparr>j_current := r\<rparr>)"
      using 7 False n cur by (intro "7.IH") (auto simp: s)
    with tok 7 show ?thesis unfolding n
      by (simp add: read_value.simps(2) take_comments_def value_read_def behind_def Let_def)
  qed
next
  case (9 x xs)
  then obtain n' where n: "n = Suc n'" by (cases n) auto
  let ?r = "(if xs = [] then [] else CHR '','' # write_elements xs) @ CHR '']'' # r"
  have cur: "j_current st = writeValue x @ ?r" using 9 by simp
  have x: "read_value sc n' (Suc d) JNull st = Some (True, clean_json x, behind ?r st)"
    using 9 n cur by (intro "9.IH"(1)) (auto simp: ends_mark)
  show ?case
  proof (cases "xs = []")
    case True
    with x element_end_written(2) [of "behind ?r st" r] show ?thesis unfolding n
      by (simp add: read_elements.simps(2) behind_def Let_def)
  next
    case False
    let ?st = "(behind ?r st)\<lparr>j_current := write_elements xs @ CHR '']'' # r\<rparr>"
    have "element_end (behind ?r st) = Some (Proceed (), ?st)"
      using False by (intro element_end_written(1)) (simp add: behind_def)
    moreover have "read_elements sc n' d (ys @ [clean_json x]) ?st
        = Some (True, JArray ((ys @ [clean_json x]) @ clean_elements xs), (behind (CHR '']'' # r) ?st)\<lparr>j_current := r\<rparr>)"
      using 9 False n cur by (intro "9.IH"(2)) (auto simp: behind_def)
    ultimately show ?thesis using x unfolding n by (simp add: read_elements.simps(2) behind_def Let_def)
  qed
next
  case (11 k x m)
  then obtain n' where n: "n = Suc n'" by (cases n) auto
  let ?r = "(if m = [] then [] else CHR '','' # write_members m) @ CHR 0x7D # r"
  let ?st1 = "st\<lparr>j_current := writeValue x @ ?r\<rparr>"
  let ?v = "case std_find (clean k) acc of None \<Rightarrow> JNull | Some y \<Rightarrow> y"
  have cur: "j_current st = valueToQuotedString k @ CHR '':'' # writeValue x @ ?r" using 11 by simp
  have name: "member_name name st = Some (Proceed (clean k), ?st1)"
    using 11 by (intro member_name_written) (simp_all add: cur)
  have x: "read_value sc n' (Suc d) ?v ?st1 = Some (True, clean_json x, behind ?r ?st1)"
    using 11 n cur by (intro "11.IH"(1)) (auto simp: ends_mark valueToQuotedString_eq)
  show ?case
  proof (cases "m = []")
    case True
    with x name member_end_written(2) [of "behind ?r ?st1" r] show ?thesis unfolding n
      by (simp add: read_members.simps(2) behind_def Let_def)
  next
    case False
    let ?st = "(behind ?r ?st1)\<lparr>j_current := write_members m @ CHR 0x7D # r\<rparr>"
    have "member_end (behind ?r ?st1) = Some (Proceed (), ?st)"
      using False by (intro member_end_written(1)) (simp add: behind_def)
    moreover have "read_members sc n' d (std_assign (clean k) (clean_json x) acc) (clean k) ?st
        = Some (True, JObject (clean_members m (std_assign (clean k) (clean_json x) acc)), (behind (CHR 0x7D # r) ?st)\<lparr>j_current := r\<rparr>)"
      using 11 False n cur by (intro "11.IH"(2)) (auto simp: behind_def)
    ultimately show ?thesis using x name unfolding n by (simp add: read_members.simps(2) behind_def Let_def)
  qed
qed simp_all


section \<open>Documents\<close>

lemma parse_written:
  assumes "readable 1 v"
  shows "parse_json sc (json_string v) = Some (True, clean_json v)"
proof -
  let ?st = "reader_new (writeValue v)"
  have "read_value sc (2 * length (writeValue v) + 1) 1 JNull ?st = Some (True, clean_json v, behind [] ?st)"
    using assms by (intro read_written(1)) (auto simp: reader_new_def ends_mark)
  moreover have "skipCommentTokens (behind [] ?st)
      = Some (\<lparr>tok_type = tokenEndOfStream, tok_start = [], tok_end = []\<rparr>, (behind [] ?st)\<lparr>j_current := []\<rparr>)"
    by (intro skipCommentTokens_plain) (simp_all add: readToken_def behind_def skipSpaces_def)
  ultimately show ?thesis
    by (simp add: parse_json_def reader_parse_def json_string_def take_comments_def behind_def reader_new_def)
qed

text \<open>Texts in valid UTF-8, and values all of whose texts are.\<close>

definition utf8_text :: "string \<Rightarrow> bool" where
  "utf8_text s \<longleftrightarrow> (\<exists>cps. (\<forall>cp \<in> set cps. scalar cp) \<and> s = concat (map codePointToUTF8 cps))"

lemma clean_scalar:
  assumes "scalar cp"
  shows "clean (codePointToUTF8 cp @ r) = codePointToUTF8 cp @ clean r"
proof -
  from utf8_head [OF assms] obtain c s where u: "codePointToUTF8 cp = c # s" "\<And>r. utf8ToCodepoint c (s @ r) = (cp, r)"
    "cp < 0x80 \<longrightarrow> c = char_of cp" "0x80 \<le> cp \<longrightarrow> 0x80 \<le> char_code c" by blast
  show ?thesis
  proof (cases "short_escape c")
    case None
    have "clean_codepoint cp = c # s" using assms u(1) by (simp add: clean_codepoint_def scalar_def)
    with None show ?thesis by (simp add: u clean.simps(2))
  next
    case (Some e)
    then have "char_code c < 0x80" by (auto simp: short_escape_def char_code_def split: if_splits)
    with u(4) have "s = []" using u(1) by (cases "0x80 \<le> cp") (auto simp: codePointToUTF8_def)
    with Some show ?thesis by (simp add: u(1) clean.simps(2))
  qed
qed

lemma clean_utf8: "utf8_text s \<Longrightarrow> clean s = s"
proof -
  have "clean (concat (map codePointToUTF8 cps)) = concat (map codePointToUTF8 cps)" if "\<forall>cp \<in> set cps. scalar cp" for cps
    using that by (induction cps) (simp_all add: clean_scalar)
  then show "utf8_text s \<Longrightarrow> clean s = s" by (auto simp: utf8_text_def)
qed

lemma utf8_append: "utf8_text s \<Longrightarrow> utf8_text t \<Longrightarrow> utf8_text (s @ t)"
  unfolding utf8_text_def
  by (elim exE conjE) (rule_tac x = "cps @ cpsa" in exI, auto)

lemma utf8_ascii: "\<forall>c \<in> set s. char_code c < 0x80 \<Longrightarrow> utf8_text s"
proof -
  assume a: "\<forall>c \<in> set s. char_code c < 0x80"
  then have "s = concat (map codePointToUTF8 (map char_code s))" by (induction s) (simp_all add: codePointToUTF8_eq)
  with a show ?thesis unfolding utf8_text_def by (intro exI [of _ "map char_code s"]) (auto simp: scalar_def)
qed

lemma clean_ascii: "\<forall>c \<in> set s. char_code c < 0x80 \<Longrightarrow> clean s = s"
  by (simp add: clean_utf8 utf8_ascii)

fun utf8_json :: "json \<Rightarrow> bool"
  and utf8_elements :: "json list \<Rightarrow> bool"
  and utf8_members :: "(string \<times> json) list \<Rightarrow> bool" where
  "utf8_json (JString s) \<longleftrightarrow> utf8_text s"
| "utf8_json (JArray xs) \<longleftrightarrow> utf8_elements xs"
| "utf8_json (JObject m) \<longleftrightarrow> sorted_map m \<and> utf8_members m"
| "utf8_json v \<longleftrightarrow> True"
| "utf8_elements [] \<longleftrightarrow> True"
| "utf8_elements (x # xs) \<longleftrightarrow> utf8_json x \<and> utf8_elements xs"
| "utf8_members [] \<longleftrightarrow> True"
| "utf8_members ((k, x) # m) \<longleftrightarrow> utf8_text k \<and> utf8_json x \<and> utf8_members m"

lemma std_assign_last: "\<forall>x \<in> fst ` set m. x < k \<Longrightarrow> std_assign k v m = m @ [(k, v)]"
  by (induction m) auto

lemma clean_json_utf8:
  "utf8_json v \<Longrightarrow> clean_json v = v"
  "utf8_elements xs \<Longrightarrow> clean_elements xs = xs"
  "utf8_members m \<Longrightarrow> sorted_map (acc @ m) \<Longrightarrow> clean_members m acc = acc @ m"
proof (induction v and xs and m arbitrary: and and acc rule: utf8_json_utf8_elements_utf8_members.induct)
  case (8 k x m)
  have "\<forall>y \<in> fst ` set acc. y < k" using "8.prems"(2) by (auto simp: sorted_map_def sorted_wrt_append)
  with 8 show ?case by (simp add: clean_utf8 std_assign_last)
qed (simp_all add: clean_utf8)


definition json_sample :: json where
  "json_sample = JObject [(''a'', JArray [JInt (- 7), JNull, JBool True]), (''b'', JString [CHR 0x0A, CHR 0xC3, CHR 0xA9, CHR 0x22])]"

lemma json_sample_ok: "readable 1 json_sample \<and> utf8_json json_sample"
proof -
  have "utf8_text [CHR 0xC3, CHR 0xA9]"
    unfolding utf8_text_def by (rule exI [of _ "[0xE9]"]) (simp add: codePointToUTF8_eq scalar_def char_of_def bit_0)
  then have "utf8_text ([CHR 0x0A] @ [CHR 0xC3, CHR 0xA9] @ [CHR 0x22])"
    by (intro utf8_append [OF utf8_ascii utf8_append [OF _ utf8_ascii]]) (simp_all add: char_code_def)
  then have "utf8_text [CHR 0x0A, CHR 0xC3, CHR 0xA9, CHR 0x22]" by simp
  moreover have "utf8_text ''a''" "utf8_text ''b''" by (simp_all add: utf8_ascii char_code_def)
  ultimately show ?thesis
    by (simp add: json_sample_def stackLimit_def sorted_map_def clean_utf8 less_char_def)
qed



section \<open>Documents on which the reader throws\<close>

lemma comments_grow: "readToken st = Some (t, st') \<Longrightarrow> \<exists>x. j_commentsBefore st' = j_commentsBefore st @ x"
  by (auto simp: readToken_def readComment_def Let_def bind_eq_Some_conv split: list.splits if_splits prod.splits)

lemma skipped_comments_grow: "skipCommentTokens st = Some (t, st') \<Longrightarrow> \<exists>x. j_commentsBefore st' = j_commentsBefore st @ x"
proof (induction st rule: skipCommentTokens.induct)
  case (1 st)
  then show ?case
    by (subst (asm) (2) skipCommentTokens.simps) (fastforce dest: comments_grow split: option.splits if_splits)
qed

lemma apostrophe_comment:
  "\<exists>st1 x. readToken (reader_new (CHR 0x27 # CHR ''/'' # rest)) = Some
     (\<lparr>tok_type = tokenComment, tok_start = CHR 0x27 # CHR ''/'' # rest, tok_end = j_current st1\<rparr>, st1)
     \<and> j_commentsBefore st1 = CHR 0x27 # x"
proof -
  let ?s = "readCppStyleComment rest"
  have l: "length ?s \<le> length rest" by (rule readCppStyleComment_shorter)
  have "text_between (CHR 0x27 # CHR ''/'' # rest) ?s = CHR 0x27 # CHR ''/'' # take (length rest - length ?s) rest"
    using l by (simp add: text_between_def Suc_diff_le)
  then show ?thesis
    by (cases "take (length rest - length ?s) rest")
      (simp_all add: readToken_def skipSpaces_def reader_new_def readComment_def Let_def)
qed

lemma read_apostrophe: "read_value sc (Suc n) d v (reader_new (CHR 0x27 # CHR ''/'' # rest)) = None"
proof -
  from apostrophe_comment [of rest] obtain st1 x where
    t: "readToken (reader_new (CHR 0x27 # CHR ''/'' # rest)) = Some
     (\<lparr>tok_type = tokenComment, tok_start = CHR 0x27 # CHR ''/'' # rest, tok_end = j_current st1\<rparr>, st1)"
    "j_commentsBefore st1 = CHR 0x27 # x" by blast
  then have "skipCommentTokens (reader_new (CHR 0x27 # CHR ''/'' # rest)) = skipCommentTokens st1"
    by (subst skipCommentTokens.simps) simp
  with t(2) skipped_comments_grow [of st1] show ?thesis
    by (cases "skipCommentTokens st1") (fastforce simp: read_value.simps(2) take_comments_def setComment_def)+
qed

lemma read_nested:
  assumes "j_current st = replicate (Suc k) CHR ''['' @ rest" and "j_commentsBefore st = []"
    and "stackLimit < d + k" and "2 * k + 1 \<le> n"
  shows "read_value sc n d v st = None"
  using assms
proof (induction k arbitrary: st d n v)
  case 0
  then obtain n' where "n = Suc n'" by (cases n) auto
  with 0 show ?case by (simp add: read_value.simps(2))
next
  case (Suc k)
  then obtain n' where n: "n = Suc (Suc n')" by (cases n; cases "n - 1") auto
  let ?s = "replicate (Suc k) CHR ''['' @ rest"
  have cur: "j_current st = CHR ''['' # ?s" using Suc.prems(1) by simp
  have tok: "skipCommentTokens st = Some (\<lparr>tok_type = tokenArrayBegin, tok_start = CHR ''['' # ?s, tok_end = ?s\<rparr>, st\<lparr>j_current := ?s\<rparr>)"
    by (rule skipCommentTokens_plain [OF mark_token [OF cur mark_tokens(3)]]) simp_all
  have "read_value sc n' (Suc d) JNull (st\<lparr>j_current := ?s\<rparr>) = None"
    using Suc.prems n by (intro Suc.IH) simp_all
  moreover have "skipSpaces ?s = ?s" by (simp add: skipSpaces_def)
  ultimately show ?case using tok Suc.prems(2) unfolding n
    by (simp add: read_value.simps(2) read_elements.simps(2) take_comments_def del: replicate_Suc)
qed

lemma parse_apostrophe: "parse_json sc (CHR 0x27 # CHR ''/'' # rest) = None"
  using read_apostrophe [of sc _ 1 JNull rest] by (simp add: parse_json_def reader_parse_def)

text \<open>two kinds of documents make the reader throw: those that begin with more than a thousand opening
  brackets, and those that begin with an apostrophe and a slash, which it takes for a comment that
  the value then refuses.\<close>

theorem json_reader_throws:
  "(1000 < n \<longrightarrow> parse_json sc (replicate n CHR ''['' @ rest) = None)
   \<and> parse_json sc (CHR 0x27 # CHR ''/'' # rest) = None"
proof
  show "1000 < n \<longrightarrow> parse_json sc (replicate n CHR ''['' @ rest) = None"
  proof
    assume n: "1000 < n"
    let ?doc = "replicate n CHR ''['' @ rest"
    have "read_value sc (2 * length ?doc + 1) 1 JNull (reader_new ?doc) = None"
      using n by (intro read_nested [where k = "n - 1"]) (simp_all add: reader_new_def stackLimit_def)
    then show "parse_json sc ?doc = None" by (simp add: parse_json_def reader_parse_def)
  qed
qed (rule parse_apostrophe)

theorem json_reader_throws_witness:
  "parse_json (\<lambda>_. None) (replicate 1001 CHR ''['' @ []) = None \<and> parse_json (\<lambda>_. None) (CHR 0x27 # CHR ''/'' # []) = None"
  using json_reader_throws [of 1001 "\<lambda>_. None" "[]"] by simp

end
