(* ===== verification/Session_Props.thy ===== *)
theory Session_Props
  imports Session Json_Read_Back
begin

text \<open>
  What sessions and their controller guarantee: the stored form of a session is read back, the
  controller's dictionary, its objects and its table stay consistent under every operation, and
  what \<open>get_session\<close> and a restart do.
\<close>

section \<open>The stored form\<close>

definition session_ok :: "session \<Rightarrow> bool" where
  "session_ok s \<longleftrightarrow> sorted_map (m_ips s) \<and> sorted_map (m_dRoles s) \<and> is_int32 (m_idUser s)"

definition roles_json :: "(string, unit) std_map \<Rightarrow> json" where
  "roles_json m = (if m = [] then JNull else JArray (map (\<lambda>(r, _). JString r) m))"

lemma append_all_json_array: "append_all_json xs (JArray ys) = Some (JArray (ys @ xs))"
  by (induction xs arbitrary: ys) auto

lemma fill_roles_null: "fill_roles s JNull = Some (roles_json (m_dRoles s))"
  by (cases "m_dRoles s") (auto simp: fill_roles_def roles_json_def append_all_json_array)

lemma export_data_eq:
  "export_data s = Some (JObject
     [(''Roles'', roles_json (m_dRoles s)), (''bAuthenticate'', JBool (m_bAuthenticate s)),
      (''idUser'', JInt (m_idUser s)), (''sNickname'', JString (m_sNickname s)),
      (''sPosition'', JString (m_sPosition s))])"
  by (simp add: export_data_def fill_roles_null less_char_def)

lemma std_insert_last: "\<forall>x \<in> fst ` set m. x < k \<Longrightarrow> std_insert k v m = m @ [(k, v)]"
  by (induction m) auto

lemma insert_roles_fold:
  "insert_roles (map JString rs) s = Some (s\<lparr>m_dRoles := fold (\<lambda>r. std_insert r ()) rs (m_dRoles s)\<rparr>)"
  by (induction rs arbitrary: s) (simp_all add: AppendRole_def)

lemma sorted_map_fold_insert: "sorted_map m \<Longrightarrow> sorted_map (fold (\<lambda>r. std_insert r ()) rs m)"
  by (induction rs arbitrary: m) (simp_all add: sorted_map_insert)

lemma fold_insert_sorted:
  "sorted_map (m @ n) \<Longrightarrow> fold (\<lambda>r. std_insert r ()) (map fst n) m = m @ n"
proof (induction n arbitrary: m)
  case (Cons e n)
  obtain r where e: "e = (r, ())" by (cases e) auto
  have "\<forall>x \<in> fst ` set m. x < r"
    using Cons.prems by (auto simp: sorted_map_def e sorted_wrt_append)
  with Cons show ?case by (simp add: e std_insert_last)
qed simp

text \<open>The part of a session that is stored, and what is read back: its texts in valid UTF-8.\<close>

definition same_data :: "session \<Rightarrow> session \<Rightarrow> bool" where
  "same_data s t \<longleftrightarrow> m_bAuthenticate s = m_bAuthenticate t \<and> m_idUser s = m_idUser t
     \<and> m_sNickname s = m_sNickname t \<and> m_sPosition s = m_sPosition t \<and> m_dRoles s = m_dRoles t"

definition clean_session :: "session \<Rightarrow> session" where
  "clean_session s = s\<lparr>m_sNickname := clean (m_sNickname s), m_sPosition := clean (m_sPosition s),
     m_dRoles := fold (\<lambda>r. std_insert r ()) (map clean (map fst (m_dRoles s))) []\<rparr>"

definition utf8_session :: "session \<Rightarrow> bool" where
  "utf8_session s \<longleftrightarrow> utf8_text (m_sNickname s) \<and> utf8_text (m_sPosition s) \<and> (\<forall>r \<in> fst ` set (m_dRoles s). utf8_text r)"

lemma clean_session_utf8: "session_ok s \<Longrightarrow> utf8_session s \<Longrightarrow> clean_session s = s"
proof -
  assume a: "session_ok s" "utf8_session s"
  then have "map clean (map fst (m_dRoles s)) = map fst (m_dRoles s)"
    by (intro map_idI) (auto simp: utf8_session_def clean_utf8)
  with a fold_insert_sorted [of "[]" "m_dRoles s"] show "clean_session s = s"
    by (simp add: clean_session_def utf8_session_def clean_utf8 session_ok_def del: map_map)
qed

lemma readable_texts: "d \<le> stackLimit \<Longrightarrow> readable_elements d (map JString xs)"
  by (induction xs) simp_all

lemma clean_texts: "clean_elements (map JString xs) = map JString (map clean xs)"
  by (induction xs) simp_all

lemma roles_json_eq: "roles_json m = (if m = [] then JNull else JArray (map JString (map fst m)))"
  by (simp add: roles_json_def case_prod_unfold)

lemma clean_names: "clean ''Roles'' = ''Roles''" "clean ''bAuthenticate'' = ''bAuthenticate''" "clean ''idUser'' = ''idUser''"
  "clean ''sNickname'' = ''sNickname''" "clean ''sPosition'' = ''sPosition''"
  by (rule clean_ascii, simp add: char_code_def)+

lemma parse_export:
  assumes "session_ok s"
  shows "parse_json sc (json_string (the (export_data s))) = Some (True, JObject
     [(''Roles'', clean_json (roles_json (m_dRoles s))), (''bAuthenticate'', JBool (m_bAuthenticate s)),
      (''idUser'', JInt (m_idUser s)), (''sNickname'', JString (clean (m_sNickname s))),
      (''sPosition'', JString (clean (m_sPosition s)))])"
proof -
  have "readable 1 (the (export_data s))"
    using assms by (simp add: export_data_eq clean_names stackLimit_def roles_json_eq readable_texts session_ok_def is_int32_def
        flip: map_map)
  from parse_written [OF this, of sc] show ?thesis
    by (simp add: export_data_eq clean_names less_char_def)
qed

lemma import_export:
  assumes "session_ok s"
  shows "\<exists>s1. import_data sc (json_string (the (export_data s))) t = Some (True, s1) \<and> same_data (clean_session s) s1
     \<and> m_session_id s1 = m_session_id t \<and> m_created s1 = m_created t \<and> m_expired s1 = m_expired t
     \<and> m_ips s1 = m_ips t \<and> (sorted_map (m_ips t) \<longrightarrow> session_ok s1)"
proof -
  have "json_items (clean_json (roles_json (m_dRoles s))) = map JString (map clean (map fst (m_dRoles s)))"
    by (simp only: roles_json_eq) (simp add: clean_texts flip: map_map)
  moreover have "json_items JNull = []" by simp
  ultimately show ?thesis
    using assms sorted_map_fold_insert [of "[]" "map clean (map fst (m_dRoles s))"]
    by (simp add: import_data_def parse_export json_get_def json_at_def insert_roles_fold
        session_reset_def base_reset_def same_data_def clean_session_def session_ok_def del: map_map)
qed

section \<open>Consistency of the controller\<close>

definition controller_ok :: "session_controller \<Rightarrow> bool" where
  "controller_ok c \<longleftrightarrow> sorted_map (m_session_memory c)
     \<and> (\<forall>sid p. std_find sid (m_session_memory c) = Some p \<longrightarrow>
          (\<exists>s. deref p (sc_objects c) = Some s \<and> m_session_id s = sid))
     \<and> (\<forall>p s. deref p (sc_objects c) = Some s \<longrightarrow> session_ok s)"

text \<open>The dictionary and the table have the same sessions.\<close>

definition in_step :: "session_controller \<Rightarrow> bool" where
  "in_step c \<longleftrightarrow> (\<forall>sid. std_find sid (m_session_memory c) = None \<longleftrightarrow> std_find sid (m_session_db c) = None)"

lemma std_find_append: "std_find x (m @ m') = (case std_find x m of None \<Rightarrow> std_find x m' | Some v \<Rightarrow> Some v)"
  by (simp add: std_find_def map_add_def split: option.splits)

lemma std_find_upsert: "std_find x (upsert_row k r t) = (if x = k then Some r else std_find x t)"
  by (auto simp: upsert_row_def std_find_append std_find_erase split: option.splits)

lemma controller_okD:
  assumes "controller_ok c" and "std_find sid (m_session_memory c) = Some p"
  obtains s where "deref p (sc_objects c) = Some s" "m_session_id s = sid" "session_ok s"
  using assms by (auto simp: controller_ok_def)

lemma session_ok_new: "session_ok (s2h_session_new sid a b)"
  by (simp add: session_ok_def s2h_session_new_def session_reset_def base_reset_def is_int32_def)

lemma session_id_new [simp]: "m_session_id (s2h_session_new sid a b) = sid"
  by (simp add: s2h_session_new_def session_reset_def base_reset_def)

lemma db_update_session_total: "\<exists>t'. db_update_session now v s t = Some t'"
  by (simp add: db_update_session_def export_data_eq)

text \<open>The row \<open>update_session\<close> stores for a session.\<close>

definition stored_row :: "int \<Rightarrow> int \<Rightarrow> session \<Rightarrow> session_row" where
  "stored_row now version s =
     \<lparr>r_Version = version, r_dtCreate = to_int (m_created s), r_dtUpdate = to_int now,
      r_dtExpire = to_int (m_expired s), r_Data = json_string (the (export_data s))\<rparr>"

lemma db_update_session_eq:
  "db_update_session now v s t = Some (upsert_row (m_session_id s) (stored_row now v s) t)"
  by (simp add: db_update_session_def export_data_eq stored_row_def)

definition first_session :: "string \<Rightarrow> int \<Rightarrow> session" where
  "first_session uid now = (s2h_session_new uid now (now + DEFAULT_EXPIRE_MINUTES * 60))\<lparr>m_count := 1\<rparr>"

lemma new_session_eq:
  "new_session get_session_creator now uid b c = Some (Some (length (sc_objects c)), True,
     c\<lparr>sc_objects := sc_objects c @ [first_session uid now],
       m_session_memory := std_insert uid (length (sc_objects c)) (m_session_memory c),
       m_session_db := upsert_row uid (stored_row now (m_version_current c) (first_session uid now)) (m_session_db c)\<rparr>)"
  by (simp add: new_session_def get_session_creator_def first_session_def memory_insert_def new_object_def
      Let_def db_update_session_eq s2h_session_new_def session_reset_def base_reset_def)

lemma first_session_fields:
  "m_session_id (first_session uid now) = uid" "m_expired (first_session uid now) = now + 1800"
  "\<not> m_bAuthenticate (first_session uid now)" "session_ok (first_session uid now)"
  using session_ok_new [of uid now "now + 1800"]
  by (auto simp: first_session_def s2h_session_new_def session_reset_def base_reset_def
      DEFAULT_EXPIRE_MINUTES_def session_ok_def)

lemma new_session_ok:
  assumes c: "controller_ok c" and uid: "std_find uid (m_session_memory c) = None"
    and new: "new_session get_session_creator now uid b c = Some (q, b', c')"
  shows "controller_ok c'" and "in_step c \<Longrightarrow> in_step c'"
proof -
  have sorted: "sorted_map (m_session_memory c)" using c by (simp add: controller_ok_def)
  have mem: "std_find x (m_session_memory c') = (if x = uid then Some (length (sc_objects c)) else std_find x (m_session_memory c))" for x
    using new uid by (auto simp: new_session_eq sd.find_insert_new [OF sorted])
  have old: "std_find sid (m_session_memory c) \<noteq> Some (length (sc_objects c))" for sid
  proof
    assume "std_find sid (m_session_memory c) = Some (length (sc_objects c))"
    from controller_okD [OF c this] obtain s where "deref (length (sc_objects c)) (sc_objects c) = Some s" .
    then show False by (simp add: deref_def)
  qed
  show "controller_ok c'"
    using c new mem old first_session_fields [of uid now] sd.ok_insert [OF sorted]
    by (auto simp: new_session_eq controller_ok_def split: if_splits)
  show "in_step c \<Longrightarrow> in_step c'"
    using new mem by (auto simp: new_session_eq in_step_def std_find_upsert)
qed

lemma drop_session_ok:
  assumes "controller_ok c" and "m_session_id s = sid"
  shows "controller_ok (c\<lparr>m_session_db := db_remove_session s (m_session_db c),
      m_session_memory := std_erase sid (m_session_memory c)\<rparr>)"
    and "in_step c \<Longrightarrow> in_step (c\<lparr>m_session_db := db_remove_session s (m_session_db c),
      m_session_memory := std_erase sid (m_session_memory c)\<rparr>)"
  using assms
  by (auto simp: controller_ok_def in_step_def sd.ok_erase std_find_erase db_remove_session_def)

lemma modify_ok:
  assumes "controller_ok c"
    and "\<And>s. session_ok s \<Longrightarrow> session_ok (f s) \<and> m_session_id (f s) = m_session_id s"
  shows "controller_ok (c\<lparr>sc_objects := modify p f (sc_objects c)\<rparr>)"
proof -
  let ?h = "modify p f (sc_objects c)"
  have "\<exists>t. deref q ?h = Some t \<and> m_session_id t = sid" if q: "std_find sid (m_session_memory c) = Some q" for sid q
  proof -
    obtain t where t: "deref q (sc_objects c) = Some t" "m_session_id t = sid" "session_ok t"
      using controller_okD [OF assms(1) q] .
    then show ?thesis using assms(2) by (cases "q = p") auto
  qed
  moreover have "session_ok t" if "deref q ?h = Some t" for q t
    using that assms by (cases "q = p") (auto simp: controller_ok_def)
  ultimately show ?thesis using assms(1) by (simp add: controller_ok_def)
qed


section \<open>Finding, prolonging, creating\<close>

text \<open>The session a client's identifier stands for at a time, if it is alive.\<close>

definition live_session :: "int \<Rightarrow> string \<Rightarrow> session_controller \<Rightarrow> session option" where
  "live_session now sid c =
     (case find_session sid c of
        None \<Rightarrow> None
      | Some p \<Rightarrow> (case deref p (sc_objects c) of
                    None \<Rightarrow> None
                  | Some s \<Rightarrow> if now < m_expired s then Some s else None))"

lemma session_ok_expired [simp]: "session_ok (s\<lparr>m_expired := x\<rparr>) = session_ok s"
  by (simp add: session_ok_def)

lemma get_session_live:
  assumes "controller_ok c" and "live_session now sid c = Some t"
  shows "\<exists>p c'. get_session creator now uid sid b c = Some (Some p, False, c') \<and> controller_ok c'
     \<and> m_session_memory c' = m_session_memory c \<and> m_session_db c' = m_session_db c
     \<and> find_session sid c = Some p \<and> m_session_id t = sid
     \<and> deref p (sc_objects c') = Some (t\<lparr>m_expired := now + get_expire_shift t\<rparr>)"
proof -
  obtain p where p: "std_find sid (m_session_memory c) = Some p" "deref p (sc_objects c) = Some t" "now < m_expired t"
    using assms(2) by (auto simp: live_session_def find_session_def split: option.splits if_splits)
  moreover have "m_session_id t = sid" using controller_okD [OF assms(1) p(1)] p(2) by auto
  ultimately show ?thesis
    using modify_ok [OF assms(1), of "\<lambda>s. s\<lparr>m_expired := now + get_expire_shift s\<rparr>" p]
    by (simp add: get_session_def find_session_def)
qed

text \<open>Otherwise the stale session is dropped and a new one is created.\<close>

definition without_session :: "string \<Rightarrow> session_controller \<Rightarrow> session_controller" where
  "without_session sid c =
     (if find_session sid c = None then c
      else c\<lparr>m_session_memory := std_erase sid (m_session_memory c), m_session_db := std_erase sid (m_session_db c)\<rparr>)"

lemma get_session_dead:
  assumes "controller_ok c" and "live_session now sid c = None"
  shows "get_session creator now uid sid b c = new_session creator now uid b (without_session sid c)"
proof (cases "std_find sid (m_session_memory c)")
  case None
  then show ?thesis by (simp add: get_session_def without_session_def find_session_def)
next
  case (Some p)
  from controller_okD [OF assms(1) Some] obtain s where
    s: "deref p (sc_objects c) = Some s" "m_session_id s = sid" "session_ok s" .
  then have "\<not> now < m_expired s"
    using assms(2) Some by (auto simp: live_session_def find_session_def split: if_splits)
  then show ?thesis
    using s Some by (simp add: get_session_def without_session_def find_session_def db_remove_session_def)
qed

lemma without_session_ok:
  assumes "controller_ok c"
  shows "controller_ok (without_session sid c)" and "in_step c \<Longrightarrow> in_step (without_session sid c)"
    and "std_find x (m_session_memory (without_session sid c)) = (if x = sid then None else std_find x (m_session_memory c))"
    and "sc_objects (without_session sid c) = sc_objects c"
  using assms by (auto simp: without_session_def controller_ok_def in_step_def sd.ok_erase std_find_erase find_session_def)

lemma get_session_created:
  assumes "controller_ok c" and "live_session now sid c = None" and "std_find uid (m_session_memory c) = None"
  shows "\<exists>p c'. get_session get_session_creator now uid sid b c = Some (Some p, True, c')
     \<and> controller_ok c' \<and> (in_step c \<longrightarrow> in_step c')
     \<and> deref p (sc_objects c') = Some (first_session uid now)
     \<and> (\<forall>x. find_session x c' = (if x = uid then Some p else if x = sid then None else find_session x c))"
proof -
  let ?c = "without_session sid c"
  note ok = without_session_ok [OF assms(1)]
  have uid: "std_find uid (m_session_memory ?c) = None" using assms(3) ok(3) by simp
  have sorted: "sorted_map (m_session_memory ?c)" using ok(1) by (simp add: controller_ok_def)
  show ?thesis
    using get_session_dead [OF assms(1,2)] new_session_ok [OF ok(1) uid new_session_eq] ok(2,3)
      sd.find_insert_new [OF sorted uid]
    by (fastforce simp: new_session_eq find_session_def)
qed

section \<open>Dropping expired sessions\<close>

definition expired_at :: "int \<Rightarrow> session arena \<Rightarrow> nat \<Rightarrow> bool" where
  "expired_at now h p \<longleftrightarrow> (case deref p h of None \<Rightarrow> False | Some s \<Rightarrow> m_expired s < now)"

lemma check_alive_loop_spec:
  assumes "controller_ok c" and "distinct (map fst m)"
    and "\<And>sid p. (sid, p) \<in> set m \<Longrightarrow> std_find sid (m_session_memory c) = Some p"
  shows "\<exists>c'. check_alive_loop now m c = Some c' \<and> controller_ok c' \<and> (in_step c \<longrightarrow> in_step c')
     \<and> sc_objects c' = sc_objects c \<and> m_version_min c' = m_version_min c
     \<and> (\<forall>x. find_session x c' = (case map_of m x of
            Some p \<Rightarrow> if expired_at now (sc_objects c) p then None else find_session x c
          | None \<Rightarrow> find_session x c))"
  using assms
proof (induction m arbitrary: c)
  case (Cons e m)
  obtain sid p where e: "e = (sid, p)" by (cases e)
  have "std_find sid (m_session_memory c) = Some p" using Cons.prems(3) by (simp add: e)
  from controller_okD [OF Cons.prems(1) this] obtain s where
    s: "deref p (sc_objects c) = Some s" "m_session_id s = sid" "session_ok s" .
  define c1 where "c1 = (if m_expired s < now
      then c\<lparr>m_session_db := db_remove_session s (m_session_db c),
             m_session_memory := std_erase sid (m_session_memory c)\<rparr> else c)"
  have c1: "controller_ok c1" "in_step c \<longrightarrow> in_step c1" "sc_objects c1 = sc_objects c"
    "m_version_min c1 = m_version_min c"
    "find_session x c1 = (if x = sid \<and> m_expired s < now then None else find_session x c)" for x
    using drop_session_ok [OF Cons.prems(1) s(2)] Cons.prems(1)
    by (auto simp: c1_def find_session_def std_find_erase)
  have "std_find k (m_session_memory c1) = Some q" if "(k, q) \<in> set m" for k q
  proof -
    have "k \<noteq> sid" using that Cons.prems(2) by (force simp: e)
    then show ?thesis using c1(5) [of k] Cons.prems(3) [of k q] that by (simp add: find_session_def)
  qed
  from Cons.IH [OF c1(1) _ this] Cons.prems(2) obtain c' where
    c': "check_alive_loop now m c1 = Some c'" "controller_ok c'" "in_step c1 \<longrightarrow> in_step c'"
    "sc_objects c' = sc_objects c1" "m_version_min c' = m_version_min c1"
    "\<forall>x. find_session x c' = (case map_of m x of
        Some p \<Rightarrow> if expired_at now (sc_objects c1) p then None else find_session x c1
      | None \<Rightarrow> find_session x c1)"
    by auto
  have "map_of m sid = None" using Cons.prems(2) by (force simp: e map_of_eq_None_iff)
  then show ?case
    using c' c1 s(1) by (auto simp: e c1_def [symmetric] expired_at_def split: option.splits)
qed auto

lemma sorted_map_distinct: "sorted_map m \<Longrightarrow> distinct (map fst m)"
  by (simp add: sorted_map_def strict_sorted_iff)

lemma check_alive_spec:
  assumes "controller_ok c"
  shows "\<exists>c'. check_alive_sessions now c = Some c' \<and> controller_ok c' \<and> (in_step c \<longrightarrow> in_step c')
     \<and> sc_objects c' = sc_objects c \<and> m_version_min c' = m_version_min c
     \<and> (\<forall>x. find_session x c' = (case find_session x c of
            Some p \<Rightarrow> if expired_at now (sc_objects c) p then None else Some p | None \<Rightarrow> None))"
proof -
  have s: "sorted_map (m_session_memory c)" using assms by (simp add: controller_ok_def)
  from check_alive_loop_spec [OF assms sorted_map_distinct [OF s], of now] show ?thesis
    by (fastforce simp: check_alive_sessions_def find_session_def std_find_def std_find_entry [OF s]
        split: option.splits)
qed


section \<open>Restart\<close>

text \<open>A row that some session was stored as, and the object made of a row.\<close>

definition row_ok :: "session_row \<Rightarrow> bool" where
  "row_ok r \<longleftrightarrow> (\<exists>s. session_ok s \<and> r_Data r = json_string (the (export_data s)))"

definition loaded :: "string \<Rightarrow> session_row \<Rightarrow> session \<Rightarrow> bool" where
  "loaded sid r s \<longleftrightarrow> m_session_id s = sid \<and> m_created s = r_dtCreate r \<and> m_expired s = r_dtExpire r
     \<and> session_ok s \<and> (\<forall>s0. session_ok s0 \<and> r_Data r = json_string (the (export_data s0)) \<longrightarrow> same_data (clean_session s0) s)"

lemma import_loaded:
  assumes "row_ok r"
  shows "\<exists>b s. import_data sc (r_Data r) (s2h_session_new sid (r_dtCreate r) (r_dtExpire r)) = Some (b, s)
     \<and> loaded sid r s"
proof -
  let ?t = "s2h_session_new sid (r_dtCreate r) (r_dtExpire r)"
  have t: "m_session_id ?t = sid" "m_created ?t = r_dtCreate r" "m_expired ?t = r_dtExpire r" "sorted_map (m_ips ?t)"
    by (simp_all add: s2h_session_new_def session_reset_def base_reset_def)
  obtain s0 where s0: "session_ok s0" "r_Data r = json_string (the (export_data s0))" using assms by (auto simp: row_ok_def)
  from import_export [OF s0(1), of sc ?t] obtain s1 where
    s1: "import_data sc (r_Data r) ?t = Some (True, s1)" "m_session_id s1 = sid" "m_created s1 = r_dtCreate r"
    "m_expired s1 = r_dtExpire r" "session_ok s1"
    using t s0(2) by auto
  moreover have "same_data (clean_session s) s1" if "session_ok s" "r_Data r = json_string (the (export_data s))" for s
    using import_export [OF that(1), of sc ?t] that(2) s1(1) by auto
  ultimately show ?thesis by (auto simp: loaded_def)
qed

lemma memory_insert_ok:
  assumes c: "controller_ok c" and s: "session_ok s" "std_find (m_session_id s) (m_session_memory c) = None"
  shows "controller_ok (snd (memory_insert s c))"
    and "find_session x (snd (memory_insert s c))
      = (if x = m_session_id s then Some (length (sc_objects c)) else find_session x c)"
    and "deref p (sc_objects (snd (memory_insert s c)))
      = (if p = length (sc_objects c) then Some s else deref p (sc_objects c))"
proof -
  have sorted: "sorted_map (m_session_memory c)" using c by (simp add: controller_ok_def)
  have old: "std_find sid (m_session_memory c) \<noteq> Some (length (sc_objects c))" for sid
  proof
    assume "std_find sid (m_session_memory c) = Some (length (sc_objects c))"
    from controller_okD [OF c this] obtain t where "deref (length (sc_objects c)) (sc_objects c) = Some t" .
    then show False by (simp add: deref_def)
  qed
  show "controller_ok (snd (memory_insert s c))"
    using c s old sd.ok_insert [OF sorted] sd.find_insert_new [OF sorted s(2)]
    by (auto simp: controller_ok_def memory_insert_def new_object_def Let_def split: if_splits)
qed (use sd.find_insert_new [of "m_session_memory c" "m_session_id s"] s c in
  \<open>auto simp: memory_insert_def new_object_def Let_def find_session_def controller_ok_def\<close>)

lemma load_rows_spec:
  assumes "controller_ok c" and "distinct (map fst rows)" and "\<forall>e \<in> set rows. row_ok (snd e) \<and> find_session (fst e) c = None"
  shows "\<exists>c'. load_rows sc s2h_session_new rows c = Some c' \<and> controller_ok c'
     \<and> m_session_db c' = m_session_db c
     \<and> (\<forall>p s. deref p (sc_objects c) = Some s \<longrightarrow> deref p (sc_objects c') = Some s)
     \<and> (\<forall>x. case map_of rows x of
            None \<Rightarrow> find_session x c' = find_session x c
          | Some r \<Rightarrow> \<exists>p s. find_session x c' = Some p \<and> deref p (sc_objects c') = Some s \<and> loaded x r s)"
  using assms
proof (induction rows arbitrary: c)
  case (Cons e rows)
  obtain sid r where e: "e = (sid, r)" by (cases e)
  obtain b s where s: "import_data sc (r_Data r) (s2h_session_new sid (r_dtCreate r) (r_dtExpire r)) = Some (b, s)"
    "loaded sid r s"
    using import_loaded [of r sc sid] Cons.prems(3) by (auto simp: e)
  have sid: "m_session_id s = sid" "session_ok s" using s(2) by (auto simp: loaded_def)
  have none: "std_find (m_session_id s) (m_session_memory c) = None"
    using Cons.prems(3) sid by (simp add: e find_session_def)
  define c1 where "c1 = snd (memory_insert s c)"
  note c1 = memory_insert_ok [OF Cons.prems(1) sid(2) none, folded c1_def]
  have db: "m_session_db c1 = m_session_db c" by (simp add: c1_def memory_insert_def new_object_def)
  have dist: "distinct (map fst rows)" using Cons.prems(2) by simp
  have "\<forall>q \<in> set rows. row_ok (snd q) \<and> find_session (fst q) c1 = None"
    using c1(2) Cons.prems(2,3) sid(1) by (force simp: e)
  from Cons.IH [OF c1(1) dist this] obtain c' where
    c': "load_rows sc s2h_session_new rows c1 = Some c'" "controller_ok c'" "m_session_db c' = m_session_db c1"
    "\<forall>p s. deref p (sc_objects c1) = Some s \<longrightarrow> deref p (sc_objects c') = Some s"
    "\<forall>x. case map_of rows x of
            None \<Rightarrow> find_session x c' = find_session x c1
          | Some r \<Rightarrow> \<exists>p s. find_session x c' = Some p \<and> deref p (sc_objects c') = Some s \<and> loaded x r s"
    by blast
  have old: "deref p (sc_objects c) = Some t \<Longrightarrow> deref p (sc_objects c') = Some t" for p t
    using c'(4) c1(3) deref_less [of p "sc_objects c" t] by auto
  have "deref (length (sc_objects c)) (sc_objects c') = Some s" using c'(4) c1(3) by simp
  moreover have "map_of rows sid = None" using Cons.prems(2) by (force simp: e map_of_eq_None_iff)
  then have "find_session sid c' = Some (length (sc_objects c))" using c'(5) c1(2) sid(1)
    by (metis (mono_tags) option.simps(4))
  moreover have "case map_of rows x of None \<Rightarrow> find_session x c' = find_session x c
      | Some r \<Rightarrow> \<exists>p s. find_session x c' = Some p \<and> deref p (sc_objects c') = Some s \<and> loaded x r s"
    if "x \<noteq> sid" for x
    using c'(5) [rule_format, of x] c1(2) [of x] sid(1) that by (cases "map_of rows x") auto
  ultimately show ?case
    using c'(1-3) s old db by (auto simp: e c1_def [symmetric])
qed (auto split: option.splits)

end
