(* ===== verification/Session_Theorems.thy ===== *)
theory Session_Theorems
  imports Session_Props
begin

text \<open>
  The properties of sessions: runs of the server's operations on the session controller, what a
  client's identifier leads to, what survives a restart, and when an idle period is counted.
\<close>

section \<open>Runs of the controller\<close>

lemma update_session_ok:
  assumes "controller_ok c" and "in_step c" and "find_session sid c = Some p"
  shows "\<exists>c' s. update_session now p c = Some c' \<and> controller_ok c' \<and> in_step c'
     \<and> deref p (sc_objects c) = Some s \<and> m_session_id s = sid
     \<and> c' = c\<lparr>m_session_db := upsert_row sid (stored_row now (m_version_current c) s) (m_session_db c)\<rparr>"
proof -
  obtain s where s: "deref p (sc_objects c) = Some s" "m_session_id s = sid" "session_ok s"
    using controller_okD [OF assms(1)] assms(3) unfolding find_session_def .
  moreover have "std_find sid (m_session_db c) \<noteq> None"
    using assms(2,3) unfolding in_step_def find_session_def by (metis option.distinct(1))
  ultimately show ?thesis
    using assms by (simp add: update_session_def db_update_session_eq)
      (auto simp: controller_ok_def in_step_def std_find_upsert find_session_def)
qed

lemma remove_session_ok:
  assumes "controller_ok c" and "deref p (sc_objects c) = Some s"
  shows "\<exists>c'. remove_session p c = Some c' \<and> controller_ok c' \<and> (in_step c \<longrightarrow> in_step c')
     \<and> find_session (m_session_id s) c' = None \<and> std_find (m_session_id s) (m_session_db c') = None"
  using assms drop_session_ok [OF assms(1) refl, of s]
  by (simp add: remove_session_def find_session_def std_find_erase) (simp add: db_remove_session_def std_find_erase)

lemma on_session_ok:
  assumes "controller_ok c" and "on_session f p c = Some c'"
    and "\<And>s. session_ok s \<Longrightarrow> session_ok (f s) \<and> m_session_id (f s) = m_session_id s"
  shows "controller_ok c'" and "in_step c \<Longrightarrow> in_step c'"
  using assms modify_ok [OF assms(1,3), of p] by (auto simp: on_session_def in_step_def split: if_splits)

lemma session_ok_stats [simp]: "session_ok (s\<lparr>m_stats_update := b\<rparr>) = session_ok s"
  by (simp add: session_ok_def)

lemma active_stats_loop_objects:
  assumes "active_stats_loop m h = Some (ps, h')"
  shows "\<exists>b. deref q h' = map_option (\<lambda>s. s\<lparr>m_stats_update := b s\<rparr>) (deref q h)"
  using assms
proof (induction m arbitrary: h ps)
  case Nil
  then show ?case by (auto intro!: exI [of _ m_stats_update] simp: option.map_ident)
next
  case (Cons e m)
  obtain sid p where e: "e = (sid, p)" by (cases e)
  obtain s ps' where s: "deref p h = Some s"
    "active_stats_loop m (modify p (\<lambda>_. s\<lparr>m_stats_update := False\<rparr>) h) = Some (ps', h')"
    using Cons.prems by (auto simp: e IsStatsUpdate_def bind_eq_Some_conv)
  from Cons.IH [OF s(2)] obtain b where
    b: "deref q h' = map_option (\<lambda>s. s\<lparr>m_stats_update := b s\<rparr>) (deref q (modify p (\<lambda>_. s\<lparr>m_stats_update := False\<rparr>) h))"
    by blast
  show ?case
  proof (cases "q = p")
    case True
    then show ?thesis using b s(1) by (auto intro!: exI [of _ "\<lambda>_. b (s\<lparr>m_stats_update := False\<rparr>)"])
  qed (use b in auto)
qed

lemma active_stats_ok:
  assumes "controller_ok c" and "get_active_sessions_stats ps c = Some (r, qs, c')"
  shows "controller_ok c'" and "in_step c \<Longrightarrow> in_step c'"
proof -
  obtain qs' h where h: "active_stats_loop (m_session_memory c) (sc_objects c) = Some (qs', h)" "c' = c\<lparr>sc_objects := h\<rparr>"
    using assms(2) by (auto simp: get_active_sessions_stats_def bind_eq_Some_conv)
  have d: "\<exists>b. deref q h = map_option (\<lambda>s. s\<lparr>m_stats_update := b s\<rparr>) (deref q (sc_objects c))" for q
    by (rule active_stats_loop_objects [OF h(1)])
  have "session_ok s" if "deref q h = Some s" for q s
    using d [of q] that assms(1) by (cases "deref q (sc_objects c)") (auto simp: controller_ok_def)
  moreover have "\<exists>s. deref p h = Some s \<and> m_session_id s = sid" if "std_find sid (m_session_memory c) = Some p" for sid p
    using d [of p] controller_okD [OF assms(1) that] by fastforce
  ultimately show "controller_ok c'" using assms(1) h(2) by (auto simp: controller_ok_def)
  show "in_step c \<Longrightarrow> in_step c'" using h(2) by (simp add: in_step_def)
qed

text \<open>
  What the server does with its sessions, at any times: a request arrives (its identifier may be
  anything, the random identifier is not in use), data of a live session is changed or stored, a
  session is removed, the timer drops expired ones, the active ones are listed.
\<close>

inductive session_run :: "session_controller \<Rightarrow> session_controller \<Rightarrow> bool"
 where
  run_start: "session_run c c"
| run_request: "session_run c c1 \<Longrightarrow> find_session uid c1 = None \<Longrightarrow>
    get_session get_session_creator now uid sid b c1 = Some (q, b', c2) \<Longrightarrow> session_run c c2"
| run_change: "session_run c c1 \<Longrightarrow>
    (\<And>s. session_ok s \<Longrightarrow> session_ok (f s) \<and> m_session_id (f s) = m_session_id s) \<Longrightarrow>
    on_session f p c1 = Some c2 \<Longrightarrow> session_run c c2"
| run_store: "session_run c c1 \<Longrightarrow> find_session sid c1 = Some p \<Longrightarrow>
    update_session now p c1 = Some c2 \<Longrightarrow> session_run c c2"
| run_remove: "session_run c c1 \<Longrightarrow> remove_session p c1 = Some c2 \<Longrightarrow> session_run c c2"
| run_timer: "session_run c c1 \<Longrightarrow> check_alive_sessions now c1 = Some c2 \<Longrightarrow> session_run c c2"
| run_stats: "session_run c c1 \<Longrightarrow> get_active_sessions_stats ps c1 = Some (r, qs, c2) \<Longrightarrow> session_run c c2"

lemma get_session_ok:
  assumes c: "controller_ok c" "in_step c" and uid: "find_session uid c = None"
    and get: "get_session get_session_creator now uid sid b c = Some (q, b', c')"
  shows "controller_ok c' \<and> in_step c'"
proof (cases "live_session now sid c")
  case None
  from get_session_created [OF c(1) None, of uid b] uid get c(2) show ?thesis
    by (auto simp: find_session_def)
next
  case (Some t)
  from get_session_live [OF c(1) Some, of get_session_creator uid b] get c(2) show ?thesis
    by (auto simp: in_step_def)
qed

lemma session_run_ok:
  "session_run c c' \<Longrightarrow> controller_ok c \<Longrightarrow> in_step c \<Longrightarrow> controller_ok c' \<and> in_step c'"
proof (induction rule: session_run.induct)
  case (run_request c c1 uid now sid b q b' c2)
  then show ?case using get_session_ok by blast
next
  case (run_change c c1 f p c2)
  then show ?case using on_session_ok [OF _ run_change.hyps(3,2)] by blast
next
  case (run_store c c1 sid p now c2)
  then show ?case using update_session_ok [of c1 sid p now] by auto
next
  case (run_remove c c1 p c2)
  from run_remove.hyps(2) obtain s where "deref p (sc_objects c1) = Some s"
    by (auto simp: remove_session_def bind_eq_Some_conv)
  with run_remove show ?case using remove_session_ok [of c1 p s] by auto
next
  case (run_timer c c1 now c2)
  then show ?case using check_alive_spec [of c1 now] by auto
next
  case (run_stats c c1 ps r qs c2)
  then show ?case using active_stats_ok [of c1 ps r qs c2] by blast
qed simp

lemma controller_new_ok: "controller_ok session_controller_new" "in_step session_controller_new"
  by (simp_all add: controller_ok_def in_step_def session_controller_new_def deref_def)


section \<open>Properties\<close>


lemma first_request:
  "\<exists>c. get_session get_session_creator 1000 ''u'' ''x'' False session_controller_new = Some (Some 0, True, c)
     \<and> find_session ''u'' c = Some 0 \<and> session_run session_controller_new c"
proof -
  have none: "live_session 1000 ''x'' session_controller_new = None" "std_find ''u'' (m_session_memory session_controller_new) = None"
    by (simp_all add: live_session_def find_session_def session_controller_new_def)
  have new: "get_session get_session_creator 1000 ''u'' ''x'' False session_controller_new
      = new_session get_session_creator 1000 ''u'' False session_controller_new"
    by (simp add: get_session_def session_controller_new_def)
  then obtain c where c: "get_session get_session_creator 1000 ''u'' ''x'' False session_controller_new = Some (Some 0, True, c)"
    "find_session ''u'' c = Some 0"
    by (simp add: new_session_eq find_session_def session_controller_new_def)
  moreover have "session_run session_controller_new c"
    by (rule run_request [OF run_start _ c(1)]) (simp add: find_session_def session_controller_new_def)
  ultimately show ?thesis by blast
qed


text \<open>C13: a request gets a session that has not expired and that its identifier finds again. With the
  identifier of a live session it gets that session, with its data, prolonged by half an hour, or
  by two weeks when its user is logged in; with any other identifier, also an expired one, it gets
  a new session of nobody under the random identifier, and the old one is gone.\<close>

theorem session_handed_out:
  assumes "controller_ok c" and "find_session uid c = None"
  shows "\<exists>p created c' s. get_session get_session_creator now uid sid b c = Some (Some p, created, c')
     \<and> controller_ok c' \<and> find_session (m_session_id s) c' = Some p \<and> deref p (sc_objects c') = Some s
     \<and> now < m_expired s
     \<and> (case live_session now sid c of
          Some t \<Rightarrow> \<not> created \<and> m_session_id s = sid \<and> same_data t s
            \<and> m_expired s = now + (if m_bAuthenticate t then 1209600 else 1800)
        | None \<Rightarrow> created \<and> m_session_id s = uid \<and> \<not> m_bAuthenticate s \<and> m_idUser s = 0
            \<and> (sid \<noteq> uid \<longrightarrow> find_session sid c' = None))"
proof (cases "live_session now sid c")
  case None
  have "std_find uid (m_session_memory c) = None" using assms(2) by (simp add: find_session_def)
  from get_session_created [OF assms(1) None this, of b] obtain p c' where
    c': "get_session get_session_creator now uid sid b c = Some (Some p, True, c')" "controller_ok c'"
    "deref p (sc_objects c') = Some (first_session uid now)"
    "\<forall>x. find_session x c' = (if x = uid then Some p else if x = sid then None else find_session x c)"
    by blast
  have "m_idUser (first_session uid now) = 0"
    by (simp add: first_session_def s2h_session_new_def session_reset_def)
  with c' first_session_fields [of uid now] None show ?thesis by auto
next
  case (Some t)
  from get_session_live [OF assms(1) Some, of get_session_creator uid b] obtain p c' where
    c': "get_session get_session_creator now uid sid b c = Some (Some p, False, c')" "controller_ok c'"
    "m_session_memory c' = m_session_memory c" "find_session sid c = Some p" "m_session_id t = sid"
    "deref p (sc_objects c') = Some (t\<lparr>m_expired := now + get_expire_shift t\<rparr>)"
    by blast
  then show ?thesis using Some
    by (auto simp: find_session_def same_data_def get_expire_shift_def base_expire_shift_def DEFAULT_EXPIRE_MINUTES_def)
qed

text \<open>A controller with one session, and what the examples below need of it.\<close>

definition one_session :: "session \<Rightarrow> session_controller" where
  "one_session s = session_controller_new\<lparr>sc_objects := [s], m_session_memory := [(m_session_id s, 0)],
     m_session_db := [(m_session_id s, stored_row 0 1 s)]\<rparr>"

lemma one_session_ok: "session_ok s \<Longrightarrow> controller_ok (one_session s) \<and> in_step (one_session s)"
  by (auto simp: one_session_def controller_ok_def in_step_def session_controller_new_def deref_def sorted_map_def)

lemma find_one_session: "find_session x (one_session s) = (if x = m_session_id s then Some 0 else None)"
  by (simp add: find_session_def one_session_def session_controller_new_def)

definition anna :: session where
  "anna = (s2h_session_new ''a'' 0 1800)\<lparr>m_bAuthenticate := True, m_idUser := 7, m_sNickname := ''anna''\<rparr>"

lemma anna_fields: "session_ok anna" "m_session_id anna = ''a''" "m_expired anna = 1800" "m_created anna = 0"
  "m_bAuthenticate anna" "m_sNickname anna = ''anna''"
  by (simp_all add: anna_def session_ok_def s2h_session_new_def session_reset_def base_reset_def is_int32_def)

theorem session_handed_out_witness:
  "(\<exists>p c' s. get_session get_session_creator 1799 ''u'' ''a'' False (one_session anna) = Some (Some p, False, c')
     \<and> deref p (sc_objects c') = Some s \<and> m_sNickname s = ''anna'' \<and> m_expired s = 1799 + 1209600)
   \<and> (\<exists>p c' s. get_session get_session_creator 1800 ''u'' ''a'' False (one_session anna) = Some (Some p, True, c')
     \<and> deref p (sc_objects c') = Some s \<and> \<not> m_bAuthenticate s)"
proof -
  have ok: "controller_ok (one_session anna)" "find_session ''u'' (one_session anna) = None"
    using one_session_ok [OF anna_fields(1)] by (simp_all add: find_one_session anna_fields)
  have d: "deref 0 (sc_objects (one_session anna)) = Some anna" by (simp add: one_session_def deref_def)
  have "live_session 1799 ''a'' (one_session anna) = Some anna" "live_session 1800 ''a'' (one_session anna) = None"
    by (simp_all add: live_session_def find_one_session anna_fields d)
  with session_handed_out [OF ok, of 1799 "''a''" False] session_handed_out [OF ok, of 1800 "''a''" False]
  show ?thesis by (fastforce simp: same_data_def anna_fields)
qed


section \<open>Restart\<close>

text \<open>One row per session, and every row can be read back.\<close>

definition table_ok :: "session_table \<Rightarrow> bool" where
  "table_ok t \<longleftrightarrow> distinct (map fst t) \<and> (\<forall>e \<in> set t. row_ok (snd e))"

lemma table_ok_filter: "table_ok t \<Longrightarrow> table_ok (filter P t)"
  by (auto simp: table_ok_def distinct_map_filter)

lemma table_ok_erase: "table_ok t \<Longrightarrow> table_ok (std_erase k t)"
  by (simp add: std_erase_def table_ok_filter)

lemma row_ok_stored: "session_ok s \<Longrightarrow> row_ok (stored_row now v s)"
  by (auto simp: row_ok_def stored_row_def)

lemma table_ok_upsert: "table_ok t \<Longrightarrow> row_ok r \<Longrightarrow> table_ok (upsert_row k r t)"
  using table_ok_erase [of t k] by (auto simp: upsert_row_def table_ok_def std_erase_def)

lemma check_alive_loop_table: "check_alive_loop now m c = Some c' \<Longrightarrow> table_ok (m_session_db c) \<Longrightarrow> table_ok (m_session_db c')"
proof (induction m arbitrary: c)
  case (Cons e m)
  obtain sid p where e: "e = (sid, p)" by (cases e)
  obtain s where s: "check_alive_loop now m (if m_expired s < now
      then c\<lparr>m_session_db := db_remove_session s (m_session_db c), m_session_memory := std_erase sid (m_session_memory c)\<rparr>
      else c) = Some c'"
    using Cons.prems(1) by (auto simp: e bind_eq_Some_conv)
  show ?case
    by (rule Cons.IH [OF s]) (use Cons.prems(2) in \<open>auto simp: db_remove_session_def table_ok_erase\<close>)
qed simp

lemma get_session_table:
  assumes c: "controller_ok c" "table_ok (m_session_db c)"
    and get: "get_session get_session_creator now uid sid b c = Some (q, b', c')"
  shows "table_ok (m_session_db c')"
proof (cases "live_session now sid c")
  case None
  have "table_ok (m_session_db (without_session sid c))"
    using c(2) by (simp add: without_session_def table_ok_erase)
  with get_session_dead [OF c(1) None, of get_session_creator uid b] get first_session_fields(4)
  show ?thesis by (auto simp: new_session_eq intro!: table_ok_upsert row_ok_stored)
next
  case (Some t)
  from get_session_live [OF c(1) Some, of get_session_creator uid b] get c(2) show ?thesis by auto
qed

lemma session_run_table:
  "session_run c c' \<Longrightarrow> controller_ok c \<Longrightarrow> in_step c \<Longrightarrow> table_ok (m_session_db c) \<Longrightarrow> table_ok (m_session_db c')"
proof (induction rule: session_run.induct)
  case (run_request c c1 uid now sid b q b' c2)
  then show ?case using session_run_ok [OF run_request.hyps(1)] get_session_table by blast
next
  case (run_store c c1 sid p now c2)
  then have ok: "controller_ok c1" "in_step c1" using session_run_ok by blast+
  then have "session_ok s" if "deref p (sc_objects c1) = Some s" for s using that by (simp add: controller_ok_def)
  with run_store update_session_ok [OF ok run_store.hyps(2), of now] show ?case
    by (auto intro!: table_ok_upsert row_ok_stored)
qed (auto simp: on_session_def remove_session_def bind_eq_Some_conv db_remove_session_def table_ok_erase
    check_alive_sessions_def get_active_sessions_stats_def intro: check_alive_loop_table split: if_splits)

text \<open>Opening a controller on a table.\<close>

definition on_table :: "session_table \<Rightarrow> session_controller" where
  "on_table t = session_controller_new\<lparr>m_session_db := t\<rparr>"

lemma session_open_spec:
  assumes "table_ok t"
  shows "\<exists>c. session_open sc vmin vcur get_session_creator now (on_table t) = Some c \<and> controller_ok c
     \<and> m_session_db c = filter (\<lambda>(_, r). live_row now vmin r) t
     \<and> (\<forall>x. case map_of (filter (\<lambda>(_, r). live_row now vmin r) t) x of
            None \<Rightarrow> find_session x c = None
          | Some r \<Rightarrow> \<exists>p s. find_session x c = Some p \<and> deref p (sc_objects c) = Some s \<and> loaded x r s)"
proof -
  let ?t = "filter (\<lambda>(_, r). live_row now vmin r) t"
  let ?c = "(on_table t)\<lparr>m_version_min := vmin, m_version_current := vcur, m_session_db := ?t\<rparr>"
  have c: "controller_ok ?c" "\<And>x. find_session x ?c = None"
    by (simp_all add: controller_ok_def on_table_def session_controller_new_def find_session_def deref_def)
  have "distinct (map fst ?t)" "\<forall>e \<in> set ?t. row_ok (snd e) \<and> find_session (fst e) ?c = None"
    using table_ok_filter [OF assms, of "\<lambda>(_, r). live_row now vmin r"] c(2) by (auto simp: table_ok_def)
  from load_rows_spec [OF c(1) this, of sc] obtain c' where
    c': "load_rows sc s2h_session_new ?t ?c = Some c'" "controller_ok c'" "m_session_db c' = ?t"
    "\<forall>x. case map_of ?t x of
            None \<Rightarrow> find_session x c' = None
          | Some r \<Rightarrow> \<exists>p s. find_session x c' = Some p \<and> deref p (sc_objects c') = Some s \<and> loaded x r s"
    unfolding c(2) by auto
  have "session_open sc vmin vcur get_session_creator now (on_table t) = load_rows sc s2h_session_new ?t ?c"
    by (simp add: session_open_def load_sessions_def get_session_creator_def Let_def on_table_def)
  with c' show ?thesis by auto
qed

lemma map_of_filter_value:
  "distinct (map fst t) \<Longrightarrow> map_of (filter (\<lambda>(_, r). P r) t) x
     = (case map_of t x of None \<Rightarrow> None | Some r \<Rightarrow> if P r then Some r else None)"
  by (induction t) (auto split: option.splits simp: map_of_eq_None_iff)

lemma to_int_id: "is_int32 x \<Longrightarrow> to_int x = x"
  by (simp add: to_int_def is_int32_def)




text \<open>prolonging a session by using it is not stored: after a restart between the expiry in the
  table and the expiry the client was told, the session is gone.\<close>

theorem prolonging_lost_by_restart:
  assumes "session_run session_controller_new c"
    and "live_session now sid c = Some t" and "std_find sid (m_session_db c) = Some r"
    and "r_dtExpire r < to_int later" and "later < now + get_expire_shift t"
  shows "\<exists>p c1 c2 s. get_session get_session_creator now uid sid b c = Some (Some p, False, c1)
     \<and> deref p (sc_objects c1) = Some s \<and> later < m_expired s
     \<and> session_open sc vmin vcur get_session_creator later (on_table (m_session_db c1)) = Some c2
     \<and> find_session sid c2 = None"
proof -
  have ok: "controller_ok c" using session_run_ok [OF assms(1) controller_new_ok] by auto
  from session_run_table [OF assms(1) controller_new_ok]
  have t: "table_ok (m_session_db c)" by (simp add: table_ok_def session_controller_new_def)
  obtain p c1 where c1: "get_session get_session_creator now uid sid b c = Some (Some p, False, c1)"
    "m_session_db c1 = m_session_db c" "deref p (sc_objects c1) = Some (t\<lparr>m_expired := now + get_expire_shift t\<rparr>)"
    using get_session_live [OF ok assms(2), of get_session_creator uid b] by blast
  have "map_of (filter (\<lambda>(_, r). live_row later vmin r) (m_session_db c)) sid = None"
    using t assms(3,4) by (simp add: map_of_filter_value table_ok_def std_find_def live_row_def)
  with session_open_spec [OF t, of sc vmin vcur later] obtain c2 where
    "session_open sc vmin vcur get_session_creator later (on_table (m_session_db c)) = Some c2"
    "find_session sid c2 = None"
    by (metis (mono_tags, lifting) option.simps(4))
  then show ?thesis using c1 assms(5) by auto
qed

theorem prolonging_lost_by_restart_witness:
  "\<exists>c p c1 c2 :: session_controller. \<exists>q s. session_run session_controller_new c
     \<and> get_session get_session_creator 2000 ''v'' ''u'' False c = Some (Some q, False, c1)
     \<and> deref q (sc_objects c1) = Some s \<and> 3000 < m_expired s
     \<and> session_open (\<lambda>_. None) 1 1 get_session_creator 3000 (on_table (m_session_db c1)) = Some c2
     \<and> find_session ''u'' c2 = None"
proof -
  obtain c :: "session_controller" where
    c: "get_session get_session_creator 1000 ''u'' ''x'' False session_controller_new = Some (Some 0, True, c)"
    "session_run session_controller_new c"
    using first_request by blast
  have eq: "c = session_controller_new\<lparr>sc_objects := [first_session ''u'' 1000], m_session_memory := [(''u'', 0)],
      m_session_db := [(''u'', stored_row 1000 1 (first_session ''u'' 1000))]\<rparr>"
    using c(1) by (simp add: get_session_def new_session_eq session_controller_new_def upsert_row_def std_erase_def)
  let ?s = "first_session ''u'' 1000"
  have s: "m_expired ?s = 2800" "\<not> m_bAuthenticate ?s" by (simp_all add: first_session_fields)
  have "live_session 2000 ''u'' c = Some ?s" by (simp add: eq live_session_def find_session_def deref_def s)
  moreover have "std_find ''u'' (m_session_db c) = Some (stored_row 1000 1 ?s)" by (simp add: eq)
  moreover have "r_dtExpire (stored_row 1000 1 ?s) < to_int 3000" by (simp add: stored_row_def s to_int_def)
  moreover have "3000 < 2000 + get_expire_shift ?s"
    by (simp add: get_expire_shift_def s base_expire_shift_def DEFAULT_EXPIRE_MINUTES_def)
  ultimately show ?thesis
    using prolonging_lost_by_restart [OF c(2)] c(2) by fastforce
qed

section \<open>Idle periods\<close>

text \<open>within the first hour an idle period is counted as a new use of the session when it lasts at
  least 21 minutes; but idle periods of 60 to 80 minutes, or of a whole number of hours, are not
  counted, because only the minutes field of the duration is compared.\<close>

theorem idle_periods_counted:
  assumes "0 \<le> idle"
  shows "(idle < 3600 \<longrightarrow> m_count (set_last_activity (m_last_activity s + idle) s) = m_count s + (if 1260 \<le> idle then 1 else 0))
     \<and> (3600 * h \<le> idle \<and> idle < 3600 * h + 1260 \<longrightarrow> m_count (set_last_activity (m_last_activity s + idle) s) = m_count s)"
proof -
  have td: "td_minutes idle = (idle div 60) mod 60" using assms by (cases "idle = 0") (simp_all add: td_minutes_def)
  have "(idle div 60) mod 60 = idle div 60" if "idle < 3600"
    using assms that by (intro mod_pos_pos_trivial) linarith+
  moreover have "20 < idle div 60 \<longleftrightarrow> 1260 \<le> idle" by linarith
  moreover have "(idle div 60) mod 60 \<le> 20" if "3600 * h \<le> idle" "idle < 3600 * h + 1260"
  proof -
    have "60 * h \<le> idle div 60" "idle div 60 < 60 * h + 21" using that by linarith+
    then have "(idle div 60 - 60 * h) mod 60 = idle div 60 - 60 * h" by (intro mod_pos_pos_trivial) auto
    moreover have "(idle div 60 - 60 * h) mod 60 = (idle div 60) mod 60"
      using mod_mult_self2 [of "idle div 60 - 60 * h" 60 h] by simp
    ultimately show ?thesis using that by linarith
  qed
  ultimately show ?thesis by (auto simp: set_last_activity_def td)
qed

theorem idle_periods_counted_witness:
  "m_count (set_last_activity 1300 anna) = m_count anna + 1 \<and> m_count (set_last_activity 3700 anna) = m_count anna"
proof -
  have "m_last_activity anna = 0" by (simp add: anna_def s2h_session_new_def session_reset_def base_reset_def)
  then show ?thesis
    using idle_periods_counted [of 1300 anna 0] idle_periods_counted [of 3700 anna 1] by simp
qed

end
