(* ===== verification/Token.thy ===== *)
theory Token
  imports Json_Reader
begin

text \<open>
  \<open>include/net/token.h\<close>, \<open>src/net/token.cxx\<close> and the token part of \<open>src/app/server2hb.cxx\<close>: access
  and refresh tokens, the dictionary that leads from either identifier to the shared token object,
  the Redis cache behind it, the check of a request's token and the exchange of a token pair for
  a new one. Redis (\<open>cpp_redis\<close>), the textual form of times and \<open>sscanf\<close> of a double are external: they are
  fields of \<open>token_env\<close>. Times are microseconds. A thrown exception is \<open>None\<close>; the state a caught
  exception leaves behind is not modelled.
\<close>

section \<open>Tokens\<close>

record token =
  m_access_token :: string
  m_refresh_token :: string
  m_access_expire :: int
  m_refresh_expire :: int
  m_payload :: json

definition khl_json_param_access_token :: string where "khl_json_param_access_token = ''access_token''"
definition khl_json_param_access_expire :: string where "khl_json_param_access_expire = ''access_expire''"
definition khl_json_param_delta_access_time :: string where "khl_json_param_delta_access_time = ''delta_access_time''"
definition khl_json_param_refresh_token :: string where "khl_json_param_refresh_token = ''refresh_token''"
definition khl_json_param_refresh_expire :: string where "khl_json_param_refresh_expire = ''refresh_expire''"
definition khl_json_param_delta_refresh_time :: string where "khl_json_param_delta_refresh_time = ''delta_refresh_time''"
definition khl_token_type :: string where "khl_token_type = ''Bearer''"
definition khl_token_append_time :: int where "khl_token_append_time = 2 * 60"

lemmas token_keys =
  khl_json_param_access_token_def khl_json_param_access_expire_def khl_json_param_delta_access_time_def
  khl_json_param_refresh_token_def khl_json_param_refresh_expire_def khl_json_param_delta_refresh_time_def

definition is_no_expire_access :: "int \<Rightarrow> token \<Rightarrow> bool" where
  "is_no_expire_access check t \<longleftrightarrow> check < m_access_expire t"

definition is_no_expire_refresh :: "int \<Rightarrow> token \<Rightarrow> bool" where
  "is_no_expire_refresh check t \<longleftrightarrow> check < m_refresh_expire t"

definition payload_int :: "string \<Rightarrow> token \<Rightarrow> int option" where
  "payload_int key t =
     do { there \<leftarrow> isMember key (m_payload t);
          if there then json_at key (m_payload t) \<bind> asInt else Some 0 }"

definition get_access_duration :: "token \<Rightarrow> int option" where
  "get_access_duration t = payload_int khl_json_param_delta_access_time t"

definition get_refresh_duration :: "token \<Rightarrow> int option" where
  "get_refresh_duration t = payload_int khl_json_param_delta_refresh_time t"

definition set_payload :: "string \<Rightarrow> json \<Rightarrow> token \<Rightarrow> token option" where
  "set_payload key v t = map_option (\<lambda>p. t\<lparr>m_payload := p\<rparr>) (json_set key v (m_payload t))"

definition set_access_duration :: "int \<Rightarrow> token \<Rightarrow> token option" where
  "set_access_duration seconds t = set_payload khl_json_param_delta_access_time (JInt seconds) t"

definition set_refresh_duration :: "int \<Rightarrow> token \<Rightarrow> token option" where
  "set_refresh_duration seconds t = set_payload khl_json_param_delta_refresh_time (JInt seconds) t"

definition set_access_token :: "string \<Rightarrow> token \<Rightarrow> token option" where
  "set_access_token x t = set_payload khl_json_param_access_token (JString x) (t\<lparr>m_access_token := x\<rparr>)"

definition set_refresh_token :: "string \<Rightarrow> token \<Rightarrow> token option" where
  "set_refresh_token x t = set_payload khl_json_param_refresh_token (JString x) (t\<lparr>m_refresh_token := x\<rparr>)"

definition set_access_expire :: "(int \<Rightarrow> string) \<Rightarrow> int \<Rightarrow> token \<Rightarrow> token option" where
  "set_access_expire to_iso x t =
     set_payload khl_json_param_access_expire (JString (to_iso x)) (t\<lparr>m_access_expire := x\<rparr>)"

definition set_refresh_expire :: "(int \<Rightarrow> string) \<Rightarrow> int \<Rightarrow> token \<Rightarrow> token option" where
  "set_refresh_expire to_iso x t =
     set_payload khl_json_param_refresh_expire (JString (to_iso x)) (t\<lparr>m_refresh_expire := x\<rparr>)"

section \<open>The server's tokens\<close>

record 'c token_env =
  sscanf_double :: "string \<Rightarrow> double option"
  to_iso :: "int \<Rightarrow> string"
  from_iso :: "string \<Rightarrow> int option"
  cache_exists :: "string \<Rightarrow> 'c \<Rightarrow> bool"
  cache_get :: "string \<Rightarrow> 'c \<Rightarrow> string option"
  cache_setex :: "string \<Rightarrow> int \<Rightarrow> string \<Rightarrow> 'c \<Rightarrow> 'c"
  cache_del :: "string list \<Rightarrow> 'c \<Rightarrow> 'c"
  cache_sadd :: "string \<Rightarrow> string list \<Rightarrow> 'c \<Rightarrow> 'c"
  cache_srem :: "string \<Rightarrow> string list \<Rightarrow> 'c \<Rightarrow> 'c"
  cache_db_context :: string
  cache_set_tag :: string

record 'c token_state =
  m_tokens :: "(string, nat) std_map"
  ts_objects :: "token arena"
  m_cache_db :: 'c

definition append_token :: "nat option \<Rightarrow> 'c token_state \<Rightarrow> 'c token_state option" where
  "append_token token st =
     (case token of
        None \<Rightarrow> Some st
      | Some p \<Rightarrow>
          do { t \<leftarrow> deref p (ts_objects st);
               Some (st\<lparr>m_tokens := std_insert (m_access_token t) p (std_insert (m_refresh_token t) p (m_tokens st))\<rparr>) })"

definition remove_tokens :: "string \<Rightarrow> string \<Rightarrow> 'c token_state \<Rightarrow> 'c token_state" where
  "remove_tokens access_token refresh_token st =
     st\<lparr>m_tokens := std_erase access_token (std_erase refresh_token (m_tokens st))\<rparr>"

definition remove_token_id :: "string \<Rightarrow> 'c token_state \<Rightarrow> 'c token_state option" where
  "remove_token_id token_id st =
     (case std_find token_id (m_tokens st) of
        None \<Rightarrow> Some st
      | Some p \<Rightarrow> do { t \<leftarrow> deref p (ts_objects st);
                     Some (remove_tokens (m_access_token t) (m_refresh_token t) st) })"

definition remove_token :: "nat \<Rightarrow> 'c token_state \<Rightarrow> 'c token_state option" where
  "remove_token p st =
     do { t \<leftarrow> deref p (ts_objects st); Some (remove_tokens (m_access_token t) (m_refresh_token t) st) }"

definition update_tokens :: "nat \<Rightarrow> string \<Rightarrow> string \<Rightarrow> 'c token_state \<Rightarrow> 'c token_state option" where
  "update_tokens p access_token refresh_token st = append_token (Some p) (remove_tokens access_token refresh_token st)"

text \<open>
  A token read back from the cache. \<open>payload[key]\<close> on a variable adds a null member when there is
  none (\<open>json_ref\<close>); of a text that is not JSON the payload is what the reader made of it until then.
\<close>

definition json_ref :: "string \<Rightarrow> json \<Rightarrow> (json \<times> json) option" where
  "json_ref key v =
     do { there \<leftarrow> isMember key v;
          if there then do { x \<leftarrow> json_at key v; Some (x, v) }
          else do { w \<leftarrow> json_set key JNull v; Some (JNull, w) } }"

definition token_of_payload :: "'c token_env \<Rightarrow> string \<Rightarrow> token option" where
  "token_of_payload env txt =
     do { (_, payload) \<leftarrow> parse_json (sscanf_double env) txt;
          (a, p1) \<leftarrow> json_ref khl_json_param_access_token payload;
          access_token \<leftarrow> asString a;
          (ae, p2) \<leftarrow> json_ref khl_json_param_access_expire p1;
          access_expire \<leftarrow> asString ae \<bind> from_iso env;
          (r, p3) \<leftarrow> json_ref khl_json_param_refresh_token p2;
          refresh_token \<leftarrow> asString r;
          (re, p4) \<leftarrow> json_ref khl_json_param_refresh_expire p3;
          refresh_expire \<leftarrow> asString re \<bind> from_iso env;
          Some \<lparr>m_access_token = access_token, m_refresh_token = refresh_token,
                m_access_expire = access_expire, m_refresh_expire = refresh_expire, m_payload = p4\<rparr> }"

definition token_context :: "'c token_env \<Rightarrow> bool \<Rightarrow> string \<Rightarrow> string" where
  "token_context env is_access_token token_id =
     cache_db_context env @ (if is_access_token then ''at:'' else ''rt:'') @ token_id"

definition find_token ::
  "'c token_env \<Rightarrow> bool \<Rightarrow> string \<Rightarrow> 'c token_state \<Rightarrow> (nat option \<times> 'c token_state) option" where
  "find_token env is_access_token token_id st =
     (if token_id = [] then Some (None, st)
      else case std_find token_id (m_tokens st) of
        Some p \<Rightarrow> Some (Some p, st)
      | None \<Rightarrow>
          (let key = token_context env is_access_token token_id in
           if cache_exists env key (m_cache_db st) then
             (case cache_get env key (m_cache_db st) of
                None \<Rightarrow> Some (None, st)
              | Some txt \<Rightarrow>
                  do { t \<leftarrow> token_of_payload env txt;
                       let (p, objects) = new_object t (ts_objects st);
                       st1 \<leftarrow> append_token (Some p) (st\<lparr>ts_objects := objects\<rparr>);
                       Some (Some p, st1) })
           else do { st1 \<leftarrow> remove_token_id token_id st; Some (None, st1) }))"

text \<open>\<open>escape_string\<close> of \<open>src/util/utils.cxx\<close>.\<close>

fun escape_string :: "string \<Rightarrow> string" where
  "escape_string [] = []"
| "escape_string (c # s) =
     (if c = CHR 0x27 then CHR 0x5C # CHR 0x27 # escape_string s
      else if c = CHR 0x0A then CHR 0x5C # CHR ''n'' # escape_string s
      else if c = CHR 0x0D then escape_string s
      else c # escape_string s)"

text \<open>
  \<open>parse_token\<close>: the identifier is taken from the header \<open>Authorization\<close> when it is there, else
  from the parameter \<open>token\<close>; \<open>check\<close> is the time of the check, \<open>None\<close> for \<open>neg_infin\<close>.
\<close>

definition token_mask :: string where
  "token_mask = khl_token_type @ '' ''"

definition request_token :: "string option \<Rightarrow> string \<Rightarrow> string option" where
  "request_token authorization token_param =
     (case authorization of
        Some header \<Rightarrow>
          (let token_id = escape_string header; token_pos = length token_mask in
           if length token_id \<le> token_pos \<or> take token_pos token_id \<noteq> token_mask then None
           else Some (drop token_pos token_id))
      | None \<Rightarrow> Some (escape_string token_param))"

definition token_expired :: "bool \<Rightarrow> int option \<Rightarrow> token \<Rightarrow> bool" where
  "token_expired is_access_token check t \<longleftrightarrow>
     (case check of
        None \<Rightarrow> False
      | Some c \<Rightarrow> is_access_token \<and> \<not> is_no_expire_access c t \<or> \<not> is_access_token \<and> \<not> is_no_expire_refresh c t)"

definition parse_token ::
  "'c token_env \<Rightarrow> string option \<Rightarrow> string \<Rightarrow> bool \<Rightarrow> int option \<Rightarrow> 'c token_state \<Rightarrow>
   (nat option \<times> 'c token_state) option" where
  "parse_token env authorization token_param is_access_token check st =
     (case request_token authorization token_param of
        None \<Rightarrow> Some (None, st)
      | Some token_id \<Rightarrow>
          do { (r, st1) \<leftarrow> find_token env is_access_token token_id st;
               case r of
                 None \<Rightarrow> Some (None, st1)
               | Some p \<Rightarrow>
                   do { t \<leftarrow> deref p (ts_objects st1);
                        if token_expired is_access_token check t
                        then do { st2 \<leftarrow> remove_token p st1; Some (None, st2) }
                        else Some (Some p, st1) } })"

definition fill_json_token :: "token \<Rightarrow> json \<Rightarrow> json option" where
  "fill_json_token t v =
     do { v1 \<leftarrow> json_set ''token_type'' (JString khl_token_type) v;
          v2 \<leftarrow> json_set khl_json_param_access_token (JString (m_access_token t)) v1;
          v3 \<leftarrow> json_set khl_json_param_refresh_token (JString (m_refresh_token t)) v2;
          a \<leftarrow> get_access_duration t;
          v4 \<leftarrow> json_set ''access_expires_in'' (JInt a) v3;
          r \<leftarrow> get_refresh_duration t;
          json_set ''refresh_expires_in'' (JInt r) v4 }"

text \<open>\<open>compact_uuid_to_string\<close>; sums of \<open>int\<close>s are undefined outside the range.\<close>

definition compact_uuid_to_string :: "string \<Rightarrow> string" where
  "compact_uuid_to_string uuid = filter (\<lambda>c. c \<noteq> CHR ''-'') uuid"

definition int_sum :: "int \<Rightarrow> int \<Rightarrow> int option" where
  "int_sum a b = (if is_int32 (a + b) then Some (a + b) else None)"

text \<open>\<open>renew\<close>: the setters \<open>action_refresh_token\<close> calls, in their order.\<close>

definition renew ::
  "'c token_env \<Rightarrow> int \<Rightarrow> string \<Rightarrow> int \<Rightarrow> string \<Rightarrow> int \<Rightarrow> token \<Rightarrow> token option" where
  "renew env now access_token time_access refresh_token time_refresh t =
     do { sa \<leftarrow> int_sum time_access khl_token_append_time;
          sr \<leftarrow> int_sum time_refresh khl_token_append_time;
          t1 \<leftarrow> set_access_token access_token t;
          t2 \<leftarrow> set_access_duration time_access t1;
          t3 \<leftarrow> set_access_expire (to_iso env) (now + sa * 1000000) t2;
          t4 \<leftarrow> set_refresh_token refresh_token t3;
          t5 \<leftarrow> set_refresh_duration time_refresh t4;
          set_refresh_expire (to_iso env) (now + sr * 1000000) t5 }"

definition cache_refresh ::
  "'c token_env \<Rightarrow> token \<Rightarrow> token \<Rightarrow> int \<Rightarrow> int \<Rightarrow> 'c \<Rightarrow> 'c option" where
  "cache_refresh env old t time_access time_refresh cache =
     do { tag \<leftarrow> json_at (cache_set_tag env) (m_payload t) \<bind> asString;
          let set_key = cache_db_context env @ ''tt:'' @ tag;
          let token_value = json_string (m_payload t);
          let c1 = cache_del env [m_access_token old, m_refresh_token old] cache;
          let c2 = cache_srem env set_key [m_refresh_token old] c1;
          let c3 = cache_setex env (token_context env True (m_access_token t)) (time_access + khl_token_append_time) token_value c2;
          let c4 = cache_setex env (token_context env False (m_refresh_token t)) (time_refresh + khl_token_append_time) token_value c3;
          Some (cache_sadd env set_key [m_refresh_token t] c4) }"

text \<open>
  \<open>action_refresh_token\<close>: the arguments are the header and the parameters of the request, the
  two random identifiers and the time; the result is the JSON answer, \<open>None\<close> for the answer 401.
\<close>

definition action_refresh_token ::
  "'c token_env \<Rightarrow> string option \<Rightarrow> string \<Rightarrow> int option \<Rightarrow> int option \<Rightarrow> int \<Rightarrow> string \<Rightarrow> string \<Rightarrow>
   'c token_state \<Rightarrow> (json option \<times> 'c token_state) option" where
  "action_refresh_token env authorization token_param p_refresh p_access now uuid1 uuid2 st =
     do { (r, st1) \<leftarrow> parse_token env authorization token_param False (Some now) st;
          case r of
            None \<Rightarrow> Some (None, st1)
          | Some p \<Rightarrow>
              do { t \<leftarrow> deref p (ts_objects st1);
                   dr \<leftarrow> get_refresh_duration t;
                   let time_refresh = (case p_refresh of None \<Rightarrow> dr | Some x \<Rightarrow> x);
                   da \<leftarrow> get_access_duration t;
                   let time_access = (case p_access of None \<Rightarrow> da | Some x \<Rightarrow> x);
                   t1 \<leftarrow> renew env now (compact_uuid_to_string uuid1) time_access
                          (compact_uuid_to_string uuid2) time_refresh t;
                   cache \<leftarrow> cache_refresh env t t1 time_access time_refresh (m_cache_db st1);
                   st2 \<leftarrow> update_tokens p (m_access_token t) (m_refresh_token t)
                     (st1\<lparr>ts_objects := modify p (\<lambda>_. t1) (ts_objects st1), m_cache_db := cache\<rparr>);
                   answer \<leftarrow> fill_json_token t1 JNull;
                   Some (Some answer, st2) } }"

end
