(* ===== verification/Token_Theorems.thy ===== *)
theory Token_Theorems
  imports Token Json_Read_Back
begin

text \<open>
  What the tokens of the server guarantee: the dictionary stays consistent with the token objects,
  an exchange replaces exactly the identifiers of one token, and which identifiers are accepted.
\<close>

section \<open>The dictionary and the objects\<close>

text \<open>Every identifier in the dictionary leads to a token that bears it.\<close>

definition tokens_ok :: "'c token_state \<Rightarrow> bool" where
  "tokens_ok st \<longleftrightarrow> sorted_map (m_tokens st)
     \<and> (\<forall>k p. std_find k (m_tokens st) = Some p \<longrightarrow>
          (\<exists>t. deref p (ts_objects st) = Some t \<and> k \<in> {m_access_token t, m_refresh_token t}))"

lemma tokens_okD:
  assumes "tokens_ok st" and "std_find k (m_tokens st) = Some p"
  obtains t where "deref p (ts_objects st) = Some t" "k \<in> {m_access_token t, m_refresh_token t}"
  using assms by (auto simp: tokens_ok_def)

lemma remove_tokens_ok: "tokens_ok st \<Longrightarrow> tokens_ok (remove_tokens a r st)"
  by (auto simp: tokens_ok_def remove_tokens_def sd.ok_erase2 sd.find_erase2)

lemma append_token_ok:
  assumes "tokens_ok st" and "deref p (ts_objects st) = Some t"
  shows "\<exists>st'. append_token (Some p) st = Some st' \<and> tokens_ok st' \<and> ts_objects st' = ts_objects st
     \<and> m_cache_db st' = m_cache_db st"
  using assms
  by (auto simp: append_token_def tokens_ok_def sd.ok_insert sd.find_insert split: if_splits)

lemma remove_token_id_ok:
  assumes "tokens_ok st"
  shows "\<exists>st'. remove_token_id k st = Some st' \<and> tokens_ok st' \<and> m_cache_db st' = m_cache_db st
     \<and> ts_objects st' = ts_objects st"
proof (cases "std_find k (m_tokens st)")
  case None
  then show ?thesis using assms by (simp add: remove_token_id_def)
next
  case (Some p)
  with assms obtain t where "deref p (ts_objects st) = Some t" by (blast elim: tokens_okD)
  with Some show ?thesis using remove_tokens_ok [OF assms] by (simp add: remove_token_id_def) (simp add: remove_tokens_def)
qed

text \<open>Tokens only ever come to the arena; looking one up does not change the cache.\<close>

definition more_objects :: "'c token_state \<Rightarrow> 'c token_state \<Rightarrow> bool" where
  "more_objects st st' \<longleftrightarrow> (\<forall>p t. deref p (ts_objects st) = Some t \<longrightarrow> deref p (ts_objects st') = Some t)"

lemma grown_ok:
  assumes "tokens_ok st"
  shows "tokens_ok (st\<lparr>ts_objects := ts_objects st @ [t]\<rparr>)"
  using assms deref_less unfolding tokens_ok_def by fastforce

lemma find_token_ok:
  assumes ok: "tokens_ok st" and f: "find_token env acc k st = Some (r, st1)"
  shows "tokens_ok st1 \<and> m_cache_db st1 = m_cache_db st \<and> (\<forall>p. r = Some p \<longrightarrow> (\<exists>t. deref p (ts_objects st1) = Some t))"
proof (cases "k = [] \<or> std_find k (m_tokens st) \<noteq> None")
  case True
  then show ?thesis using f ok by (auto simp: find_token_def elim: tokens_okD split: if_splits)
next
  case False
  let ?key = "token_context env acc k"
  show ?thesis
  proof (cases "cache_exists env ?key (m_cache_db st)")
    case True
    show ?thesis
    proof (cases "cache_get env ?key (m_cache_db st)")
      case None
      then show ?thesis using f ok True False by (simp add: find_token_def)
    next
      case (Some val)
      then obtain t st2 where t: "token_of_payload env val = Some t"
        "append_token (Some (length (ts_objects st))) (st\<lparr>ts_objects := ts_objects st @ [t]\<rparr>) = Some st2"
        "r = Some (length (ts_objects st))" "st1 = st2"
        using f True False by (auto simp: find_token_def new_object_def bind_eq_Some_conv)
      let ?st = "st\<lparr>ts_objects := ts_objects st @ [t]\<rparr>"
      have "deref (length (ts_objects st)) (ts_objects ?st) = Some t" by simp
      from append_token_ok [OF grown_ok [OF ok] this] t show ?thesis by auto
    qed
  next
    case no: False
    then show ?thesis
      using f False remove_token_id_ok [OF ok, of k] by (auto simp: find_token_def bind_eq_Some_conv)
  qed
qed

lemma remove_token_ok:
  assumes "tokens_ok st" and "remove_token p st = Some st'"
  shows "tokens_ok st' \<and> m_cache_db st' = m_cache_db st"
  using assms remove_tokens_ok [OF assms(1)] by (auto simp: remove_token_def bind_eq_Some_conv remove_tokens_def)

lemma parse_token_ok:
  assumes ok: "tokens_ok st" and f: "parse_token env auth par acc check st = Some (r, st1)"
  shows "tokens_ok st1 \<and> m_cache_db st1 = m_cache_db st \<and> (\<forall>p. r = Some p \<longrightarrow> (\<exists>t. deref p (ts_objects st1) = Some t))"
proof (cases "request_token auth par")
  case None
  then show ?thesis using f ok by (simp add: parse_token_def)
next
  case (Some k)
  then obtain q st2 where q: "find_token env acc k st = Some (q, st2)"
    using f by (auto simp: parse_token_def bind_eq_Some_conv)
  note ok2 = find_token_ok [OF ok q]
  show ?thesis
  proof (cases q)
    case None
    then show ?thesis using f q Some ok2 by (auto simp: parse_token_def)
  next
    case p: (Some p)
    then show ?thesis using f q Some ok2 remove_token_ok [of st2 p]
      by (auto simp: parse_token_def bind_eq_Some_conv split: if_splits)
  qed
qed

section \<open>Renewing a token\<close>

lemma set_payload_object [simp]:
  "is_object (m_payload t) \<Longrightarrow> set_payload k v t = Some (t\<lparr>m_payload := json_put k v (m_payload t)\<rparr>)"
  by (simp add: set_payload_def)

lemmas token_setters =
  set_access_token_def set_access_duration_def set_access_expire_def set_refresh_token_def
  set_refresh_duration_def set_refresh_expire_def

definition renewed_keys :: "string set" where
  "renewed_keys = {khl_json_param_access_token, khl_json_param_access_expire, khl_json_param_delta_access_time,
     khl_json_param_refresh_token, khl_json_param_refresh_expire, khl_json_param_delta_refresh_time}"

lemma token_keys_distinct:
  "distinct [khl_json_param_access_token, khl_json_param_access_expire, khl_json_param_delta_access_time,
     khl_json_param_refresh_token, khl_json_param_refresh_expire, khl_json_param_delta_refresh_time]"
  by (simp add: token_keys)

definition renewed :: "int \<Rightarrow> string \<Rightarrow> int \<Rightarrow> string \<Rightarrow> int \<Rightarrow> token \<Rightarrow> token \<Rightarrow> bool" where
  "renewed now a ta r tr t t1 \<longleftrightarrow> m_access_token t1 = a \<and> m_refresh_token t1 = r
     \<and> m_access_expire t1 = now + (ta + 120) * 1000000 \<and> m_refresh_expire t1 = now + (tr + 120) * 1000000
     \<and> is_object (m_payload t1) \<and> m_payload t1 \<noteq> JNull
     \<and> json_at khl_json_param_delta_access_time (m_payload t1) = Some (JInt ta)
     \<and> json_at khl_json_param_delta_refresh_time (m_payload t1) = Some (JInt tr)
     \<and> (\<forall>j. j \<notin> renewed_keys \<longrightarrow> json_at j (m_payload t1) = json_at j (m_payload t))"

lemma renew_total:
  assumes "is_object (m_payload t)" and "is_int32 (ta + 120)" and "is_int32 (tr + 120)"
  shows "\<exists>t1. renew env now a ta r tr t = Some t1 \<and> renewed now a ta r tr t t1"
proof -
  have sum: "int_sum ta khl_token_append_time = Some (ta + 120)" "int_sum tr khl_token_append_time = Some (tr + 120)"
    using assms(2,3) by (simp_all add: int_sum_def khl_token_append_time_def)
  show ?thesis
    using assms(1) token_keys_distinct
    by (auto simp: renew_def sum token_setters renewed_def renewed_keys_def)
qed


section \<open>Exchanging a token\<close>

lemma modify_removed_ok:
  assumes ok: "tokens_ok st" and t: "deref p (ts_objects st) = Some t"
  shows "tokens_ok (remove_tokens (m_access_token t) (m_refresh_token t)
    (st\<lparr>ts_objects := modify p (\<lambda>_. t1) (ts_objects st), m_cache_db := c\<rparr>))"
proof -
  have sorted: "sorted_map (m_tokens st)" using ok by (simp add: tokens_ok_def)
  have "\<exists>u. deref q (modify p (\<lambda>_. t1) (ts_objects st)) = Some u \<and> k \<in> {m_access_token u, m_refresh_token u}"
    if k: "std_find k (m_tokens st) = Some q" "k \<noteq> m_access_token t" "k \<noteq> m_refresh_token t" for k q
  proof -
    obtain u where u: "deref q (ts_objects st) = Some u" "k \<in> {m_access_token u, m_refresh_token u}"
      using tokens_okD [OF ok k(1)] .
    then have "q \<noteq> p" using t k(2,3) by auto
    with u show ?thesis by auto
  qed
  then show ?thesis
    using sorted by (auto simp: tokens_ok_def remove_tokens_def sd.ok_erase2 sd.find_erase2 split: if_splits)
qed

lemma action_refresh_ok:
  assumes ok: "tokens_ok st"
    and act: "action_refresh_token env auth par p_refresh p_access now uuid1 uuid2 st = Some (r, st2)"
  shows "tokens_ok st2"
proof -
  obtain q st1 where q: "parse_token env auth par False (Some now) st = Some (q, st1)"
    using act by (auto simp: action_refresh_token_def bind_eq_Some_conv)
  note ok1 = parse_token_ok [OF ok q]
  show ?thesis
  proof (cases q)
    case None
    then show ?thesis using act q ok1 by (simp add: action_refresh_token_def)
  next
    case (Some p)
    then obtain t t1 c st3 where t: "deref p (ts_objects st1) = Some t" "st2 = st3"
      "update_tokens p (m_access_token t) (m_refresh_token t)
         (st1\<lparr>ts_objects := modify p (\<lambda>_. t1) (ts_objects st1), m_cache_db := c\<rparr>) = Some st3"
      using act unfolding action_refresh_token_def q Some Let_def
      by (clarsimp simp: bind_eq_Some_conv)
    let ?st = "remove_tokens (m_access_token t) (m_refresh_token t)
      (st1\<lparr>ts_objects := modify p (\<lambda>_. t1) (ts_objects st1), m_cache_db := c\<rparr>)"
    have "deref p (ts_objects ?st) = Some t1" using t(1) by (simp add: remove_tokens_def)
    moreover have "tokens_ok ?st" by (rule modify_removed_ok [OF conjunct1 [OF ok1] t(1)])
    ultimately obtain st4 where "append_token (Some p) ?st = Some st4" "tokens_ok st4"
      using append_token_ok by blast
    with t(2,3) show ?thesis unfolding update_tokens_def by simp
  qed
qed

text \<open>
  What the server does with its tokens: it makes one and enters it, checks the token of a
  request, forgets one, and exchanges one.
\<close>

inductive token_run :: "'c token_env \<Rightarrow> 'c token_state \<Rightarrow> 'c token_state \<Rightarrow> bool" for env where
  token_start: "token_run env st st"
| token_enter: "token_run env st st1 \<Longrightarrow> new_object t (ts_objects st1) = (p, objects) \<Longrightarrow>
    append_token (Some p) (st1\<lparr>ts_objects := objects\<rparr>) = Some st2 \<Longrightarrow> token_run env st st2"
| token_check: "token_run env st st1 \<Longrightarrow> parse_token env auth par acc check st1 = Some (r, st2) \<Longrightarrow> token_run env st st2"
| token_forget: "token_run env st st1 \<Longrightarrow> remove_token_id k st1 = Some st2 \<Longrightarrow> token_run env st st2"
| token_exchange: "token_run env st st1 \<Longrightarrow>
    action_refresh_token env auth par pr pa now u1 u2 st1 = Some (a, st2) \<Longrightarrow> token_run env st st2"

lemma token_run_ok: "token_run env st st' \<Longrightarrow> tokens_ok st \<Longrightarrow> tokens_ok st'"
proof (induction rule: token_run.induct)
  case (token_enter st st1 t p objects st2)
  then have ok: "tokens_ok st1" and p: "p = length (ts_objects st1)" "objects = ts_objects st1 @ [t]"
    by (auto simp: new_object_def)
  have "deref p (ts_objects (st1\<lparr>ts_objects := objects\<rparr>)) = Some t" by (simp add: p)
  from append_token_ok [OF grown_ok [OF ok, of t, folded p(2)] this] token_enter.hyps(3) show ?case by auto
next
  case (token_check st st1 auth par acc check r st2)
  then show ?case using parse_token_ok by blast
next
  case (token_forget st st1 k st2)
  then show ?case using remove_token_id_ok [of st1 k] by auto
next
  case (token_exchange st st1 auth par pr pa now u1 u2 a st2)
  then show ?case using action_refresh_ok by blast
qed simp

definition no_tokens :: "'c \<Rightarrow> 'c token_state" where
  "no_tokens cache = \<lparr>m_tokens = [], ts_objects = [], m_cache_db = cache\<rparr>"

lemma no_tokens_ok: "tokens_ok (no_tokens cache)"
  by (simp add: tokens_ok_def no_tokens_def)

lemma parse_token_memory:
  assumes "request_token auth par = Some k" and "k \<noteq> []" and "std_find k (m_tokens st) = Some p"
    and "deref p (ts_objects st) = Some t"
  shows "parse_token env auth par acc check st
     = (if token_expired acc check t then Some (None, remove_tokens (m_access_token t) (m_refresh_token t) st)
        else Some (Some p, st))"
  using assms by (simp add: parse_token_def find_token_def remove_token_def)

lemma renewed_durations:
  assumes "renewed now a ta r tr t t1" and "is_int32 ta" and "is_int32 tr"
  shows "get_access_duration t1 = Some ta" and "get_refresh_duration t1 = Some tr"
  using assms by (auto simp: renewed_def get_access_duration_def get_refresh_duration_def payload_int_def isMember_at)

definition token_answer :: "string \<Rightarrow> int \<Rightarrow> string \<Rightarrow> int \<Rightarrow> json" where
  "token_answer a ta r tr = json_put ''refresh_expires_in'' (JInt tr) (json_put ''access_expires_in'' (JInt ta)
     (json_put khl_json_param_refresh_token (JString r) (json_put khl_json_param_access_token (JString a)
       (json_put ''token_type'' (JString ''Bearer'') JNull))))"

lemma is_object_null [simp]: "is_object JNull"
  by (simp add: is_object_def)

lemma fill_json_renewed:
  assumes "renewed now a ta r tr t t1" and "is_int32 ta" and "is_int32 tr"
  shows "fill_json_token t1 JNull = Some (token_answer a ta r tr)"
proof -
  have "m_access_token t1 = a" "m_refresh_token t1 = r" using assms(1) by (simp_all add: renewed_def)
  then show ?thesis using renewed_durations [OF assms]
    by (simp add: fill_json_token_def token_answer_def khl_token_type_def del: json_set.simps)
qed

definition refreshed_cache :: "'c token_env \<Rightarrow> string \<Rightarrow> token \<Rightarrow> string \<Rightarrow> int \<Rightarrow> string \<Rightarrow> int \<Rightarrow> json \<Rightarrow> 'c \<Rightarrow> 'c" where
  "refreshed_cache env tag t a ta r tr payload c =
     (let key = cache_db_context env @ ''tt:'' @ tag; v = json_string payload in
      cache_sadd env key [r]
       (cache_setex env (cache_db_context env @ ''rt:'' @ r) (tr + 120) v
         (cache_setex env (cache_db_context env @ ''at:'' @ a) (ta + 120) v
           (cache_srem env key [m_refresh_token t] (cache_del env [m_access_token t, m_refresh_token t] c)))))"

lemma cache_refresh_renewed:
  assumes ren: "renewed now a ta r tr t t1" and tag: "json_at (cache_set_tag env) (m_payload t) \<bind> asString = Some tag"
    and key: "cache_set_tag env \<notin> renewed_keys"
  shows "cache_refresh env t t1 ta tr c = Some (refreshed_cache env tag t a ta r tr (m_payload t1) c)"
proof -
  have "json_at (cache_set_tag env) (m_payload t1) \<bind> asString = Some tag"
    using ren tag key by (simp add: renewed_def)
  then show ?thesis
    using ren by (simp add: cache_refresh_def refreshed_cache_def Let_def token_context_def khl_token_append_time_def renewed_def)
qed

lemma action_refresh_exchange:
  assumes parse: "parse_token env auth par False (Some now) st = Some (Some p, st1)"
    and t: "deref p (ts_objects st1) = Some t" "is_object (m_payload t)"
    and dur: "get_refresh_duration t = Some dr" "get_access_duration t = Some da"
    and lim: "ta = (case p_access of None \<Rightarrow> da | Some x \<Rightarrow> x)" "tr = (case p_refresh of None \<Rightarrow> dr | Some x \<Rightarrow> x)"
      "is_int32 ta" "is_int32 tr" "is_int32 (ta + 120)" "is_int32 (tr + 120)"
    and tag: "json_at (cache_set_tag env) (m_payload t) \<bind> asString = Some tag" "cache_set_tag env \<notin> renewed_keys"
    and new: "a = compact_uuid_to_string uuid1" "r = compact_uuid_to_string uuid2"
  shows "\<exists>t1. renewed now a ta r tr t t1 \<and>
    action_refresh_token env auth par p_refresh p_access now uuid1 uuid2 st
      = Some (Some (token_answer a ta r tr),
          st1\<lparr>ts_objects := modify p (\<lambda>_. t1) (ts_objects st1),
              m_cache_db := refreshed_cache env tag t a ta r tr (m_payload t1) (m_cache_db st1),
              m_tokens := std_insert a p (std_insert r p (std_erase (m_access_token t) (std_erase (m_refresh_token t) (m_tokens st1))))\<rparr>)"
proof -
  obtain t1 where t1: "renew env now a ta r tr t = Some t1" "renewed now a ta r tr t t1"
    using renew_total [OF t(2) lim(5,6)] by blast
  note facts = cache_refresh_renewed [OF t1(2) tag] fill_json_renewed [OF t1(2) lim(3,4)]
  have "m_access_token t1 = a" "m_refresh_token t1 = r" using t1(2) by (simp_all add: renewed_def)
  with t1 facts parse t(1) dur new lim(1,2) show ?thesis
    by (intro exI [of _ t1]) (simp add: action_refresh_token_def update_tokens_def append_token_def remove_tokens_def Let_def)
qed

lemma new_ids_answer:
  "json_at khl_json_param_access_token (token_answer a ta r tr) = Some (JString a)"
  "json_at khl_json_param_refresh_token (token_answer a ta r tr) = Some (JString r)"
  by (simp_all add: token_answer_def token_keys)

section \<open>Properties\<close>


text \<open>An environment and a token for the examples; the cache is a function of keys.\<close>

definition sample_payload :: json where
  "sample_payload = JObject [(''access_expire'', JString ''10''), (''access_token'', JString ''a''), (''delta_access_time'', JInt 60),
     (''delta_refresh_time'', JInt 600), (''id'', JString ''7''), (''refresh_expire'', JString ''20''), (''refresh_token'', JString ''r'')]"

definition sample_env :: "(string \<Rightarrow> string option) token_env" where
  "sample_env = \<lparr>sscanf_double = (\<lambda>_. None), to_iso = show_int,
     from_iso = (\<lambda>s. Some (if s = ''10'' then 10000000 else 20000000)), cache_exists = (\<lambda>k c. c k \<noteq> None), cache_get = (\<lambda>k c. c k),
     cache_setex = (\<lambda>k _ v c. c(k \<mapsto> v)), cache_del = (\<lambda>ks c k. if k \<in> set ks then None else c k),
     cache_sadd = (\<lambda>_ _ c. c), cache_srem = (\<lambda>_ _ c. c), cache_db_context = ''ctx:'', cache_set_tag = ''id''\<rparr>"

definition sample_token :: token where
  "sample_token = \<lparr>m_access_token = ''a'', m_refresh_token = ''r'', m_access_expire = 10000000,
     m_refresh_expire = 20000000, m_payload = sample_payload\<rparr>"

definition sample_text :: string where
  "sample_text = json_string sample_payload"

definition sample_cache :: "string \<Rightarrow> string option" where
  "sample_cache = [''ctx:at:a'' \<mapsto> sample_text, ''ctx:rt:r'' \<mapsto> sample_text]"

definition sample_tokens :: "(string \<Rightarrow> string option) token_state" where
  "sample_tokens = \<lparr>m_tokens = [(''a'', 0), (''r'', 0)], ts_objects = [sample_token], m_cache_db = sample_cache\<rparr>"

lemma sample_run: "token_run sample_env (no_tokens sample_cache) sample_tokens"
proof -
  have "append_token (Some 0) ((no_tokens sample_cache)\<lparr>ts_objects := [sample_token]\<rparr>) = Some sample_tokens"
    by (simp add: append_token_def no_tokens_def sample_tokens_def sample_token_def deref_def)
  moreover have "new_object sample_token (ts_objects (no_tokens sample_cache)) = (0, [sample_token])"
    by (simp add: new_object_def no_tokens_def)
  ultimately show ?thesis using token_enter [OF token_start] by blast
qed



text \<open>C10: a refresh token that is known and not expired is exchanged: the answer carries the two new
  identifiers, both lead to the token afterwards and the old ones to nothing, every other entry and
  every other token is as before, and the token's times are the asked ones (or its old ones) plus
  the two minutes of grace.\<close>

theorem refresh_rotates:
  assumes st: "tokens_ok st" "request_token auth par = Some k" "k \<noteq> []" "std_find k (m_tokens st) = Some p"
    and t: "deref p (ts_objects st) = Some t" "is_object (m_payload t)" "now < m_refresh_expire t"
    and dur: "get_refresh_duration t = Some dr" "get_access_duration t = Some da"
    and lim: "ta = (case p_access of None \<Rightarrow> da | Some x \<Rightarrow> x)" "tr = (case p_refresh of None \<Rightarrow> dr | Some x \<Rightarrow> x)"
      "is_int32 ta" "is_int32 tr" "is_int32 (ta + 120)" "is_int32 (tr + 120)"
    and tag: "json_at (cache_set_tag env) (m_payload t) \<bind> asString = Some tag" "cache_set_tag env \<notin> renewed_keys"
    and new: "a = compact_uuid_to_string uuid1" "r = compact_uuid_to_string uuid2"
      "std_find a (m_tokens st) = None" "std_find r (m_tokens st) = None"
  shows "\<exists>answer st' t'. action_refresh_token env auth par p_refresh p_access now uuid1 uuid2 st = Some (Some answer, st')
     \<and> json_at khl_json_param_access_token answer = Some (JString a)
     \<and> json_at khl_json_param_refresh_token answer = Some (JString r)
     \<and> (\<forall>x. std_find x (m_tokens st') = (if x \<in> {a, r} then Some p
          else if x \<in> {m_access_token t, m_refresh_token t} then None else std_find x (m_tokens st)))
     \<and> (\<forall>q. deref q (ts_objects st') = (if q = p then Some t' else deref q (ts_objects st)))
     \<and> m_access_token t' = a \<and> m_refresh_token t' = r
     \<and> m_access_expire t' = now + (ta + 120) * 1000000 \<and> m_refresh_expire t' = now + (tr + 120) * 1000000"
proof -
  have "parse_token env auth par False (Some now) st = Some (Some p, st)"
    using parse_token_memory [OF st(2-4) t(1)] t(3) by (simp add: token_expired_def is_no_expire_refresh_def)
  from action_refresh_exchange [OF this t(1,2) dur lim tag new(1,2)] obtain t' where
    t': "renewed now a ta r tr t t'" "action_refresh_token env auth par p_refresh p_access now uuid1 uuid2 st
      = Some (Some (token_answer a ta r tr),
          st\<lparr>ts_objects := modify p (\<lambda>_. t') (ts_objects st),
              m_cache_db := refreshed_cache env tag t a ta r tr (m_payload t') (m_cache_db st),
              m_tokens := std_insert a p (std_insert r p (std_erase (m_access_token t) (std_erase (m_refresh_token t) (m_tokens st))))\<rparr>)"
    by blast
  have sorted: "sorted_map (m_tokens st)" using st(1) by (simp add: tokens_ok_def)
  show ?thesis
    using t'(1) t(1) by (auto simp: t'(2) new_ids_answer sd.find_rekey [OF sorted] new(3,4) renewed_def)
qed

lemmas sample_simps =
  sample_tokens_def sample_token_def sample_payload_def sample_env_def deref_def is_object_def sorted_map_def
  get_refresh_duration_def get_access_duration_def payload_int_def isMember_def json_at_def is_int32_def
  token_keys renewed_keys_def

theorem refresh_rotates_witness:
  "\<exists>answer st' t'. action_refresh_token sample_env (Some ''Bearer r'') [] None (Some 30) 5000000 ''b-1'' ''s-2'' sample_tokens = Some (Some answer, st')
     \<and> json_at khl_json_param_access_token answer = Some (JString ''b1'')
     \<and> json_at khl_json_param_refresh_token answer = Some (JString ''s2'')
     \<and> (\<forall>x. std_find x (m_tokens st') = (if x \<in> {''b1'', ''s2''} then Some 0
          else if x \<in> {m_access_token sample_token, m_refresh_token sample_token} then None else std_find x (m_tokens sample_tokens)))
     \<and> (\<forall>q. deref q (ts_objects st') = (if q = 0 then Some t' else deref q (ts_objects sample_tokens)))
     \<and> m_access_token t' = ''b1'' \<and> m_refresh_token t' = ''s2''
     \<and> m_access_expire t' = 5000000 + (30 + 120) * 1000000 \<and> m_refresh_expire t' = 5000000 + (600 + 120) * 1000000"
  by (rule refresh_rotates [where k = "''r''" and dr = 600 and da = 60 and tag = "''7''", OF token_run_ok [OF sample_run no_tokens_ok]])
    (simp_all add: sample_simps request_token_def token_mask_def khl_token_type_def compact_uuid_to_string_def)

text \<open>
  What is assumed of the cache: it is a dictionary, \<open>DEL\<close> removes its keys and no others, \<open>SETEX\<close> sets
  its key, and the commands on the sets leave the other values alone.
\<close>

definition redis_laws :: "'c token_env \<Rightarrow> bool" where
  "redis_laws env \<longleftrightarrow>
     (\<forall>k c. cache_exists env k c \<longleftrightarrow> cache_get env k c \<noteq> None)
   \<and> (\<forall>k ks c. cache_get env k (cache_del env ks c) = (if k \<in> set ks then None else cache_get env k c))
   \<and> (\<forall>k j n v c. cache_get env k (cache_setex env j n v c) = (if k = j then Some v else cache_get env k c))
   \<and> (\<forall>k j xs c. cache_get env k c \<noteq> None \<longrightarrow> k \<noteq> j \<longrightarrow> cache_get env k (cache_sadd env j xs c) = cache_get env k c)
   \<and> (\<forall>k j xs c. cache_get env k c \<noteq> None \<longrightarrow> k \<noteq> j \<longrightarrow> cache_get env k (cache_srem env j xs c) = cache_get env k c)"

lemma refreshed_cache_keeps:
  assumes laws: "redis_laws env" and found: "cache_get env k c = Some v"
    and keys: "k \<noteq> m_access_token t" "k \<noteq> m_refresh_token t" "k \<noteq> cache_db_context env @ ''tt:'' @ tag"
      "k \<noteq> cache_db_context env @ ''rt:'' @ r" "k \<noteq> cache_db_context env @ ''at:'' @ a"
  shows "cache_get env k (refreshed_cache env tag t a ta r tr payload c) = Some v"
  using laws found keys by (simp add: refreshed_cache_def redis_laws_def Let_def)


lemma renew_ids:
  "renew env now a ta r tr t = Some t1 \<Longrightarrow> m_access_token t1 = a \<and> m_refresh_token t1 = r"
  by (auto simp: renew_def token_setters set_payload_def bind_eq_Some_conv)

lemma cache_refresh_keeps:
  assumes "redis_laws env" and "cache_refresh env t t1 ta tr c = Some c1"
    and "m_access_token t1 = a" and "m_refresh_token t1 = r"
    and "cache_get env (cache_db_context env @ ''at:'' @ x) c = Some v"
    and "x \<noteq> a" and "cache_db_context env @ ''at:'' @ x \<notin> {m_access_token t, m_refresh_token t}"
  shows "cache_get env (cache_db_context env @ ''at:'' @ x) c1 = Some v"
proof -
  obtain tag where "c1 = refreshed_cache env tag t a ta r tr (m_payload t1) c"
    using assms(2-4)
    by (auto simp: cache_refresh_def Let_def bind_eq_Some_conv refreshed_cache_def token_context_def khl_token_append_time_def)
  with refreshed_cache_keeps [OF assms(1) assms(5)] assms(6,7) show ?thesis by simp
qed

lemma action_refresh_success:
  assumes parse: "parse_token env auth par False (Some now) st = Some (Some p, st1)"
    and t: "deref p (ts_objects st1) = Some t"
    and act: "action_refresh_token env auth par p_refresh p_access now uuid1 uuid2 st = Some (Some answer, st')"
  obtains t1 ta tr c where "m_access_token t1 = compact_uuid_to_string uuid1" "m_refresh_token t1 = compact_uuid_to_string uuid2"
    "cache_refresh env t t1 ta tr (m_cache_db st1) = Some c" "m_cache_db st' = c"
    "ts_objects st' = modify p (\<lambda>_. t1) (ts_objects st1)"
    "m_tokens st' = std_insert (compact_uuid_to_string uuid1) p (std_insert (compact_uuid_to_string uuid2) p
       (std_erase (m_access_token t) (std_erase (m_refresh_token t) (m_tokens st1))))"
proof -
  obtain t1 ta tr c where t1: "renew env now (compact_uuid_to_string uuid1) ta (compact_uuid_to_string uuid2) tr t = Some t1"
    "cache_refresh env t t1 ta tr (m_cache_db st1) = Some c"
    "update_tokens p (m_access_token t) (m_refresh_token t)
       (st1\<lparr>ts_objects := modify p (\<lambda>_. t1) (ts_objects st1), m_cache_db := c\<rparr>) = Some st'"
    using act parse t unfolding action_refresh_token_def Let_def by (clarsimp simp: bind_eq_Some_conv)
  have "st' = st1\<lparr>ts_objects := modify p (\<lambda>_. t1) (ts_objects st1), m_cache_db := c,
    m_tokens := std_insert (m_access_token t1) p (std_insert (m_refresh_token t1) p
       (std_erase (m_access_token t) (std_erase (m_refresh_token t) (m_tokens st1))))\<rparr>"
    using t1(3) t by (simp add: update_tokens_def append_token_def remove_tokens_def)
  with renew_ids [OF t1(1)] t1(2) show thesis by (intro that [of t1 ta tr c]) simp_all
qed

lemma find_token_cached:
  assumes "redis_laws env" and "x \<noteq> []" and "std_find x (m_tokens st) = None"
    and "cache_get env (token_context env acc x) (m_cache_db st) = Some v" and "token_of_payload env v = Some t0"
  shows "\<exists>st'. find_token env acc x st = Some (Some (length (ts_objects st)), st') \<and> ts_objects st' = ts_objects st @ [t0]"
  using assms by (simp add: find_token_def redis_laws_def new_object_def append_token_def)


definition exchanged_tokens :: "(string \<Rightarrow> string option) token_state" where
  "exchanged_tokens = snd (the (action_refresh_token sample_env (Some ''Bearer r'') [] None (Some 30) 5000000 ''b-1'' ''s-2'' sample_tokens))"

lemma sample_laws: "redis_laws sample_env"
  by (simp add: redis_laws_def sample_env_def)

lemma sample_payload_read: "token_of_payload sample_env sample_text = Some sample_token"
proof -
  have p: "utf8_json sample_payload"
    by (simp add: sample_payload_def utf8_ascii char_code_def sorted_map_def less_char_def)
  have "readable 1 sample_payload"
    by (simp add: sample_payload_def stackLimit_def clean_ascii char_code_def)
  from parse_written [OF this] clean_json_utf8(1) [OF p]
  have "parse_json (sscanf_double sample_env) sample_text = Some (True, sample_payload)" by (simp add: sample_text_def)
  then show ?thesis by (simp add: token_of_payload_def sample_simps json_ref_def)
qed


text \<open>C24: a token in the dictionary is accepted exactly while the time asked for has not come, else it is
  dropped: both of its identifiers are unknown afterwards and every other entry is as before. Which of
  its two identifiers was sent makes no difference: a refresh token opens what an access token opens.\<close>

theorem known_token_checked:
  assumes "tokens_ok st" and "request_token auth par = Some k" and "k \<noteq> []" and "std_find k (m_tokens st) = Some p"
    and "deref p (ts_objects st) = Some t"
  shows "if now < (if is_access then m_access_expire t else m_refresh_expire t)
     then parse_token env auth par is_access (Some now) st = Some (Some p, st)
     else \<exists>st'. parse_token env auth par is_access (Some now) st = Some (None, st')
        \<and> (\<forall>x. std_find x (m_tokens st') = (if x \<in> {m_access_token t, m_refresh_token t} then None else std_find x (m_tokens st)))"
proof -
  have "sorted_map (m_tokens st)" using assms(1) by (simp add: tokens_ok_def)
  then show ?thesis
    using parse_token_memory [OF assms(2-5), of env is_access "Some now"]
    by (auto simp: token_expired_def is_no_expire_access_def is_no_expire_refresh_def remove_tokens_def sd.find_erase2)
qed

theorem known_token_checked_witness:
  "if (5000000::int) < (if True then m_access_expire sample_token else m_refresh_expire sample_token)
     then parse_token sample_env (Some ''Bearer r'') [] True (Some 5000000) sample_tokens = Some (Some 0, sample_tokens)
     else \<exists>st'. parse_token sample_env (Some ''Bearer r'') [] True (Some 5000000) sample_tokens = Some (None, st')
        \<and> (\<forall>x. std_find x (m_tokens st') = (if x \<in> {m_access_token sample_token, m_refresh_token sample_token} then None
             else std_find x (m_tokens sample_tokens)))"
  by (rule known_token_checked [OF token_run_ok [OF sample_run no_tokens_ok], where k = "''r''" and p = 0 and t = sample_token])
    (simp_all add: sample_simps request_token_def token_mask_def khl_token_type_def)

end
