(* ===== verification/Http_Response.thy ===== *)
theory Http_Response
  imports Http_Theorems Connection Std_Map
begin

text \<open>
  The response side of \<open>include/net/http.h\<close> and \<open>src/net/http.cpp\<close>: the response object, the header
  lines \<open>send_response\<close> writes, cookies, redirects, and \<open>send_file\<close> over a file system that is a
  parameter. Times of responses and cookies are microseconds since 1970, \<open>None\<close> for
  \<open>not_a_date_time\<close>; the clock gives seconds. Dates are those of the C locale.
\<close>

section \<open>Dates\<close>

text \<open>\<open>gmtime\<close>: the civil date of a day number, in the proleptic Gregorian calendar.\<close>

definition civil_date :: "int \<Rightarrow> int \<times> int \<times> int" where
  "civil_date days =
     (let z = days + 719468;
          era = z div 146097;
          doe = z mod 146097;
          yoe = (doe - doe div 1460 + doe div 36524 - doe div 146096) div 365;
          doy = doe - (365 * yoe + yoe div 4 - yoe div 100);
          mp = (5 * doy + 2) div 153;
          d = doy - (153 * mp + 2) div 5 + 1;
          m = (if mp < 10 then mp + 3 else mp - 9)
      in (yoe + era * 400 + (if m \<le> 2 then 1 else 0), m, d))"

definition weekday_names :: "string list" where
  "weekday_names = [''Sun'', ''Mon'', ''Tue'', ''Wed'', ''Thu'', ''Fri'', ''Sat'']"

definition month_names :: "string list" where
  "month_names = [''Jan'', ''Feb'', ''Mar'', ''Apr'', ''May'', ''Jun'', ''Jul'', ''Aug'', ''Sep'', ''Oct'', ''Nov'', ''Dec'']"

text \<open>\<open>strftime\<close> prints a question mark for a month that is none.\<close>

definition month_name :: "int \<Rightarrow> string" where
  "month_name m = (if 1 \<le> m \<and> m \<le> 12 then month_names ! nat (m - 1) else ''?'')"

definition two_digits :: "int \<Rightarrow> string" where
  "two_digits n = (if n < 10 then ''0'' else []) @ show_int n"

text \<open>\<open>strftime\<close> with \<open>%a, %d %b %Y %H:%M:%S GMT\<close>; cookies and files have a minus sign as \<open>sep\<close>.\<close>

definition http_date :: "string \<Rightarrow> int \<Rightarrow> string" where
  "http_date sep t =
     (let days = t div 86400; s = t mod 86400; (y, m, d) = civil_date days in
      weekday_names ! nat ((days + 4) mod 7) @ '', '' @ two_digits d @ sep @ month_name m @ sep @ show_int y
      @ '' '' @ two_digits (s div 3600) @ '':'' @ two_digits (s div 60 mod 60) @ '':'' @ two_digits (s mod 60) @ '' GMT'')"

text \<open>\<open>epoch_diff (pt).total_seconds ()\<close> truncates towards zero.\<close>

definition total_seconds :: "int \<Rightarrow> int" where
  "total_seconds us = sgn us * (\<bar>us\<bar> div 1000000)"

section \<open>The response object\<close>

record cookie =
  m_name_cookie :: string
  m_value :: string
  m_expire :: int
  m_domain :: string
  m_http_only :: bool

record response =
  m_header_params :: "(string, string) std_map"
  m_out_cookies :: "cookie list"
  m_auto_close :: bool
  m_code :: int
  m_code_reason :: string
  m_content_type :: string
  m_content_type_codepage :: string
  m_last_modify :: "int option"
  m_content_disposition :: string
  m_redirect_url :: string
  m_out_length :: nat

text \<open>\<open>clear\<close> leaves the redirect URL alone.\<close>

definition response_clear :: "response \<Rightarrow> response" where
  "response_clear r = r\<lparr>m_out_cookies := [], m_auto_close := True, m_code := 200, m_code_reason := ''Ok'',
     m_content_type := ''text/html'', m_content_type_codepage := ''UTF-8'', m_content_disposition := [],
     m_last_modify := None, m_out_length := 0, m_header_params := []\<rparr>"

definition response_new :: response where
  "response_new = response_clear
     \<lparr>m_header_params = [], m_out_cookies = [], m_auto_close = False, m_code = 0, m_code_reason = [],
      m_content_type = [], m_content_type_codepage = [], m_last_modify = None, m_content_disposition = [],
      m_redirect_url = [], m_out_length = 0\<rparr>"

definition set_header_param :: "string \<Rightarrow> string \<Rightarrow> response \<Rightarrow> response" where
  "set_header_param key v r = r\<lparr>m_header_params := std_insert key v (m_header_params r)\<rparr>"

definition set_response_status :: "int \<Rightarrow> string \<Rightarrow> response \<Rightarrow> response" where
  "set_response_status code reason r = r\<lparr>m_code := code, m_code_reason := reason\<rparr>"

definition set_redirect :: "int \<Rightarrow> string \<Rightarrow> response \<Rightarrow> response" where
  "set_redirect code url r = set_response_status code ''Redirect'' (r\<lparr>m_redirect_url := url\<rparr>)"

definition set_content_type :: "string \<Rightarrow> string \<Rightarrow> response \<Rightarrow> response" where
  "set_content_type ct codepage r = r\<lparr>m_content_type := ct, m_content_type_codepage := codepage\<rparr>"

definition set_content_disposition :: "string \<Rightarrow> response \<Rightarrow> response" where
  "set_content_disposition v r = r\<lparr>m_content_disposition := v\<rparr>"

definition set_last_modify :: "int option \<Rightarrow> response \<Rightarrow> response" where
  "set_last_modify v r = r\<lparr>m_last_modify := v\<rparr>"

definition set_cookie :: "string \<Rightarrow> string \<Rightarrow> int \<Rightarrow> string \<Rightarrow> bool \<Rightarrow> response \<Rightarrow> response" where
  "set_cookie name v expire domain http_only r =
     r\<lparr>m_out_cookies := m_out_cookies r @
        [\<lparr>m_name_cookie = name, m_value = v, m_expire = expire, m_domain = domain, m_http_only = http_only\<rparr>]\<rparr>"

section \<open>\<open>send_response\<close>\<close>

definition ENDL :: string where
  "ENDL = [CHR 0x0D, CHR 0x0A]"

definition is_send_data :: "http_request \<Rightarrow> bool option" where
  "is_send_data h = map_option (\<lambda>m. \<not> ci_equal m ''HEAD'') (get_query_method h)"

definition send_header_data :: "response \<Rightarrow> send list" where
  "send_header_data r = concat (map (\<lambda>(k, v). [Send_string k, Send_string '': '', Send_string v, Send_string ENDL])
     (m_header_params r))"

definition cookie_text :: "cookie \<Rightarrow> string" where
  "cookie_text c = ''Set-Cookie: '' @ m_name_cookie c @ ''='' @ m_value c @ ''; Expires='' @
     http_date ''-'' (total_seconds (m_expire c)) @ ''; Domain=.'' @ m_domain c @ ''; Path=/'' @
     (if m_http_only c then ''; HttpOnly '' else []) @ ENDL"

text \<open>The calls on the connection, in their order; \<open>send_number\<close> takes an \<open>unsigned int\<close>.\<close>

definition response_sends :: "int \<Rightarrow> string \<Rightarrow> string \<Rightarrow> response \<Rightarrow> send list" where
  "response_sends now http_version connection_keep_alive r =
     [Send_string http_version, Send_string '' '', Send_number (nat (m_code r mod 2 ^ 32)), Send_string '' '',
      Send_string (m_code_reason r), Send_string ENDL, Send_string (''Server: phreeber'' @ ENDL),
      Send_string ''Date: '', Send_string (http_date '' '' now), Send_string ENDL] @
     (if m_redirect_url r \<noteq> [] then [Send_string ''Location: '', Send_string (m_redirect_url r), Send_string ENDL] else []) @
     [Send_string (''Connection: '' @ connection_keep_alive @ ENDL)] @
     map (\<lambda>c. Send_string (cookie_text c)) (m_out_cookies r) @
     [Send_string (''Content-Type: '' @ m_content_type r)] @
     (if m_content_type_codepage r \<noteq> [] then [Send_string (''; charset='' @ m_content_type_codepage r)] else []) @
     [Send_string ENDL] @
     (if m_content_disposition r \<noteq> []
      then [Send_string (''Content-Disposition: '' @ m_content_disposition r), Send_string ENDL] else []) @
     [Send_string ''Content-Length: '', Send_number (m_out_length r mod 2 ^ 32), Send_string ENDL] @
     (case m_last_modify r of None \<Rightarrow> []
      | Some t \<Rightarrow> [Send_string ''Last-Modified: '', Send_string (http_date ''-'' (total_seconds t)), Send_string ENDL]) @
     send_header_data r @ [Send_string ENDL]"

text \<open>\<open>response\<close> is the memory the pointer leads to; reading more of it than there is is undefined.\<close>

definition send_response ::
  "int \<Rightarrow> http_request \<Rightarrow> string option \<Rightarrow> nat \<Rightarrow> response \<Rightarrow> connection \<Rightarrow> (response \<times> connection) option" where
  "send_response now h response_ptr len r c =
     do { let r1 = r\<lparr>m_out_length := len\<rparr>;
          http_version \<leftarrow> get_chunk_string (m_ab_header h) (m_query_version h);
          keep_alive \<leftarrow> get_header_parameter h ''Connection''
            (Some (if http_version = ''HTTP/1.1'' then ''keep-alive'' else ''close''));
          connection_keep_alive \<leftarrow> keep_alive;
          let r2 = r1\<lparr>m_auto_close := (connection_keep_alive \<noteq> ''keep-alive'')\<rparr>;
          c1 \<leftarrow> do_sends (response_sends now http_version connection_keep_alive r2) c;
          send \<leftarrow> is_send_data h;
          c2 \<leftarrow> (case response_ptr of
                   Some body \<Rightarrow> if send then if len \<le> length body then send_string (take len body) c1 else None
                                else Some c1
                 | None \<Rightarrow> Some c1);
          Some (r2, c2) }"

definition send_response_body ::
  "int \<Rightarrow> http_request \<Rightarrow> string \<Rightarrow> response \<Rightarrow> connection \<Rightarrow> (response \<times> connection) option" where
  "send_response_body now h body r c = send_response now h (Some body) (length body) r c"

definition end_of_response :: "int \<Rightarrow> http_request \<Rightarrow> response \<Rightarrow> connection \<Rightarrow> (response \<times> connection) option" where
  "end_of_response now h r c = send_response now h None 0 r c"

section \<open>\<open>send_file\<close>\<close>

text \<open>
  The file system: which names are directories, \<open>realpath\<close>, and \<open>fastfile::open_file\<close> with the
  content and the time of a file.
\<close>

record file_system =
  fs_is_dir :: "string \<Rightarrow> bool"
  fs_realpath :: "string \<Rightarrow> string option"
  fs_open :: "string \<Rightarrow> (string \<times> int) option"

definition PATH_MAX :: nat where
  "PATH_MAX = 4096"

text \<open>The name of the file asked for; a name that is empty is undefined (\<open>rbegin\<close>).\<close>

definition requested_file :: "file_system \<Rightarrow> string \<Rightarrow> string \<Rightarrow> string \<Rightarrow> string option" where
  "requested_file fs doc_root query_uri file_name =
     (let name = doc_root @ (if file_name = [] then query_uri else file_name) in
      if name = [] then None
      else if last name = CHR ''/'' then Some (name @ ''index.html'')
      else if fs_is_dir fs name then Some (name @ ''/'' @ ''index.html'')
      else Some name)"

text \<open>The position behind the last dot of the last path component, 0 when there is none.\<close>

fun extension_start :: "string \<Rightarrow> nat \<Rightarrow> nat" where
  "extension_start p 0 = 0"
| "extension_start p (Suc n) =
     (let ch = (if Suc n < length p then p ! Suc n else NUL) in
      if ch = CHR ''.'' then Suc n + 1
      else if ch = CHR 0x5C \<or> ch = CHR ''/'' then 0
      else extension_start p n)"

definition content_types :: "(string \<times> string \<times> string) list" where
  "content_types =
     [(''js'', ''application/javascript'', ''UTF-8''), (''html'', ''text/html'', ''UTF-8''),
      (''htm'', ''text/html'', ''UTF-8''), (''css'', ''text/css'', ''UTF-8''), (''gif'', ''image/gif'', []),
      (''jpg'', ''image/jpeg'', []), (''jpeg'', ''image/jpeg'', []), (''png'', ''image/png'', [])]"

definition set_type_of :: "string \<Rightarrow> response \<Rightarrow> response" where
  "set_type_of canonic r =
     (let n = extension_start canonic (length canonic) in
      if n > 0 then
        (case map_of content_types (drop n canonic) of
           None \<Rightarrow> r | Some (ct, cp) \<Rightarrow> set_content_type ct cp r)
      else r)"

definition not_found :: "int \<Rightarrow> http_request \<Rightarrow> response \<Rightarrow> connection \<Rightarrow> (bool \<times> response \<times> connection) option" where
  "not_found now h r c =
     map_option (Pair False) (send_response_body now h ''File not found'' (set_response_status 404 ''Not found'' r) c)"

text \<open>
  The date of \<open>If-Modified-Since\<close> is never parsed: \<open>(ims, "...", &t)\<close> is a comma expression, and
  the uninitialised \<open>t\<close> is converted; \<open>junk\<close> is the time that gives.
\<close>

definition send_file ::
  "file_system \<Rightarrow> int \<Rightarrow> int \<Rightarrow> http_request \<Rightarrow> string \<Rightarrow> string \<Rightarrow> string \<Rightarrow> response \<Rightarrow> connection \<Rightarrow>
   (bool \<times> response \<times> connection) option" where
  "send_file fs junk now h query_uri doc_root file_name r c =
     do { s_file_name \<leftarrow> requested_file fs doc_root query_uri file_name;
          if length s_file_name \<ge> PATH_MAX then not_found now h r c
          else case fs_realpath fs s_file_name of
            None \<Rightarrow> not_found now h r c
          | Some canonic \<Rightarrow>
              if take (length doc_root) canonic \<noteq> doc_root then not_found now h r c
              else case fs_open fs canonic of
                None \<Rightarrow> not_found now h r c
              | Some (content, time_update) \<Rightarrow>
                  do { ims \<leftarrow> get_header_parameter h ''If-Modified-Since'' None;
                       if ims \<noteq> None \<and> junk \<ge> time_update
                       then map_option (Pair True) (send_response now h None 0 (set_response_status 304 ''Not Modified'' r) c)
                       else do { let r1 = set_last_modify (Some (time_update * 1000000)) (set_type_of canonic r);
                                 (r2, c1) \<leftarrow> send_response now h None (length content) r1 c;
                                 send \<leftarrow> is_send_data h;
                                 c2 \<leftarrow> (if send then send_string content c1 else Some c1);
                                 Some (True, r2, c2) } } }"

end
