(* ===== verification/Http_Response_Theorems.thy ===== *)
theory Http_Response_Theorems
  imports Http_Response
begin

text \<open>
  What a client reads of a response: the header lines are separated, the header ends at the first
  empty line and the body follows. And which files \<open>send_file\<close> sends.
\<close>

section \<open>Reading a response\<close>

definition line_break :: char where
  "line_break = CHR 0x0D"

text \<open>The reference reader: lines up to the first empty one, then the rest.\<close>

fun read_line :: "string \<Rightarrow> (string \<times> string) option" where
  "read_line [] = None"
| "read_line (c # s) =
     (if c = line_break \<and> s \<noteq> [] \<and> List.hd s = CHR 0x0A then Some ([], tl s)
      else map_option (\<lambda>(l, rest). (c # l, rest)) (read_line s))"

lemma read_line_shorter: "read_line s = Some (l, rest) \<Longrightarrow> length rest < length s"
  by (induction s arbitrary: l rest) (auto split: if_splits simp: less_Suc_eq)

function read_head :: "string \<Rightarrow> (string list \<times> string) option" where
  "read_head s =
     (case read_line s of
        None \<Rightarrow> None
      | Some (l, rest) \<Rightarrow>
          if l = [] then Some ([], rest) else map_option (\<lambda>(ls, body). (l # ls, body)) (read_head rest))"
  by pat_completeness auto
termination
  by (relation "measure length") (auto dest: read_line_shorter)

declare read_head.simps [simp del]

lemma read_line_ENDL: "line_break \<notin> set l \<Longrightarrow> read_line (l @ ENDL @ s) = Some (l, s)"
  by (induction l) (auto simp: ENDL_def line_break_def)

lemma read_head_lines:
  assumes "\<forall>l \<in> set ls. line_break \<notin> set l \<and> l \<noteq> []"
  shows "read_head (concat (map (\<lambda>l. l @ ENDL) ls) @ ENDL @ body) = Some (ls, body)"
  using assms
proof (induction ls)
  case Nil
  show ?case using read_line_ENDL [of "[]"] by (subst read_head.simps) (simp del: read_line.simps)
next
  case (Cons l ls)
  have "read_line (concat (map (\<lambda>l. l @ ENDL) (l # ls)) @ ENDL @ body)
      = Some (l, concat (map (\<lambda>l. l @ ENDL) ls) @ ENDL @ body)"
    using read_line_ENDL [of l] Cons.prems by simp
  then show ?case using Cons by (subst read_head.simps) simp
qed

section \<open>The header lines\<close>

definition cookie_line :: "cookie \<Rightarrow> string" where
  "cookie_line c = ''Set-Cookie: '' @ m_name_cookie c @ ''='' @ m_value c @ ''; Expires='' @
     http_date ''-'' (total_seconds (m_expire c)) @ ''; Domain=.'' @ m_domain c @ ''; Path=/'' @
     (if m_http_only c then ''; HttpOnly '' else [])"

definition response_lines :: "int \<Rightarrow> string \<Rightarrow> string \<Rightarrow> response \<Rightarrow> nat \<Rightarrow> string list" where
  "response_lines now version keep_alive r len =
     [version @ '' '' @ print_d (nat (m_code r mod 2 ^ 32)) @ '' '' @ m_code_reason r,
      ''Server: phreeber'', ''Date: '' @ http_date '' '' now] @
     (if m_redirect_url r \<noteq> [] then [''Location: '' @ m_redirect_url r] else []) @
     [''Connection: '' @ keep_alive] @
     map cookie_line (m_out_cookies r) @
     [''Content-Type: '' @ m_content_type r @
        (if m_content_type_codepage r \<noteq> [] then ''; charset='' @ m_content_type_codepage r else [])] @
     (if m_content_disposition r \<noteq> [] then [''Content-Disposition: '' @ m_content_disposition r] else []) @
     [''Content-Length: '' @ print_d (len mod 2 ^ 32)] @
     (case m_last_modify r of None \<Rightarrow> [] | Some t \<Rightarrow> [''Last-Modified: '' @ http_date ''-'' (total_seconds t)]) @
     map (\<lambda>(k, v). k @ '': '' @ v) (m_header_params r)"

fun send_text :: "send \<Rightarrow> string" where
  "send_text (Send_string t) = t"
| "send_text (Send_number n) = print_d n"
| "send_text (Send_data bs) = []"

definition is_text :: "send \<Rightarrow> bool" where
  "is_text x \<longleftrightarrow> (case x of Send_data _ \<Rightarrow> False | _ \<Rightarrow> True)"

lemma sent_text: "\<forall>x \<in> set xs. is_text x \<Longrightarrow> concat (map sent_bytes xs) = map char_byte (concat (map send_text xs))"
proof (induction xs)
  case (Cons x xs)
  then show ?case by (cases x) (auto simp: is_text_def)
qed simp

lemma response_sends_text: "\<forall>x \<in> set (response_sends now version ka r). is_text x"
  by (auto simp: response_sends_def is_text_def send_header_data_def split: option.splits)

lemma header_data_text:
  "concat (map send_text (send_header_data r)) = concat (map (\<lambda>l. l @ ENDL) (map (\<lambda>(k, v). k @ '': '' @ v) (m_header_params r)))"
proof -
  have "concat (map send_text (concat (map (\<lambda>(k, v). [Send_string k, Send_string '': '', Send_string v, Send_string ENDL]) m)))
     = concat (map (\<lambda>l. l @ ENDL) (map (\<lambda>(k, v). k @ '': '' @ v) m))" for m
    by (induction m) auto
  then show ?thesis by (simp add: send_header_data_def)
qed

lemma cookie_texts:
  "concat (map send_text (map (\<lambda>c. Send_string (cookie_text c)) cs)) = concat (map (\<lambda>l. l @ ENDL) (map cookie_line cs))"
  by (induction cs) (auto simp: cookie_text_def cookie_line_def)

lemma response_sends_lines:
  "concat (map send_text (response_sends now version ka r))
     = concat (map (\<lambda>l. l @ ENDL) (response_lines now version ka r (m_out_length r))) @ ENDL"
  unfolding response_sends_def response_lines_def
  by (simp add: header_data_text cookie_texts del: map_map split: option.splits)


section \<open>Lines without a line end\<close>

definition digit_chars :: "string" where
  "digit_chars = ''0123456789''"

lemma digit_char_in: "d < 10 \<Longrightarrow> digit_char d \<in> set digit_chars"
proof -
  assume "d < 10"
  then have "d \<in> {0, 1, 2, 3, 4, 5, 6, 7, 8, 9}" by auto
  then show ?thesis by (elim insertE emptyE) (simp_all add: digit_chars_def digit_char_def char_of_def bit_Suc_0_iff)
qed

lemma decimal_digits: "set (decimal n) \<subseteq> set digit_chars"
proof (induction n rule: less_induct)
  case (less n)
  then show ?case by (subst decimal.simps) (auto intro: digit_char_in)
qed

lemma decimal_CR [simp]: "line_break \<notin> set (decimal n)"
  using decimal_digits [of n] by (auto simp: digit_chars_def line_break_def)

lemma print_d_CR [simp]: "line_break \<notin> set (print_d n)"
  by (simp add: print_d_def Let_def) (simp add: line_break_def)

lemma show_int_CR [simp]: "line_break \<notin> set (show_int n)"
  by (simp add: show_int_def) (simp add: line_break_def)

lemma month_name_CR [simp]: "line_break \<notin> set (month_name m)"
proof -
  have "\<forall>x \<in> set month_names. line_break \<notin> set x" by (simp add: month_names_def line_break_def)
  moreover have "1 \<le> m \<Longrightarrow> m \<le> 12 \<Longrightarrow> month_names ! nat (m - 1) \<in> set month_names"
    by (intro nth_mem) (simp add: month_names_def)
  ultimately show ?thesis by (auto simp: month_name_def line_break_def)
qed

lemma weekday_CR [simp]: "line_break \<notin> set (weekday_names ! nat ((n + 4) mod 7))"
proof -
  have "\<forall>x \<in> set weekday_names. line_break \<notin> set x" by (simp add: weekday_names_def line_break_def)
  moreover have "weekday_names ! nat ((n + 4) mod 7) \<in> set weekday_names"
    by (intro nth_mem) (simp add: weekday_names_def nat_less_iff)
  ultimately show ?thesis by blast
qed

lemma http_date_CR: "line_break \<notin> set sep \<Longrightarrow> line_break \<notin> set (http_date sep t)"
  by (auto simp: http_date_def two_digits_def Let_def split: prod.splits) (simp_all add: line_break_def)

text \<open>A response whose texts contain no line end.\<close>

definition plain_response :: "response \<Rightarrow> bool" where
  "plain_response r \<longleftrightarrow>
     (\<forall>x \<in> {m_code_reason r, m_redirect_url r, m_content_type r, m_content_type_codepage r, m_content_disposition r}. line_break \<notin> set x)
   \<and> (\<forall>c \<in> set (m_out_cookies r). line_break \<notin> set (m_name_cookie c) \<and> line_break \<notin> set (m_value c) \<and> line_break \<notin> set (m_domain c))
   \<and> (\<forall>(k, v) \<in> set (m_header_params r). line_break \<notin> set k \<and> line_break \<notin> set v)"

lemma cookie_line_CR:
  assumes "line_break \<notin> set (m_name_cookie c)" and "line_break \<notin> set (m_value c)" and "line_break \<notin> set (m_domain c)"
  shows "line_break \<notin> set (cookie_line c)" and "cookie_line c \<noteq> []"
proof -
  have "line_break \<notin> set (http_date ''-'' (total_seconds (m_expire c)))" by (rule http_date_CR) (simp add: line_break_def)
  with assms show "line_break \<notin> set (cookie_line c)" by (simp add: cookie_line_def) (simp add: line_break_def)
qed (simp add: cookie_line_def)

definition out_line_ok :: "string \<Rightarrow> bool" where
  "out_line_ok l \<longleftrightarrow> line_break \<notin> set l \<and> l \<noteq> []"

lemma out_line_ok_append: "line_break \<notin> set a \<Longrightarrow> a \<noteq> [] \<Longrightarrow> line_break \<notin> set b \<Longrightarrow> out_line_ok (a @ b)"
  by (simp add: out_line_ok_def)

lemma response_lines_ok:
  assumes "plain_response r" and "line_break \<notin> set version" and "line_break \<notin> set ka"
  shows "list_all out_line_ok (response_lines now version ka r len)"
proof -
  have dates: "line_break \<notin> set (http_date '' '' t)" "line_break \<notin> set (http_date ''-'' t)" for t
    by (rule http_date_CR, simp add: line_break_def)+
  have head: "out_line_ok (version @ '' '' @ print_d n @ '' '' @ m_code_reason r)" for n
    using assms by (simp add: out_line_ok_def plain_response_def) (simp add: line_break_def)
  have cookies: "list_all out_line_ok (map cookie_line (m_out_cookies r))"
    using assms(1) cookie_line_CR by (simp add: list_all_iff out_line_ok_def plain_response_def)
  have params: "list_all out_line_ok (map (\<lambda>(k, v). k @ '': '' @ v) (m_header_params r))"
    using assms(1) by (fastforce simp: list_all_iff out_line_ok_def plain_response_def line_break_def)
  have ct: "out_line_ok (''Content-Type: '' @ m_content_type r @
        (if m_content_type_codepage r \<noteq> [] then ''; charset='' @ m_content_type_codepage r else []))"
    using assms(1) by (intro out_line_ok_append; simp add: plain_response_def; simp add: line_break_def)
  have texts: "line_break \<notin> set ka" "line_break \<notin> set (m_redirect_url r)" "line_break \<notin> set (m_content_disposition r)"
    using assms by (simp_all add: plain_response_def)
  have server: "out_line_ok ''Server: phreeber''" by (simp add: out_line_ok_def line_break_def)
  have named: "out_line_ok (''Date: '' @ http_date '' '' now)"
    "out_line_ok (''Location: '' @ m_redirect_url r)" "out_line_ok (''Connection: '' @ ka)"
    "out_line_ok (''Content-Disposition: '' @ m_content_disposition r)"
    "out_line_ok (''Content-Length: '' @ print_d n)" "out_line_ok (''Last-Modified: '' @ http_date ''-'' t)" for n t
    by (intro out_line_ok_append; simp add: texts dates; simp add: line_break_def)+
  show ?thesis
    unfolding response_lines_def using head cookies params ct server named
    by (simp del: append_Cons append_Nil split: option.split)
qed


section \<open>Decimal numbers\<close>

lemma digit_c_digit_char: "d < 10 \<Longrightarrow> digit_c (digit_char d) = Some d"
  by (simp add: digit_c_def digit_char_def)

lemma digit_c_digits: "c \<in> set digit_chars \<Longrightarrow> digit_c c \<noteq> None"
  by (auto simp: digit_chars_def digit_c_def)

lemma digits_value_append:
  "set xs \<subseteq> set digit_chars \<Longrightarrow> digits_value acc (xs @ ys) = digits_value (digits_value acc xs) ys"
proof (induction xs arbitrary: acc)
  case (Cons c xs)
  then show ?case using digit_c_digits [of c] by (auto split: option.splits)
qed simp

lemma digits_value_decimal [simp]: "digits_value 0 (decimal n) = n"
proof (induction n rule: less_induct)
  case (less n)
  show ?case
  proof (cases "n < 10")
    case True
    then show ?thesis by (subst decimal.simps) (simp add: digit_c_digit_char)
  next
    case False
    have "digits_value 0 (decimal n) = digits_value (digits_value 0 (decimal (n div 10))) [digit_char (n mod 10)]"
      using False by (subst decimal.simps) (simp add: digits_value_append [OF decimal_digits])
    also have "\<dots> = n" using False by (simp add: less.IH digit_c_digit_char)
    finally show ?thesis .
  qed
qed

lemma decimal_inject: "decimal a = decimal b \<longleftrightarrow> a = b"
  by (metis digits_value_decimal)

lemma print_d_decimal: "print_d (len mod 2 ^ 32) = decimal len \<longleftrightarrow> len < 2 ^ 31"
proof -
  have "CHR ''-'' \<notin> set (decimal len)" using decimal_digits [of len] by (auto simp: digit_chars_def)
  then have "CHR ''-'' # s \<noteq> decimal len" for s by (metis list.set_intros(1))
  then show ?thesis by (auto simp: print_d_def Let_def decimal_inject)
qed

section \<open>Properties\<close>

fun header_value :: "string \<Rightarrow> string list \<Rightarrow> string option" where
  "header_value name [] = None"
| "header_value name (l # ls) =
     (if take (length name + 2) l = name @ '': '' then Some (drop (length name + 2) l) else header_value name ls)"

lemma header_value_append:
  "header_value name (xs @ ys) = (case header_value name xs of None \<Rightarrow> header_value name ys | Some v \<Rightarrow> Some v)"
  by (induction xs) auto

lemma cookies_no_length: "header_value ''Content-Length'' (map cookie_line cs) = None"
  by (induction cs) (auto simp: cookie_line_def)

lemma announced_length:
  "header_value ''Content-Length'' (tl (response_lines now version ka r len)) = Some (print_d (len mod 2 ^ 32))"
  by (auto simp: response_lines_def header_value_append cookies_no_length split: option.splits)

lemma announced_connection:
  "header_value ''Connection'' (tl (response_lines now version ka r len)) = Some ka"
  by (auto simp: response_lines_def)

text \<open>What a request object must offer for an answer: version, method and the \<open>Connection\<close> lookup.\<close>

definition answerable :: "http_request \<Rightarrow> string \<Rightarrow> string \<Rightarrow> string \<Rightarrow> bool" where
  "answerable h version ka method \<longleftrightarrow>
     get_chunk_string (m_ab_header h) (m_query_version h) = Some version
   \<and> get_header_parameter h ''Connection'' (Some (if version = ''HTTP/1.1'' then ''keep-alive'' else ''close'')) = Some (Some ka)
   \<and> get_query_method h = Some method \<and> line_break \<notin> set version \<and> line_break \<notin> set ka"

text \<open>\<open>sent_more t c c'\<close>: all that happened to the connection is that \<open>t\<close> was written to it.\<close>

definition sent_more :: "string \<Rightarrow> connection \<Rightarrow> connection \<Rightarrow> bool" where
  "sent_more t c c' \<longleftrightarrow> c' = c\<lparr>m_send_bytes := m_send_bytes c', c_written := c_written c @ map char_byte t,
     c_pending := c_pending c @ map char_byte t\<rparr>"

lemma sent_more_fields:
  assumes "sent_more t c c'"
  shows "has_bev c' = has_bev c" and "m_bev c' = m_bev c" and "m_socket_buffer c' = m_socket_buffer c"
    and "c_written c' = c_written c @ map char_byte t" and "c_pending c' = c_pending c @ map char_byte t"
    and "c_deleted c' = c_deleted c" and "m_receive_bytes c' = m_receive_bytes c"
proof -
  obtain n where "c' = c\<lparr>m_send_bytes := n, c_written := c_written c @ map char_byte t,
     c_pending := c_pending c @ map char_byte t\<rparr>"
    using assms unfolding sent_more_def by blast
  then show "has_bev c' = has_bev c" and "m_bev c' = m_bev c" and "m_socket_buffer c' = m_socket_buffer c"
    and "c_written c' = c_written c @ map char_byte t" and "c_pending c' = c_pending c @ map char_byte t"
    and "c_deleted c' = c_deleted c" and "m_receive_bytes c' = m_receive_bytes c"
    by (simp_all add: has_bev_def)
qed

lemma sent_more_refl: "sent_more [] c c"
  by (simp add: sent_more_def)

lemma sent_more_trans: "sent_more s c c1 \<Longrightarrow> sent_more t c1 c2 \<Longrightarrow> sent_more (s @ t) c c2"
  unfolding sent_more_def by (cases c; cases c1; cases c2) simp

lemma send_string_more: "has_bev c \<Longrightarrow> \<exists>c'. send_string t c = Some c' \<and> sent_more t c c'"
  by (simp add: send_string_def send_data_def sent_more_def)

lemma do_sends_more:
  "has_bev c \<Longrightarrow> \<forall>x \<in> set xs. is_text x \<Longrightarrow> \<exists>c'. do_sends xs c = Some c' \<and> sent_more (concat (map send_text xs)) c c'"
proof (induction xs arbitrary: c)
  case (Cons x xs)
  obtain c1 where c1: "do_send x c = Some c1" "sent_more (send_text x) c c1"
    using Cons.prems send_string_more [OF Cons.prems(1), of "send_text x"] by (cases x) (auto simp: is_text_def send_number_def)
  have "has_bev c1" using sent_more_fields(1) [OF c1(2)] Cons.prems by simp
  from Cons.IH [OF this] Cons.prems(2) obtain c2 where "do_sends xs c1 = Some c2"
    "sent_more (concat (map send_text xs)) c1 c2" by auto
  with c1 sent_more_trans [OF c1(2)] show ?case by auto
qed (simp add: sent_more_refl)

definition response_text :: "int \<Rightarrow> string \<Rightarrow> string \<Rightarrow> response \<Rightarrow> nat \<Rightarrow> string" where
  "response_text now version ka r len = concat (map (\<lambda>l. l @ ENDL) (response_lines now version ka r len)) @ ENDL"

lemma read_response_text:
  assumes "plain_response r" and "line_break \<notin> set version" and "line_break \<notin> set ka"
  shows "read_head (response_text now version ka r len @ rest) = Some (response_lines now version ka r len, rest)"
  using read_head_lines [of "response_lines now version ka r len" rest] response_lines_ok [OF assms, of now len]
  by (simp add: response_text_def list_all_iff out_line_ok_def)

lemma send_response_exact:
  assumes bev: "has_bev c" and h: "answerable h version ka method"
    and len: "\<forall>body. response_ptr = Some body \<longrightarrow> len \<le> length body"
  shows "\<exists>c'. send_response now h response_ptr len r c
      = Some (r\<lparr>m_out_length := len, m_auto_close := (ka \<noteq> ''keep-alive'')\<rparr>, c')
     \<and> sent_more (response_text now version ka r len @
          (case response_ptr of Some body \<Rightarrow> if ci_equal method ''HEAD'' then [] else take len body | None \<Rightarrow> [])) c c'"
proof -
  let ?r = "r\<lparr>m_out_length := len, m_auto_close := (ka \<noteq> ''keep-alive'')\<rparr>"
  have "response_lines now version ka ?r len = response_lines now version ka r len"
    by (simp add: response_lines_def)
  with do_sends_more [OF bev response_sends_text, of now version ka ?r] response_sends_lines [of now version ka ?r]
  obtain c1 where c1: "do_sends (response_sends now version ka ?r) c = Some c1"
    "sent_more (response_text now version ka r len) c c1"
    by (auto simp: response_text_def)
  have bev1: "has_bev c1" using sent_more_fields(1) [OF c1(2)] bev by simp
  show ?thesis
  proof (cases "response_ptr = None \<or> ci_equal method ''HEAD''")
    case True
    then show ?thesis using h c1
      by (auto simp: send_response_def answerable_def is_send_data_def Let_def split: option.splits)
  next
    case False
    then obtain body where body: "response_ptr = Some body" "\<not> ci_equal method ''HEAD''" by auto
    obtain c2 where c2: "send_string (take len body) c1 = Some c2" "sent_more (take len body) c1 c2"
      using send_string_more [OF bev1] by blast
    show ?thesis using h c1 c2 body len sent_more_trans [OF c1(2) c2(2)]
      by (auto simp: send_response_def answerable_def is_send_data_def Let_def)
  qed
qed

lemma send_response_spec:
  assumes bev: "has_bev c" and h: "answerable h version ka method" and r: "plain_response r"
    and len: "\<forall>body. response_ptr = Some body \<longrightarrow> len \<le> length body"
  shows "\<exists>r' c' sent. send_response now h response_ptr len r c = Some (r', c') \<and> has_bev c'
     \<and> c_written c' = c_written c @ map char_byte sent
     \<and> (\<forall>rest. read_head (sent @ rest) = Some (response_lines now version ka r len,
           (case response_ptr of Some body \<Rightarrow> if ci_equal method ''HEAD'' then [] else take len body | None \<Rightarrow> []) @ rest))
     \<and> r' = r\<lparr>m_out_length := len, m_auto_close := (ka \<noteq> ''keep-alive'')\<rparr>"
proof -
  obtain c' where c': "send_response now h response_ptr len r c
      = Some (r\<lparr>m_out_length := len, m_auto_close := (ka \<noteq> ''keep-alive'')\<rparr>, c')"
    "sent_more (response_text now version ka r len @
       (case response_ptr of Some body \<Rightarrow> if ci_equal method ''HEAD'' then [] else take len body | None \<Rightarrow> [])) c c'"
    using send_response_exact [OF bev h len] by blast
  have "line_break \<notin> set version" "line_break \<notin> set ka" using h by (simp_all add: answerable_def)
  note read = read_response_text [OF r this]
  show ?thesis using c'(1) sent_more_fields [OF c'(2)] bev read by (intro exI conjI) (assumption | simp)+
qed

text \<open>C14: a response whose texts contain no line end is read back by a client as the server meant it:
  the header lines, with the length of the body announced and the client's own connection wish
  returned, then the body and nothing else, and no body for \<open>HEAD\<close>. The connection is kept only when
  that wish is \<open>keep-alive\<close> to the letter.\<close>

theorem response_framed:
  assumes "has_bev c" and "answerable h version ka method" and "plain_response r" and "length body < 2 ^ 31"
  shows "\<exists>r' c' sent lines. send_response_body now h body r c = Some (r', c')
     \<and> c_written c' = c_written c @ map char_byte sent
     \<and> read_head sent = Some (lines, if ci_equal method ''HEAD'' then [] else body)
     \<and> lines = response_lines now version ka r (length body)
     \<and> header_value ''Content-Length'' (tl lines) = Some (decimal (length body))
     \<and> header_value ''Connection'' (tl lines) = Some ka
     \<and> (m_auto_close r' \<longleftrightarrow> ka \<noteq> ''keep-alive'')"
proof -
  obtain r' c' sent where s: "send_response now h (Some body) (length body) r c = Some (r', c')"
    "c_written c' = c_written c @ map char_byte sent"
    "\<forall>rest. read_head (sent @ rest) = Some (response_lines now version ka r (length body),
       (if ci_equal method ''HEAD'' then [] else body) @ rest)" "m_auto_close r' = (ka \<noteq> ''keep-alive'')"
    using send_response_spec [OF assms(1-3), of "Some body" "length body" now] by auto
  from spec [OF s(3), of "[]"] s(1,2,4) show ?thesis
    using print_d_decimal [of "length body"] assms(4)
    by (auto simp: send_response_body_def announced_length announced_connection)
qed

text \<open>the length of a response is printed as a signed number of 32 bits: from \<open>2 ^ 31\<close> on the
  announced length is never the length of the file or body.\<close>

theorem large_response_misannounced:
  assumes "has_bev c" and "answerable h version ka method" and "plain_response r" and "2 ^ 31 \<le> len"
  shows "\<exists>r' c' sent lines v. send_response now h None len r c = Some (r', c')
     \<and> c_written c' = c_written c @ map char_byte sent \<and> read_head sent = Some (lines, [])
     \<and> header_value ''Content-Length'' (tl lines) = Some v \<and> v \<noteq> decimal len"
proof -
  obtain r' c' sent where s: "send_response now h None len r c = Some (r', c')"
    "c_written c' = c_written c @ map char_byte sent"
    "\<forall>rest. read_head (sent @ rest) = Some (response_lines now version ka r len, rest)"
    using send_response_spec [OF assms(1-3), of None len now] by auto
  from spec [OF s(3), of "[]"] s(1,2) show ?thesis
    using print_d_decimal [of len] assms(4) by (auto simp: announced_length)
qed


text \<open>A request object for the examples: \<open>GET\<close>, \<open>HTTP/1.1\<close>, one header line.\<close>

definition sample_get :: http_request where
  "sample_get = request_new\<lparr>m_ab_header := auto_buffer_new\<lparr>m_buffer := map Some (''GET'' @ [NUL] @ ''HTTP/1.1'' @ [NUL] @ ''If-Modified-Since'' @ [NUL] @ ''now'' @ [NUL]), m_full_size := 35, m_ready_position := 35\<rparr>, m_query_method := Some 0, m_query_version := Some 4,
     m_header_values := [(13, Some 31)]\<rparr>"

definition sample_connection :: connection where
  "sample_connection = open_connection (connection_new 1)"

lemmas sample_get_simps =
  sample_get_def request_new_def get_chunk_string_def cstr_at_def NUL_def line_break_def
  get_query_method_def get_header_parameter_def c_str_def string_at_def

lemma sample_answerable: "answerable sample_get ''HTTP/1.1'' ''keep-alive'' ''GET''"
  by (simp add: answerable_def sample_get_simps ascii_lower_def char_of_def bit_Suc_0_iff Let_def)

lemma sample_if_modified: "get_header_parameter sample_get ''If-Modified-Since'' None = Some (Some ''now'')"
  by (simp add: sample_get_simps)

lemma sample_plain: "plain_response response_new"
  by (simp add: plain_response_def response_new_def response_clear_def line_break_def)

lemma sample_bev: "has_bev sample_connection"
  by (simp add: has_bev_def sample_connection_def open_connection_def)

theorem response_framed_witness:
  "\<exists>r' c' sent lines. send_response_body 0 sample_get ''hello'' response_new sample_connection = Some (r', c')
     \<and> c_written c' = c_written sample_connection @ map char_byte sent
     \<and> read_head sent = Some (lines, if ci_equal ''GET'' ''HEAD'' then [] else ''hello'')
     \<and> lines = response_lines 0 ''HTTP/1.1'' ''keep-alive'' response_new (length ''hello'')
     \<and> header_value ''Content-Length'' (tl lines) = Some (decimal (length ''hello''))
     \<and> header_value ''Connection'' (tl lines) = Some ''keep-alive''
     \<and> (m_auto_close r' \<longleftrightarrow> ''keep-alive'' \<noteq> ''keep-alive'')"
  by (rule response_framed [OF sample_bev sample_answerable sample_plain]) simp

theorem large_response_misannounced_witness:
  "\<exists>r' c' sent lines v. send_response 0 sample_get None 3000000000 response_new sample_connection = Some (r', c')
     \<and> c_written c' = c_written sample_connection @ map char_byte sent \<and> read_head sent = Some (lines, [])
     \<and> header_value ''Content-Length'' (tl lines) = Some v \<and> v \<noteq> decimal 3000000000"
  by (rule large_response_misannounced [OF sample_bev sample_answerable sample_plain]) simp

section \<open>Files\<close>

lemma plain_set_type: "plain_response r \<Longrightarrow> plain_response (set_type_of p r)"
  by (auto simp: set_type_of_def set_content_type_def plain_response_def content_types_def line_break_def Let_def split: option.splits)

lemma plain_set_last_modify [simp]: "plain_response (set_last_modify t r) = plain_response r"
  by (simp add: plain_response_def set_last_modify_def)

lemma plain_status: "plain_response r \<Longrightarrow> line_break \<notin> set reason \<Longrightarrow> plain_response (set_response_status n reason r)"
  by (simp add: plain_response_def set_response_status_def)


definition sample_fs :: file_system where
  "sample_fs = \<lparr>fs_is_dir = (\<lambda>p. False),
     fs_realpath = (\<lambda>p. if p = ''/srv/www/../www-private/key.js'' then Some ''/srv/www-private/key.js'' else None),
     fs_open = (\<lambda>p. if p = ''/srv/www-private/key.js'' then Some (''secret'', 86400) else None)\<rparr>"


text \<open>C22: what \<open>send_file\<close> does depends on the content of no file whose canonical name does not begin
  with the document root.\<close>

theorem send_file_confined:
  assumes "fs_is_dir fs2 = fs_is_dir fs1" and "fs_realpath fs2 = fs_realpath fs1"
    and "\<And>p. take (length doc_root) p = doc_root \<Longrightarrow> fs_open fs2 p = fs_open fs1 p"
  shows "send_file fs2 junk now h query_uri doc_root file_name r c = send_file fs1 junk now h query_uri doc_root file_name r c"
proof -
  have req: "requested_file fs2 doc_root query_uri file_name = requested_file fs1 doc_root query_uri file_name"
    by (simp add: requested_file_def Let_def assms(1))
  show ?thesis
  proof (cases "requested_file fs1 doc_root query_uri file_name")
    case (Some name)
    show ?thesis
    proof (cases "fs_realpath fs1 name")
      case canonic: (Some p)
      then show ?thesis using Some req assms(3) [of p] by (cases "take (length doc_root) p = doc_root") (simp_all add: send_file_def assms(2))
    qed (simp add: send_file_def req Some assms(2))
  qed (simp add: send_file_def req)
qed

theorem send_file_confined_witness:
  "send_file (sample_fs\<lparr>fs_open := (fs_open sample_fs)(''/etc/passwd'' := Some (''root'', 0))\<rparr>) 0 0 sample_get ''/a'' ''/srv/www'' [] response_new sample_connection
     = send_file sample_fs 0 0 sample_get ''/a'' ''/srv/www'' [] response_new sample_connection"
  by (rule send_file_confined) auto

text \<open>the date of an \<open>If-Modified-Since\<close> line is never read: whether the file or the answer 304 is
  sent is decided by the uninitialised time, whatever the date says.\<close>

theorem modified_since_not_read:
  assumes conn: "has_bev c" "answerable h version ka method" "plain_response r"
    and path: "requested_file fs doc_root query_uri file_name = Some name" "length name < PATH_MAX"
      "fs_realpath fs name = Some (doc_root @ suffix)" "fs_open fs (doc_root @ suffix) = Some (content, mtime)"
    and ims: "get_header_parameter h ''If-Modified-Since'' None = Some (Some date)" and junk: "mtime \<le> junk"
  shows "\<exists>r' c' sent. send_file fs junk now h query_uri doc_root file_name r c = Some (True, r', c')
     \<and> c_written c' = c_written c @ map char_byte sent
     \<and> read_head sent = Some (response_lines now version ka (set_response_status 304 ''Not Modified'' r) 0, [])"
proof -
  let ?r = "set_response_status 304 ''Not Modified'' r"
  have "plain_response ?r" using conn(3) by (rule plain_status) (simp add: line_break_def)
  from send_response_spec [OF conn(1,2) this, of None 0 now]
  obtain r' c1 sent where s: "send_response now h None 0 ?r c = Some (r', c1)"
    "c_written c1 = c_written c @ map char_byte sent"
    "\<forall>rest. read_head (sent @ rest) = Some (response_lines now version ka ?r 0, rest)"
    by auto
  have "\<not> PATH_MAX \<le> length name" using path(2) by simp
  then have "send_file fs junk now h query_uri doc_root file_name r c = Some (True, r', c1)"
    using path(1,3,4) ims s(1) junk by (simp add: send_file_def)
  with s(2) spec [OF s(3), of "[]"] show ?thesis by auto
qed

theorem modified_since_not_read_witness:
  "\<exists>r' c' sent. send_file sample_fs 999999 0 sample_get ''/../www-private/key.js'' ''/srv/www'' []
        response_new sample_connection = Some (True, r', c')
     \<and> c_written c' = c_written sample_connection @ map char_byte sent
     \<and> read_head sent = Some (response_lines 0 ''HTTP/1.1'' ''keep-alive'' (set_response_status 304 ''Not Modified'' response_new) 0, [])"
  by (rule modified_since_not_read [OF sample_bev sample_answerable sample_plain, where name = "''/srv/www/../www-private/key.js''"
        and suffix = "''-private/key.js''" and mtime = 86400, OF _ _ _ _ sample_if_modified])
    (simp_all add: requested_file_def sample_fs_def PATH_MAX_def)

end
