(* ===== verification/Server.thy ===== *)
theory Server
  imports Http_Response
begin

text \<open>
  \<open>include/app/server2h.h\<close> and \<open>src/app/server2h.cxx\<close>: the HTTP connection of the server, with the
  request object it is filling, the task that processes a complete request, and the dispatch of
  a request to an action or to the file server. An HTTP object of the source is the pair of its
  request and its response part. The function that processes a request is an argument of the
  connection's operations, as it is virtual in the source.
\<close>

section \<open>Processing a request\<close>

type_synonym http_processor = "http_request \<times> response"
type_synonym processed = "(bool \<times> http_processor \<times> connection) option"

record http_connection =
  hc_conn :: connection
  m_http_processor :: "http_processor option"
  m_receive_bytes_prev_request :: nat
  m_send_bytes_prev_request :: nat

definition http_connection_new :: "connection \<Rightarrow> http_connection" where
  "http_connection_new c =
     \<lparr>hc_conn = c, m_http_processor = None, m_receive_bytes_prev_request = 0, m_send_bytes_prev_request = 0\<rparr>"

definition update_prev_bytes :: "http_connection \<Rightarrow> http_connection" where
  "update_prev_bytes hc = hc\<lparr>m_receive_bytes_prev_request := m_receive_bytes (hc_conn hc),
     m_send_bytes_prev_request := m_send_bytes (hc_conn hc)\<rparr>"

definition get_last_receive_bytes :: "http_connection \<Rightarrow> nat" where
  "get_last_receive_bytes hc = usub (m_receive_bytes (hc_conn hc)) (m_receive_bytes_prev_request hc)"

definition get_last_send_bytes :: "http_connection \<Rightarrow> nat" where
  "get_last_send_bytes hc = usub (m_send_bytes (hc_conn hc)) (m_send_bytes_prev_request hc)"

text \<open>
  What answers a request is virtual in the source and an argument here: \<open>'s\<close> is the state of the server it
  changes. \<open>HttpTask::processing\<close> calls \<open>is_send_data\<close> for the log line.
\<close>

type_synonym 's service = "http_processor \<Rightarrow> connection \<Rightarrow> 's \<Rightarrow> (bool \<times> http_processor \<times> connection \<times> 's) option"

definition processing :: "'s service \<Rightarrow> http_processor \<Rightarrow> http_connection \<Rightarrow> 's \<Rightarrow> (http_connection \<times> 's) option" where
  "processing process_http proc hc st =
     do { (_, proc1, c1, st1) \<leftarrow> process_http proc (hc_conn hc) st;
          send \<leftarrow> is_send_data (fst proc1);
          if m_auto_close (snd proc1)
          then do { c2 \<leftarrow> close_connection c1; Some (hc\<lparr>hc_conn := c2\<rparr>, st1) }
          else Some (update_prev_bytes (hc\<lparr>hc_conn := c1\<rparr>), st1) }"

text \<open>\<open>data_processing\<close>: bytes are characters for the parser; \<open>junk\<close> is its uninitialised size.\<close>

definition byte_char :: "byte \<Rightarrow> char" where
  "byte_char b = char_of (unat b)"

definition char_cells :: "byte memory \<Rightarrow> char memory" where
  "char_cells mem = map (map_option byte_char) mem"

definition http_data_processing :: "'s service \<Rightarrow> nat \<Rightarrow> (http_connection \<times> 's) data_processing" where
  "http_data_processing process_http junk mem p n state =
     do { let (hc, st) = state;
          let (h, r) = (case m_http_processor hc of None \<Rightarrow> (request_new, response_new) | Some x \<Rightarrow> x);
          (process_bytes, h1) \<leftarrow> process_data junk (char_cells mem) p n h;
          if process_bytes \<noteq> 0 \<and> is_ready h1
          then do { (hc1, st1) \<leftarrow> processing process_http (h1, r) hc st;
                    Some (process_bytes, hc1\<lparr>m_http_processor := None\<rparr>, st1) }
          else Some (process_bytes, hc\<lparr>m_http_processor := Some (h1, r)\<rparr>, st) }"

text \<open>\<open>stub_conn_read\<close> of such a connection: the handlers write to the connection that is read.\<close>

definition http_stub_conn_read ::
  "'s service \<Rightarrow> nat \<Rightarrow> byte list \<Rightarrow> http_connection \<Rightarrow> 's \<Rightarrow> (http_connection \<times> 's) option" where
  "http_stub_conn_read process_http junk xs hc st =
     (if xs = [] then Some (hc, st)
      else do { b \<leftarrow> receive_input xs (m_socket_buffer (hc_conn hc));
                let c = (hc_conn hc)\<lparr>m_socket_buffer := b, m_receive_bytes := uadd (m_receive_bytes (hc_conn hc)) (length xs)\<rparr>;
                (s, hc1, st1) \<leftarrow> compile_loop (http_data_processing process_http junk) (m_buffer b) (get_fill_size b) 0
                   (hc\<lparr>hc_conn := c\<rparr>, st);
                Some (hc1\<lparr>hc_conn := (hc_conn hc1)\<lparr>m_socket_buffer := cut_from_head s (m_socket_buffer (hc_conn hc1))\<rparr>\<rparr>, st1) })"

text \<open>A server whose answers change nothing but the connection.\<close>

definition stateless :: "(http_processor \<Rightarrow> connection \<Rightarrow> processed) \<Rightarrow> unit service" where
  "stateless process_http proc c u = map_option (\<lambda>(ok, proc1, c1). (ok, proc1, c1, u)) (process_http proc c)"

section \<open>Dispatch\<close>

text \<open>An action of a derived class gets the rest of the path, the HTTP object and the connection.\<close>

type_synonym action_handler = "string \<Rightarrow> http_processor \<Rightarrow> connection \<Rightarrow> processed"

record server =
  m_doc_root :: string
  m_storage_root :: string
  m_dictActionS2Hs :: "(string, action_handler) std_map"
  sv_files :: file_system
  sv_now :: int
  sv_junk :: int

definition get_url_prefix_action :: string where
  "get_url_prefix_action = ''/api/''"

definition parse_action :: "string \<Rightarrow> string \<times> string" where
  "parse_action query =
     (if CHR ''/'' \<in> set query
      then (takeWhile (\<lambda>c. c \<noteq> CHR ''/'') query, tl (dropWhile (\<lambda>c. c \<noteq> CHR ''/'') query))
      else (query, []))"

definition process_http_file_server :: "server \<Rightarrow> string \<Rightarrow> http_processor \<Rightarrow> connection \<Rightarrow> processed" where
  "process_http_file_server sv query_uri proc c =
     map_option (\<lambda>(ok, r1, c1). (ok, (fst proc, r1), c1))
       (send_file (sv_files sv) (sv_junk sv) (sv_now sv) (fst proc) query_uri (m_doc_root sv) [] (snd proc) c)"

definition process_http_action :: "server \<Rightarrow> string \<Rightarrow> string \<Rightarrow> http_processor \<Rightarrow> connection \<Rightarrow> processed" where
  "process_http_action sv action uri_params proc c =
     (case std_find action (m_dictActionS2Hs sv) of
        Some func_action \<Rightarrow> func_action uri_params proc c
      | None \<Rightarrow> Some (False, proc, c))"

text \<open>\<open>process_http\<close>, with the virtual functions it calls as arguments.\<close>

definition dispatch_http ::
  "int \<Rightarrow> (string \<Rightarrow> string \<Rightarrow> http_processor \<Rightarrow> connection \<Rightarrow> processed) \<Rightarrow>
   (string \<Rightarrow> http_processor \<Rightarrow> connection \<Rightarrow> processed) \<Rightarrow> http_processor \<Rightarrow> connection \<Rightarrow> processed" where
  "dispatch_http now http_action file_server proc c =
     do { query_uri \<leftarrow> get_query_uri (fst proc);
          let size_upa = length get_url_prefix_action;
          if take size_upa query_uri = get_url_prefix_action then
            do { let (action, params) = parse_action (drop size_upa query_uri);
                 (found, (h1, r1), c1) \<leftarrow> http_action action params proc c;
                 if found then Some (True, (h1, r1), c1)
                 else do { (r2, c2) \<leftarrow> send_response_body now h1 ''File not found'' (set_response_status 404 ''Not found'' r1) c1;
                           Some (False, (h1, r2), c2) } }
          else file_server query_uri proc c }"

definition process_http :: "server \<Rightarrow> http_processor \<Rightarrow> connection \<Rightarrow> processed" where
  "process_http sv = dispatch_http (sv_now sv) (process_http_action sv) (process_http_file_server sv)"

end
