(* ===== verification/Http_Host.thy ===== *)
theory Http_Host
  imports Http_Theorems
begin

text \<open>
  What a parsed request says of its host and its client: \<open>get_host\<close>, \<open>get_client_proxy_ip\<close> and the other
  header lookups in terms of the header lines on the wire. \<open>get_host\<close> cuts the value of the host line at its
  colon inside the header buffer; texts without a colon are not touched by that.
\<close>

section \<open>The parser leaves the host alone\<close>

lemma header_line_host: "header_line mem h f = Some (go, h1, f1) \<Longrightarrow> m_host h1 = m_host h"
  by (auto simp: header_line_def record_header_def Let_def bind_eq_Some_conv split: option.splits if_splits)

lemma headers_loop_host: "headers_loop mem h f = Some (h1, f1) \<Longrightarrow> m_host h1 = m_host h"
proof (induction mem h f rule: headers_loop.induct)
  case (1 mem h f)
  then show ?case
    by (subst (asm) (2) headers_loop.simps) (auto split: if_splits option.splits bool.splits dest: header_line_host)
qed

lemma line_step_host:
  "step_method mem h f = Some (go, h1, f1) \<Longrightarrow> m_host h1 = m_host h"
  "step_uri mem h f = Some (go, h1, f1) \<Longrightarrow> m_host h1 = m_host h"
  "step_params mem h f = Some (go, h1, f1) \<Longrightarrow> m_host h1 = m_host h"
  "step_version mem h f = Some (go, h1, f1) \<Longrightarrow> m_host h1 = m_host h"
  by (auto simp: step_method_def step_uri_def step_params_def step_version_def Let_def bind_eq_Some_conv
      split: option.splits if_splits)

lemma and_then_host:
  assumes "and_then r k = Some (go, h1, f1)" and "\<And>go h2 f. r = Some (go, h2, f) \<Longrightarrow> m_host h2 = x"
    and "\<And>h2 f go h3 f3. k h2 f = Some (go, h3, f3) \<Longrightarrow> m_host h3 = m_host h2"
  shows "m_host h1 = x"
  using assms by (fastforce simp: and_then_def bind_eq_Some_conv split: if_splits)

lemma process_header_host:
  assumes "process_header mem h f = Some (go, h1, f1)"
  shows "m_host h1 = m_host h"
proof -
  have lines: "headers_loop mem h f \<bind> (\<lambda>(h1, f1). Some (True, h1, f1)) = Some (go, h2, f2) \<Longrightarrow> m_host h2 = m_host h" for h f go h2 f2
    by (auto simp: bind_eq_Some_conv dest: headers_loop_host)
  show ?thesis
  proof (cases "m_header_process h")
    case eProcessingFirst
    then have run: "and_then (and_then (and_then (and_then (step_method mem h f) (step_uri mem)) (step_params mem)) (step_version mem))
        (\<lambda>h f. headers_loop mem h f \<bind> (\<lambda>(h1, f1). Some (True, h1, f1))) = Some (go, h1, f1)"
      using assms by (simp add: process_header_def)
    show ?thesis
      by (rule and_then_host [OF run])
        (erule and_then_host lines line_step_host | assumption)+
  qed (use assms lines in \<open>auto simp: process_header_def\<close>)
qed

lemma merge_form_host: "merge_form h = Some h1 \<Longrightarrow> m_host h1 = m_host h"
  by (auto simp: merge_form_def join_params_def Let_def bind_eq_Some_conv split: if_splits)

lemma finish_body_host: "finish_body h = Some h1 \<Longrightarrow> m_host h1 = m_host h"
  by (auto simp: finish_body_def Let_def bind_eq_Some_conv split: option.splits if_splits; drule merge_form_host; simp)

lemma process_body_host: "process_body mem h f = Some (h1, f1) \<Longrightarrow> m_host h1 = m_host h"
  by (auto simp: process_body_def split_params_def Let_def bind_eq_Some_conv dest: finish_body_host split: if_splits)

lemma process_data_host: "process_data junk mem buffer n h = Some (k, h1) \<Longrightarrow> m_host h1 = m_host h"
  by (fastforce simp: process_data_def bind_eq_Some_conv dest: process_header_host process_body_host split: if_splits)

section \<open>Lookups on the wire\<close>

definition header_of :: "string \<Rightarrow> wire_request \<Rightarrow> string option" where
  "header_of key r = lookup_ci key (map seen_header (q_headers r))"

lemma header_of_request:
  "seen_lists r h \<Longrightarrow> NUL \<notin> set key \<Longrightarrow>
     get_header_parameter h key dflt = Some (case header_of key r of None \<Rightarrow> dflt | Some v \<Rightarrow> Some v)"
  using get_header_parameter_views [OF _ views_low] by (simp add: seen_lists_def header_of_def)

lemma header_index_request:
  assumes "seen_lists r h" and "NUL \<notin> set key"
  shows "(case header_of key r of
       None \<Rightarrow> get_header_index h key = Some None
     | Some v \<Rightarrow> \<exists>q. get_header_index h key = Some (Some q) \<and> cstr_at (m_buffer (m_ab_header h)) q = Some v)"
  using find_pair_views [OF assms(2) views_low, of "m_ab_header h" "m_header_values h" "header_pairs (map seen_header (q_headers r))"]
    assms(1) by (auto simp: seen_lists_def get_header_index_def header_of_def lookup_ci_header_pairs split: option.splits)

definition proxy_ip_of :: "wire_request \<Rightarrow> string option" where
  "proxy_ip_of r = (case header_of ''X-Forwarded-For'' r of None \<Rightarrow> header_of ''X-Real-IP'' r | Some v \<Rightarrow> Some v)"

lemma proxy_ip_request: "seen_lists r h \<Longrightarrow> get_client_proxy_ip h = Some (proxy_ip_of r)"
  using header_index_request [of r h "''X-Forwarded-For''"] header_index_request [of r h "''X-Real-IP''"]
  by (auto simp: get_client_proxy_ip_def proxy_ip_of_def string_at_def NUL_def split: option.splits)

definition cookie_of :: "string \<Rightarrow> wire_request \<Rightarrow> string option" where
  "cookie_of key r = lookup_or key (concat (map seen_cookies (q_headers r))) None"

lemma cookie_request: "seen_lists r h \<Longrightarrow> NUL \<notin> set key \<Longrightarrow> get_cookie h key None = Some (cookie_of key r)"
  using get_cookie_views [OF _ views_low] by (simp add: seen_lists_def cookie_of_def)

section \<open>The host\<close>

definition host_of :: "wire_request \<Rightarrow> string" where
  "host_of r = (case header_of ''Host'' r of None \<Rightarrow> [] | Some v \<Rightarrow> takeWhile (\<lambda>c. c \<noteq> CHR '':'') v)"

text \<open>A colon of the buffer became a terminator, or nothing changed.\<close>

definition colon_cut :: "char memory \<Rightarrow> char memory \<Rightarrow> bool" where
  "colon_cut cells cells' \<longleftrightarrow> cells' = cells
     \<or> (\<exists>p < length cells. cells ! p = Some CHR '':'' \<and> cells' = cells[p := Some NUL])"

lemma cstr_colon:
  "cstr xs = Some s \<Longrightarrow> CHR '':'' \<notin> set s \<Longrightarrow> xs ! i = Some CHR '':'' \<Longrightarrow> i < length xs \<Longrightarrow> cstr (xs[i := Some NUL]) = Some s"
proof (induction xs arbitrary: s i rule: cstr.induct)
  case (3 c mem)
  show ?case
  proof (cases i)
    case 0
    then show ?thesis using 3 by (auto simp: NUL_def split: if_splits)
  next
    case (Suc j)
    then show ?thesis using 3 by (auto split: if_splits)
  qed
qed simp_all

lemma cstr_at_colon_cut:
  assumes "cstr_at cells x = Some s" and "CHR '':'' \<notin> set s" and "colon_cut cells cells'"
  shows "cstr_at cells' x = Some s"
proof -
  consider "cells' = cells" | p where "p < length cells" "cells ! p = Some CHR '':''" "cells' = cells[p := Some NUL]"
    using assms(3) by (auto simp: colon_cut_def)
  then show ?thesis
  proof cases
    case (2 p)
    show ?thesis
    proof (cases "p < x")
      case False
      then show ?thesis using cstr_colon [of "drop x cells" s "p - x"] assms(1,2) 2
        by (simp add: cstr_at_def drop_update_swap)
    qed (use assms(1) 2 in \<open>simp add: cstr_at_def\<close>)
  qed (use assms(1) in simp)
qed

lemma host_port_loop_spec:
  "cstr_at cells idx = Some v \<Longrightarrow> \<exists>cells' port. host_port_loop cells idx = Some (cells', port)
     \<and> colon_cut cells cells' \<and> cstr_at cells' idx = Some (takeWhile (\<lambda>c. c \<noteq> CHR '':'') v)"
proof (induction cells idx arbitrary: v rule: host_port_loop.induct)
  case (1 cells idx)
  have lt: "idx < length cells" using "1.prems" by (cases "idx < length cells") (simp_all add: cstr_at_def)
  then have d: "drop idx cells = cells ! idx # drop (Suc idx) cells" by (simp add: Cons_nth_drop_Suc)
  then obtain c where c: "cells ! idx = Some c" using "1.prems" by (cases "cells ! idx") (simp_all add: cstr_at_def)
  consider "c = NUL" | "c = CHR '':''" "c \<noteq> NUL" | "c \<noteq> NUL" "c \<noteq> CHR '':''" by blast
  then show ?case
  proof cases
    case 1
    then show ?thesis using lt c d "1.prems" by (subst host_port_loop.simps) (simp add: colon_cut_def cstr_at_def)
  next
    case 2
    then obtain w where "v = c # w" using c d "1.prems" by (auto simp: cstr_at_def)
    then show ?thesis using lt c 2
      by (subst host_port_loop.simps) (auto simp: colon_cut_def cstr_at_def drop_update_swap Cons_nth_drop_Suc [symmetric])
  next
    case 3
    then obtain w where w: "v = c # w" "cstr_at cells (Suc idx) = Some w" using c d "1.prems" by (auto simp: cstr_at_def)
    from "1.IH" [OF lt c 3 w(2)] obtain cells' port where r: "host_port_loop cells (Suc idx) = Some (cells', port)"
      "colon_cut cells cells'" "cstr_at cells' (Suc idx) = Some (takeWhile (\<lambda>c. c \<noteq> CHR '':'') w)" by blast
    have "cells' ! idx = Some c" "length cells' = length cells"
      using r(2) c 3 by (auto simp: colon_cut_def nth_list_update)
    then have "drop idx cells' = Some c # drop (Suc idx) cells'" using lt by (metis Cons_nth_drop_Suc)
    then have "cstr_at cells' idx = Some (takeWhile (\<lambda>c. c \<noteq> CHR '':'') v)"
      using r(3) 3 w(1) by (simp add: cstr_at_def)
    then show ?thesis using lt c 3 r by (subst host_port_loop.simps) simp
  qed
qed

text \<open>The request object behind \<open>get_host\<close>.\<close>

definition host_seen :: "http_request \<Rightarrow> http_request \<Rightarrow> bool" where
  "host_seen h h1 \<longleftrightarrow> (\<exists>cells i port. colon_cut (m_buffer (m_ab_header h)) cells
     \<and> h1 = h\<lparr>m_ab_header := (m_ab_header h)\<lparr>m_buffer := cells\<rparr>, m_host := i, m_port := port\<rparr>)"

lemma host_seen_refl: "host_seen h h"
  unfolding host_seen_def colon_cut_def
  by (intro exI [of _ "m_buffer (m_ab_header h)"] exI [of _ "m_host h"] exI [of _ "m_port h"]) simp

theorem host_request:
  assumes "seen_lists r h" and "m_host h = None"
  shows "\<exists>h1. get_host h = Some (host_of r, h1) \<and> host_seen h h1 \<and> get_host h1 = Some (host_of r, h1)"
proof (cases "header_of ''Host'' r")
  case None
  then have "get_header_index h ''Host'' = Some None"
    using header_index_request [OF assms(1), of "''Host''"] by (simp add: NUL_def)
  then show ?thesis using None assms(2) host_seen_refl [of h]
    by (auto simp: get_host_def calculate_host_port_def host_of_def)
next
  case (Some v)
  then obtain q where q: "get_header_index h ''Host'' = Some (Some q)" "cstr_at (m_buffer (m_ab_header h)) q = Some v"
    using header_index_request [OF assms(1), of "''Host''"] by (auto simp: NUL_def)
  obtain cells port where l: "host_port_loop (m_buffer (m_ab_header h)) q = Some (cells, port)"
    "colon_cut (m_buffer (m_ab_header h)) cells" "cstr_at cells q = Some (takeWhile (\<lambda>c. c \<noteq> CHR '':'') v)"
    using host_port_loop_spec [OF q(2)] by blast
  let ?h1 = "h\<lparr>m_ab_header := (m_ab_header h)\<lparr>m_buffer := cells\<rparr>, m_host := Some q, m_port := Some port\<rparr>"
  have "get_host h = Some (host_of r, ?h1)" "get_host ?h1 = Some (host_of r, ?h1)"
    using q l Some assms(2) by (simp_all add: get_host_def calculate_host_port_def host_of_def)
  moreover have "host_seen h ?h1" using l(2) unfolding host_seen_def by blast
  ultimately show ?thesis by blast
qed

section \<open>What the cut leaves alone\<close>

lemma find_pair_colon_cut:
  assumes "colon_cut cells cells'" and "NUL \<notin> set key"
  shows "views cells ps kvs \<Longrightarrow> \<forall>(k, v) \<in> set kvs. CHR '':'' \<notin> set k \<Longrightarrow> find_pair key cells' ps = find_pair key cells ps"
proof (induction ps arbitrary: kvs)
  case (Cons p ps)
  obtain k v kvs1 where kvs: "kvs = (k, v) # kvs1" using Cons.prems(1) by (cases kvs) (auto simp: views_def)
  obtain pk pv where p: "p = (pk, pv)" by (cases p)
  have k: "cstr_at cells pk = Some k" using Cons.prems(1) by (simp add: kvs p read_pair_view_iff)
  then have "cstr_at cells' pk = Some k" using cstr_at_colon_cut [OF _ _ assms(1)] Cons.prems(2) by (simp add: kvs)
  with k have "strcasecmp_eq (c_str key) (drop pk cells') = strcasecmp_eq (c_str key) (drop pk cells)"
    using strcasecmp_eq_at assms(2) by simp
  moreover have "find_pair key cells' ps = find_pair key cells ps" using Cons by (auto simp: kvs)
  ultimately show ?case by (simp add: p cong: if_cong)
qed simp

lemma header_keys:
  "request_ok r \<Longrightarrow> \<forall>(k, v) \<in> set (header_pairs (map seen_header (q_headers r))). CHR '':'' \<notin> set k"
  by (force simp: request_ok_def list_all_iff header_pairs_def seen_header_def header_ok_def word_ok_def)

lemma header_parameter_host_seen:
  assumes "request_ok r" and "seen_lists r h" and "host_seen h h1" and "NUL \<notin> set key"
    and "case header_of key r of None \<Rightarrow> True | Some v \<Rightarrow> CHR '':'' \<notin> set v"
  shows "get_header_parameter h1 key dflt = get_header_parameter h key dflt"
proof -
  obtain cells i port where c: "colon_cut (m_buffer (m_ab_header h)) cells"
    "h1 = h\<lparr>m_ab_header := (m_ab_header h)\<lparr>m_buffer := cells\<rparr>, m_host := i, m_port := port\<rparr>"
    using assms(3) by (auto simp: host_seen_def)
  have v: "views (m_buffer (m_ab_header h)) (m_header_values h) (header_pairs (map seen_header (q_headers r)))"
    using assms(2) views_low by (auto simp: seen_lists_def)
  note same = find_pair_colon_cut [OF c(1) assms(4) v header_keys [OF assms(1)]]
  show ?thesis
    using find_pair_views [OF assms(4) v] assms(5) cstr_at_colon_cut [OF _ _ c(1)]
    by (auto simp: get_header_parameter_def c(2) same header_of_def lookup_ci_header_pairs string_at_def split: option.splits)
qed

lemma chunk_string_host_seen:
  assumes "get_chunk_string (m_ab_header h) c = Some s" and "CHR '':'' \<notin> set s" and "host_seen h h1"
  shows "get_chunk_string (m_ab_header h1) c = Some s"
proof -
  obtain cells i port where h1: "colon_cut (m_buffer (m_ab_header h)) cells"
    "h1 = h\<lparr>m_ab_header := (m_ab_header h)\<lparr>m_buffer := cells\<rparr>, m_host := i, m_port := port\<rparr>"
    using assms(3) by (auto simp: host_seen_def)
  from assms(1) obtain p where p: "c = Some p" "cstr_at (m_buffer (m_ab_header h)) p = Some s"
    by (auto simp: get_chunk_string_def split: option.splits)
  from cstr_at_colon_cut [OF p(2) assms(2) h1(1)] show ?thesis by (simp add: get_chunk_string_def p(1) h1(2))
qed

lemma host_seen_fields:
  "host_seen h h1 \<Longrightarrow> m_query_method h1 = m_query_method h \<and> m_query_version h1 = m_query_version h
     \<and> m_ab_body h1 = m_ab_body h \<and> m_ab_params h1 = m_ab_params h \<and> m_params_value h1 = m_params_value h"
  by (auto simp: host_seen_def)

end
