(* ===== verification/Server_Theorems.thy ===== *)
theory Server_Theorems
  imports Server Http_Response_Theorems Http_Host
begin

text \<open>
  Parser, dispatch, response writer and connection together: requests that arrive in one piece
  are answered one after the other, each by what the file server or the dispatcher says.
\<close>

section \<open>Requests that arrive in one piece\<close>

lemma byte_char_byte [simp]: "byte_char (char_byte c) = c"
proof -
  have "(of_char c :: byte) = word_of_nat (of_char c)" by (simp add: of_nat_of_char)
  then have "unat (of_char c :: byte) = of_char c mod 256" by (simp add: unat_of_nat)
  then show ?thesis by (simp add: byte_char_def char_byte_def)
qed

lemma char_cells_text: "char_cells (map (Some \<circ> char_byte) s) = map Some s"
  by (simp add: char_cells_def comp_def)

lemma char_cells_append: "char_cells (a @ b) = char_cells a @ char_cells b"
  by (simp add: char_cells_def)

lemma drop_char_cells: "drop n (char_cells mem) = char_cells (drop n mem)"
  by (simp add: char_cells_def drop_map)

text \<open>
  The interface between the connection and the code that answers a request: \<open>serves st r t st'\<close> says that in
  the state \<open>st\<close> the request \<open>r\<close> gets the answer \<open>t\<close> and leaves \<open>st'\<close>; whether the connection is closed
  depends on the request only. \<open>serves_all\<close> is this for requests one after the other.
\<close>

inductive serves_all ::
    "('s \<Rightarrow> wire_request \<Rightarrow> string \<Rightarrow> 's \<Rightarrow> bool) \<Rightarrow> 's \<Rightarrow> wire_request list \<Rightarrow> string list \<Rightarrow> 's \<Rightarrow> bool" for serves where
  served_none: "serves_all serves st [] [] st"
| served_next: "serves st r t st1 \<Longrightarrow> serves_all serves st1 rs ts st2 \<Longrightarrow> serves_all serves st (r # rs) (t # ts) st2"

inductive_simps serves_all_Cons: "serves_all serves st (r # rs) ts st2"
inductive_simps serves_all_Nil: "serves_all serves st [] ts st2"

locale http_service =
  fixes answer_http :: "'s service"
    and serves :: "'s \<Rightarrow> wire_request \<Rightarrow> string \<Rightarrow> 's \<Rightarrow> bool"
    and closes :: "wire_request \<Rightarrow> bool"
  assumes answered: "serves st r t st1 \<Longrightarrow> named_line r h \<Longrightarrow> seen_lists r h \<Longrightarrow> body_done (request_args r) (q_body r) h \<Longrightarrow>
      m_host h = None \<Longrightarrow> has_bev c \<Longrightarrow> \<exists>b h1 r1 c1. answer_http (h, response_new) c st = Some (b, (h1, r1), c1, st1) \<and> sent_more t c c1
        \<and> is_send_data h1 \<noteq> None \<and> m_auto_close r1 = closes r"
    and answer_text: "serves st r t st1 \<Longrightarrow> t \<noteq> []"
begin

lemma processing_answers:
  assumes r: "serves st r t st1" "named_line r h" "seen_lists r h" "body_done (request_args r) (q_body r) h" "m_host h = None"
    and bev: "has_bev (hc_conn hc)"
  shows "\<exists>hc1. processing answer_http (h, response_new) hc st = Some (hc1, st1)
     \<and> c_written (hc_conn hc1) = c_written (hc_conn hc) @ map char_byte t
     \<and> m_socket_buffer (hc_conn hc1) = m_socket_buffer (hc_conn hc)
     \<and> m_bev (hc_conn hc1) = (if closes r then Bev_Flushing else m_bev (hc_conn hc))"
proof -
  obtain b h1 r1 c1 where a: "answer_http (h, response_new) (hc_conn hc) st = Some (b, (h1, r1), c1, st1)"
    "sent_more t (hc_conn hc) c1" "is_send_data h1 \<noteq> None" "m_auto_close r1 = closes r"
    using answered [OF r bev] by blast
  note f = sent_more_fields [OF a(2)]
  have "c_pending c1 \<noteq> []" using f(5) answer_text [OF r(1)] by simp
  then have "close_connection c1 = Some (c1\<lparr>m_bev := Bev_Flushing\<rparr>)"
    using f(1) bev by (simp add: close_connection_def)
  then show ?thesis using a(1,3,4) f by (auto simp: processing_def update_prev_bytes_def)
qed

lemma pipelined_loop:
  assumes "serves_all serves st rs ts st2" and "\<forall>r \<in> set rs. request_ok r \<and> request_length r \<noteq> 0"
    and "drop s mem = map Some (map char_byte (concat (map render_request rs))) @ tail"
    and "fill = s + length (concat (map render_request rs))"
    and "has_bev (hc_conn hc)" and "m_http_processor hc = None"
  shows "\<exists>hc1. compile_loop (http_data_processing answer_http junk) mem fill s (hc, st) = Some (fill, hc1, st2)
     \<and> m_http_processor hc1 = None
     \<and> c_written (hc_conn hc1) = c_written (hc_conn hc) @ map char_byte (concat ts)
     \<and> m_socket_buffer (hc_conn hc1) = m_socket_buffer (hc_conn hc)
     \<and> m_bev (hc_conn hc1) = (if \<exists>r \<in> set rs. closes r then Bev_Flushing else m_bev (hc_conn hc))"
  using assms
proof (induction arbitrary: s hc rule: serves_all.induct)
  case (served_none st)
  then show ?case by (simp add: compile_loop.simps)
next
  case (served_next st r t st1 rs ts st2)
  let ?k = "length (render_request r)" and ?rest = "concat (map render_request rs)"
  have k: "?k \<noteq> 0" by (simp add: render_request_def render_line_def)
  have g: "given r (char_cells mem) s (fill - s)"
    using served_next.prems(1-3) by (simp add: given_def drop_char_cells char_cells_append char_cells_text)
  obtain h where h: "process_data junk (char_cells mem) s (fill - s) request_new = Some (?k, h)" "is_ready h"
    "named_line r h" "seen_lists r h" "body_done (request_args r) (q_body r) h"
    using process_data_request [OF fresh_request_new _ g] served_next.prems(1) by auto
  have "m_host h = None" using process_data_host [OF h(1)] by (simp add: request_new_def request_clear_def)
  from processing_answers [OF served_next.hyps(1) h(3-5) this served_next.prems(4)] obtain hc1 where
    hc1: "processing answer_http (h, response_new) hc st = Some (hc1, st1)"
    "c_written (hc_conn hc1) = c_written (hc_conn hc) @ map char_byte t"
    "m_socket_buffer (hc_conn hc1) = m_socket_buffer (hc_conn hc)"
    "m_bev (hc_conn hc1) = (if closes r then Bev_Flushing else m_bev (hc_conn hc))" by blast
  let ?hc = "hc1\<lparr>m_http_processor := None\<rparr>"
  have step: "http_data_processing answer_http junk mem s (fill - s) (hc, st) = Some (?k, ?hc, st1)"
    using h(1,2) k hc1(1) served_next.prems(5) by (simp add: http_data_processing_def)
  have "has_bev (hc_conn ?hc)" using hc1(4) served_next.prems(4) by (auto simp: has_bev_def)
  moreover have "drop (s + ?k) mem = map Some (map char_byte ?rest) @ tail"
    using served_next.prems(2) drop_drop [of ?k s mem] by (simp add: add.commute)
  ultimately obtain hc2 where hc2:
     "compile_loop (http_data_processing answer_http junk) mem fill (s + ?k) (?hc, st1) = Some (fill, hc2, st2)"
     "m_http_processor hc2 = None"
     "c_written (hc_conn hc2) = c_written (hc_conn ?hc) @ map char_byte (concat ts)"
     "m_socket_buffer (hc_conn hc2) = m_socket_buffer (hc_conn ?hc)"
     "m_bev (hc_conn hc2) = (if \<exists>r \<in> set rs. closes r then Bev_Flushing else m_bev (hc_conn ?hc))"
    using served_next.IH [of "s + ?k" ?hc] served_next.prems(1,3) by auto
  have "s < fill" using served_next.prems(3) k by simp
  then have "compile_loop (http_data_processing answer_http junk) mem fill s (hc, st) = Some (fill, hc2, st2)"
    using step k hc2(1) by (subst compile_loop.simps) simp
  then show ?case using hc1 hc2 by auto
qed

lemma pipelined_read:
  assumes served: "serves_all serves st rs ts st2" and rs: "\<forall>r \<in> set rs. request_ok r \<and> request_length r \<noteq> 0"
    and hc: "has_bev (hc_conn hc)" "m_http_processor hc = None" "holds (m_socket_buffer (hc_conn hc)) []"
    and size: "length (concat (map render_request rs)) < size_modulus"
  shows "\<exists>hc1. http_stub_conn_read answer_http junk (map char_byte (concat (map render_request rs))) hc st = Some (hc1, st2)
     \<and> m_http_processor hc1 = None \<and> holds (m_socket_buffer (hc_conn hc1)) []
     \<and> c_written (hc_conn hc1) = c_written (hc_conn hc) @ map char_byte (concat ts)
     \<and> m_bev (hc_conn hc1) = (if \<exists>r \<in> set rs. closes r then Bev_Flushing else m_bev (hc_conn hc))"
proof (cases "concat (map render_request rs) = []")
  case True
  then have "rs = []" by (cases rs) (auto simp: render_request_def render_line_def)
  then show ?thesis using hc served by (auto simp: http_stub_conn_read_def serves_all_Nil)
next
  case False
  let ?xs = "map char_byte (concat (map render_request rs))"
  obtain b where b: "receive_input ?xs (m_socket_buffer (hc_conn hc)) = Some b" "holds b ?xs"
    using receive_input_holds [OF hc(3), of ?xs] size by auto
  define c where "c = (hc_conn hc)\<lparr>m_socket_buffer := b,
    m_receive_bytes := uadd (m_receive_bytes (hc_conn hc)) (length ?xs)\<rparr>"
  obtain tail where mem: "drop 0 (m_buffer b) = map Some ?xs @ tail" using b(2) by (auto simp: holds_def)
  have fill: "get_fill_size b = 0 + length (concat (map render_request rs))"
    using holds_fill [OF b(2)] by (simp add: get_fill_size_def)
  have c: "has_bev (hc_conn (hc\<lparr>hc_conn := c\<rparr>))" "m_http_processor (hc\<lparr>hc_conn := c\<rparr>) = None"
    using hc by (simp_all add: c_def has_bev_def)
  obtain hc1 where hc1: "compile_loop (http_data_processing answer_http junk) (m_buffer b) (get_fill_size b) 0 (hc\<lparr>hc_conn := c\<rparr>, st)
       = Some (get_fill_size b, hc1, st2)" "m_http_processor hc1 = None"
     "c_written (hc_conn hc1) = c_written (hc_conn hc) @ map char_byte (concat ts)"
     "m_socket_buffer (hc_conn hc1) = b"
     "m_bev (hc_conn hc1) = (if \<exists>r \<in> set rs. closes r then Bev_Flushing else m_bev (hc_conn hc))"
    using pipelined_loop [OF served rs mem fill c] by (auto simp: c_def cong: if_cong)
  have "holds (cut_from_head (get_fill_size b) b) (drop (get_fill_size b) ?xs)"
    by (rule holds_cut [OF b(2)]) (simp add: fill)
  then have "holds (cut_from_head (get_fill_size b) b) []" by (simp add: fill)
  then show ?thesis using b(1) False hc1
    by (auto simp: http_stub_conn_read_def Let_def c_def)
qed

end


section \<open>What the server answers\<close>

definition connection_wish :: "wire_request \<Rightarrow> string" where
  "connection_wish r = (case header_of ''Connection'' r of
     None \<Rightarrow> if q_version r = ''HTTP/1.1'' then ''keep-alive'' else ''close'' | Some v \<Rightarrow> v)"

definition not_found_reply :: "response \<times> string" where
  "not_found_reply = (set_response_status 404 ''Not found'' response_new, ''File not found'')"

text \<open>
  The response and the body for a request: an action nobody knows and a file that is not there
  are 404. \<open>None\<close> for a known action, and for the empty file name, which is undefined.
\<close>

definition file_reply :: "server \<Rightarrow> wire_request \<Rightarrow> (response \<times> string) option" where
  "file_reply sv r = map_option (\<lambda>name.
     if PATH_MAX \<le> length name then not_found_reply
     else case fs_realpath (sv_files sv) name of None \<Rightarrow> not_found_reply
       | Some p \<Rightarrow>
           if take (length (m_doc_root sv)) p \<noteq> m_doc_root sv then not_found_reply
           else case fs_open (sv_files sv) p of None \<Rightarrow> not_found_reply
             | Some (content, mtime) \<Rightarrow>
                 if header_of ''If-Modified-Since'' r \<noteq> None \<and> mtime \<le> sv_junk sv
                 then (set_response_status 304 ''Not Modified'' response_new, [])
                 else (set_last_modify (Some (mtime * 1000000)) (set_type_of p response_new), content))
     (requested_file (sv_files sv) (m_doc_root sv) (q_uri r) [])"

definition server_reply :: "server \<Rightarrow> wire_request \<Rightarrow> (response \<times> string) option" where
  "server_reply sv r =
     (if take 5 (q_uri r) = ''/api/''
      then if std_find (fst (parse_action (drop 5 (q_uri r)))) (m_dictActionS2Hs sv) = None then Some not_found_reply else None
      else file_reply sv r)"

definition server_serves :: "server \<Rightarrow> wire_request \<Rightarrow> bool" where
  "server_serves sv r \<longleftrightarrow> server_reply sv r \<noteq> None \<and> length (snd (the (server_reply sv r))) < 2 ^ 31
     \<and> line_break \<notin> set (q_version r) \<and> line_break \<notin> set (connection_wish r)"

definition reply_lines :: "server \<Rightarrow> wire_request \<Rightarrow> string list" where
  "reply_lines sv r = (let (resp, body) = the (server_reply sv r) in
     response_lines (sv_now sv) (q_version r) (connection_wish r) resp (length body))"

definition reply_body :: "server \<Rightarrow> wire_request \<Rightarrow> string" where
  "reply_body sv r = (if ci_equal (q_method r) ''HEAD'' then [] else snd (the (server_reply sv r)))"

definition server_answer :: "server \<Rightarrow> wire_request \<Rightarrow> string" where
  "server_answer sv r = (let (resp, body) = the (server_reply sv r) in
     response_text (sv_now sv) (q_version r) (connection_wish r) resp (length body)) @ reply_body sv r"

definition wants_close :: "wire_request \<Rightarrow> bool" where
  "wants_close r \<longleftrightarrow> connection_wish r \<noteq> ''keep-alive''"

lemma answerable_request:
  assumes "named_line r h" and "seen_lists r h" and "line_break \<notin> set (q_version r)" and "line_break \<notin> set (connection_wish r)"
  shows "answerable h (q_version r) (connection_wish r) (q_method r)"
proof -
  have "NUL \<notin> set ''Connection''" by (simp add: NUL_def)
  then show ?thesis
    using assms header_of_request [OF assms(2)]
    by (auto simp: answerable_def named_line_def connection_wish_def get_query_method_def names_string split: option.splits)
qed

lemma plain_not_found: "plain_response (fst not_found_reply)"
  using plain_status [OF sample_plain] by (simp add: not_found_reply_def line_break_def)

lemma send_not_found:
  assumes "has_bev c" and "answerable h version ka method"
  shows "\<exists>r1 c1. send_response_body now h ''File not found'' (set_response_status 404 ''Not found'' response_new) c = Some (r1, c1)
     \<and> sent_more (response_text now version ka (fst not_found_reply) (length (snd not_found_reply))
          @ (if ci_equal method ''HEAD'' then [] else snd not_found_reply)) c c1
     \<and> m_auto_close r1 = (ka \<noteq> ''keep-alive'')"
  using send_response_exact [OF assms, of "Some ''File not found''" "length ''File not found''" now
      "set_response_status 404 ''Not found'' response_new"]
  by (auto simp: send_response_body_def not_found_reply_def)


definition answers_with :: "server \<Rightarrow> wire_request \<Rightarrow> (response \<times> string) \<Rightarrow> connection \<Rightarrow> (bool \<times> response \<times> connection) option \<Rightarrow> bool" where
  "answers_with sv r reply c result \<longleftrightarrow> (\<exists>ok r1 c1. result = Some (ok, r1, c1)
     \<and> sent_more (response_text (sv_now sv) (q_version r) (connection_wish r) (fst reply) (length (snd reply))
          @ (if ci_equal (q_method r) ''HEAD'' then [] else snd reply)) c c1
     \<and> m_auto_close r1 = wants_close r)"

lemma not_found_answered:
  assumes "has_bev c" and "answerable h (q_version r) (connection_wish r) (q_method r)"
  shows "answers_with sv r not_found_reply c (not_found (sv_now sv) h response_new c)"
  using send_not_found [OF assms, of "sv_now sv"] by (auto simp: answers_with_def not_found_def wants_close_def)

lemma content_answered:
  assumes bev: "has_bev c" and h: "answerable h (q_version r) (connection_wish r) (q_method r)"
    and out: "send_response (sv_now sv) h None (length content) resp c = Some (r2, c1)"
  shows "answers_with sv r (resp, content) c (is_send_data h \<bind> (\<lambda>send. (if send then send_string content c1 else Some c1) \<bind> (\<lambda>c2. Some (True, r2, c2))))"
proof -
  have sent: "sent_more (response_text (sv_now sv) (q_version r) (connection_wish r) resp (length content)) c c1"
    and r2: "m_auto_close r2 = wants_close r"
    using send_response_exact [OF bev h, of None "length content" "sv_now sv" resp] out by (auto simp: wants_close_def)
  have send: "is_send_data h = Some (\<not> ci_equal (q_method r) ''HEAD'')"
    using h by (simp add: answerable_def is_send_data_def)
  obtain c2 where c2: "send_string content c1 = Some c2" "sent_more content c1 c2"
    using send_string_more sent_more_fields(1) [OF sent] bev by blast
  show ?thesis using sent r2 send c2 sent_more_trans [OF sent c2(2)] by (auto simp: answers_with_def)
qed

lemma not_modified_answered:
  assumes "has_bev c" and "answerable h (q_version r) (connection_wish r) (q_method r)"
  shows "answers_with sv r (set_response_status 304 ''Not Modified'' response_new, []) c
    (map_option (Pair True) (send_response (sv_now sv) h None 0 (set_response_status 304 ''Not Modified'' response_new) c))"
  using send_response_exact [OF assms, of None 0 "sv_now sv" "set_response_status 304 ''Not Modified'' response_new"]
  by (auto simp: answers_with_def wants_close_def)

lemma file_answered:
  assumes bev: "has_bev c" and h: "answerable h (q_version r) (connection_wish r) (q_method r)" "seen_lists r h"
    and reply: "file_reply sv r = Some reply"
  shows "answers_with sv r reply c
    (send_file (sv_files sv) (sv_junk sv) (sv_now sv) h (q_uri r) (m_doc_root sv) [] response_new c)"
proof -
  note nf = not_found_answered [OF bev h(1), of sv]
  obtain name where name: "requested_file (sv_files sv) (m_doc_root sv) (q_uri r) [] = Some name"
    using reply by (auto simp: file_reply_def)
  have ims: "get_header_parameter h ''If-Modified-Since'' None = Some (header_of ''If-Modified-Since'' r)"
    using header_of_request [OF h(2), of "''If-Modified-Since''" None] by (simp add: NUL_def split: option.splits)
  show ?thesis
  proof (cases "PATH_MAX \<le> length name")
    case True
    then show ?thesis using nf reply name by (simp add: file_reply_def send_file_def)
  next
    case short: False
    show ?thesis
    proof (cases "fs_realpath (sv_files sv) name")
      case None
      then show ?thesis using nf reply name short by (simp add: file_reply_def send_file_def)
    next
      case p: (Some p)
      show ?thesis
      proof (cases "take (length (m_doc_root sv)) p \<noteq> m_doc_root sv \<or> fs_open (sv_files sv) p = None")
        case True
        then show ?thesis using nf reply name short p by (auto simp: file_reply_def send_file_def split: if_splits)
      next
        case False
        then obtain content mtime where f: "take (length (m_doc_root sv)) p = m_doc_root sv"
          "fs_open (sv_files sv) p = Some (content, mtime)" by auto
        let ?resp = "set_last_modify (Some (mtime * 1000000)) (set_type_of p response_new)"
        obtain r2 c1 where out: "send_response (sv_now sv) h None (length content) ?resp c = Some (r2, c1)"
          using send_response_exact [OF bev h(1), of None "length content" "sv_now sv" ?resp] by auto
        show ?thesis
        proof (cases "header_of ''If-Modified-Since'' r \<noteq> None \<and> mtime \<le> sv_junk sv")
          case True
          then show ?thesis using not_modified_answered [OF bev h(1)] reply name short p f ims
            by (simp add: file_reply_def send_file_def)
        next
          case no: False
          then have "reply = (?resp, content)" using reply name short p f by (auto simp: file_reply_def)
          moreover have "send_file (sv_files sv) (sv_junk sv) (sv_now sv) h (q_uri r) (m_doc_root sv) [] response_new c
             = is_send_data h \<bind> (\<lambda>send. (if send then send_string content c1 else Some c1) \<bind> (\<lambda>c2. Some (True, r2, c2)))"
            using name short p f ims out no by (auto simp: send_file_def)
          ultimately show ?thesis using content_answered [OF bev h(1) out] by simp
        qed
      qed
    qed
  qed
qed

lemma api_length: "length get_url_prefix_action = 5"
  by (simp add: get_url_prefix_action_def)

lemma server_answered:
  assumes r: "server_serves sv r" "named_line r h" "seen_lists r h" and bev: "has_bev c"
  shows "\<exists>b h1 r1 c1. process_http sv (h, response_new) c = Some (b, (h1, r1), c1) \<and> sent_more (server_answer sv r) c c1
    \<and> is_send_data h1 \<noteq> None \<and> m_auto_close r1 = wants_close r"
proof -
  have h: "answerable h (q_version r) (connection_wish r) (q_method r)"
    using r by (intro answerable_request) (simp_all add: server_serves_def)
  have uri: "get_query_uri h = Some (q_uri r)"
    using r(2) by (simp add: named_line_def get_query_uri_def names_string)
  have send: "is_send_data h \<noteq> None" using h by (simp add: answerable_def is_send_data_def)
  obtain reply where reply: "server_reply sv r = Some reply" using r(1) by (auto simp: server_serves_def)
  show ?thesis
  proof (cases "take 5 (q_uri r) = ''/api/''")
    case True
    then have unknown: "reply = not_found_reply" "std_find (fst (parse_action (drop 5 (q_uri r)))) (m_dictActionS2Hs sv) = None"
      using reply by (auto simp: server_reply_def split: if_splits)
    obtain action params where ap: "parse_action (drop 5 (q_uri r)) = (action, params)" by fastforce
    from send_not_found [OF bev h, of "sv_now sv"] obtain r1 c1 where
      "send_response_body (sv_now sv) h ''File not found'' (set_response_status 404 ''Not found'' response_new) c = Some (r1, c1)"
      "sent_more (response_text (sv_now sv) (q_version r) (connection_wish r) (fst not_found_reply) (length (snd not_found_reply))
         @ (if ci_equal (q_method r) ''HEAD'' then [] else snd not_found_reply)) c c1"
      "m_auto_close r1 = (connection_wish r \<noteq> ''keep-alive'')" by blast
    moreover have "take 5 (q_uri r) = get_url_prefix_action" using True by (simp add: get_url_prefix_action_def)
    ultimately show ?thesis using uri unknown reply ap send
      by (auto simp: process_http_def dispatch_http_def api_length process_http_action_def
        server_answer_def reply_body_def wants_close_def split_beta)
  next
    case False
    then have "file_reply sv r = Some reply" using reply by (simp add: server_reply_def)
    moreover have "take 5 (q_uri r) \<noteq> get_url_prefix_action" using False by (simp add: get_url_prefix_action_def)
    ultimately show ?thesis using file_answered [OF bev h r(3)] uri reply send
      by (auto simp: answers_with_def process_http_def dispatch_http_def api_length process_http_file_server_def
        server_answer_def reply_body_def split_beta)
  qed
qed

definition server_step :: "server \<Rightarrow> unit \<Rightarrow> wire_request \<Rightarrow> string \<Rightarrow> unit \<Rightarrow> bool" where
  "server_step sv u r t u1 \<longleftrightarrow> server_serves sv r \<and> t = server_answer sv r"

interpretation hs: http_service "stateless (process_http sv)" "server_step sv" wants_close for sv
proof
  fix u u1 r t h c
  assume "server_step sv u r t u1" "named_line r h" "seen_lists r h" "body_done (request_args r) (q_body r) h" "has_bev c"
  then show "\<exists>b h1 r1 c1. stateless (process_http sv) (h, response_new) c u = Some (b, (h1, r1), c1, u1) \<and> sent_more t c c1
      \<and> is_send_data h1 \<noteq> None \<and> m_auto_close r1 = wants_close r"
    using server_answered [of sv r h c] by (fastforce simp: server_step_def stateless_def)
qed (simp add: server_step_def server_answer_def response_text_def ENDL_def split_beta)

lemma server_serves_all:
  "\<forall>r \<in> set rs. server_serves sv r \<Longrightarrow> serves_all (server_step sv) () rs (map (server_answer sv) rs) ()"
  by (induction rs) (auto intro!: serves_all.intros simp: server_step_def)

section \<open>Properties\<close>

text \<open>A client that reads the answers to its requests: header lines, then as many bytes as announced.\<close>

fun read_answers :: "wire_request list \<Rightarrow> string \<Rightarrow> ((string list \<times> string) list \<times> string) option" where
  "read_answers [] s = Some ([], s)"
| "read_answers (r # rs) s =
     do { (lines, rest) \<leftarrow> read_head s;
          v \<leftarrow> header_value ''Content-Length'' (tl lines);
          let n = (if ci_equal (q_method r) ''HEAD'' then 0 else digits_value 0 v);
          (answers, left) \<leftarrow> read_answers rs (drop n rest);
          Some ((lines, take n rest) # answers, left) }"

lemma plain_reply:
  assumes "server_reply sv r = Some reply"
  shows "plain_response (fst reply)"
proof -
  have "plain_response (set_response_status 304 ''Not Modified'' response_new)"
    by (rule plain_status [OF sample_plain]) (simp add: line_break_def)
  with assms plain_not_found plain_set_type [OF sample_plain] show ?thesis
    by (auto simp: server_reply_def file_reply_def split: if_splits option.splits)
qed

lemma read_server_answers:
  "\<forall>r \<in> set rs. server_serves sv r \<Longrightarrow>
     read_answers rs (concat (map (server_answer sv) rs) @ rest) = Some (map (\<lambda>r. (reply_lines sv r, reply_body sv r)) rs, rest)"
proof (induction rs)
  case (Cons r rs)
  obtain resp body where reply: "server_reply sv r = Some (resp, body)" using Cons.prems by (auto simp: server_serves_def)
  have len: "length body < 2 ^ 31" using Cons.prems reply by (simp add: server_serves_def)
  have head: "read_head (server_answer sv r @ more) = Some (reply_lines sv r, reply_body sv r @ more)" for more
    using read_response_text [of resp "q_version r" "connection_wish r"] plain_reply [OF reply] Cons.prems reply
    by (simp add: server_answer_def reply_lines_def server_serves_def)
  have size: "header_value ''Content-Length'' (tl (reply_lines sv r)) = Some (decimal (length body))"
    using len print_d_decimal [of "length body"] by (simp add: reply_lines_def reply announced_length)
  have body: "reply_body sv r = (if ci_equal (q_method r) ''HEAD'' then [] else body)" by (simp add: reply_body_def reply)
  show ?case using Cons by (simp add: head size) (simp add: body)
qed simp


definition sample_server :: server where
  "sample_server = \<lparr>m_doc_root = ''/srv/www'', m_storage_root = ''/srv/data'', m_dictActionS2Hs = [],
     sv_files = \<lparr>fs_is_dir = (\<lambda>p. False), fs_realpath = (\<lambda>p. if p = ''/srv/www/a.js'' then Some p else None),
       fs_open = (\<lambda>p. if p = ''/srv/www/a.js'' then Some (''alert(1)'', 86400) else None)\<rparr>,
     sv_now = 0, sv_junk = 0\<rparr>"

definition sample_gets :: "wire_request list" where
  "sample_gets =
     [\<lparr>q_method = ''GET'', q_uri = ''/a.js'', q_args = None, q_version = ''HTTP/1.1'', q_headers = [(''Host'', 1, ''x'')], q_body = []\<rparr>,
      \<lparr>q_method = ''GET'', q_uri = ''/b.js'', q_args = None, q_version = ''HTTP/1.1'', q_headers = [(''Connection'', 1, ''close'')], q_body = []\<rparr>]"

lemma sample_gets_ok: "\<forall>r \<in> set sample_gets. request_ok r \<and> request_length r \<noteq> 0"
  by (simp add: sample_gets_def request_ok_def body_ok_def request_eval)

lemma sample_gets_served: "\<forall>r \<in> set sample_gets. server_serves sample_server r"
  by (simp add: sample_gets_def server_serves_def server_reply_def file_reply_def sample_server_def requested_file_def
    PATH_MAX_def header_of_def seen_header_def connection_wish_def not_found_reply_def line_break_def char_eval)


end
