(* ===== verification/Storage.thy ===== *)
theory Storage
  imports Session Token
begin

text \<open>
  \<open>src/app/s2hb-storage.cxx\<close> and the password functions of \<open>src/app/server2hb.cxx\<close>: the users of the
  server, their password hashes and roles. The SQL statements are modelled by what they do to
  the rows of the tables; a query gives the rows in the order of the table, and the database
  numbers a new user itself (\<open>uid\<close>). MD5 with its digits is the argument \<open>md5_hex\<close>.
\<close>

section \<open>Password hashes\<close>

definition RecalcPasswordHash :: "(string \<Rightarrow> string) \<Rightarrow> string \<Rightarrow> string \<Rightarrow> string \<Rightarrow> string" where
  "RecalcPasswordHash md5_hex login password salt = md5_hex (login @ password @ salt)"

definition IsPasswordHashEqual2 :: "(string \<Rightarrow> string) \<Rightarrow> string \<Rightarrow> string \<Rightarrow> string \<Rightarrow> bool" where
  "IsPasswordHashEqual2 md5_hex checked first second \<longleftrightarrow> checked = md5_hex (first @ second)"

definition IsPasswordHashEqual3 :: "(string \<Rightarrow> string) \<Rightarrow> string \<Rightarrow> string \<Rightarrow> string \<Rightarrow> string \<Rightarrow> bool" where
  "IsPasswordHashEqual3 md5_hex checked first second third \<longleftrightarrow> checked = md5_hex (first @ second @ third)"

section \<open>The tables\<close>

record user_row =
  u_id :: int
  u_login :: string
  u_nickname :: string
  u_password :: string
  u_salt :: string

record storage =
  khl_users :: "user_row list"
  khl_roles :: "(int \<times> string) list"
  khl_user_roles :: "(int \<times> int) list"

definition IsUserExist :: "string \<Rightarrow> storage \<Rightarrow> bool" where
  "IsUserExist login db \<longleftrightarrow> filter (\<lambda>u. u_login u = login) (khl_users db) \<noteq> []"

text \<open>The first row of a query, when there is one.\<close>

definition first_row :: "'a list \<Rightarrow> 'a option" where
  "first_row rows = (case rows of [] \<Rightarrow> None | r # _ \<Rightarrow> Some r)"

definition GetUserInfo :: "int \<Rightarrow> storage \<Rightarrow> (string \<times> string \<times> string \<times> string) option" where
  "GetUserInfo uid db =
     map_option (\<lambda>u. (u_login u, u_nickname u, u_password u, u_salt u))
       (first_row (filter (\<lambda>u. u_id u = uid) (khl_users db)))"

definition get_user_info :: "string \<Rightarrow> storage \<Rightarrow> (int \<times> string \<times> string \<times> string) option" where
  "get_user_info login db =
     map_option (\<lambda>u. (u_id u, u_nickname u, u_password u, u_salt u))
       (first_row (filter (\<lambda>u. u_login u = login) (khl_users db)))"

definition user_roles :: "int \<Rightarrow> storage \<Rightarrow> string list" where
  "user_roles uid db =
     concat (map (\<lambda>(u, role). map snd (filter (\<lambda>r. fst r = role) (khl_roles db)))
       (filter (\<lambda>ur. fst ur = uid) (khl_user_roles db)))"

definition GetUserRoles :: "int \<Rightarrow> storage \<Rightarrow> session \<Rightarrow> session" where
  "GetUserRoles uid db s = fold AppendRole (user_roles uid db) (s\<lparr>m_dRoles := []\<rparr>)"

definition UpdatePassword :: "int \<Rightarrow> string \<Rightarrow> storage \<Rightarrow> storage" where
  "UpdatePassword uid hash db =
     db\<lparr>khl_users := map (\<lambda>u. if u_id u = uid then u\<lparr>u_password := hash\<rparr> else u) (khl_users db)\<rparr>"

text \<open>Member access on a variable adds missing members; the user object is not used afterwards.\<close>

fun insert_role_codes :: "int \<Rightarrow> json list \<Rightarrow> storage \<Rightarrow> storage option" where
  "insert_role_codes uid [] db = Some db"
| "insert_role_codes uid (j # js) db =
     do { code \<leftarrow> asString j;
          insert_role_codes uid js
            (db\<lparr>khl_user_roles := khl_user_roles db @ map (\<lambda>r. (uid, fst r)) (filter (\<lambda>r. snd r = code) (khl_roles db))\<rparr>) }"

definition CreateUser :: "(string \<Rightarrow> string) \<Rightarrow> int \<Rightarrow> string \<Rightarrow> json \<Rightarrow> storage \<Rightarrow> storage option" where
  "CreateUser md5_hex uid salt user db =
     do { (l, user1) \<leftarrow> json_ref ''Login'' user;
          login \<leftarrow> asString l;
          (p, user2) \<leftarrow> json_ref ''Password'' user1;
          password \<leftarrow> asString p;
          (n, user3) \<leftarrow> json_ref ''Nickname'' user2;
          nickname \<leftarrow> asString n;
          let row = \<lparr>u_id = uid, u_login = login, u_nickname = nickname,
                     u_password = RecalcPasswordHash md5_hex login password salt, u_salt = salt\<rparr>;
          (roles, _) \<leftarrow> json_ref ''Role'' user3;
          codes \<leftarrow> json_elements roles;
          insert_role_codes uid codes (db\<lparr>khl_users := khl_users db @ [row]\<rparr>) }"

text \<open>
  \<open>server2_hb::auto_execute\<close>: the users of the configuration that do not exist yet are created;
  \<open>fresh\<close> lists the numbers and salts the database and the generator give.
\<close>

fun create_users :: "(string \<Rightarrow> string) \<Rightarrow> (int \<times> string) list \<Rightarrow> json list \<Rightarrow> storage \<Rightarrow> storage option" where
  "create_users md5_hex fresh [] db = Some db"
| "create_users md5_hex fresh (user # users) db =
     do { (l, user1) \<leftarrow> json_ref ''Login'' user;
          login \<leftarrow> asString l;
          if IsUserExist login db then create_users md5_hex fresh users db
          else case fresh of
            [] \<Rightarrow> None
          | (uid, salt) # fresh1 \<Rightarrow>
              do { db1 \<leftarrow> CreateUser md5_hex uid salt user1 db; create_users md5_hex fresh1 users db1 } }"

end
