(* ===== verification/Backend.thy ===== *)
theory Backend
  imports Server Storage
begin

text \<open>
  \<open>src/app/server2hb.cxx\<close> over \<open>include/app/server2hb.h\<close>: the backend server's handling of an HTTP
  request. Every action request gets its session and the session cookie first
  (\<open>processing_session\<close>), then the action is carried out: log in, log out and change of password
  (\<open>action_auth\<close>), or the exchange of a token. The clock, random identifiers and the MD5
  function are arguments. An exception nobody catches is \<open>None\<close>.
\<close>

section \<open>State and environment\<close>

record 'c backend =
  be_sessions :: "session_controller"
  be_storage :: storage
  be_tokens :: "'c token_state"

text \<open>What one request gets from outside: the time in seconds, identifiers, the duration measured.\<close>

record request_env =
  re_now :: int
  re_session_uid :: string
  re_uuid1 :: string
  re_uuid2 :: string
  re_duration :: int
  re_peer :: string

record 'c backend_env =
  be_token_env :: "'c token_env"
  be_md5_hex :: "string \<Rightarrow> string"

type_synonym 'c backend_result = "(bool \<times> http_processor \<times> connection \<times> 'c backend) option"

definition get_session_code :: string where
  "get_session_code = ''s2hsession''"

definition get_url_prefix_storage :: string where
  "get_url_prefix_storage = ''/storage/''"

section \<open>The session of a request\<close>

text \<open>
  \<open>http_connection::get_client_ip\<close>: the buffer has 255 bytes; \<open>strncpy\<close> does not terminate a text
  that fills it, and it is read as a string afterwards.
\<close>

definition http_client_ip :: "http_request \<Rightarrow> string \<Rightarrow> string option" where
  "http_client_ip h peer =
     do { cpi \<leftarrow> get_client_proxy_ip h;
          case cpi of None \<Rightarrow> Some peer | Some ip \<Rightarrow> if length ip < 255 then Some ip else None }"

definition processing_session ::
  "'c backend_env \<Rightarrow> request_env \<Rightarrow> http_processor \<Rightarrow> 'c backend \<Rightarrow> (nat \<times> http_processor \<times> 'c backend) option" where
  "processing_session env re proc st =
     do { let (h, r) = proc;
          session_id \<leftarrow> get_cookie h get_session_code None;
          (sp, created, sc) \<leftarrow> get_session get_session_creator (re_now re) (re_session_uid re)
             (case session_id of None \<Rightarrow> [] | Some x \<Rightarrow> x) False (be_sessions st);
          p \<leftarrow> sp;
          s_ip \<leftarrow> http_client_ip h (re_peer re);
          sc1 \<leftarrow> on_session (\<lambda>s. set_ip s_ip (set_last_activity (re_now re) s)) p sc;
          s \<leftarrow> deref p (sc_objects sc1);
          (host, h1) \<leftarrow> get_host h;
          let r1 = set_cookie get_session_code (m_session_id s) (m_expired s * 1000000) host True r;
          Some (p, (h1, r1), st\<lparr>be_sessions := sc1\<rparr>) }"

section \<open>Authentication\<close>

text \<open>The body of the request as a text.\<close>

definition body_text :: "http_request \<Rightarrow> string option" where
  "body_text h = read_cells (m_buffer (m_ab_body h)) 0 (get_fill_size (m_ab_body h))"

definition login_credentials :: "json \<Rightarrow> (string \<times> string) option" where
  "login_credentials auth =
     do { (l, auth1) \<leftarrow> json_ref ''login'' auth;
          login \<leftarrow> asString l;
          (p, auth2) \<leftarrow> json_ref ''password'' auth1;
          password \<leftarrow> asString p;
          Some (login, password) }"

definition json_fill_auth :: "session \<Rightarrow> bool \<Rightarrow> json \<Rightarrow> json option" where
  "json_fill_auth s full_info v =
     do { v1 \<leftarrow> json_set ''auth'' (JBool (m_bAuthenticate s)) v;
          if full_info \<and> m_bAuthenticate s then
            do { v2 \<leftarrow> json_set ''nickname'' (JString (m_sNickname s)) v1;
                 roles \<leftarrow> fill_roles s JNull;
                 json_set ''roles'' roles v2 }
          else Some v1 }"

text \<open>The log in with the text of the body, then with the body of the request.\<close>

definition log_in ::
  "'c backend_env \<Rightarrow> request_env \<Rightarrow> string \<Rightarrow> nat \<Rightarrow> 'c backend \<Rightarrow> 'c backend option" where
  "log_in env re body p st =
     do { (ok, auth) \<leftarrow> parse_json (sscanf_double (be_token_env env)) body;
          if \<not> ok then Some st
          else
              do { (login, password) \<leftarrow> login_credentials auth;
                   case get_user_info login (be_storage st) of
                     None \<Rightarrow> Some st
                   | Some (user_id, nickname, hash, salt) \<Rightarrow>
                       if RecalcPasswordHash (be_md5_hex env) login password salt = hash then
                         do { sc \<leftarrow> on_session (\<lambda>s. GetUserRoles user_id (be_storage st)
                                (s\<lparr>m_idUser := user_id, m_sNickname := nickname, m_bAuthenticate := True\<rparr>)) p (be_sessions st);
                              sc1 \<leftarrow> update_session (re_now re) p sc;
                              Some (st\<lparr>be_sessions := sc1\<rparr>) }
                       else Some st } }"

definition action_login ::
  "'c backend_env \<Rightarrow> request_env \<Rightarrow> http_request \<Rightarrow> nat \<Rightarrow> 'c backend \<Rightarrow> 'c backend option" where
  "action_login env re h p st = do { body \<leftarrow> body_text h; log_in env re body p st }"

text \<open>\<open>std::string\<close> of a null pointer throws, in the new password and in the login to change.\<close>

definition action_change ::
  "'c backend_env \<Rightarrow> http_request \<Rightarrow> nat \<Rightarrow> json \<Rightarrow> 'c backend \<Rightarrow> (json \<times> 'c backend) option" where
  "action_change env h p root st =
     do { current_password \<leftarrow> get_parameter h ''curpwd'' None;
          s \<leftarrow> deref p (sc_objects (be_sessions st));
          case (case current_password of None \<Rightarrow> None | Some cur \<Rightarrow>
                  (case GetUserInfo (m_idUser s) (be_storage st) of
                     None \<Rightarrow> None
                   | Some (login, nickname, hash, salt) \<Rightarrow>
                       if IsPasswordHashEqual3 (be_md5_hex env) hash login cur salt then Some (login, salt) else None)) of
            None \<Rightarrow> do { root1 \<leftarrow> json_set ''reason'' (JString ''UserNotFound'') root; Some (root1, st) }
          | Some (login, salt) \<Rightarrow>
              do { new_password \<leftarrow> get_parameter h ''newpwd'' None;
                   other \<leftarrow> is_parameter_exist h ''loginpwd'';
                   if other then
                     do { l \<leftarrow> get_parameter h ''loginpwd'' None;
                          login2 \<leftarrow> l;
                          case get_user_info login2 (be_storage st) of
                            None \<Rightarrow> Some (root, st)
                          | Some (user_id, nickname2, hash2, salt2) \<Rightarrow>
                              do { pw \<leftarrow> new_password;
                                   Some (root, st\<lparr>be_storage := UpdatePassword user_id
                                     (RecalcPasswordHash (be_md5_hex env) login2 pw salt2) (be_storage st)\<rparr>) } }
                   else
                     do { pw \<leftarrow> new_password;
                          Some (root, st\<lparr>be_storage := UpdatePassword (m_idUser s)
                            (RecalcPasswordHash (be_md5_hex env) login pw salt) (be_storage st)\<rparr>) } } }"

definition action_logout ::
  "request_env \<Rightarrow> http_processor \<Rightarrow> nat \<Rightarrow> 'c backend \<Rightarrow> (http_processor \<times> 'c backend) option" where
  "action_logout re proc p st =
     do { let (h, r) = proc;
          sc \<leftarrow> on_session (\<lambda>s. (session_reset s)\<lparr>m_expired := re_now re\<rparr>) p (be_sessions st);
          s \<leftarrow> deref p (sc_objects sc);
          (host, h1) \<leftarrow> get_host h;
          let r1 = set_cookie get_session_code (m_session_id s) (m_expired s * 1000000) host True r;
          sc1 \<leftarrow> remove_session p sc;
          Some ((h1, r1), st\<lparr>be_sessions := sc1\<rparr>) }"

definition action_auth ::
  "'c backend_env \<Rightarrow> request_env \<Rightarrow> string \<Rightarrow> http_processor \<Rightarrow> connection \<Rightarrow> nat \<Rightarrow> 'c backend \<Rightarrow> 'c backend_result" where
  "action_auth env re uri_params proc c p st =
     do { let action = fst (parse_action uri_params);
          (root, (h, r), st1) \<leftarrow>
            (if action = ''login'' then
               do { st1 \<leftarrow> action_login env re (fst proc) p st;
                    s \<leftarrow> deref p (sc_objects (be_sessions st1));
                    root \<leftarrow> json_fill_auth s True JNull;
                    Some (root, proc, st1) }
             else if action = ''logout'' then
               do { (proc1, st1) \<leftarrow> action_logout re proc p st; Some (JNull, proc1, st1) }
             else if action = ''change'' then
               do { (root, st1) \<leftarrow> action_change env (fst proc) p JNull st;
                    s \<leftarrow> deref p (sc_objects (be_sessions st1));
                    root1 \<leftarrow> json_fill_auth s True root;
                    Some (root1, proc, st1) }
             else Some (JNull, proc, st));
          let r1 = set_content_type ''application/javascript'' ''UTF-8'' r;
          (r2, c1) \<leftarrow> send_response_body (re_now re) h (json_string root) r1 c;
          Some (True, (h, r2), c1, st1) }"

text \<open>The action around \<open>action_refresh_token\<close> of \<open>Token\<close>: parameters in, answer out.\<close>

definition int_parameter :: "http_request \<Rightarrow> string \<Rightarrow> int option option" where
  "int_parameter h key =
     do { v \<leftarrow> get_parameter h key None;
          case v of None \<Rightarrow> Some None | Some x \<Rightarrow> map_option Some (atoi x) }"

definition action_refresh ::
  "'c backend_env \<Rightarrow> request_env \<Rightarrow> http_processor \<Rightarrow> connection \<Rightarrow> 'c backend \<Rightarrow> 'c backend_result" where
  "action_refresh env re proc c st =
     do { let (h, r) = proc;
          authorization \<leftarrow> get_header_parameter h ''Authorization'' None;
          token_param \<leftarrow> get_parameter h ''token'' (Some []);
          token_text \<leftarrow> token_param;
          time_refresh \<leftarrow> int_parameter h ''time_refresh'';
          time_access \<leftarrow> int_parameter h ''time_access'';
          (answer, ts) \<leftarrow> action_refresh_token (be_token_env env) authorization token_text time_refresh time_access
             (re_now re * 1000000) (re_uuid1 re) (re_uuid2 re) (be_tokens st);
          let st1 = st\<lparr>be_tokens := ts\<rparr>;
          case answer of
            Some root \<Rightarrow>
              do { root1 \<leftarrow> json_set ''0dur'' (JInt (re_duration re)) root;
                   (r2, c1) \<leftarrow> send_response_body (re_now re) h (json_string root1)
                      (set_content_type ''application/json'' ''UTF-8'' r) c;
                   Some (True, (h, r2), c1, st1) }
          | None \<Rightarrow>
              do { (r2, c1) \<leftarrow> end_of_response (re_now re) h (set_response_status 401 ''Unauthorized'' r) c;
                   Some (True, (h, r2), c1, st1) } }"

section \<open>Dispatch\<close>

text \<open>The dictionary of actions holds \<open>auth\<close> and \<open>refresh_token\<close> (\<open>prepare_to_start\<close>).\<close>

definition backend_http_action ::
  "'c backend_env \<Rightarrow> request_env \<Rightarrow> string \<Rightarrow> string \<Rightarrow> http_processor \<Rightarrow> connection \<Rightarrow> 'c backend \<Rightarrow> 'c backend_result" where
  "backend_http_action env re action uri_params proc c st =
     do { (p, proc1, st1) \<leftarrow> processing_session env re proc st;
          if action = ''auth'' then action_auth env re uri_params proc1 c p st1
          else if action = ''refresh_token'' then action_refresh env re proc1 c st1
          else Some (False, proc1, c, st1) }"

definition backend_file_server :: "server \<Rightarrow> string \<Rightarrow> http_processor \<Rightarrow> connection \<Rightarrow> processed" where
  "backend_file_server sv query_uri proc c =
     (let prefix = get_url_prefix_storage in
      if take (length prefix) query_uri = prefix
      then map_option (\<lambda>(ok, r1, c1). (ok, (fst proc, r1), c1))
             (send_file (sv_files sv) (sv_junk sv) (sv_now sv) (fst proc) (drop (length prefix - 1) query_uri)
               (m_storage_root sv) [] (snd proc) c)
      else process_http_file_server sv query_uri proc c)"

definition backend_process_http ::
  "'c backend_env \<Rightarrow> server \<Rightarrow> request_env \<Rightarrow> http_processor \<Rightarrow> connection \<Rightarrow> 'c backend \<Rightarrow> 'c backend_result" where
  "backend_process_http env sv re proc c st =
     do { query_uri \<leftarrow> get_query_uri (fst proc);
          let size_upa = length get_url_prefix_action;
          if take size_upa query_uri = get_url_prefix_action then
            do { let (action, params) = parse_action (drop size_upa query_uri);
                 (found, (h1, r1), c1, st1) \<leftarrow> backend_http_action env re action params proc c st;
                 if found then Some (True, (h1, r1), c1, st1)
                 else do { (r2, c2) \<leftarrow> send_response_body (re_now re) h1 ''File not found'' (set_response_status 404 ''Not found'' r1) c1;
                           Some (False, (h1, r2), c2, st1) } }
          else map_option (\<lambda>(ok, proc1, c1). (ok, proc1, c1, st)) (backend_file_server sv query_uri proc c) }"

section \<open>The timer thread\<close>

text \<open>
  \<open>stub_timer_run\<close>: one turn of its loop per reading of the clock, then the check after the shutdown.
  The thread is modelled alone; in the source it shares the sessions with the request thread
  without a lock.
\<close>

record timer =
  session_update :: int
  session_ip_update :: int

definition timer_new :: "int \<Rightarrow> timer" where
  "timer_new now = \<lparr>session_update = now, session_ip_update = now\<rparr>"

definition timer_session_update :: "int \<Rightarrow> 'c backend \<Rightarrow> 'c backend option" where
  "timer_session_update now st =
     do { sc \<leftarrow> check_alive_sessions now (be_sessions st); Some (st\<lparr>be_sessions := sc\<rparr>) }"

definition timer_turn :: "int \<Rightarrow> timer \<Rightarrow> 'c backend \<Rightarrow> (timer \<times> 'c backend) option" where
  "timer_turn now tm st =
     do { (tm1, st1) \<leftarrow> (if 10 \<le> td_minutes (now - session_update tm)
                        then do { st1 \<leftarrow> timer_session_update now st; Some (tm\<lparr>session_update := now\<rparr>, st1) }
                        else Some (tm, st));
          Some (if 1 \<le> td_hours (now - session_ip_update tm1) then tm1\<lparr>session_ip_update := now\<rparr> else tm1, st1) }"

fun timer_turns :: "int list \<Rightarrow> timer \<Rightarrow> 'c backend \<Rightarrow> (timer \<times> 'c backend) option" where
  "timer_turns [] tm st = Some (tm, st)"
| "timer_turns (now # clock) tm st =
     do { (tm1, st1) \<leftarrow> timer_turn now tm st; timer_turns clock tm1 st1 }"

definition stub_timer_run :: "int \<Rightarrow> int list \<Rightarrow> int \<Rightarrow> 'c backend \<Rightarrow> 'c backend option" where
  "stub_timer_run start clock stop st =
     do { (tm, st1) \<leftarrow> timer_turns clock (timer_new start) st; timer_session_update stop st1 }"

end
