(* ===== verification/Backend_Theorems.thy ===== *)
theory Backend_Theorems
  imports Backend Session_Theorems Token_Theorems Server_Theorems
begin

text \<open>
  What the backend server guarantees of its sessions: only a matching password authenticates a
  session, a log out ends it everywhere, and what a user may change.
\<close>

section \<open>Sessions keep their authentication\<close>

text \<open>Who is authenticated in \<open>sc'\<close> was so, as the same user, in \<open>sc\<close>.\<close>

definition keeps_auth :: "session_controller \<Rightarrow> session_controller \<Rightarrow> bool" where
  "keeps_auth sc sc' \<longleftrightarrow> (\<forall>q s'. deref q (sc_objects sc') = Some s' \<longrightarrow> m_bAuthenticate s' \<longrightarrow>
     (\<exists>s. deref q (sc_objects sc) = Some s \<and> m_bAuthenticate s \<and> m_idUser s = m_idUser s'))"

lemma keeps_auth_refl [simp]: "keeps_auth sc sc"
  by (auto simp: keeps_auth_def)

lemma keeps_auth_trans: "keeps_auth a b \<Longrightarrow> keeps_auth b c \<Longrightarrow> keeps_auth a c"
  unfolding keeps_auth_def by metis

lemma keeps_auth_on_session:
  assumes "on_session f p sc = Some sc'" and "\<And>s. m_bAuthenticate (f s) \<Longrightarrow> m_bAuthenticate s \<and> m_idUser (f s) = m_idUser s"
  shows "keeps_auth sc sc'"
  using assms by (auto simp: on_session_def keeps_auth_def split: if_splits)

lemma new_session_keeps:
  assumes "new_session get_session_creator now uid created sc = Some (p, cr, sc')"
  shows "keeps_auth sc sc'"
  using assms
  by (auto simp: new_session_def get_session_creator_def memory_insert_def new_object_def keeps_auth_def
    s2h_session_new_def session_reset_def Let_def bind_eq_Some_conv split: if_splits)

lemma get_session_keeps:
  assumes "get_session get_session_creator now uid sid created sc = Some (p, cr, sc')"
  shows "keeps_auth sc sc'"
proof (cases "std_find sid (m_session_memory sc)")
  case None
  then show ?thesis using assms new_session_keeps by (auto simp: get_session_def)
next
  case (Some q)
  then obtain s where s: "deref q (sc_objects sc) = Some s" using assms by (auto simp: get_session_def bind_eq_Some_conv)
  show ?thesis
  proof (cases "now < m_expired s")
    case True
    then show ?thesis using assms Some s by (auto simp: get_session_def keeps_auth_def split: if_splits)
  next
    case False
    let ?sc = "sc\<lparr>m_session_memory := std_erase sid (m_session_memory sc), m_session_db := db_remove_session s (m_session_db sc)\<rparr>"
    have "new_session get_session_creator now uid created ?sc = Some (p, cr, sc')"
      using assms Some s False by (simp add: get_session_def)
    from new_session_keeps [OF this] show ?thesis by (simp add: keeps_auth_def)
  qed
qed

lemma get_host_same:
  assumes "get_host h = Some (x, h1)"
  shows "m_ab_body h1 = m_ab_body h" and "m_ab_params h1 = m_ab_params h" and "m_params_value h1 = m_params_value h"
  using assms by (auto simp: get_host_def calculate_host_port_def bind_eq_Some_conv split: if_splits option.splits)

lemma processing_session_keeps:
  assumes "processing_session env re (h, r) st = Some (p, (h1, r1), st1)"
  shows "keeps_auth (be_sessions st) (be_sessions st1)" and "be_storage st1 = be_storage st" and "be_tokens st1 = be_tokens st"
    and "body_text h1 = body_text h"
proof -
  obtain sid sp cr sc ip sc1 s host where a:
    "get_session get_session_creator (re_now re) (re_session_uid re) sid False (be_sessions st) = Some (sp, cr, sc)"
    "on_session (\<lambda>s. set_ip ip (set_last_activity (re_now re) s)) p sc = Some sc1" "get_host h = Some (host, h1)"
    "st1 = st\<lparr>be_sessions := sc1\<rparr>"
    using assms unfolding processing_session_def Let_def by (clarsimp simp: bind_eq_Some_conv)
  have "keeps_auth sc sc1"
    by (rule keeps_auth_on_session [OF a(2)]) (auto simp: set_ip_def set_last_activity_def split: option.splits)
  with get_session_keeps [OF a(1)] show "keeps_auth (be_sessions st) (be_sessions st1)"
    using keeps_auth_trans by (auto simp: a(4))
  show "be_storage st1 = be_storage st" "be_tokens st1 = be_tokens st" by (simp_all add: a(4))
  show "body_text h1 = body_text h" using get_host_same [OF a(3)] by (simp add: body_text_def)
qed


section \<open>Logging in\<close>

text \<open>The body names a user of the table with the password its hash was made from.\<close>

definition right_password :: "'c backend_env \<Rightarrow> http_request \<Rightarrow> storage \<Rightarrow> int \<Rightarrow> bool" where
  "right_password env h db uid \<longleftrightarrow> (\<exists>body auth login password u. body_text h = Some body
     \<and> parse_json (sscanf_double (be_token_env env)) body = Some (True, auth) \<and> login_credentials auth = Some (login, password)
     \<and> u \<in> set (khl_users db) \<and> u_login u = login \<and> u_id u = uid
     \<and> u_password u = be_md5_hex env (login @ password @ u_salt u))"

lemma first_row_filter: "first_row (filter P xs) = Some x \<Longrightarrow> x \<in> set xs \<and> P x"
  by (auto simp: first_row_def filter_eq_Cons_iff split: list.splits)

lemma fold_AppendRole [simp]:
  "m_bAuthenticate (fold AppendRole rs s) = m_bAuthenticate s" "m_idUser (fold AppendRole rs s) = m_idUser s"
  "m_sNickname (fold AppendRole rs s) = m_sNickname s" "m_session_id (fold AppendRole rs s) = m_session_id s" "m_expired (fold AppendRole rs s) = m_expired s"
  by (induction rs arbitrary: s) (simp_all add: AppendRole_def)

lemma on_session_deref:
  "on_session f p sc = Some sc' \<Longrightarrow> deref q (sc_objects sc') = (if q = p then map_option f (deref q (sc_objects sc)) else deref q (sc_objects sc))"
  by (auto simp: on_session_def split: if_splits)

lemma update_session_objects: "update_session now p sc = Some sc' \<Longrightarrow> sc_objects sc' = sc_objects sc"
  by (auto simp: update_session_def bind_eq_Some_conv)

lemma remove_session_objects: "remove_session p sc = Some sc' \<Longrightarrow> sc_objects sc' = sc_objects sc"
  by (auto simp: remove_session_def bind_eq_Some_conv)

lemma action_login_auth:
  assumes act: "action_login env re h p st = Some st'"
    and q: "deref q (sc_objects (be_sessions st')) = Some s'" "m_bAuthenticate s'"
  shows "(\<exists>s. deref q (sc_objects (be_sessions st)) = Some s \<and> m_bAuthenticate s \<and> m_idUser s = m_idUser s')
     \<or> (q = p \<and> right_password env h (be_storage st) (m_idUser s'))"
proof -
  obtain body where body: "body_text h = Some body" using act by (auto simp: action_login_def log_in_def bind_eq_Some_conv)
  show ?thesis
  proof (cases "st' = st")
    case True
    then show ?thesis using q by blast
  next
    case False
    obtain ok auth where json: "parse_json (sscanf_double (be_token_env env)) body = Some (ok, auth)"
      using act body by (auto simp: action_login_def log_in_def bind_eq_Some_conv)
    with act body False have ok by (auto simp: action_login_def log_in_def split: if_splits)
    with act body json False obtain login password where auth: "parse_json (sscanf_double (be_token_env env)) body = Some (True, auth)"
      "login_credentials auth = Some (login, password)"
      by (cases "login_credentials auth") (auto simp: action_login_def log_in_def)
    then obtain user_id nickname hash salt where u: "get_user_info login (be_storage st) = Some (user_id, nickname, hash, salt)"
      using act body False by (cases "get_user_info login (be_storage st)") (auto simp: action_login_def log_in_def)
    have hash: "RecalcPasswordHash (be_md5_hex env) login password salt = hash"
      using act body auth u False by (auto simp: action_login_def log_in_def split: if_splits)
    obtain sc sc1 where sc: "on_session (\<lambda>s. GetUserRoles user_id (be_storage st)
         (s\<lparr>m_idUser := user_id, m_sNickname := nickname, m_bAuthenticate := True\<rparr>)) p (be_sessions st) = Some sc"
      "update_session (re_now re) p sc = Some sc1" "st' = st\<lparr>be_sessions := sc1\<rparr>"
      using act body auth u hash by (auto simp: action_login_def log_in_def bind_eq_Some_conv)
    obtain row where row: "row \<in> set (khl_users (be_storage st))" "u_login row = login" "u_id row = user_id" "u_password row = hash" "u_salt row = salt"
      using u first_row_filter by (fastforce simp: get_user_info_def)
    have "right_password env h (be_storage st) user_id"
      using body auth row hash unfolding right_password_def RecalcPasswordHash_def by blast
    then show ?thesis
      using q on_session_deref [OF sc(1), of q] update_session_objects [OF sc(2)]
      by (auto simp: sc(3) GetUserRoles_def split: if_splits)
  qed
qed

lemma action_logout_keeps:
  assumes "action_logout re proc p st = Some (proc1, st')"
  shows "keeps_auth (be_sessions st) (be_sessions st')"
proof -
  obtain sc sc1 where sc: "on_session (\<lambda>s. (session_reset s)\<lparr>m_expired := re_now re\<rparr>) p (be_sessions st) = Some sc"
    "remove_session p sc = Some sc1" "st' = st\<lparr>be_sessions := sc1\<rparr>"
    using assms unfolding action_logout_def by (cases proc) (clarsimp simp: bind_eq_Some_conv)
  have "keeps_auth (be_sessions st) sc"
    by (rule keeps_auth_on_session [OF sc(1)]) (simp_all add: session_reset_def)
  then show ?thesis using remove_session_objects [OF sc(2)] by (simp add: keeps_auth_def sc(3))
qed

lemma action_change_keeps:
  assumes "action_change env h p root st = Some (root1, st')"
  shows "be_sessions st' = be_sessions st" and "be_tokens st' = be_tokens st"
  using assms by (auto simp: action_change_def bind_eq_Some_conv split: option.splits if_splits prod.splits)

lemma action_auth_auth:
  assumes act: "action_auth env re params (h, r) c p st = Some (ok, proc', c', st')"
    and q: "deref q (sc_objects (be_sessions st')) = Some s'" "m_bAuthenticate s'"
  shows "(\<exists>s. deref q (sc_objects (be_sessions st)) = Some s \<and> m_bAuthenticate s \<and> m_idUser s = m_idUser s')
     \<or> (q = p \<and> fst (parse_action params) = ''login'' \<and> right_password env h (be_storage st) (m_idUser s'))"
proof -
  consider (login) "fst (parse_action params) = ''login''" | (logout) "fst (parse_action params) = ''logout''"
    | (change) "fst (parse_action params) = ''change''" | (other) "fst (parse_action params) \<notin> {''login'', ''logout'', ''change''}"
    by blast
  then show ?thesis
  proof cases
    case login
    then have "action_login env re h p st = Some st'"
      using act by (auto simp: action_auth_def Let_def bind_eq_Some_conv)
    from action_login_auth [OF this q] login show ?thesis by simp
  next
    case logout
    then obtain proc1 where "action_logout re (h, r) p st = Some (proc1, st')"
      using act by (auto simp: action_auth_def Let_def bind_eq_Some_conv)
    from action_logout_keeps [OF this] q show ?thesis by (auto simp: keeps_auth_def)
  next
    case change
    then obtain root1 where "action_change env h p JNull st = Some (root1, st')"
      using act by (auto simp: action_auth_def Let_def bind_eq_Some_conv)
    from action_change_keeps [OF this] q show ?thesis by auto
  next
    case other
    then have "st' = st" using act by (auto simp: action_auth_def Let_def bind_eq_Some_conv)
    then show ?thesis using q by blast
  qed
qed

lemma action_refresh_sessions:
  assumes "action_refresh env re (h, r) c st = Some (ok, proc', c', st')"
  shows "be_sessions st' = be_sessions st"
  using assms unfolding action_refresh_def Let_def
  by (clarsimp simp: bind_eq_Some_conv) (auto simp: bind_eq_Some_conv split: option.splits)

section \<open>Properties\<close>

text \<open>C8: a request can leave a session authenticated only when it was so before, as the same user, or
  when it is the session of this request, the request is a log in, and its body gives the login
  and the password of that user, whose stored hash they were checked against.\<close>

theorem authentication_needs_password:
  assumes run: "backend_process_http env sv re (h, r) c st = Some (ok, proc', c', st')"
    and q: "deref q (sc_objects (be_sessions st')) = Some s'" "m_bAuthenticate s'"
  shows "(\<exists>s. deref q (sc_objects (be_sessions st)) = Some s \<and> m_bAuthenticate s \<and> m_idUser s = m_idUser s')
     \<or> (\<exists>proc1 st1 uri params. processing_session env re (h, r) st = Some (q, proc1, st1)
          \<and> get_query_uri h = Some uri \<and> take 5 uri = ''/api/'' \<and> parse_action (drop 5 uri) = (''auth'', params)
          \<and> fst (parse_action params) = ''login'' \<and> right_password env h (be_storage st) (m_idUser s'))"
proof -
  obtain uri where uri: "get_query_uri h = Some uri" using run by (auto simp: backend_process_http_def bind_eq_Some_conv)
  show ?thesis
  proof (cases "take 5 uri = get_url_prefix_action")
    case False
    then have "st' = st" using run uri by (auto simp: backend_process_http_def api_length)
    then show ?thesis using q by blast
  next
    case True
    obtain action params where ap: "parse_action (drop 5 uri) = (action, params)" by fastforce
    obtain found proc2 c1 where found: "backend_http_action env re action params (h, r) c st = Some (found, proc2, c1, st')"
      using run uri True ap
      by (auto simp: backend_process_http_def api_length bind_eq_Some_conv split: if_splits prod.splits)
    then obtain p h1 r1 st1 where p: "processing_session env re (h, r) st = Some (p, (h1, r1), st1)"
      by (auto simp: backend_http_action_def bind_eq_Some_conv)
    note keep = processing_session_keeps [OF p]
    have before: ?thesis if "deref q (sc_objects (be_sessions st1)) = Some s1" "m_bAuthenticate s1" "m_idUser s1 = m_idUser s'" for s1
      using keep(1) that unfolding keeps_auth_def by (intro disjI1) metis
    have rp: "right_password env h1 (be_storage st1) uid = right_password env h (be_storage st) uid" for uid
      by (simp add: right_password_def keep(2,4))
    consider (auth) "action = ''auth''" | (refresh) "action = ''refresh_token''" | (other) "action \<notin> {''auth'', ''refresh_token''}" by blast
    then show ?thesis
    proof cases
      case auth
      then have "action_auth env re params (h1, r1) c p st1 = Some (found, proc2, c1, st')"
        using found p by (simp add: backend_http_action_def)
      from action_auth_auth [OF this q] before p uri True ap auth rp show ?thesis
        by (auto simp: get_url_prefix_action_def)
    next
      case refresh
      then have "action_refresh env re (h1, r1) c st1 = Some (found, proc2, c1, st')"
        using found p by (simp add: backend_http_action_def)
      from action_refresh_sessions [OF this] before q show ?thesis by auto
    next
      case other
      then have "st' = st1" using found p by (simp add: backend_http_action_def)
      then show ?thesis using before q by auto
    qed
  qed
qed


lemma json_fill_auth_total: "\<exists>root. json_fill_auth s full JNull = Some root"
  by (auto simp: json_fill_auth_def fill_roles_null simp del: json_set.simps)

lemma roles_of_fold: "IsRoleExist x (fold AppendRole rs s) \<longleftrightarrow> x \<in> set rs \<or> IsRoleExist x s"
  if "sorted_map (m_dRoles s)"
  using that
proof (induction rs arbitrary: s)
  case (Cons r rs)
  have "sorted_map (m_dRoles (AppendRole r s))" using Cons.prems by (simp add: AppendRole_def sd.ok_insert)
  moreover have "IsRoleExist x (AppendRole r s) \<longleftrightarrow> x = r \<or> IsRoleExist x s"
    using Cons.prems by (auto simp: IsRoleExist_def AppendRole_def sd.find_insert)
  ultimately show ?case using Cons.IH [of "AppendRole r s"] by auto
qed simp

lemma send_text_total:
  assumes "has_bev c" and "answerable h version ka method"
  shows "\<exists>r' c'. send_response_body now h body r c = Some (r', c') \<and> has_bev c'"
proof -
  obtain c' where c': "send_response now h (Some body) (length body) r c = Some (r\<lparr>m_out_length := length body, m_auto_close := (ka \<noteq> ''keep-alive'')\<rparr>, c')"
    "sent_more (response_text now version ka r (length body) @ (if ci_equal method ''HEAD'' then [] else take (length body) body)) c c'"
    using send_response_exact [OF assms, of "Some body" "length body" now r] by auto
  then show ?thesis using sent_more_fields(1) [OF c'(2)] assms(1) by (auto simp: send_response_body_def)
qed

lemma login_runs:
  assumes ps: "processing_session env re (h, r) st = Some (p, (h1, r1), st1)"
    and uri: "get_query_uri h = Some uri" "take 5 uri = ''/api/''" "parse_action (drop 5 uri) = (''auth'', params)"
      "fst (parse_action params) = ''login''"
    and body: "body_text h = Some body" "parse_json (sscanf_double (be_token_env env)) body = Some (True, auth)" "login_credentials auth = Some (login, password)"
    and user: "get_user_info login (be_storage st) = Some (uid, nickname, be_md5_hex env (login @ password @ salt), salt)"
    and conn: "has_bev c" "answerable h1 version ka method"
  shows "\<exists>proc' c' st' s'. backend_process_http env sv re (h, r) c st = Some (True, proc', c', st')
     \<and> deref p (sc_objects (be_sessions st')) = Some s'
     \<and> m_bAuthenticate s' \<and> m_idUser s' = uid \<and> m_sNickname s' = nickname
     \<and> (\<forall>role. IsRoleExist role s' \<longleftrightarrow> role \<in> set (user_roles uid (be_storage st)))
     \<and> std_find (m_session_id s') (m_session_db (be_sessions st'))
         = Some (stored_row (re_now re) (m_version_current (be_sessions st1)) s')"
proof -
  note keep = processing_session_keeps [OF ps]
  obtain s where s: "deref p (sc_objects (be_sessions st1)) = Some s"
    using ps unfolding processing_session_def Let_def by (clarsimp simp: bind_eq_Some_conv)
  define s' where "s' = GetUserRoles uid (be_storage st) (s\<lparr>m_idUser := uid, m_sNickname := nickname, m_bAuthenticate := True\<rparr>)"
  obtain sc where sc: "on_session (\<lambda>s. GetUserRoles uid (be_storage st)
      (s\<lparr>m_idUser := uid, m_sNickname := nickname, m_bAuthenticate := True\<rparr>)) p (be_sessions st1) = Some sc"
    using s deref_less by (fastforce simp: on_session_def)
  have s'_in: "deref p (sc_objects sc) = Some s'" using on_session_deref [OF sc, of p] s by (simp add: s'_def)
  have ver: "m_version_current sc = m_version_current (be_sessions st1)"
    using sc by (auto simp: on_session_def split: if_splits)
  obtain sc1 where sc1: "update_session (re_now re) p sc = Some sc1"
    "m_session_db sc1 = upsert_row (m_session_id s') (stored_row (re_now re) (m_version_current sc) s') (m_session_db sc)"
    using s'_in by (auto simp: update_session_def db_update_session_eq)
  note objects = update_session_objects [OF sc1(1)]
  let ?st = "st1\<lparr>be_sessions := sc1\<rparr>"
  have login: "action_login env re h1 p st1 = Some ?st"
    using body user sc sc1(1) keep by (simp add: action_login_def log_in_def RecalcPasswordHash_def)
  obtain root where root: "json_fill_auth s' True JNull = Some root" using json_fill_auth_total by blast
  obtain r2 c2 where send: "send_response_body (re_now re) h1 (json_string root)
      (set_content_type ''application/javascript'' ''UTF-8'' r1) c = Some (r2, c2)"
    using send_text_total [OF conn] by blast
  have "action_auth env re params (h1, r1) c p st1 = Some (True, (h1, r2), c2, ?st)"
    using login uri(4) s'_in objects root send by (simp add: action_auth_def)
  then have "backend_process_http env sv re (h, r) c st = Some (True, (h1, r2), c2, ?st)"
    using ps uri(1-3) by (simp add: backend_process_http_def api_length backend_http_action_def)
      (simp add: get_url_prefix_action_def)
  moreover have "\<forall>role. IsRoleExist role s' \<longleftrightarrow> role \<in> set (user_roles uid (be_storage st))"
    using roles_of_fold [of "s\<lparr>m_idUser := uid, m_sNickname := nickname, m_bAuthenticate := True, m_dRoles := []\<rparr>"]
    by (simp add: s'_def GetUserRoles_def IsRoleExist_def)
  ultimately show ?thesis
    using s'_in objects sc1(2) ver by (intro exI [of _ "(h1, r2)"] exI [of _ c2] exI [of _ ?st] exI [of _ s'])
      (simp add: s'_def GetUserRoles_def std_find_upsert)
qed

text \<open>a log in whose body gives a login of the table with the password its hash was made from
  authenticates the session of the request as that user, with the nickname and exactly the roles of
  the user, and the session is stored in that state.\<close>

theorem login_authenticates:
  assumes ps: "processing_session env re (h, r) st = Some (p, (h1, r1), st1)"
    and uri: "get_query_uri h = Some uri" "take 5 uri = ''/api/''" "parse_action (drop 5 uri) = (''auth'', params)"
      "fst (parse_action params) = ''login''"
    and body: "body_text h = Some body" "parse_json (sscanf_double (be_token_env env)) body = Some (True, auth)" "login_credentials auth = Some (login, password)"
    and user: "get_user_info login (be_storage st) = Some (uid, nickname, be_md5_hex env (login @ password @ salt), salt)"
    and conn: "has_bev c" "answerable h1 version ka method"
  shows "\<exists>proc' c' st' s'. backend_process_http env sv re (h, r) c st = Some (True, proc', c', st')
     \<and> deref p (sc_objects (be_sessions st')) = Some s'
     \<and> m_bAuthenticate s' \<and> m_idUser s' = uid \<and> m_sNickname s' = nickname
     \<and> (\<forall>role. IsRoleExist role s' \<longleftrightarrow> role \<in> set (user_roles uid (be_storage st)))
     \<and> std_find (m_session_id s') (m_session_db (be_sessions st'))
         = Some (stored_row (re_now re) (m_version_current (be_sessions st1)) s')"
  using assms by (rule login_runs)


text \<open>A log in for the examples, by a request object with these names and this body.\<close>

definition sample_post :: "string \<Rightarrow> string \<Rightarrow> http_request" where
  "sample_post uri body = request_new\<lparr>m_ab_header := auto_buffer_new\<lparr>m_buffer := map Some (''POST'' @ [NUL] @ ''HTTP/1.1'' @ [NUL] @ uri @ [NUL])\<rparr>,
     m_query_method := Some 0, m_query_uri := Some 14, m_query_version := Some 5,
     m_ab_body := auto_buffer_new\<lparr>m_buffer := map Some body, m_full_size := length body, m_ready_position := length body\<rparr>\<rparr>"

definition login_env :: "(string \<Rightarrow> string option) backend_env" where
  "login_env = \<lparr>be_token_env = sample_env, be_md5_hex = (\<lambda>s. s)\<rparr>"

definition anna_login :: json where
  "anna_login = JObject [(''login'', JString ''anna''), (''password'', JString ''pw'')]"

definition anna_text :: string where
  "anna_text = json_string anna_login"

definition login_call :: request_env where
  "login_call = \<lparr>re_now = 100, re_session_uid = ''s1'', re_uuid1 = [], re_uuid2 = [], re_duration = 0, re_peer = ''127.0.0.1''\<rparr>"

definition users_db :: storage where
  "users_db = \<lparr>khl_users = [\<lparr>u_id = 1, u_login = ''anna'', u_nickname = ''Anna'', u_password = ''annapwxy'', u_salt = ''xy''\<rparr>,
      \<lparr>u_id = 2, u_login = ''bob'', u_nickname = ''Bob'', u_password = ''bobpwz'', u_salt = ''z''\<rparr>],
      khl_roles = [(7, ''admin'')], khl_user_roles = [(1, 7)]\<rparr>"

definition empty_backend :: "(string \<Rightarrow> string option) backend" where
  "empty_backend = \<lparr>be_sessions = session_controller_new, be_storage = users_db, be_tokens = no_tokens sample_cache\<rparr>"

lemma sample_post_names:
  assumes "NUL \<notin> set uri"
  shows "get_query_uri (sample_post uri body) = Some uri" and "answerable (sample_post uri body) ''HTTP/1.1'' ''keep-alive'' ''POST''"
proof -
  have "cstr (map Some uri @ [Some NUL]) = Some uri" using cstr_terminated [OF assms, of "[]"] by simp
  then show "get_query_uri (sample_post uri body) = Some uri"
    by (simp add: sample_post_def get_query_uri_def get_chunk_string_def cstr_at_def numeral_eq_Suc)
  show "answerable (sample_post uri body) ''HTTP/1.1'' ''keep-alive'' ''POST''"
    by (simp add: sample_post_def answerable_def get_query_method_def get_chunk_string_def cstr_at_def request_new_def
      request_clear_def NUL_def get_header_parameter_def line_break_def)
qed

lemma sample_post_lookups:
  "get_cookie (sample_post uri body) x None = Some None" "get_client_proxy_ip (sample_post uri body) = Some None"
  "get_host (sample_post uri body) = Some ([], sample_post uri body)" "body_text (sample_post uri body) = Some body"
  by (simp_all add: those_map_Some sample_post_def get_cookie_def request_new_def request_clear_def value_or_default_def get_client_proxy_ip_def
    get_header_index_def get_host_def calculate_host_port_def body_text_def read_cells_def auto_buffer_new_def get_fill_size_def)

lemma login_session: "\<exists>r1 st1. processing_session login_env login_call (sample_post uri body, response_new) empty_backend = Some (0, (sample_post uri body, r1), st1)"
  by (simp add: processing_session_def sample_post_lookups http_client_ip_def empty_backend_def session_controller_new_def get_session_def
    new_session_eq on_session_def login_call_def deref_def modify_def)

lemma login_uri: "NUL \<notin> set ''/api/auth/login''" "take 5 ''/api/auth/login'' = ''/api/''"
  "parse_action (drop 5 ''/api/auth/login'') = (''auth'', ''login'')" "fst (parse_action ''login'') = ''login''"
  by (simp_all add: NUL_def parse_action_def)

lemma anna_text_read: "parse_json sc anna_text = Some (True, anna_login)"
proof -
  have p: "utf8_json anna_login"
    by (simp add: anna_login_def utf8_ascii char_code_def sorted_map_def less_char_def)
  have "readable 1 anna_login" by (simp add: anna_login_def stackLimit_def clean_ascii char_code_def)
  from parse_written [OF this] clean_json_utf8(1) [OF p] show ?thesis by (simp add: anna_text_def)
qed

lemma anna_login_read: "body_text (sample_post uri anna_text) = Some anna_text" "parse_json (sscanf_double (be_token_env login_env)) anna_text = Some (True, anna_login)"
  "login_credentials anna_login = Some (''anna'', ''pw'')"
  "get_user_info ''anna'' (be_storage empty_backend) = Some (1, ''Anna'', be_md5_hex login_env (''anna'' @ ''pw'' @ ''xy''), ''xy'')"
  by (simp_all add: sample_post_lookups anna_text_read login_env_def login_credentials_def anna_login_def json_ref_def isMember_def json_at_def
    get_user_info_def empty_backend_def users_db_def first_row_def)

lemma login_prepared: "\<exists>r1 st1. processing_session login_env login_call (sample_post ''/api/auth/login'' anna_text, response_new) empty_backend
    = Some (0, (sample_post ''/api/auth/login'' anna_text, r1), st1)"
  by (rule login_session)

theorem login_authenticates_witness:
  "\<exists>(st1 :: (string \<Rightarrow> string option) backend) proc' c' st' s'. backend_process_http login_env sample_server login_call (sample_post ''/api/auth/login'' anna_text, response_new)
       sample_connection empty_backend = Some (True, proc', c', st')
     \<and> deref 0 (sc_objects (be_sessions st')) = Some s'
     \<and> m_bAuthenticate s' \<and> m_idUser s' = 1 \<and> m_sNickname s' = ''Anna''
     \<and> (\<forall>role. IsRoleExist role s' \<longleftrightarrow> role \<in> set (user_roles 1 (be_storage empty_backend)))
     \<and> std_find (m_session_id s') (m_session_db (be_sessions st'))
         = Some (stored_row (re_now login_call) (m_version_current (be_sessions st1)) s')"
proof -
  obtain r1 st1 where ps: "processing_session login_env login_call (sample_post ''/api/auth/login'' anna_text, response_new) empty_backend
      = Some (0, (sample_post ''/api/auth/login'' anna_text, r1), st1)"
    using login_prepared by blast
  show ?thesis
    by (rule exI [of _ st1])
      (rule login_authenticates [OF ps sample_post_names(1) [OF login_uri(1)] login_uri(2-4) anna_login_read sample_bev
        sample_post_names(2) [OF login_uri(1)]])
qed

lemma login_ends:
  "\<exists>proc' c' st' s'. backend_process_http login_env sample_server login_call (sample_post ''/api/auth/login'' anna_text, response_new)
       sample_connection empty_backend = Some (True, proc', c', st')
     \<and> deref 0 (sc_objects (be_sessions st')) = Some s' \<and> m_bAuthenticate s' \<and> m_idUser s' = 1"
proof -
  obtain r1 st1 where ps: "processing_session login_env login_call (sample_post ''/api/auth/login'' anna_text, response_new) empty_backend
      = Some (0, (sample_post ''/api/auth/login'' anna_text, r1), st1)"
    using login_prepared by blast
  from login_runs [OF ps sample_post_names(1) [OF login_uri(1)] login_uri(2-4) anna_login_read sample_bev
      sample_post_names(2) [OF login_uri(1)], of sample_server] show ?thesis by blast
qed

theorem authentication_needs_password_witness:
  "(\<exists>s. deref 0 (sc_objects (be_sessions empty_backend)) = Some s \<and> m_bAuthenticate s \<and> m_idUser s = 1)
   \<or> (\<exists>proc1 st1 uri params. processing_session login_env login_call (sample_post ''/api/auth/login'' anna_text, response_new) empty_backend = Some (0, proc1, st1)
        \<and> get_query_uri (sample_post ''/api/auth/login'' anna_text) = Some uri \<and> take 5 uri = ''/api/'' \<and> parse_action (drop 5 uri) = (''auth'', params)
        \<and> fst (parse_action params) = ''login''
        \<and> right_password login_env (sample_post ''/api/auth/login'' anna_text) (be_storage empty_backend) 1)"
proof -
  obtain proc' c' st' s' where run: "backend_process_http login_env sample_server login_call (sample_post ''/api/auth/login'' anna_text, response_new)
       sample_connection empty_backend = Some (True, proc', c', st')"
    "deref 0 (sc_objects (be_sessions st')) = Some s'" "m_bAuthenticate s'" and user: "m_idUser s' = 1"
    using login_ends by blast
  from authentication_needs_password [OF run] show ?thesis unfolding user .
qed



definition logged_in :: "(string \<Rightarrow> string option) backend" where
  "logged_in = empty_backend\<lparr>be_sessions := session_controller_new\<lparr>sc_objects := [(s2h_session_new ''s1'' 0 900)\<lparr>m_bAuthenticate := True, m_idUser := 1\<rparr>],
     m_session_memory := [(''s1'', 0)]\<rparr>\<rparr>"

lemma logged_in_session: "deref 0 (sc_objects (be_sessions logged_in)) = Some ((s2h_session_new ''s1'' 0 900)\<lparr>m_bAuthenticate := True, m_idUser := 1\<rparr>)"
  by (simp add: logged_in_def deref_def)


section \<open>Changing a password\<close>

lemma get_user_info_update:
  assumes "get_user_info login db = Some (uid, nickname, hash, salt)"
  shows "get_user_info login (UpdatePassword uid new_hash db) = Some (uid, nickname, new_hash, salt)"
proof -
  obtain u where u: "first_row (filter (\<lambda>u. u_login u = login) (khl_users db)) = Some u" "u_id u = uid" "u_nickname u = nickname" "u_salt u = salt"
    using assms by (auto simp: get_user_info_def)
  have "first_row (filter (\<lambda>u. u_login u = login) (map f us)) = map_option f (first_row (filter (\<lambda>u. u_login u = login) us))"
    if "\<And>u. u_login (f u) = u_login u" for us and f :: "user_row \<Rightarrow> user_row"
    using that by (induction us) (auto simp: first_row_def)
  then have "first_row (filter (\<lambda>u. u_login u = login) (khl_users (UpdatePassword uid new_hash db))) = Some (u\<lparr>u_password := new_hash\<rparr>)"
    using u by (simp add: UpdatePassword_def)
  then show ?thesis using u by (simp add: get_user_info_def)
qed

text \<open>C26: with the parameter \<open>loginpwd\<close> a user who knows the own password sets the password of any
  other user: neither the roles of the one nor the password of the other are asked for.\<close>

theorem password_of_another_user_changed:
  assumes session: "deref p (sc_objects (be_sessions st)) = Some s"
    and own: "GetUserInfo (m_idUser s) (be_storage st) = Some (login, nickname, be_md5_hex env (login @ current @ salt), salt)"
    and req: "get_parameter h ''curpwd'' None = Some (Some current)" "is_parameter_exist h ''loginpwd'' = Some True"
      "get_parameter h ''loginpwd'' None = Some (Some other)" "get_parameter h ''newpwd'' None = Some (Some new)"
    and victim: "get_user_info other (be_storage st) = Some (uid, nickname2, old_hash, salt2)"
  shows "\<exists>st'. action_change env h p JNull st = Some (JNull, st')
     \<and> get_user_info other (be_storage st') = Some (uid, nickname2, be_md5_hex env (other @ new @ salt2), salt2)"
  using assms get_user_info_update [OF victim]
  by (simp add: action_change_def IsPasswordHashEqual3_def RecalcPasswordHash_def)

definition change_request :: http_request where
  "change_request = request_new\<lparr>m_ab_params := auto_buffer_new\<lparr>m_buffer := map Some (''curpwd'' @ [NUL] @ ''pw'' @ [NUL] @ ''loginpwd'' @ [NUL] @ ''bob'' @ [NUL]
       @ ''newpwd'' @ [NUL] @ ''x'' @ [NUL])\<rparr>,
     m_params_value := [(0, Some 7), (10, Some 19), (23, Some 30)]\<rparr>"

lemma change_parameters:
  "get_parameter change_request ''curpwd'' None = Some (Some ''pw'')" "is_parameter_exist change_request ''loginpwd'' = Some True"
  "get_parameter change_request ''loginpwd'' None = Some (Some ''bob'')" "get_parameter change_request ''newpwd'' None = Some (Some ''x'')"
  by (simp_all add: change_request_def get_parameter_def is_parameter_exist_def value_or_default_def string_at_def cstr_at_def c_str_def
    char_eval numeral_eq_Suc)

theorem password_of_another_user_changed_witness:
  "\<exists>st'. action_change login_env change_request 0 JNull logged_in = Some (JNull, st')
     \<and> get_user_info ''bob'' (be_storage st') = Some (2, ''Bob'', be_md5_hex login_env (''bob'' @ ''x'' @ ''z''), ''z'')"
  by (rule password_of_another_user_changed [OF logged_in_session _ change_parameters, where login = "''anna''" and nickname = "''Anna''" and salt = "''xy''"
        and old_hash = "''bobpwz''"])
    (simp_all add: GetUserInfo_def get_user_info_def logged_in_def empty_backend_def users_db_def first_row_def login_env_def s2h_session_new_def)

text \<open>a log in whose body makes the reader throw, or is a JSON array, ends in an exception nobody
  catches; any client may send one: a thousand and one opening brackets, an apostrophe and a slash, or
  an empty array.\<close>

theorem login_with_array_throws:
  assumes "get_query_uri h = Some uri" and "take 5 uri = ''/api/''" and "parse_action (drop 5 uri) = (''auth'', params)"
    and "fst (parse_action params) = ''login''" and "body_text h = Some body"
    and "parse_json (sscanf_double (be_token_env env)) body \<in> {None, Some (True, JArray xs)}"
  shows "backend_process_http env sv re (h, r) c st = None"
proof (cases "processing_session env re (h, r) st")
  case None
  then show ?thesis using assms(1-3) by (simp add: backend_process_http_def api_length backend_http_action_def)
      (simp add: get_url_prefix_action_def)
next
  case (Some t)
  obtain p h1 r1 st1 where t: "t = (p, (h1, r1), st1)" by (cases t) auto
  note keep = processing_session_keeps [OF Some [unfolded t]]
  have "action_login env re h1 p st1 = None"
    using assms(5,6) keep by (auto simp: action_login_def log_in_def login_credentials_def json_ref_def isMember_def)
  then have "action_auth env re params (h1, r1) c p st1 = None" using assms(4) by (simp add: action_auth_def)
  then show ?thesis using assms(1-3) Some t
    by (simp add: backend_process_http_def api_length backend_http_action_def) (simp add: get_url_prefix_action_def)
qed

theorem login_with_array_throws_witness:
  "backend_process_http login_env sample_server login_call (sample_post ''/api/auth/login'' (CHR 0x27 # ''/''), response_new) sample_connection empty_backend = None"
proof (rule login_with_array_throws [OF sample_post_names(1) [OF login_uri(1)] login_uri(2-4) sample_post_lookups(4)])
  show "parse_json (sscanf_double (be_token_env login_env)) (CHR 0x27 # ''/'') \<in> {None, Some (True, JArray [])}"
    using parse_apostrophe [of "sscanf_double (be_token_env login_env)" "[]"] by simp
qed

end
