(* ===== verification/Timer_Theorems.thy ===== *)
theory Timer_Theorems
  imports Backend Session_Theorems
begin

text \<open>
  What the timer thread of the backend guarantees: expired sessions leave the dictionary
  within ten minutes, as long as the thread is not held up for an hour.
\<close>

text \<open>The readings of the clock: it does not run backwards, and two turns are at most 50 minutes apart.\<close>

fun ticking :: "int \<Rightarrow> int list \<Rightarrow> bool" where
  "ticking now [] \<longleftrightarrow> True"
| "ticking now (t # ts) \<longleftrightarrow> now \<le> t \<and> t \<le> now + 3000 \<and> ticking t ts"

text \<open>Every session of the dictionary expires at the time given or later.\<close>

definition none_expired :: "int \<Rightarrow> session_controller \<Rightarrow> bool" where
  "none_expired time c \<longleftrightarrow>
     (\<forall>sid p s. find_session sid c = Some p \<and> deref p (sc_objects c) = Some s \<longrightarrow> time \<le> m_expired s)"

text \<open>No session is added, and those that have not expired at the time given are kept.\<close>

definition keeps_live :: "int \<Rightarrow> session_controller \<Rightarrow> session_controller \<Rightarrow> bool" where
  "keeps_live time c c' \<longleftrightarrow> sc_objects c' = sc_objects c
     \<and> (\<forall>sid p s. find_session sid c = Some p \<and> deref p (sc_objects c) = Some s \<and> time \<le> m_expired s
          \<longrightarrow> find_session sid c' = Some p)
     \<and> (\<forall>sid p. find_session sid c' = Some p \<longrightarrow> find_session sid c = Some p)"

lemma keeps_live_refl [simp]: "keeps_live time c c"
  by (simp add: keeps_live_def)

lemma keeps_live_trans: "keeps_live t1 c c1 \<Longrightarrow> keeps_live t2 c1 c2 \<Longrightarrow> t1 \<le> t2 \<Longrightarrow> keeps_live t2 c c2"
  unfolding keeps_live_def by (metis order_trans)

lemma keeps_liveD:
  assumes "keeps_live time c c'"
  shows "sc_objects c' = sc_objects c"
    and "find_session sid c = Some p \<Longrightarrow> deref p (sc_objects c) = Some s \<Longrightarrow> time \<le> m_expired s \<Longrightarrow> find_session sid c' = Some p"
    and "find_session sid c = Some p \<Longrightarrow> find_session sid c' = None \<or> find_session sid c' = Some p"
  using assms unfolding keeps_live_def by (blast, blast, metis option.exhaust option.inject)

lemma timer_session_update_spec:
  assumes "controller_ok (be_sessions st)"
  shows "\<exists>st'. timer_session_update now st = Some st' \<and> controller_ok (be_sessions st')
     \<and> none_expired now (be_sessions st') \<and> keeps_live now (be_sessions st) (be_sessions st')"
proof -
  from check_alive_spec [OF assms, of now] obtain c' where
    "check_alive_sessions now (be_sessions st) = Some c'" "controller_ok c'" "sc_objects c' = sc_objects (be_sessions st)"
    "\<forall>x. find_session x c' = (case find_session x (be_sessions st) of
       Some p \<Rightarrow> if expired_at now (sc_objects (be_sessions st)) p then None else Some p | None \<Rightarrow> None)"
    by blast
  then show ?thesis
    by (fastforce simp: timer_session_update_def none_expired_def keeps_live_def expired_at_def
        split: option.splits if_splits)
qed

lemma td_minutes_due: "0 \<le> td \<Longrightarrow> td < 3600 \<Longrightarrow> 10 \<le> td_minutes td \<longleftrightarrow> 600 \<le> td"
  by (cases "td = 0") (auto simp: td_minutes_def sgn_if)

lemma timer_turn_spec:
  assumes ok: "controller_ok (be_sessions st)" and due: "session_update tm \<le> now" "now - session_update tm < 3600"
    and fresh: "none_expired (session_update tm) (be_sessions st)"
  shows "\<exists>tm' st'. timer_turn now tm st = Some (tm', st') \<and> controller_ok (be_sessions st')
     \<and> session_update tm' \<le> now \<and> now - session_update tm' < 600
     \<and> none_expired (session_update tm') (be_sessions st') \<and> keeps_live now (be_sessions st) (be_sessions st')"
proof (cases "10 \<le> td_minutes (now - session_update tm)")
  case True
  with timer_session_update_spec [OF ok, of now] show ?thesis
    by (auto simp: timer_turn_def)
next
  case False
  then have "now - session_update tm < 600" using td_minutes_due [of "now - session_update tm"] due by auto
  then show ?thesis using False ok due fresh by (auto simp: timer_turn_def)
qed

lemma timer_turns_spec:
  assumes "controller_ok (be_sessions st)" and "session_update tm \<le> now" and "now - session_update tm < 600"
    and "none_expired (session_update tm) (be_sessions st)" and "ticking now clock"
  shows "\<exists>tm' st'. timer_turns clock tm st = Some (tm', st') \<and> controller_ok (be_sessions st')
     \<and> last (now # clock) - session_update tm' < 600 \<and> session_update tm' \<le> last (now # clock)
     \<and> none_expired (session_update tm') (be_sessions st')
     \<and> keeps_live (last (now # clock)) (be_sessions st) (be_sessions st')"
  using assms
proof (induction clock arbitrary: now tm st)
  case Nil
  then show ?case by simp
next
  case (Cons t ts)
  have tick: "now \<le> t" "t \<le> now + 3000" "ticking t ts" using Cons.prems(5) by simp_all
  obtain tm1 st1 where turn: "timer_turn t tm st = Some (tm1, st1)" "controller_ok (be_sessions st1)"
    "session_update tm1 \<le> t" "t - session_update tm1 < 600" "none_expired (session_update tm1) (be_sessions st1)"
    "keeps_live t (be_sessions st) (be_sessions st1)"
    using timer_turn_spec [OF Cons.prems(1), of tm t] Cons.prems(2-4) tick by auto
  from Cons.IH [OF turn(2-5) tick(3)] obtain tm2 st2 where rest: "timer_turns ts tm1 st1 = Some (tm2, st2)"
    "controller_ok (be_sessions st2)" "last (t # ts) - session_update tm2 < 600" "session_update tm2 \<le> last (t # ts)"
    "none_expired (session_update tm2) (be_sessions st2)" "keeps_live (last (t # ts)) (be_sessions st1) (be_sessions st2)"
    by blast
  have "t \<le> last (t # ts)" using tick(3) by (induction ts arbitrary: t) fastforce+
  with rest keeps_live_trans [OF turn(6) rest(6)] turn(1) show ?case by simp
qed

text \<open>C18: as long as the clock does not run backwards and no two turns of the timer thread are more than
  50 minutes apart, no session stays in the dictionary for ten minutes after its expiry, and after the
  shutdown no expired one is left; sessions that have not expired are never touched.\<close>

theorem expired_sessions_purged:
  assumes "controller_ok (be_sessions st)" and "none_expired start (be_sessions st)" and "ticking start clock"
    and "find_session sid (be_sessions st) = Some p" and "deref p (sc_objects (be_sessions st)) = Some s"
  shows "\<exists>tm st'. timer_turns clock (timer_new start) st = Some (tm, st')
     \<and> (m_expired s \<le> last (start # clock) - 600 \<longrightarrow> find_session sid (be_sessions st') = None)
     \<and> (last (start # clock) \<le> m_expired s \<longrightarrow> find_session sid (be_sessions st') = Some p)
     \<and> (last (start # clock) \<le> stop \<longrightarrow> (\<exists>st''. stub_timer_run start clock stop st = Some st''
          \<and> find_session sid (be_sessions st'') = (if m_expired s < stop then None else Some p)))"
proof -
  let ?now = "last (start # clock)"
  from timer_turns_spec [of st "timer_new start" start clock] assms(1-3)
  obtain tm st' where turns: "timer_turns clock (timer_new start) st = Some (tm, st')" "controller_ok (be_sessions st')"
    "?now - session_update tm < 600" "none_expired (session_update tm) (be_sessions st')"
    "keeps_live ?now (be_sessions st) (be_sessions st')"
    by (auto simp: timer_new_def)
  from timer_session_update_spec [OF turns(2), of stop] obtain st'' where stop: "timer_session_update stop st' = Some st''"
    "none_expired stop (be_sessions st'')" "keeps_live stop (be_sessions st') (be_sessions st'')" by blast
  note kept = keeps_liveD [OF turns(5)] and kept_stop = keeps_liveD [OF stop(3)]
  have here: "find_session sid (be_sessions st') = None \<or> find_session sid (be_sessions st') = Some p"
    by (rule kept(3) [OF assms(4)])
  have obj: "deref p (sc_objects (be_sessions st')) = Some s" by (simp add: kept(1) assms(5))
  have past: "find_session sid (be_sessions st') = None" if "m_expired s \<le> ?now - 600"
  proof (rule ccontr)
    assume "find_session sid (be_sessions st') \<noteq> None"
    with here obj turns(4) have "session_update tm \<le> m_expired s" unfolding none_expired_def by blast
    with turns(3) that show False by linarith
  qed
  have live: "find_session sid (be_sessions st') = Some p" if "?now \<le> m_expired s"
    by (rule kept(2) [OF assms(4,5) that])
  have ended: "find_session sid (be_sessions st'') = (if m_expired s < stop then None else Some p)" if "?now \<le> stop"
  proof (cases "m_expired s < stop")
    case True
    have "find_session sid (be_sessions st'') \<noteq> Some p"
    proof
      assume "find_session sid (be_sessions st'') = Some p"
      with obj stop(2) have "stop \<le> m_expired s" unfolding none_expired_def kept_stop(1) by blast
      with True show False by linarith
    qed
    with True here kept_stop(3) [of sid p] stop(3) show ?thesis
      unfolding keeps_live_def by (metis option.exhaust)
  next
    case False
    with that have "find_session sid (be_sessions st') = Some p" by (intro live) linarith
    with kept_stop(2) [OF this obj] False show ?thesis by simp
  qed
  have "stub_timer_run start clock stop st = Some st''" by (simp add: stub_timer_run_def turns(1) stop(1))
  with turns(1) past live ended show ?thesis by blast
qed

text \<open>The hypotheses hold of one session that expires at 1000, on a clock from 0 to 2000.\<close>

definition one_session :: "unit backend" where
  "one_session =
     \<lparr>be_sessions = \<lparr>m_session_db = [], m_session_memory = [(''s1'', 0)], m_version_min = 4, m_version_current = 4,
        sc_objects = [s2h_session_new ''s1'' 0 1000]\<rparr>,
      be_storage = \<lparr>khl_users = [], khl_roles = [], khl_user_roles = []\<rparr>,
      be_tokens = \<lparr>m_tokens = [], ts_objects = [], m_cache_db = ()\<rparr>\<rparr>"

lemma one_session_facts:
  "controller_ok (be_sessions one_session)" "none_expired 0 (be_sessions one_session)"
  "find_session ''s1'' (be_sessions one_session) = Some 0"
  "deref 0 (sc_objects (be_sessions one_session)) = Some (s2h_session_new ''s1'' 0 1000)"
  by (auto simp: one_session_def controller_ok_def none_expired_def find_session_def std_find_def deref_def sorted_map_def
      s2h_session_new_def session_reset_def base_reset_def session_ok_def is_int32_def split: if_splits)

theorem expired_sessions_purged_witness:
  "\<exists>tm st'. timer_turns [400, 1600, 2000] (timer_new 0) one_session = Some (tm, st')
     \<and> find_session ''s1'' (be_sessions st') = None"
proof -
  have "ticking 0 [400, 1600, 2000]" by simp
  from expired_sessions_purged [OF one_session_facts(1,2) this one_session_facts(3,4), of 0] show ?thesis
    by (auto simp: s2h_session_new_def session_reset_def base_reset_def)
qed

end
