(* ===== verification/Json_Well_Formed.thy ===== *)
theory Json_Well_Formed
  imports Json_Read_Back
begin

text \<open>
  What the reader gives is a well-formed value, whatever the document and also when it is broken:
  a type of JSON values that every reading step preserves.
\<close>

text \<open>
  A value at depth \<open>d\<close>: integers of 64 bits, members in order without repeated names, names below
  \<open>2\<^sup>3\<^sup>0\<close> characters, and no array or object deeper than the limit.
\<close>

fun well_formed :: "nat \<Rightarrow> json \<Rightarrow> bool" where
  "well_formed d (JInt i) \<longleftrightarrow> - (2 ^ 63) < i \<and> i < 2 ^ 64"
| "well_formed d (JArray xs) \<longleftrightarrow> d \<le> stackLimit \<and> (\<forall>x \<in> set xs. well_formed (Suc d) x)"
| "well_formed d (JObject m) \<longleftrightarrow> d \<le> stackLimit \<and> sorted_map m
     \<and> (\<forall>e \<in> set m. length (fst e) < 2 ^ 30 \<and> well_formed (Suc d) (snd e))"
| "well_formed d v \<longleftrightarrow> True"

lemma decode_digits_bound: "decode_digits mx v s = Some w \<Longrightarrow> v \<le> mx \<Longrightarrow> w \<le> mx"
proof (induction mx v s rule: decode_digits.induct)
  case (2 mx v c s)
  let ?d = "char_code c - 48"
  have c: "is_digit c" "decode_digits mx (v * 10 + ?d) s = Some w"
    "\<not> (v \<ge> mx div 10 \<and> (v > mx div 10 \<or> s \<noteq> [] \<or> ?d > mx mod 10))"
    using "2.prems"(1) by (auto simp: Let_def split: if_splits)
  have "?d \<le> 9" using c(1) by (auto simp: is_digit_def)
  have "v * 10 + ?d \<le> mx"
  proof (cases "v < mx div 10")
    case True
    with \<open>?d \<le> 9\<close> show ?thesis using mult_div_mod_eq [of 10 mx] by linarith
  next
    case False
    with c(3) have "v = mx div 10" "?d \<le> mx mod 10" by auto
    then show ?thesis using mult_div_mod_eq [of 10 mx] by linarith
  qed
  with 2 c show ?case by (simp add: Let_def)
qed simp

lemma decodeNumber_well_formed: "decodeNumber sc t = Some (Some x) \<Longrightarrow> well_formed d x"
  by (auto simp: decodeNumber_def Let_def split: option.splits if_splits dest!: decode_digits_bound)

lemma leaf_value_well_formed:
  "leaf_value sc t v = Some (known, ok, x) \<Longrightarrow> well_formed d v \<Longrightarrow> well_formed d x"
  by (auto simp: leaf_value_def bind_eq_Some_conv dest: decodeNumber_well_formed
      split: token_type.splits option.splits)

lemma member_name_short: "member_name name st = Some (Proceed name1, st1) \<Longrightarrow> length name1 < 2 ^ 30"
  by (auto simp: member_name_def bind_eq_Some_conv split: if_splits option.splits)

lemma recover_with_value: "recover_with t v st = Some (ok, v', st') \<Longrightarrow> v' = v"
  by (auto simp: recover_with_def)

lemma value_read_value: "value_read r = (ok, v, st) \<Longrightarrow> \<exists>st0. r = (ok, v, st0)"
  by (auto simp: value_read_def split: prod.splits)

lemma std_assign_members:
  "sorted_map m \<Longrightarrow> set (std_assign k v m) \<subseteq> insert (k, v) (set m)"
  by (induction k v m rule: std_assign.induct) (auto simp: sorted_map_Cons)

lemma object_assign:
  assumes "well_formed d (JObject m)" and "length k < 2 ^ 30" and "well_formed (Suc d) x"
  shows "well_formed d (JObject (std_assign k x m))"
  using assms std_assign_members [of m k x] by (auto simp: sorted_map_assign dest!: subsetD)

lemma object_member:
  "well_formed d (JObject m) \<Longrightarrow> well_formed (Suc d) (case std_find k m of None \<Rightarrow> JNull | Some y \<Rightarrow> y)"
  by (auto simp: std_find_entry [symmetric] split: option.splits)

declare read_value.simps(2) [simp del] read_members.simps(2) [simp del] read_elements.simps(2) [simp del] well_formed.simps(3) [simp del]

lemma read_well_formed:
  "read_value sc n d v st = Some (ok, v', st') \<Longrightarrow> well_formed d v \<Longrightarrow> well_formed d v'"
  "read_members sc n d m name st = Some (ok, v', st') \<Longrightarrow> well_formed d (JObject m) \<Longrightarrow> well_formed d v'"
  "read_elements sc n d xs st = Some (ok, v', st') \<Longrightarrow> well_formed d (JArray xs) \<Longrightarrow> well_formed d v'"
proof (induction n arbitrary: d v st ok v' st' m name xs)
  case (Suc n)
  { case 1
    then have d: "d \<le> stackLimit" by (auto simp: read_value.simps(2) split: if_splits)
    obtain t st1 st2 where s: "skipCommentTokens st = Some (t, st1)" "take_comments st1 = Some st2"
      using 1 d by (auto simp: read_value.simps(2) bind_eq_Some_conv)
    note step = 1(1) [unfolded read_value.simps(2)]
    consider "tok_type t = tokenObjectBegin" | "tok_type t = tokenArrayBegin"
      | "tok_type t \<noteq> tokenObjectBegin" "tok_type t \<noteq> tokenArrayBegin" by blast
    then show ?case
    proof cases
      case 1
      then obtain st3 where "read_members sc n d [] [] st2 = Some (ok, v', st3)"
        using step d s by (auto dest!: value_read_value)
      from Suc.IH(2) [OF this] d show ?thesis by (simp add: well_formed.simps(3))
    next
      case 2
      let ?s = "skipSpaces (j_current st2)"
      show ?thesis
      proof (cases "?s \<noteq> [] \<and> hd ?s = CHR '']''")
        case True
        then show ?thesis using step d s 2 by (auto simp: Let_def value_read_def)
      next
        case False
        then obtain st3 where "read_elements sc n d [] (st2\<lparr>j_current := ?s\<rparr>) = Some (ok, v', st3)"
          using step d s 2 by (auto simp: Let_def dest!: value_read_value)
        from Suc.IH(3) [OF this] d show ?thesis by simp
      qed
    next
      case 3
      then obtain known ok1 where "leaf_value sc t v = Some (known, ok1, v')"
        using step d s by (auto simp: bind_eq_Some_conv value_read_def split: if_splits)
      from leaf_value_well_formed [OF this 1(2)] show ?thesis .
    qed }
  { case 2
    obtain s st1 where s: "member_name name st = Some (s, st1)" using 2(1) by (auto simp: read_members.simps(2) bind_eq_Some_conv)
    show ?case
    proof (cases s)
      case (Proceed name1)
      note at = s [unfolded Proceed]
      obtain ok1 x st2 where x: "read_value sc n (Suc d) (case std_find name1 m of None \<Rightarrow> JNull | Some y \<Rightarrow> y) st1 = Some (ok1, x, st2)"
        using 2(1) at by (auto simp: read_members.simps(2) bind_eq_Some_conv)
      let ?m = "std_assign name1 x m"
      have m: "well_formed d (JObject ?m)"
        using object_assign [OF 2(2) member_name_short [OF at] Suc.IH(1) [OF x object_member [OF 2(2)]]] .
      show ?thesis
      proof (cases ok1)
        case False
        then show ?thesis using 2(1) at x m by (auto simp: read_members.simps(2) Let_def dest: recover_with_value)
      next
        case True
        obtain e st3 where e: "member_end st2 = Some (e, st3)"
          using 2(1) at x True by (auto simp: read_members.simps(2) Let_def bind_eq_Some_conv)
        show ?thesis
        proof (cases e)
          case (Proceed u)
          then have "read_members sc n d ?m name1 st3 = Some (ok, v', st')"
            using 2(1) at x True e by (simp add: read_members.simps(2) Let_def)
          from Suc.IH(2) [OF this m] show ?thesis .
        qed (use 2(1) at x True e m in \<open>auto simp: read_members.simps(2) Let_def dest: recover_with_value\<close>)
      qed
    qed (use 2 s in \<open>auto simp: read_members.simps(2) dest: recover_with_value\<close>) }
  { case 3
    obtain ok1 x st1 where x: "read_value sc n (Suc d) JNull st = Some (ok1, x, st1)"
      using 3(1) by (auto simp: read_elements.simps(2) bind_eq_Some_conv)
    have m: "well_formed d (JArray (xs @ [x]))" using 3(2) Suc.IH(1) [OF x] by auto
    show ?case
    proof (cases ok1)
      case False
      then show ?thesis using 3(1) x m by (auto simp: read_elements.simps(2) Let_def dest: recover_with_value)
    next
      case True
      obtain e st3 where e: "element_end st1 = Some (e, st3)"
        using 3(1) x True by (auto simp: read_elements.simps(2) Let_def bind_eq_Some_conv)
      show ?thesis
      proof (cases e)
        case (Proceed u)
        then have "read_elements sc n d (xs @ [x]) st3 = Some (ok, v', st')"
          using 3(1) x True e by (simp add: read_elements.simps(2) Let_def)
        from Suc.IH(3) [OF this m] show ?thesis .
      qed (use 3(1) x True e m in \<open>auto simp: read_elements.simps(2) Let_def dest: recover_with_value\<close>)
    qed }
qed auto

text \<open>C30: whatever the document, what the reader gives, accepted or not, is a well-formed value: integers of
  64 bits, the members of every object in order and without repeated names, and arrays and objects
  nested at most a thousand deep.\<close>

theorem parsed_well_formed:
  assumes "parse_json sc doc = Some (ok, v)"
  shows "well_formed 1 v"
proof -
  obtain st where "read_value sc (2 * length doc + 1) 1 JNull (reader_new doc) = Some (ok, v, st)"
    using assms by (auto simp: parse_json_def reader_parse_def bind_eq_Some_conv)
  from read_well_formed(1) [OF this] show ?thesis by simp
qed

theorem parsed_well_formed_witness:
  "parse_json (\<lambda>_. None) (json_string json_sample) = Some (True, clean_json json_sample) \<and> well_formed 1 (clean_json json_sample)"
proof -
  have "parse_json (\<lambda>_. None) (json_string json_sample) = Some (True, clean_json json_sample)"
    using parse_written json_sample_ok by blast
  with parsed_well_formed [OF this] show ?thesis by blast
qed

end
