(* ===== verification/Fast_File.thy ===== *)
theory Fast_File
  imports Khl_Prelude
begin

text \<open>
  \<open>src/system/fastfile.cpp\<close>, \<open>include/system/fastfile.h\<close> as compiled with \<open>UNIX\<close>: a file mapped into
  memory. A file that is open for writing is grown to whole granules while it is mapped and cut back
  when it is closed. The calls of the operating system are modelled by what POSIX says of them on
  the files of a record; a page of a mapping that lies wholly behind the end of the file cannot be
  touched (\<open>SIGBUS\<close>, here \<open>None\<close>).
\<close>

section \<open>The operating system\<close>

text \<open>
  \<open>p_may_open\<close> says whether a name can be opened (for reading only, when the flag is set);
  \<open>p_map_limit\<close> and \<open>p_file_limit\<close> are the longest mapping and file.
\<close>

record posix =
  p_files :: "string \<Rightarrow> string option"
  p_page :: nat
  p_map_limit :: nat
  p_file_limit :: nat
  p_may_open :: "string \<Rightarrow> bool \<Rightarrow> bool"
  p_mtime :: "string \<Rightarrow> int"

definition resized :: "nat \<Rightarrow> string \<Rightarrow> string" where
  "resized n s = take n s @ replicate (n - length s) NUL"

definition ftruncate :: "string \<Rightarrow> bool \<Rightarrow> nat \<Rightarrow> posix \<Rightarrow> bool \<times> posix" where
  "ftruncate name only_read n os =
     (case p_files os name of
        Some s \<Rightarrow> if only_read \<or> p_file_limit os < n then (False, os)
                  else (True, os\<lparr>p_files := (p_files os)(name \<mapsto> resized n s)\<rparr>)
      | None \<Rightarrow> (False, os))"

text \<open>What \<open>mmap\<close> gives: no pointer yet, \<open>MAP_FAILED\<close>, or a mapping of that many bytes.\<close>

datatype mapping = Null_Pointer | Map_Failed | Mapped nat

definition mmap :: "nat \<Rightarrow> posix \<Rightarrow> mapping" where
  "mmap n os = (if n = 0 \<or> p_map_limit os < n then Map_Failed else Mapped n)"

section \<open>The file object\<close>

record fastfile =
  m_granulate :: nat
  m_file_size :: nat
  m_over_file_size :: nat
  m_file :: "string option"
  m_memory :: mapping
  m_only_read :: bool
  m_update :: int

definition fastfile_new :: "nat \<Rightarrow> posix \<Rightarrow> fastfile" where
  "fastfile_new granulate os = \<lparr>m_granulate = (if granulate = 0 then p_page os else granulate), m_file_size = 0,
     m_over_file_size = 0, m_file = None, m_memory = Null_Pointer, m_only_read = False, m_update = 0\<rparr>"

definition granules :: "nat \<Rightarrow> nat \<Rightarrow> nat" where
  "granules g n = uadd (n div g) 1 * g mod size_modulus"

definition close_file :: "nat \<Rightarrow> fastfile \<Rightarrow> posix \<Rightarrow> fastfile \<times> posix" where
  "close_file size_on_close ff os =
     (let ff1 = ff\<lparr>m_memory := Null_Pointer\<rparr> in
      case m_file ff of
        None \<Rightarrow> (ff1, os)
      | Some name \<Rightarrow>
          (let n = (if size_on_close = 0 then m_file_size ff else size_on_close) in
           (ff1\<lparr>m_file := None\<rparr>, snd (ftruncate name (m_only_read ff) n os))))"

definition open_file :: "string \<Rightarrow> nat \<Rightarrow> bool \<Rightarrow> fastfile \<Rightarrow> posix \<Rightarrow> bool \<times> fastfile \<times> posix" where
  "open_file file_name file_size only_read ff os =
     (let (ff1, os1) = close_file 0 ff os; ff2 = ff1\<lparr>m_only_read := only_read\<rparr> in
      if only_read \<and> p_files os1 file_name = None then (False, ff2, os1)
      else if \<not> p_may_open os1 file_name only_read then (False, ff2, os1)
      else
        (let s = (case p_files os1 file_name of None \<Rightarrow> [] | Some s \<Rightarrow> s);
             os2 = os1\<lparr>p_files := (p_files os1)(file_name \<mapsto> s)\<rparr>;
             n = (if s = [] then file_size else length s);
             ff3 = ff2\<lparr>m_file := Some file_name, m_update := p_mtime os2 file_name, m_file_size := n\<rparr> in
         if only_read then (True, ff3\<lparr>m_over_file_size := n, m_memory := mmap n os2\<rparr>, os2)
         else
           (let over = granules (m_granulate ff3) n; (ok, os3) = ftruncate file_name False over os2 in
            if \<not> ok then (False, ff3\<lparr>m_over_file_size := over\<rparr>, os3)
            else (True, ff3\<lparr>m_over_file_size := over, m_memory := mmap over os3\<rparr>, os3))))"

definition set_length :: "nat \<Rightarrow> fastfile \<Rightarrow> posix \<Rightarrow> fastfile" where
  "set_length new_size ff os =
     (if new_size \<le> m_file_size ff \<or> new_size \<le> m_over_file_size ff then ff\<lparr>m_file_size := new_size\<rparr>
      else (let over = granules (m_granulate ff) new_size in
            ff\<lparr>m_file_size := new_size, m_over_file_size := over,
              m_memory := (if m_file ff = None then Map_Failed else mmap over os)\<rparr>))"

definition is_open :: "fastfile \<Rightarrow> bool" where
  "is_open ff \<longleftrightarrow> m_memory ff \<noteq> Null_Pointer"

definition ff_get_length :: "fastfile \<Rightarrow> nat" where
  "ff_get_length ff = m_file_size ff"

section \<open>The mapped memory\<close>

text \<open>The bytes behind the file up to the end of its last page read as zero and are not stored.\<close>

definition backed :: "posix \<Rightarrow> string \<Rightarrow> nat" where
  "backed os s = ((length s + p_page os - 1) div p_page os) * p_page os"

definition mapped_content :: "fastfile \<Rightarrow> posix \<Rightarrow> string option" where
  "mapped_content ff os =
     (case m_memory ff of
        Mapped n \<Rightarrow> do { name \<leftarrow> m_file ff; s \<leftarrow> p_files os name; Some (take n (resized (backed os s) s)) }
      | _ \<Rightarrow> None)"

definition read_memory :: "nat \<Rightarrow> nat \<Rightarrow> fastfile \<Rightarrow> posix \<Rightarrow> string option" where
  "read_memory p n ff os =
     do { s \<leftarrow> mapped_content ff os; if p + n \<le> length s then Some (take n (drop p s)) else None }"

definition write_memory :: "nat \<Rightarrow> char \<Rightarrow> fastfile \<Rightarrow> posix \<Rightarrow> posix option" where
  "write_memory p c ff os =
     do { s \<leftarrow> mapped_content ff os;
          if length s \<le> p \<or> m_only_read ff then None
          else do { name \<leftarrow> m_file ff; t \<leftarrow> p_files os name;
                    Some (os\<lparr>p_files := (p_files os)(name \<mapsto> t[p := c])\<rparr>) } }"

fun write_all :: "(nat \<times> char) list \<Rightarrow> fastfile \<Rightarrow> posix \<Rightarrow> posix option" where
  "write_all [] ff os = Some os"
| "write_all ((p, c) # ws) ff os = do { os1 \<leftarrow> write_memory p c ff os; write_all ws ff os1 }"

section \<open>Properties\<close>

text \<open>A system on which a file can be mapped in whole granules.\<close>

definition roomy :: "nat \<Rightarrow> nat \<Rightarrow> posix \<Rightarrow> bool" where
  "roomy g n os \<longleftrightarrow> 0 < g \<and> 0 < p_page os \<and> n + g \<le> p_map_limit os \<and> n + g \<le> p_file_limit os \<and> n + g < size_modulus"

lemma granules_bounds:
  assumes "roomy g n os"
  shows "n < granules g n \<and> granules g n \<le> n + g"
proof -
  have n: "n div g * g + n mod g = n" "n mod g < g" "n div g \<le> n" using assms by (simp_all add: roomy_def)
  have g: "(n div g + 1) * g = n div g * g + g" by simp
  have room: "n + g < size_modulus" "0 < g" using assms by (simp_all add: roomy_def)
  then have "uadd (n div g) 1 = n div g + 1" using n(3) by (intro uadd_small) linarith
  moreover have "(n div g + 1) * g < size_modulus" unfolding g using room n(1) by linarith
  ultimately have "granules g n = n div g * g + g" unfolding granules_def by (simp only: mod_less g)
  with n(1,2) show ?thesis by linarith
qed

lemma resized_shorter: "n \<le> length s \<Longrightarrow> resized n s = take n s"
  by (simp add: resized_def)

lemma length_resized [simp]: "length (resized n s) = n"
  by (simp add: resized_def)

lemma take_resized: "n \<le> k \<Longrightarrow> n \<le> length s \<Longrightarrow> take n (resized k s) = take n s"
  by (simp add: resized_def)

lemma length_backed:
  assumes "0 < p_page os"
  shows "length s \<le> backed os s"
proof -
  let ?p = "p_page os" and ?x = "length s + p_page os - 1"
  have "?x div ?p * ?p + ?x mod ?p = ?x" "?x mod ?p < ?p" using assms by simp_all
  with assms show ?thesis unfolding backed_def by linarith
qed

definition mapped_file :: "string \<Rightarrow> string \<Rightarrow> fastfile \<Rightarrow> posix \<Rightarrow> bool" where
  "mapped_file name s ff os \<longleftrightarrow> m_file ff = Some name \<and> p_files os name = Some s \<and> m_memory ff = Mapped (length s) \<and> 0 < p_page os"

lemma mapped_file_content: "mapped_file name s ff os \<Longrightarrow> mapped_content ff os = Some s"
  using length_backed [of os s] by (simp add: mapped_file_def mapped_content_def take_resized)

lemma write_all_mapped:
  assumes "mapped_file name s ff os" and "\<not> m_only_read ff" and "\<forall>w \<in> set ws. fst w < length s"
  shows "\<exists>os'. write_all ws ff os = Some os' \<and> mapped_file name (fold (\<lambda>(p, c) t. t[p := c]) ws s) ff os'
     \<and> p_file_limit os' = p_file_limit os \<and> (\<forall>x. x \<noteq> name \<longrightarrow> p_files os' x = p_files os x)"
  using assms
proof (induction ws arbitrary: s os)
  case (Cons w ws)
  obtain p c where w: "w = (p, c)" by (cases w)
  let ?os = "os\<lparr>p_files := (p_files os)(name \<mapsto> s[p := c])\<rparr>"
  have "write_memory p c ff os = Some ?os"
    using Cons.prems mapped_file_content [OF Cons.prems(1)] by (simp add: write_memory_def w mapped_file_def)
  moreover have "mapped_file name (s[p := c]) ff ?os" using Cons.prems(1) by (simp add: mapped_file_def)
  ultimately show ?case using Cons.IH [of "s[p := c]" ?os] Cons.prems(2,3) by (fastforce simp: w)
qed simp

lemma open_writable:
  assumes "p_files os name = Some s" and "s \<noteq> []" and "p_may_open os name False" and "roomy g (length s) os"
    and "m_granulate ff = g" and "m_file ff = None"
  shows "\<exists>ff1 os1. open_file name n False ff os = (True, ff1, os1) \<and> \<not> m_only_read ff1 \<and> m_file_size ff1 = length s
     \<and> mapped_file name (resized (granules g (length s)) s) ff1 os1 \<and> p_file_limit os1 = p_file_limit os
     \<and> (\<forall>x. x \<noteq> name \<longrightarrow> p_files os1 x = p_files os x)"
  using assms granules_bounds [OF assms(4)]
  by (auto simp: open_file_def close_file_def ftruncate_def mmap_def mapped_file_def roomy_def Let_def)


definition sample_os :: posix where
  "sample_os = \<lparr>p_files = [''f'' \<mapsto> ''abc''], p_page = 4096, p_map_limit = 2 ^ 40, p_file_limit = 2 ^ 40,
     p_may_open = (\<lambda>_ _. True), p_mtime = (\<lambda>_. 0)\<rparr>"

lemma sample_file: "p_files sample_os ''f'' = Some ''abc''" "p_may_open sample_os ''f'' False" "roomy 4096 (length ''abc'') sample_os"
  "m_granulate (fastfile_new 0 sample_os) = 4096" "m_file (fastfile_new 0 sample_os) = None"
  by (simp_all add: sample_os_def roomy_def size_modulus_def fastfile_new_def)


text \<open>a length beyond the mapped granules maps the file anew but does not grow it: the memory behind the
  pages of the old file cannot be touched although the object says it is there.\<close>

theorem grown_mapping_faults:
  assumes "mapped_file name s ff os" and "0 < m_granulate ff" and "length s \<le> m_over_file_size ff" and "m_file_size ff \<le> m_over_file_size ff"
    and "backed os s \<le> p" and "m_over_file_size ff < n" and "p < n"
  shows "ff_get_length (set_length n ff os) = n \<and> read_memory p 1 (set_length n ff os) os = None
     \<and> write_memory p c (set_length n ff os) os = None"
proof -
  let ?ff = "set_length n ff os"
  have "m_file ?ff = Some name" "m_file_size ?ff = n" "p_files os name = Some s"
    using assms by (auto simp: set_length_def mapped_file_def Let_def)
  then show ?thesis using assms(5)
    by (cases "m_memory ?ff")
      (auto simp: ff_get_length_def read_memory_def write_memory_def mapped_content_def)
qed

theorem grown_mapping_faults_witness:
  "\<exists>ff os. open_file ''f'' 0 False (fastfile_new 0 sample_os) sample_os = (True, ff, os)
     \<and> ff_get_length (set_length 9000 ff os) = 9000 \<and> read_memory 8192 1 (set_length 9000 ff os) os = None"
proof -
  have g: "granules 4096 (length ''abc'') = 4096" by (simp add: granules_def size_modulus_def)
  from open_writable [OF sample_file(1) _ sample_file(2-5), of 0] obtain ff os where
    o: "open_file ''f'' 0 False (fastfile_new 0 sample_os) sample_os = (True, ff, os)" "m_file_size ff = length ''abc''"
      "mapped_file ''f'' (resized 4096 ''abc'') ff os"
    unfolding g by auto
  have f: "m_over_file_size ff = 4096" "m_granulate ff = 4096" "p_page os = 4096"
    using o(1) g by (auto simp: open_file_def close_file_def ftruncate_def fastfile_new_def sample_os_def Let_def split: if_splits)
  have "backed os (resized 4096 ''abc'') = 4096" by (simp add: backed_def f)
  then show ?thesis using o f grown_mapping_faults [OF o(3), of 8192 9000] by simp
qed

end
