(* ===== verification/Config.thy ===== *)
theory Config
  imports Fast_File Json_Read_Back
begin

text \<open>
  \<open>src/app/config.cxx\<close>: the configuration is a JSON file read through a mapping; a value is found under
  a path of member names joined by a separator. \<open>None\<close> is an exception (a name looked up in a value
  that is neither null nor an object, a value that cannot be converted) or undefined behaviour.
\<close>

section \<open>Lookup\<close>

text \<open>\<open>std::string::find\<close>.\<close>

fun str_find :: "string \<Rightarrow> string \<Rightarrow> nat option" where
  "str_find pat [] = (if pat = [] then Some 0 else None)"
| "str_find pat (c # s) = (if take (length pat) (c # s) = pat then Some 0 else map_option Suc (str_find pat s))"

lemma size_member: "(k, x) \<in> set m \<Longrightarrow> size x < size (JObject m)"
  by (induction m) auto

lemma json_at_smaller:
  assumes "json_at k v = Some x" and "x \<noteq> JNull"
  shows "size x < size v"
proof -
  obtain m where m: "v = JObject m" "std_find k m = Some x"
    using assms by (cases v) (auto simp: json_at_def split: option.splits)
  then have "(k, x) \<in> set m" by (auto simp: std_find_def dest: map_of_SomeD)
  from size_member [OF this] m(1) show ?thesis by simp
qed

function find_item :: "string \<Rightarrow> string \<Rightarrow> json \<Rightarrow> json option" where
  "find_item key sep item =
     (case str_find sep key of
        Some pos \<Rightarrow>
          (case json_at (take pos key) item of
             None \<Rightarrow> None
           | Some it2 \<Rightarrow>
               if it2 = JNull then Some JNull
               else if drop (pos + length sep) key = [] then Some JNull
               else find_item (drop (pos + length sep) key) sep it2)
      | None \<Rightarrow> json_at key item)"
  by pat_completeness auto
termination
  by (relation "measure (\<lambda>(_, _, item). size item)") (auto intro: json_at_smaller)

declare find_item.simps [simp del]

definition get_value_of :: "(json \<Rightarrow> 'a option) \<Rightarrow> string \<Rightarrow> 'a \<Rightarrow> string \<Rightarrow> json \<Rightarrow> 'a option" where
  "get_value_of conv super_key default_value sep container =
     do { item \<leftarrow> find_item super_key sep container;
          if item = JNull then Some default_value else conv item }"

definition is_value :: "string \<Rightarrow> bool \<Rightarrow> string \<Rightarrow> json \<Rightarrow> bool option" where
  "is_value = get_value_of asBool"

definition get_value_int :: "string \<Rightarrow> int \<Rightarrow> string \<Rightarrow> json \<Rightarrow> int option" where
  "get_value_int = get_value_of asInt"

definition get_value_string :: "string \<Rightarrow> string \<Rightarrow> string \<Rightarrow> json \<Rightarrow> string option" where
  "get_value_string = get_value_of asString"

section \<open>Loading\<close>

definition config_load ::
  "(string \<Rightarrow> double option) \<Rightarrow> string \<Rightarrow> json \<Rightarrow> posix \<Rightarrow> (bool \<times> json \<times> posix) option" where
  "config_load sc file_name container os =
     (let (ok, ff, os1) = open_file file_name (usub 0 1) True (fastfile_new 0 os) os in
      if \<not> ok then Some (False, container, snd (close_file 0 ff os1))
      else do { config_text \<leftarrow> read_memory 0 (ff_get_length ff) ff os1;
                (parsed, root) \<leftarrow> parse_json sc config_text;
                Some (parsed, root, snd (close_file 0 ff os1)) })"

section \<open>Properties\<close>

text \<open>What a path of names means: the members one after the other, null as soon as one is missing.\<close>

fun json_path :: "string list \<Rightarrow> json \<Rightarrow> json option" where
  "json_path [] v = Some v"
| "json_path (k # ks) v = do { x \<leftarrow> json_at k v; if x = JNull then Some JNull else json_path ks x }"

fun joined :: "string \<Rightarrow> string list \<Rightarrow> string" where
  "joined sep [] = []"
| "joined sep [k] = k"
| "joined sep (k # ks) = k @ sep @ joined sep ks"

lemma str_find_char: "c \<notin> set k \<Longrightarrow> str_find [c] (k @ [c] @ r) = Some (length k)"
  by (induction k) (auto simp: neq_Nil_conv)

lemma str_find_none: "c \<notin> set k \<Longrightarrow> str_find [c] k = None"
  by (induction k) auto

lemma joined_not_Nil: "ks \<noteq> [] \<Longrightarrow> last ks \<noteq> [] \<Longrightarrow> joined sep ks \<noteq> []"
  by (induction sep ks rule: joined.induct) auto

lemma find_item_path:
  "ks \<noteq> [] \<Longrightarrow> last ks \<noteq> [] \<Longrightarrow> \<forall>k \<in> set ks. c \<notin> set k \<Longrightarrow> find_item (joined [c] ks) [c] v = json_path ks v"
proof (induction "[c]" ks arbitrary: v rule: joined.induct)
  case (2 k)
  then show ?case by (subst find_item.simps) (auto simp: str_find_none split: bind_splits)
next
  case (3 k k2 ks)
  have f: "str_find [c] (joined [c] (k # k2 # ks)) = Some (length k)"
    using 3 str_find_char [of c k "joined [c] (k2 # ks)"] by simp
  have n: "joined [c] (k2 # ks) \<noteq> []" using 3 by (intro joined_not_Nil) auto
  show ?case
    using 3 n by (subst find_item.simps, subst f) (auto split: option.splits bind_splits)
qed simp

lemma config_load_eq:
  assumes "p_files os name = Some (json_string v)" and "p_may_open os name True" and "readable 1 v" and "json_string v \<noteq> []"
    and "length (json_string v) \<le> p_map_limit os" and "0 < p_page os"
  shows "\<exists>os1. config_load sc name v0 os = Some (True, clean_json v, os1) \<and> p_files os1 = p_files os"
proof -
  let ?s = "json_string v" and ?ff = "fastfile_new 0 os"
  let ?ff1 = "?ff\<lparr>m_only_read := True, m_file := Some name, m_update := p_mtime os name, m_file_size := length ?s,
    m_over_file_size := length ?s, m_memory := Mapped (length ?s)\<rparr>"
  have upd: "(p_files os)(name \<mapsto> ?s) = p_files os" using assms(1) by auto
  have o: "open_file name n True ?ff os = (True, ?ff1, os)" for n
    using assms by (simp add: open_file_def close_file_def fastfile_new_def mmap_def upd Let_def)
  have "mapped_file name ?s ?ff1 os" using assms by (simp add: mapped_file_def)
  then have "read_memory 0 (length ?s) ?ff1 os = Some ?s"
    using mapped_file_content [of name ?s ?ff1 os] by (simp add: read_memory_def)
  then show ?thesis using o assms(1)
    by (simp add: config_load_def ff_get_length_def parse_written [OF assms(3)] close_file_def ftruncate_def Let_def)
qed

lemma json_string_not_Nil: "readable d v \<Longrightarrow> json_string v \<noteq> []"
  using writeValue_front [of d v] by (auto simp: json_string_def)

text \<open>C32: a configuration written as JSON text to a file is loaded, and a value looked up under a path of
  names joined by the separator is the one found by following the names; the default stands for a
  missing one, and a value on the way that is no object is an exception.\<close>

theorem configured_value_found:
  assumes "p_files os name = Some (json_string v)" and "p_may_open os name True" and "readable 1 v" and "utf8_json v"
    and "length (json_string v) \<le> p_map_limit os" and "0 < p_page os"
    and "ks \<noteq> []" and "last ks \<noteq> []" and "\<forall>k \<in> set ks. c \<notin> set k"
  shows "\<exists>container os1. config_load sc name v0 os = Some (True, container, os1)
     \<and> get_value_string (joined [c] ks) dflt [c] container
        = (case json_path ks v of None \<Rightarrow> None | Some JNull \<Rightarrow> Some dflt | Some x \<Rightarrow> asString x)"
  using config_load_eq [OF assms(1-3) json_string_not_Nil [OF assms(3)] assms(5,6), of sc v0]
    clean_json_utf8(1) [OF assms(4)]
  by (force simp: get_value_string_def get_value_of_def find_item_path [OF assms(7-9)] split: option.splits json.splits)

definition sample_config :: json where
  "sample_config = JObject [(''a'', JObject [(''b'', JString ''x'')])]"

definition config_os :: posix where
  "config_os = sample_os\<lparr>p_files := [''f'' \<mapsto> json_string sample_config], p_map_limit := length (json_string sample_config)\<rparr>"

theorem configured_value_found_witness:
  "\<exists>container os1. config_load (\<lambda>_. None) ''f'' JNull config_os = Some (True, container, os1)
     \<and> get_value_string (joined '':'' [''a'', ''b'']) [] '':'' container = Some ''x''"
proof -
  have c: "readable 1 sample_config" "utf8_json sample_config"
    by (simp_all add: sample_config_def stackLimit_def clean_ascii utf8_ascii char_code_def sorted_map_def)
  have o: "p_files config_os ''f'' = Some (json_string sample_config)" "p_may_open config_os ''f'' True"
    "length (json_string sample_config) \<le> p_map_limit config_os" "0 < p_page config_os"
    by (simp_all add: config_os_def sample_os_def)
  have path: "json_path [''a'', ''b''] sample_config = Some (JString ''x'')" by (simp add: sample_config_def json_at_def)
  show ?thesis
    using configured_value_found [OF o(1,2) c o(3,4), of "[''a'', ''b'']" "CHR '':''" "\<lambda>_. None" JNull "[]"]
    by (simp add: path del: joined.simps json_path.simps)
qed

text \<open>an empty configuration file, which \<open>config_load\<close> opens with a size of \<open>-1\<close>, is taken for one of \<open>2\<^sup>6\<^sup>4 - 1\<close>
  bytes whose mapping fails; the failed mapping counts as open and is read.\<close>

theorem empty_configuration_crashes:
  assumes "p_files os name = Some []" and "p_may_open os name True" and "p_map_limit os < 2 ^ 64 - 1"
  shows "config_load sc name v0 os = None"
  using assms
  by (simp add: config_load_def open_file_def close_file_def fastfile_new_def mmap_def ff_get_length_def
      read_memory_def mapped_content_def usub_def size_modulus_def)

theorem empty_configuration_crashes_witness:
  "config_load (\<lambda>_. None) ''f'' JNull (sample_os\<lparr>p_files := [''f'' \<mapsto> []]\<rparr>) = None"
  by (rule empty_configuration_crashes) (simp_all add: sample_os_def)

end
