(* ===== verification/Postgres.thy ===== *)
theory Postgres
  imports Json_Text "HOL-Library.Multiset"
begin

text \<open>
  \<open>src/db/postgres.cpp\<close>, \<open>include/db/postgres.h\<close>: the pool of database connections and the objects that
  borrow from it, the check of a connection, and the conversions between values and SQL text. The
  connections (\<open>pqxx::connection\<close>) are external and are only told apart here; every operation on the
  pool runs under its mutex, so a step is a whole call.
\<close>

section \<open>The pool\<close>

record db_pool =
  m_free_pool :: "nat list"

definition db_pool_new :: db_pool where
  "db_pool_new = \<lparr>m_free_pool = []\<rparr>"

text \<open>\<open>next\<close> is the connection the operating system gives next.\<close>

definition prepare_pool :: "nat \<Rightarrow> nat \<Rightarrow> db_pool \<Rightarrow> db_pool" where
  "prepare_pool next_conn n pool = pool\<lparr>m_free_pool := m_free_pool pool @ [next_conn ..< next_conn + n]\<rparr>"

text \<open>\<open>None\<close>: the caller waits on the condition variable.\<close>

definition get_connection_pool :: "db_pool \<Rightarrow> (nat \<times> db_pool) option" where
  "get_connection_pool pool =
     (case m_free_pool pool of [] \<Rightarrow> None | conn # rest \<Rightarrow> Some (conn, pool\<lparr>m_free_pool := rest\<rparr>))"

definition release_connection_pool :: "nat \<Rightarrow> db_pool \<Rightarrow> db_pool" where
  "release_connection_pool conn pool = pool\<lparr>m_free_pool := m_free_pool pool @ [conn]\<rparr>"

text \<open>A \<open>db_connection\<close>: what it borrowed, nothing once it was given back.\<close>

type_synonym db_connections = "nat \<Rightarrow> nat option"

definition db_connection_new :: "nat \<Rightarrow> db_pool \<times> db_connections \<Rightarrow> (db_pool \<times> db_connections) option" where
  "db_connection_new d w =
     map_option (\<lambda>(conn, pool). (pool, (snd w)(d \<mapsto> conn))) (get_connection_pool (fst w))"

definition db_connection_release :: "nat \<Rightarrow> db_pool \<times> db_connections \<Rightarrow> db_pool \<times> db_connections" where
  "db_connection_release d w =
     (case snd w d of
        None \<Rightarrow> w
      | Some conn \<Rightarrow> (release_connection_pool conn (fst w), (snd w)(d := None)))"

text \<open>
  Any number of threads make and drop \<open>db_connection\<close> objects: a step makes an object (when the pool
  is empty it waits, which is no step), releases one or destroys it.
\<close>

inductive pool_step :: "db_pool \<times> db_connections \<Rightarrow> db_pool \<times> db_connections \<Rightarrow> bool" where
  step_new: "snd w d = None \<Longrightarrow> db_connection_new d w = Some w' \<Longrightarrow> pool_step w w'"
| step_release: "pool_step w (db_connection_release d w)"

inductive pool_run :: "db_pool \<times> db_connections \<Rightarrow> db_pool \<times> db_connections \<Rightarrow> bool" where
  run_none: "pool_run w w"
| run_step: "pool_run w w1 \<Longrightarrow> pool_step w1 w2 \<Longrightarrow> pool_run w w2"

inductive_cases pool_stepE: "pool_step w w'"

text \<open>Every connection is either free once or lent to exactly one object.\<close>

definition lent :: "db_connections \<Rightarrow> nat set" where
  "lent h = ran h"

definition pool_ok :: "nat set \<Rightarrow> db_pool \<times> db_connections \<Rightarrow> bool" where
  "pool_ok conns w \<longleftrightarrow> distinct (m_free_pool (fst w)) \<and> set (m_free_pool (fst w)) \<inter> lent (snd w) = {}
     \<and> set (m_free_pool (fst w)) \<union> lent (snd w) = conns \<and> inj_on (snd w) (dom (snd w))"

lemma inj_on_update:
  assumes "inj_on h (dom h)" and "c \<notin> ran h" and "h d = None"
  shows "inj_on (h(d \<mapsto> c)) (dom (h(d \<mapsto> c)))"
  using assms by (auto simp: inj_on_def ran_def dom_def)

lemma ran_remove: "inj_on h (dom h) \<Longrightarrow> h d = Some c \<Longrightarrow> ran (h(d := None)) = ran h - {c}"
  by (auto simp: ran_def inj_on_def dom_def) (metis option.inject)

lemma inj_on_remove: "inj_on h (dom h) \<Longrightarrow> inj_on (h(d := None)) (dom (h(d := None)))"
  by (auto simp: inj_on_def dom_def)

lemma pool_step_ok:
  assumes "pool_step w w'" and "pool_ok conns w"
  shows "pool_ok conns w'"
proof -
  consider (step_new) d where "snd w d = None" "db_connection_new d w = Some w'"
    | (step_release) d where "w' = db_connection_release d w"
    using assms(1) by (auto elim: pool_stepE)
  then show ?thesis
proof cases
  case step_new
  obtain c rest where c: "m_free_pool (fst w) = c # rest" "w' = ((fst w)\<lparr>m_free_pool := rest\<rparr>, (snd w)(d \<mapsto> c))"
    using step_new(2) by (auto simp: db_connection_new_def get_connection_pool_def split: list.splits)
  have "c \<notin> ran (snd w)" using assms(2) c(1) by (auto simp: pool_ok_def lent_def)
  moreover have "ran ((snd w)(d \<mapsto> c)) = insert c (ran (snd w))" using step_new(1) by simp
  ultimately show ?thesis
    using assms(2) c step_new(1) inj_on_update [of "snd w" c d] by (auto simp: pool_ok_def lent_def)
next
  case step_release
  show ?thesis
  proof (cases "snd w d")
    case None
    then show ?thesis using step_release assms(2) by (simp add: db_connection_release_def)
  next
    case (Some c)
    have "inj_on (snd w) (dom (snd w))" using assms(2) by (simp add: pool_ok_def)
    note remove = ran_remove [OF this Some] inj_on_remove [OF this, of d]
    have "c \<in> ran (snd w)" using Some by (rule ranI)
    then show ?thesis
      using step_release assms(2) Some remove
      by (auto simp: pool_ok_def lent_def db_connection_release_def release_connection_pool_def)
  qed
qed
qed

lemma pool_run_ok: "pool_run w w' \<Longrightarrow> pool_ok conns w \<Longrightarrow> pool_ok conns w'"
  by (induction rule: pool_run.induct) (auto dest: pool_step_ok)

lemma prepared_ok: "pool_ok {0..<n} (prepare_pool 0 n db_pool_new, Map.empty)"
  by (simp add: pool_ok_def prepare_pool_def db_pool_new_def lent_def)

text \<open>C31: however many threads borrow and return connections, in whatever order and however often they
  release, no connection is lent to two objects at a time, none is lost, and a borrower has to
  wait exactly while all of them are lent.\<close>

theorem connections_lent_once:
  assumes "pool_run (prepare_pool 0 n db_pool_new, Map.empty) (pool, h)"
  shows "(\<forall>d e c. h d = Some c \<and> h e = Some c \<longrightarrow> d = e)
     \<and> mset (m_free_pool pool) + mset_set (ran h) = mset [0..<n]
     \<and> (get_connection_pool pool = None \<longleftrightarrow> card (dom h) = n)"
proof -
  note ok = pool_run_ok [OF assms prepared_ok]
  have fin: "finite (ran h)" using ok finite_subset [of "ran h" "{0..<n}"] by (auto simp: pool_ok_def lent_def)
  have free: "mset (m_free_pool pool) = mset_set (set (m_free_pool pool))"
    using ok by (simp add: pool_ok_def mset_set_set)
  have union: "mset_set (set (m_free_pool pool)) + mset_set (ran h) = mset_set {0..<n}"
    using ok fin mset_set_Union [of "set (m_free_pool pool)" "ran h"] by (simp add: pool_ok_def lent_def)
  have lent_inj: "inj_on h (dom h)" using ok by (simp add: pool_ok_def)
  have inj: "inj_on (\<lambda>d. the (h d)) (dom h)"
  proof (rule inj_onI)
    fix d e
    assume d: "d \<in> dom h" and e: "e \<in> dom h" and "the (h d) = the (h e)"
    then have "h d = h e" by auto
    then show "d = e" using lent_inj d e by (simp add: inj_on_eq_iff)
  qed
  have "(\<lambda>d. the (h d)) ` dom h = ran h" by (force simp: ran_def)
  then have card: "card (dom h) = card (ran h)" using card_image [OF inj] by simp
  have "length (m_free_pool pool) + card (ran h) = n"
  proof -
    have "size (mset_set (set (m_free_pool pool)) + mset_set (ran h)) = size (mset_set {0..<n})" by (simp only: union)
    then show ?thesis by (simp add: free [symmetric])
  qed
  moreover have "get_connection_pool pool = None \<longleftrightarrow> m_free_pool pool = []"
    by (simp add: get_connection_pool_def split: list.splits)
  moreover have "h d = Some c \<and> h e = Some c \<longrightarrow> d = e" for d e c
    using inj_on_eq_iff [OF lent_inj, of d e] by (auto simp: domI)
  moreover have "mset (m_free_pool pool) + mset_set (ran h) = mset [0..<n]" using free union by (simp add: mset_upt)
  ultimately show ?thesis using card by auto
qed

theorem connections_lent_once_witness:
  "\<exists>pool h. pool_run (prepare_pool 0 2 db_pool_new, Map.empty) (pool, h) \<and> h 7 = Some 0
     \<and> mset (m_free_pool pool) + mset_set (ran h) = mset [0..<2]"
proof -
  let ?w = "(prepare_pool 0 2 db_pool_new, Map.empty)"
  let ?w' = "(\<lparr>m_free_pool = [1]\<rparr>, [7 \<mapsto> 0])"
  have "db_connection_new 7 ?w = Some ?w'"
    by (simp add: db_connection_new_def get_connection_pool_def prepare_pool_def db_pool_new_def upt_rec numeral_eq_Suc)
  then have "pool_run ?w ?w'" by (intro run_step [OF run_none] step_new) simp_all
  with connections_lent_once [OF this] show ?thesis by fastforce
qed

section \<open>Checking a connection\<close>

text \<open>
  What the server does to one attempt: the connection cannot be opened, it is opened but the query
  fails, or it works. \<open>times\<close> is the static counter; the list is what will happen, \<open>None\<close> that the
  recursion is still going on when it is used up.
\<close>

datatype attempt = Activate_Fails | Query_Fails | Works

fun check_connect :: "attempt list \<Rightarrow> nat \<Rightarrow> (bool \<times> nat \<times> attempt list) option" where
  "check_connect [] tries = None"
| "check_connect (Works # rest) tries = Some (True, 0, rest)"
| "check_connect (Activate_Fails # rest) tries =
     (if Suc tries > 10 then Some (False, 0, rest)
      else map_option (\<lambda>(_, t, r). (True, t, r)) (check_connect rest (Suc tries)))"
| "check_connect (Query_Fails # rest) tries =
     map_option (\<lambda>(_, t, r). (True, t, r)) (check_connect rest 0)"

text \<open>the check of a connection says yes whatever happens: only the innermost of its nested calls gives up,
  after eleven attempts to open, and the others ignore that. With a server that lets itself be opened
  but refuses the query it does not return at all.\<close>

theorem check_connect_useless:
  "check_connect (replicate 11 Activate_Fails @ rest) 0 = Some (True, 0, rest)
   \<and> (\<forall>attempts tries r. tries < 10 \<and> check_connect attempts tries = Some r \<longrightarrow> fst r)
   \<and> check_connect (replicate n Query_Fails) tries = None"
proof (intro conjI allI impI)
  show "check_connect (replicate 11 Activate_Fails @ rest) 0 = Some (True, 0, rest)"
    by (simp add: numeral_eq_Suc)
  show "fst r" if "tries < 10 \<and> check_connect attempts tries = Some r" for attempts tries r
    using that by (cases "(attempts, tries)" rule: check_connect.cases) auto
  show "check_connect (replicate n Query_Fails) tries = None"
    by (induction n arbitrary: tries) simp_all
qed

theorem check_connect_useless_witness:
  "\<exists>r. check_connect (replicate 11 Activate_Fails @ []) 0 = Some r \<and> fst r"
  using check_connect_useless [of "[]" 0 0] by auto

section \<open>Values in SQL text\<close>

datatype timestamp = Pos_Infinity | Neg_Infinity | Timestamp int

definition pg_timestamp :: "(int \<Rightarrow> string) \<Rightarrow> timestamp \<Rightarrow> bool \<Rightarrow> string" where
  "pg_timestamp to_iso ts nullable_infinity =
     (case ts of
        Pos_Infinity \<Rightarrow> if nullable_infinity then ''null'' else CHR 0x27 # ''infinity'' @ CHR 0x27 # ''::timestamp''
      | Neg_Infinity \<Rightarrow> if nullable_infinity then ''null'' else CHR 0x27 # ''-infinity'' @ CHR 0x27 # ''::timestamp''
      | Timestamp t \<Rightarrow> CHR 0x27 # to_iso t @ ''+00'' @ [CHR 0x27])"

definition pg_json :: "(string \<Rightarrow> string) \<Rightarrow> json \<Rightarrow> string" where
  "pg_json quote info = (if info = JNull then ''null'' else quote (json_string info) @ ''::jsonb'')"

definition pg_bool :: "bool \<Rightarrow> string" where
  "pg_bool b = (if b then ''true'' else ''false'')"

definition hex_byte :: "nat \<Rightarrow> string" where
  "hex_byte a = [hex_digit (a div 16), hex_digit a]"

definition pg_bytes :: "nat list \<Rightarrow> bool \<Rightarrow> string" where
  "pg_bytes bytes suffix =
     (let result = concat (map hex_byte bytes) in
      if suffix then CHR 0x27 # CHR 0x5C # ''x'' @ result @ CHR 0x27 # ''::bytea'' else CHR 0x5C # ''x'' @ result)"

definition ctoi :: "char \<Rightarrow> nat" where
  "ctoi c =
     (let n = char_code c in
      if 48 \<le> n \<and> n \<le> 57 then n - 48
      else if 97 \<le> n \<and> n \<le> 102 then n - 97 + 10
      else if 65 \<le> n \<and> n \<le> 70 then n - 65 + 10 else 0)"

text \<open>\<open>src.at\<close> throws behind the end: \<open>size - 1\<close> wraps around for an empty text.\<close>

fun from_string_loop :: "string \<Rightarrow> nat list" where
  "from_string_loop (c0 # c1 # s) = (ctoi c0 * 16 + ctoi c1) mod 256 # from_string_loop s"
| "from_string_loop _ = []"

definition pg_from_string :: "string \<Rightarrow> nat list \<Rightarrow> nat list option" where
  "pg_from_string src dst = (if src = [] then None else Some (dst @ from_string_loop (drop 2 src)))"

definition get_connect_param :: "string \<Rightarrow> int \<Rightarrow> string \<Rightarrow> string \<Rightarrow> string \<Rightarrow> string" where
  "get_connect_param host port database login password =
     '' host = '' @ host @ '' port = '' @ show_int port @ '' dbname = '' @ database
     @ '' user = '' @ login @ '' password = '' @ password"

lemma ctoi_digit: "n < 16 \<Longrightarrow> ctoi (hex_digit n) = n"
proof -
  have "list_all (\<lambda>k. ctoi (''0123456789abcdef'' ! k) = k) [0..<16]"
    by (simp add: upt_numeral ctoi_def char_code_def)
  then show "n < 16 \<Longrightarrow> ctoi (hex_digit n) = n" by (simp add: list_all_iff hex_digit_def)
qed

lemma hex_digit_mod: "hex_digit (n mod 16) = hex_digit n"
  by (simp add: hex_digit_def)

lemma from_hex_bytes: "\<forall>b \<in> set bytes. b < 256 \<Longrightarrow> from_string_loop (concat (map hex_byte bytes)) = bytes"
proof (induction bytes)
  case (Cons b bytes)
  have "ctoi (hex_digit (b div 16)) = b div 16" using Cons.prems by (intro ctoi_digit) (simp add: less_mult_imp_div_less)
  moreover have "ctoi (hex_digit b) = b mod 16" using ctoi_digit [of "b mod 16"] by (simp add: hex_digit_mod)
  ultimately show ?case using Cons by (simp add: hex_byte_def)
qed simp

text \<open>bytes written in the text form of the database are read back behind what is there; reading the empty
  text is an exception.\<close>

theorem bytes_read_back:
  assumes "\<forall>b \<in> set bytes. b < 256"
  shows "pg_from_string (pg_bytes bytes False) dst = Some (dst @ bytes) \<and> pg_from_string [] dst = None"
  using from_hex_bytes [OF assms] by (simp add: pg_from_string_def pg_bytes_def Let_def)

theorem bytes_read_back_witness:
  "pg_from_string (pg_bytes [0, 171, 255] False) [1] = Some ([1] @ [0, 171, 255]) \<and> pg_from_string [] [1] = None"
  by (rule bytes_read_back) simp

end
