(* ===== verification/Startup.thy ===== *)
theory Startup
  imports Config Postgres Backend_Theorems
begin

text \<open>
  The start of the backend: \<open>check_params\<close> and \<open>prepare_to_start\<close> of \<open>src/app/server2h.cxx\<close>,
  \<open>prepare_to_start\<close> and \<open>auto_execute\<close> of \<open>src/app/server2hb.cxx\<close>, in the order of the main program
  (\<open>include/app/framework.h\<close>). The command line is what it says of \<open>--cfg\<close> (all of it
  is in \<open>Service\<close>); loggers, signals and the threads are left out here; \<open>mmdb_open\<close> tells whether a GeoIP file opens.
\<close>

section \<open>Settings\<close>

record settings =
  s_listen_port :: nat
  s_doc_root :: string
  s_storage_root :: string
  s_session_driver :: string
  s_connect_param :: string
  s_pool :: db_pool
  s_geoip_city :: string
  s_geoip_asn :: string

definition S2H_DEFAULT_TCP_PORT :: int where
  "S2H_DEFAULT_TCP_PORT = 7709"

text \<open>\<open>set_listen_port\<close> keeps an \<open>int\<close> in an \<open>unsigned short\<close>.\<close>

definition set_listen_port :: "int \<Rightarrow> nat" where
  "set_listen_port port = nat (port mod 2 ^ 16)"

definition set_connect ::
    "string \<Rightarrow> int \<Rightarrow> string \<Rightarrow> string \<Rightarrow> string \<Rightarrow> int \<Rightarrow> string \<times> db_pool" where
  "set_connect host port database login password pool_size =
     (get_connect_param host port database login password, prepare_pool 0 (nat pool_size) db_pool_new)"

text \<open>What \<open>server2_h\<close> takes from the configuration, then what \<open>server2_hb\<close> takes.\<close>

definition base_prepare_to_start :: "json \<Rightarrow> (nat \<times> string \<times> string) option" where
  "base_prepare_to_start configure =
     do { port \<leftarrow> get_value_int ''http:port'' S2H_DEFAULT_TCP_PORT '':'' configure;
          doc_root \<leftarrow> get_value_string ''http:docroot'' ''./'' '':'' configure;
          storage_root \<leftarrow> get_value_string ''http:storageroot'' ''./'' '':'' configure;
          Some (set_listen_port port, doc_root, storage_root) }"

definition prepare_to_start :: "(string \<Rightarrow> bool) \<Rightarrow> json \<Rightarrow> settings option" where
  "prepare_to_start mmdb_open configure =
     do { (listen_port, doc_root, storage_root) \<leftarrow> base_prepare_to_start configure;
          driver \<leftarrow> get_value_string ''http:session'' ''./session.db'' '':'' configure;
          host \<leftarrow> get_value_string ''storage:host'' ''localhost'' '':'' configure;
          db_port \<leftarrow> get_value_int ''storage:port'' 5432 '':'' configure;
          database \<leftarrow> get_value_string ''storage:db'' [] '':'' configure;
          user \<leftarrow> get_value_string ''storage:user'' [] '':'' configure;
          password \<leftarrow> get_value_string ''storage:password'' [] '':'' configure;
          pool_size \<leftarrow> get_value_int ''storage:pool'' 7 '':'' configure;
          let (param, pool) = set_connect host db_port database user password pool_size;
          city \<leftarrow> get_value_string ''geoip:city'' [] '':'' configure;
          asn \<leftarrow> get_value_string ''geoip:asn'' [] '':'' configure;
          Some \<lparr>s_listen_port = listen_port, s_doc_root = doc_root, s_storage_root = storage_root,
                s_session_driver = driver, s_connect_param = param, s_pool = pool,
                s_geoip_city = (if mmdb_open city then city else []),
                s_geoip_asn = (if mmdb_open asn then asn else [])\<rparr> }"

section \<open>The main program\<close>

text \<open>\<open>m_configure_["autoexec"]["Create"]["User"]\<close>; what the accesses add to the configuration is not read again.\<close>

definition auto_execute ::
    "(string \<Rightarrow> string) \<Rightarrow> (int \<times> string) list \<Rightarrow> json \<Rightarrow> storage \<Rightarrow> storage option" where
  "auto_execute md5_hex fresh configure db =
     do { (autoexec, _) \<leftarrow> json_ref ''autoexec'' configure;
          (create, _) \<leftarrow> json_ref ''Create'' autoexec;
          (user, _) \<leftarrow> json_ref ''User'' create;
          if user = JNull then Some db else create_users md5_hex fresh (json_items user) db }"

definition config_file_name :: "string option \<Rightarrow> string" where
  "config_file_name cfg = (case cfg of Some name \<Rightarrow> name | None \<Rightarrow> ''configure.'' @ ''s2h'' @ ''.json'')"

text \<open>\<open>check_params\<close>: false ends the program with the exit status it was called with, \<open>EXIT_SUCCESS\<close>.\<close>

definition check_params :: "(string \<Rightarrow> double option) \<Rightarrow> string option \<Rightarrow> posix \<Rightarrow> (bool \<times> json \<times> posix) option" where
  "check_params sc cfg os = config_load sc (config_file_name cfg) JNull os"

datatype started = Exit_Success | Running settings json storage

definition server_main ::
    "(string \<Rightarrow> double option) \<Rightarrow> (string \<Rightarrow> bool) \<Rightarrow> (string \<Rightarrow> string) \<Rightarrow> (int \<times> string) list \<Rightarrow>
     string option \<Rightarrow> posix \<Rightarrow> storage \<Rightarrow> started option" where
  "server_main sc mmdb_open md5_hex fresh cfg os db =
     do { (ok, configure, _) \<leftarrow> check_params sc cfg os;
          if \<not> ok then Some Exit_Success
          else do { s \<leftarrow> prepare_to_start mmdb_open configure;
                    db1 \<leftarrow> auto_execute md5_hex fresh configure db;
                    Some (Running s configure db1) } }"

section \<open>Users of the configuration\<close>

text \<open>A user as the configuration names it.\<close>

record user_entry =
  e_login :: string
  e_password :: string
  e_nickname :: string
  e_codes :: "string list"

definition entry_json :: "user_entry \<Rightarrow> json" where
  "entry_json e = JObject [(''Login'', JString (e_login e)), (''Nickname'', JString (e_nickname e)),
     (''Password'', JString (e_password e)), (''Role'', JArray (map JString (e_codes e)))]"

lemma json_ref_at: "json_at k v = Some x \<Longrightarrow> x \<noteq> JNull \<Longrightarrow> json_ref k v = Some (x, v)"
  by (cases v) (auto simp: json_ref_def isMember_def json_at_def split: option.splits)

lemma entry_members:
  "json_ref ''Login'' (entry_json e) = Some (JString (e_login e), entry_json e)"
  "json_ref ''Password'' (entry_json e) = Some (JString (e_password e), entry_json e)"
  "json_ref ''Nickname'' (entry_json e) = Some (JString (e_nickname e), entry_json e)"
  "json_ref ''Role'' (entry_json e) = Some (JArray (map JString (e_codes e)), entry_json e)"
  by (rule json_ref_at; simp add: entry_json_def json_at_def)+

definition role_rows :: "int \<Rightarrow> string list \<Rightarrow> storage \<Rightarrow> (int \<times> int) list" where
  "role_rows uid codes db = concat (map (\<lambda>code. map (\<lambda>r. (uid, fst r)) (filter (\<lambda>r. snd r = code) (khl_roles db))) codes)"

lemma insert_role_codes_rows:
  "insert_role_codes uid (map JString codes) db = Some (db\<lparr>khl_user_roles := khl_user_roles db @ role_rows uid codes db\<rparr>)"
  by (induction codes arbitrary: db) (simp_all add: role_rows_def)

definition entry_row :: "(string \<Rightarrow> string) \<Rightarrow> int \<Rightarrow> string \<Rightarrow> user_entry \<Rightarrow> user_row" where
  "entry_row md5_hex uid salt e = \<lparr>u_id = uid, u_login = e_login e, u_nickname = e_nickname e,
     u_password = md5_hex (e_login e @ e_password e @ salt), u_salt = salt\<rparr>"

definition add_user :: "(string \<Rightarrow> string) \<Rightarrow> int \<Rightarrow> string \<Rightarrow> user_entry \<Rightarrow> storage \<Rightarrow> storage" where
  "add_user md5_hex uid salt e db = db\<lparr>khl_users := khl_users db @ [entry_row md5_hex uid salt e],
     khl_user_roles := khl_user_roles db @ role_rows uid (e_codes e) db\<rparr>"

lemma create_entry: "CreateUser md5_hex uid salt (entry_json e) db = Some (add_user md5_hex uid salt e db)"
  by (simp add: CreateUser_def entry_members add_user_def entry_row_def RecalcPasswordHash_def insert_role_codes_rows
      role_rows_def)

lemma create_users_entry:
  "create_users md5_hex fresh (entry_json e # users) db =
     (if IsUserExist (e_login e) db then create_users md5_hex fresh users db
      else case fresh of [] \<Rightarrow> None
        | (uid, salt) # fresh1 \<Rightarrow> create_users md5_hex fresh1 users (add_user md5_hex uid salt e db))"
  by (simp add: entry_members create_entry split: list.splits)

declare create_users.simps(2) [simp del]

end
