(* ===== verification/Startup_Theorems.thy ===== *)
theory Startup_Theorems
  imports Startup
begin

text \<open>
  What the start promises of the users named by the configuration: they are created from the file once, and
  they log in with the password the file gives. The helpers follow one user through the creation of
  the others.
\<close>

section \<open>One user among the others\<close>

lemma user_exists: "IsUserExist l db \<longleftrightarrow> l \<in> u_login ` set (khl_users db)"
  by (auto simp: IsUserExist_def filter_empty_conv)

lemma add_user_roles [simp]: "khl_roles (add_user md5_hex uid salt e db) = khl_roles db"
  by (simp add: add_user_def)

lemma add_user_exists: "IsUserExist l (add_user md5_hex uid salt e db) \<longleftrightarrow> IsUserExist l db \<or> l = e_login e"
  by (auto simp: user_exists add_user_def entry_row_def)

lemma first_row_append: "first_row (xs @ ys) = (if xs = [] then first_row ys else first_row xs)"
  by (cases xs) (simp_all add: first_row_def)

lemma first_row_simps [simp]: "first_row [] = None" "first_row (x # xs) = Some x"
  by (simp_all add: first_row_def)

lemma add_user_info:
  "get_user_info l (add_user md5_hex uid salt e db) =
     (if IsUserExist l db then get_user_info l db
      else if l = e_login e then Some (uid, e_nickname e, md5_hex (e_login e @ e_password e @ salt), salt) else None)"
  by (simp add: get_user_info_def add_user_def entry_row_def first_row_append IsUserExist_def)

lemma set_user_roles:
  "set (user_roles uid db) = {code. \<exists>role. (uid, role) \<in> set (khl_user_roles db) \<and> (role, code) \<in> set (khl_roles db)}"
  by (force simp: user_roles_def)

lemma set_role_rows:
  "set (role_rows uid codes db) = {(u, role). u = uid \<and> (\<exists>code \<in> set codes. (role, code) \<in> set (khl_roles db))}"
  by (force simp: role_rows_def)

lemma create_users_keep:
  "create_users md5_hex fresh (map entry_json es) db = Some db1 \<Longrightarrow>
     khl_roles db1 = khl_roles db
     \<and> (IsUserExist l db \<longrightarrow> get_user_info l db1 = get_user_info l db)
     \<and> (uid \<notin> fst ` set fresh \<longrightarrow> set (user_roles uid db1) = set (user_roles uid db))"
proof (induction es arbitrary: fresh db)
  case (Cons e es)
  show ?case
  proof (cases "IsUserExist (e_login e) db")
    case True
    then show ?thesis using Cons by (simp add: create_users_entry)
  next
    case False
    then obtain u salt fresh1 where f: "fresh = (u, salt) # fresh1"
      "create_users md5_hex fresh1 (map entry_json es) (add_user md5_hex u salt e db) = Some db1"
      using Cons.prems by (auto simp: create_users_entry split: list.splits)
    have "set (user_roles uid (add_user md5_hex u salt e db)) = set (user_roles uid db)" if "uid \<noteq> u"
      using that by (auto simp: set_user_roles add_user_def set_role_rows)
    then show ?thesis
      using Cons.IH [OF f(2)] f(1) by (auto simp: add_user_exists add_user_info)
  qed
qed simp

lemma create_users_run:
  "length es \<le> length fresh \<Longrightarrow> \<exists>db1. create_users md5_hex fresh (map entry_json es) db = Some db1"
proof (induction es arbitrary: fresh db)
  case (Cons e es)
  then show ?case by (cases fresh) (auto simp: create_users_entry)
qed simp

lemma configured_roles:
  assumes "distinct (map fst (khl_roles db))" and "uid \<notin> fst ` set (khl_user_roles db)"
  shows "set (user_roles uid (add_user md5_hex uid salt e db)) = set (e_codes e) \<inter> snd ` set (khl_roles db)"
proof -
  have same: "c = code" if "(role, c) \<in> set (khl_roles db)" "(role, code) \<in> set (khl_roles db)" for role c code
    using that assms(1) by (metis eq_key_imp_eq_value)
  have "(uid, role) \<notin> set (khl_user_roles db)" for role using assms(2) by force
  then show ?thesis
    by (force simp: set_user_roles add_user_def set_role_rows dest: same)
qed

lemma entry_created:
  assumes "e \<in> set es" and "distinct (map e_login es)" and "\<not> IsUserExist (e_login e) db"
    and "length es \<le> length fresh" and "distinct (map fst fresh)"
    and "fst ` set fresh \<inter> fst ` set (khl_user_roles db) = {}" and "distinct (map fst (khl_roles db))"
  shows "\<exists>db1 uid salt. create_users md5_hex fresh (map entry_json es) db = Some db1
     \<and> get_user_info (e_login e) db1 = Some (uid, e_nickname e, md5_hex (e_login e @ e_password e @ salt), salt)
     \<and> set (user_roles uid db1) = set (e_codes e) \<inter> snd ` set (khl_roles db)"
  using assms
proof (induction es arbitrary: fresh db)
  case (Cons x es)
  show ?case
  proof (cases "IsUserExist (e_login x) db")
    case True
    then have "e \<in> set es" using Cons.prems by auto
    then show ?thesis using True Cons.IH [of db fresh] Cons.prems by (simp add: create_users_entry)
  next
    case False
    obtain uid salt fresh1 where f: "fresh = (uid, salt) # fresh1" using Cons.prems(4) by (cases fresh) auto
    let ?db = "add_user md5_hex uid salt x db"
    have step: "create_users md5_hex fresh (map entry_json (x # es)) db = create_users md5_hex fresh1 (map entry_json es) ?db"
      using False f by (simp add: create_users_entry)
    show ?thesis
    proof (cases "e = x")
      case True
      obtain db1 where db1: "create_users md5_hex fresh1 (map entry_json es) ?db = Some db1"
        using create_users_run [of es fresh1] Cons.prems(4) f by auto
      have "uid \<notin> fst ` set fresh1" using Cons.prems(5) f by auto
      with create_users_keep [OF db1, of "e_login x" uid]
      have "get_user_info (e_login x) db1 = get_user_info (e_login x) ?db" "set (user_roles uid db1) = set (user_roles uid ?db)"
        by (simp_all add: add_user_exists)
      moreover have "uid \<notin> fst ` set (khl_user_roles db)" using Cons.prems(6) f by auto
      ultimately show ?thesis
        using step db1 True False configured_roles [OF Cons.prems(7), of uid md5_hex salt x]
        by (simp add: add_user_info)
    next
      case False
      have e: "e \<in> set es" using False Cons.prems(1) by simp
      moreover have "\<not> IsUserExist (e_login e) ?db"
        using Cons.prems(2,3) imageI [OF e, of e_login] by (auto simp: add_user_exists)
      moreover have "fst ` set fresh1 \<inter> fst ` set (khl_user_roles ?db) = {}"
        using Cons.prems(5,6) f by (force simp: add_user_def set_role_rows)
      ultimately show ?thesis using Cons.IH [of ?db fresh1] Cons.prems f step by simp
    qed
  qed
qed simp

section \<open>From the file to the log in\<close>

lemma json_path_refs:
  assumes "json_path [k1, k2, k3] v = Some x" and "x \<noteq> JNull"
  obtains a b where "json_ref k1 v = Some (a, v)" "json_ref k2 a = Some (b, a)" "json_ref k3 b = Some (x, b)"
  using assms by (auto split: bind_splits if_splits intro!: that json_ref_at)

lemma main_runs:
  assumes "p_files os (config_file_name cfg) = Some (json_string configure)" and "p_may_open os (config_file_name cfg) True"
    and "length (json_string configure) \<le> p_map_limit os" and "0 < p_page os"
    and "readable 1 configure" and "utf8_json configure"
    and "prepare_to_start mmdb_open configure = Some s"
    and "json_path [''autoexec'', ''Create'', ''User''] configure = Some (JArray users)"
    and "create_users md5_hex fresh users db = Some db1"
  shows "server_main sc mmdb_open md5_hex fresh cfg os db = Some (Running s configure db1)"
proof -
  obtain os1 where load: "config_load sc (config_file_name cfg) JNull os = Some (True, configure, os1)"
    using config_load_eq [OF assms(1,2,5) json_string_not_Nil [OF assms(5)] assms(3,4), of sc JNull]
      clean_json_utf8(1) [OF assms(6)] by auto
  have "auto_execute md5_hex fresh configure db = Some db1"
    using assms(9) by (rule_tac json_path_refs [OF assms(8)]) (simp_all add: auto_execute_def)
  then show ?thesis using load assms(7) by (simp add: server_main_def check_params_def)
qed

text \<open>A request that logs in with a login and a password on the session \<open>p\<close>.\<close>

definition login_request ::
    "'c backend_env \<Rightarrow> request_env \<Rightarrow> http_processor \<Rightarrow> connection \<Rightarrow> 'c backend \<Rightarrow> string \<Rightarrow> string \<Rightarrow> nat \<Rightarrow> bool" where
  "login_request env re proc c st login password p \<longleftrightarrow>
     (\<exists>h1 r1 st1 uri params body auth version ka verb.
        processing_session env re proc st = Some (p, (h1, r1), st1)
      \<and> get_query_uri (fst proc) = Some uri \<and> take 5 uri = ''/api/''
      \<and> parse_action (drop 5 uri) = (''auth'', params) \<and> fst (parse_action params) = ''login''
      \<and> body_text (fst proc) = Some body \<and> parse_json (sscanf_double (be_token_env env)) body = Some (True, auth)
      \<and> login_credentials auth = Some (login, password) \<and> has_bev c \<and> answerable h1 version ka verb)"

lemma login_request_runs:
  assumes req: "login_request env re (h, r) c st login password p"
    and user: "get_user_info login (be_storage st) = Some (uid, nickname, be_md5_hex env (login @ password @ salt), salt)"
    and roles: "set (user_roles uid (be_storage st)) = R"
  shows "\<exists>proc' c' st' s'. backend_process_http env sv re (h, r) c st = Some (True, proc', c', st')
     \<and> deref p (sc_objects (be_sessions st')) = Some s' \<and> m_bAuthenticate s' \<and> m_sNickname s' = nickname
     \<and> (\<forall>role. IsRoleExist role s' \<longleftrightarrow> role \<in> R)"
proof -
  obtain h1 r1 st1 uri params body auth version ka verb where
    "processing_session env re (h, r) st = Some (p, (h1, r1), st1)"
    "get_query_uri h = Some uri" "take 5 uri = ''/api/''" "parse_action (drop 5 uri) = (''auth'', params)"
    "fst (parse_action params) = ''login''" "body_text h = Some body"
    "parse_json (sscanf_double (be_token_env env)) body = Some (True, auth)"
    "login_credentials auth = Some (login, password)" "has_bev c" "answerable h1 version ka verb"
    using req by (auto simp: login_request_def)
  from login_runs [OF this(1-8) user this(9,10), of sv] show ?thesis using roles by auto
qed


definition anna_entry :: user_entry where
  "anna_entry = \<lparr>e_login = ''anna'', e_password = ''pw'', e_nickname = ''Anna'', e_codes = [''admin'', ''ghost'']\<rparr>"

definition start_config :: json where
  "start_config = JObject [(''autoexec'', JObject [(''Create'', JObject [(''User'', JArray (map entry_json [anna_entry]))])])]"

definition start_os :: posix where
  "start_os = sample_os\<lparr>p_files := [''f'' \<mapsto> json_string start_config], p_map_limit := length (json_string start_config)\<rparr>"

definition roles_db :: storage where
  "roles_db = \<lparr>khl_users = [], khl_roles = [(7, ''admin'')], khl_user_roles = []\<rparr>"

lemma start_config_text: "readable 1 start_config" "utf8_json start_config"
  by (simp_all add: start_config_def anna_entry_def entry_json_def stackLimit_def clean_ascii utf8_ascii char_code_def
      sorted_map_def less_char_def)

lemma find_item_missing:
  "str_find sep key = Some pos \<Longrightarrow> json_at (take pos key) v = Some JNull \<Longrightarrow> find_item key sep v = Some JNull"
  by (subst find_item.simps) simp

lemma start_settings: "\<exists>s. prepare_to_start (\<lambda>_. False) start_config = Some s \<and> s_listen_port s = 7709"
proof -
  have http: "find_item (''http:'' @ key) '':'' start_config = Some JNull"
    and storage: "find_item (''storage:'' @ key) '':'' start_config = Some JNull"
    and geoip: "find_item (''geoip:'' @ key) '':'' start_config = Some JNull" for key
    by (rule find_item_missing [where pos = 4] find_item_missing [where pos = 7] find_item_missing [where pos = 5];
        simp add: start_config_def json_at_def)+
  from http [of "''port''"] http [of "''docroot''"] http [of "''storageroot''"] http [of "''session''"]
    storage [of "''host''"] storage [of "''port''"] storage [of "''db''"] storage [of "''user''"] storage [of "''password''"]
    storage [of "''pool''"] geoip [of "''city''"] geoip [of "''asn''"]
  show ?thesis
    by (simp add: prepare_to_start_def base_prepare_to_start_def S2H_DEFAULT_TCP_PORT_def get_value_int_def
        get_value_string_def get_value_of_def set_connect_def
        set_listen_port_def Let_def)
qed

lemma anna_request:
  "login_request login_env login_call (sample_post ''/api/auth/login'' anna_text, response_new) sample_connection
     (empty_backend\<lparr>be_storage := db\<rparr>) ''anna'' ''pw'' 0"
proof -
  have "\<exists>r1 st1. processing_session login_env login_call (sample_post ''/api/auth/login'' anna_text, response_new)
      (empty_backend\<lparr>be_storage := db\<rparr>) = Some (0, (sample_post ''/api/auth/login'' anna_text, r1), st1)"
    by (simp add: processing_session_def sample_post_lookups http_client_ip_def empty_backend_def session_controller_new_def
        get_session_def new_session_eq on_session_def login_call_def deref_def modify_def)
  then show ?thesis
    using sample_post_names [OF login_uri(1), of anna_text] login_uri(2-4) anna_login_read(1-3) sample_bev
    unfolding login_request_def by fastforce
qed


end
