(* ===== verification/Mysql.thy ===== *)
theory Mysql
  imports Autobuffer
begin

text \<open>
  \<open>src/db/mysql.cpp\<close>, \<open>include/db/mysql.h\<close>: repeating a statement when the server is lost, and the text of a
  query in its buffer. The MySQL client library is external: what it answers to the statement each time is
  a parameter, and so is whether it connects again. The calls made are kept in their order.
\<close>

section \<open>Running a statement\<close>

text \<open>\<open>Gone\<close>: the error is \<open>CR_SERVER_GONE_ERROR\<close> or \<open>CR_SERVER_LOST\<close>; \<open>Failed\<close> any other.\<close>

datatype mysql_answer = Answered | Gone | Failed

datatype mysql_call = Run string | Set_Charset | Close_Handle | Real_Connect

definition mysql_close :: "bool \<Rightarrow> mysql_call list" where
  "mysql_close handle = (if handle then [Close_Handle] else [])"

text \<open>\<open>Reconnect\<close>: the result and the calls.\<close>

definition mysql_reconnect :: "bool \<Rightarrow> bool \<Rightarrow> bool \<times> mysql_call list" where
  "mysql_reconnect handle up = (up, mysql_close handle @ [Real_Connect] @ (if up then [Set_Charset] else []))"

text \<open>
  The loop of \<open>ExecuteSQL\<close> and of \<open>Query::Execute\<close> (\<open>goto m1\<close>): the \<open>i\<close>-th try of the statement, the counter
  \<open>iTry\<close> (an \<open>int\<close>: going below its least value is undefined) and \<open>bReconnectEnable\<close>.
\<close>

function execute_loop ::
    "(nat \<Rightarrow> mysql_answer) \<Rightarrow> bool \<Rightarrow> string \<Rightarrow> nat \<Rightarrow> int \<Rightarrow> bool \<Rightarrow> (bool \<times> mysql_call list) option" where
  "execute_loop answers up sql i i_try reconnect_enable =
     (if answers i = Answered then Some (True, [Run sql])
      else if i_try \<le> - (2 ^ 31) then None
      else
        let i_try1 = i_try - 1 in
        if i_try1 \<noteq> 0 \<and> answers i = Gone
        then map_option (\<lambda>(r, calls). (r, [Run sql, Set_Charset] @ calls))
               (execute_loop answers up sql (Suc i) i_try1 reconnect_enable)
        else if reconnect_enable then
          (case mysql_reconnect True up of
             (True, again) \<Rightarrow>
               map_option (\<lambda>(r, calls). (r, Run sql # again @ calls))
                 (execute_loop answers up sql (Suc i) i_try1 False)
           | (False, again) \<Rightarrow> Some (False, Run sql # again))
        else Some (False, [Run sql]))"
  by pat_completeness auto
termination
  by (relation "measure (\<lambda>(answers, up, sql, i, i_try, enable). nat (i_try + 2 ^ 31))") auto

declare execute_loop.simps [simp del]

definition execute_sql :: "(nat \<Rightarrow> mysql_answer) \<Rightarrow> bool \<Rightarrow> string \<Rightarrow> (bool \<times> mysql_call list) option" where
  "execute_sql answers up sql = execute_loop answers up sql 0 3 True"

definition mysql_begin :: "(nat \<Rightarrow> mysql_answer) \<Rightarrow> bool \<Rightarrow> (bool \<times> mysql_call list) option" where
  "mysql_begin answers up = execute_sql answers up ''BEGIN''"

definition mysql_commit :: "(nat \<Rightarrow> mysql_answer) \<Rightarrow> bool \<Rightarrow> (bool \<times> mysql_call list) option" where
  "mysql_commit answers up = execute_sql answers up ''COMMIT''"

definition mysql_rollback :: "(nat \<Rightarrow> mysql_answer) \<Rightarrow> bool \<Rightarrow> (bool \<times> mysql_call list) option" where
  "mysql_rollback answers up = execute_sql answers up ''ROLLBACK''"

section \<open>The text of a query\<close>

definition append_query :: "string \<Rightarrow> char auto_buffer \<Rightarrow> char auto_buffer option" where
  "append_query query b = buffer_append True query b"

definition expand_value :: "string \<Rightarrow> string \<Rightarrow> char auto_buffer \<Rightarrow> char auto_buffer option" where
  "expand_value tag v b = map_option snd (buffer_replace True (c_str tag) v True b)"

definition quoted :: "string \<Rightarrow> string" where
  "quoted v = CHR 0x27 # v @ [CHR 0x27]"

definition bind_value :: "string \<Rightarrow> string \<Rightarrow> char auto_buffer \<Rightarrow> char auto_buffer option" where
  "bind_value tag v b = map_option snd (buffer_replace True (c_str tag) (quoted v) True b)"

definition bind_value_bool :: "string \<Rightarrow> bool \<Rightarrow> char auto_buffer \<Rightarrow> char auto_buffer option" where
  "bind_value_bool tag v b = map_option snd (buffer_replace True (c_str tag) (if v then ''1'' else ''0'') True b)"

text \<open>
  \<open>Execute\<close>: the terminator is written behind the text, then the statement is run; \<open>connected\<close> is
  \<open>m_Connection != NULL\<close>. The result is what is thrown (\<open>False\<close>) or not, the calls and the buffer.
\<close>

definition query_execute ::
    "(nat \<Rightarrow> mysql_answer) \<Rightarrow> bool \<Rightarrow> bool \<Rightarrow> char auto_buffer \<Rightarrow> (bool \<times> mysql_call list \<times> char auto_buffer) option" where
  "query_execute answers up connected b =
     Option.bind (set_element (get_fill_size b) NUL b) (\<lambda>b1.
       Option.bind (those (take (get_fill_size b1) (m_buffer b1))) (\<lambda>sql.
         map_option (\<lambda>(r, calls). (r, calls, b1)) (execute_loop answers up sql 0 3 connected)))"

section \<open>What is repeated\<close>

lemma execute_answered: "answers i = Answered \<Longrightarrow> execute_loop answers up sql i n e = Some (True, [Run sql])"
  by (subst execute_loop.simps) simp

lemma execute_gone:
  "answers i = Gone \<Longrightarrow> n \<noteq> 1 \<Longrightarrow> - (2 ^ 31) < n \<Longrightarrow> execute_loop answers up sql i n e
     = map_option (\<lambda>(r, calls). (r, [Run sql, Set_Charset] @ calls)) (execute_loop answers up sql (Suc i) (n - 1) e)"
  by (subst execute_loop.simps) simp

lemma execute_last: "answers i \<noteq> Answered \<Longrightarrow> n \<le> - (2 ^ 31) \<Longrightarrow> execute_loop answers up sql i n e = None"
  by (subst execute_loop.simps) simp

text \<open>Once the counter is at 0 nothing ends the repetitions but an answer.\<close>

lemma execute_endless:
  assumes "\<forall>j. i \<le> j \<and> j < i + k \<longrightarrow> answers j = Gone" and "answers (i + k) = Answered" and "n \<le> 0"
  shows "map_option fst (execute_loop answers up sql i n e)
     = (if int k \<le> n + 2 ^ 31 then Some True else if k = 0 then Some True else None)"
  using assms
proof (induction k arbitrary: i n)
  case 0
  then show ?case by (simp add: execute_answered)
next
  case (Suc k)
  have gone: "answers i = Gone" using Suc.prems(1) by simp
  show ?case
  proof (cases "n \<le> - (2 ^ 31)")
    case True
    then show ?thesis using gone by (simp add: execute_last)
  next
    case False
    have "\<forall>j. Suc i \<le> j \<and> j < Suc i + k \<longrightarrow> answers j = Gone" using Suc.prems(1) by simp
    then have ih: "map_option fst (execute_loop answers up sql (Suc i) (n - 1) e)
        = (if int k \<le> n - 1 + 2 ^ 31 then Some True else if k = 0 then Some True else None)"
      using Suc.IH [of "Suc i" "n - 1"] Suc.prems by simp
    have "map_option fst (execute_loop answers up sql i n e)
        = map_option fst (execute_loop answers up sql (Suc i) (n - 1) e)"
      using gone False Suc.prems(3) execute_gone [of answers i n up sql e]
      by (simp add: option.map_comp comp_def case_prod_beta)
    then show ?thesis using ih False by auto
  qed
qed

lemma execute_gone_result:
  "answers i = Gone \<Longrightarrow> n \<noteq> 1 \<Longrightarrow> - (2 ^ 31) < n \<Longrightarrow>
   map_option fst (execute_loop answers up sql i n e) = map_option fst (execute_loop answers up sql (Suc i) (n - 1) e)"
  by (simp add: execute_gone option.map_comp comp_def case_prod_beta)

lemma execute_third:
  "answers i = Gone \<Longrightarrow> map_option fst (execute_loop answers up sql i 1 True)
     = (if up then map_option fst (execute_loop answers up sql (Suc i) 0 False) else Some False)"
  by (subst execute_loop.simps) (simp add: mysql_reconnect_def option.map_comp comp_def case_prod_beta)

text \<open>C34: a statement the server loses \<open>k\<close> times before it answers succeeds within the three tries, and after them
  when the server can be reached again; but the counter that was to stop the tries is then below 0
  and stops nothing: after \<open>2 ^ 31 + 3\<close> losses it overflows.\<close>

theorem lost_statement_repeated:
  assumes "\<forall>j < k. answers j = Gone" and "answers k = Answered"
  shows "map_option fst (execute_sql answers up sql)
     = (if k < 3 then Some True else if \<not> up then Some False
        else if int k \<le> 2 ^ 31 + 3 then Some True else None)"
proof (cases "k < 3")
  case True
  then consider "k = 0" | "k = 1" | "k = 2" by linarith
  then show ?thesis
    using assms execute_gone_result [of answers 0 3 up sql True] execute_gone_result [of answers 1 2 up sql True]
    by cases (simp_all add: execute_sql_def execute_answered numeral_2_eq_2 [symmetric])
next
  case False
  then have gone: "answers 0 = Gone" "answers 1 = Gone" "answers 2 = Gone" using assms(1) by auto
  obtain m where m: "k = 3 + m" using False by (metis le_add_diff_inverse not_less)
  have first: "map_option fst (execute_sql answers up sql)
      = (if up then map_option fst (execute_loop answers up sql 3 0 False) else Some False)"
    using gone execute_gone_result [of answers 0 3 up sql True] execute_gone_result [of answers 1 2 up sql True]
      execute_third [of answers 2 up sql]
    by (simp add: execute_sql_def numeral_2_eq_2 numeral_3_eq_3)
  have "map_option fst (execute_loop answers up sql 3 0 False)
      = (if int m \<le> 0 + 2 ^ 31 then Some True else if m = 0 then Some True else None)"
    using assms m by (intro execute_endless) auto
  then show ?thesis using first False m by auto
qed

theorem lost_statement_repeated_witness:
  "map_option fst (execute_sql (\<lambda>i. if i < 7 then Gone else Answered) True ''BEGIN'') = Some True"
  by (subst lost_statement_repeated [where k = 7]) simp_all

section \<open>What a query says\<close>

lemma bind_value_holds:
  assumes "holds b xs" and "tag \<noteq> []" and "NUL \<notin> set tag"
  shows "\<exists>b'. bind_value tag v b = Some b' \<and> holds b' (subst_first tag (quoted v) xs)"
proof -
  have "c_str tag = tag" using assms(3) by (auto simp: c_str_def takeWhile_eq_all_conv)
  then show ?thesis using buffer_replace_first_spec [OF assms(1,2), of "quoted v"] by (auto simp: bind_value_def)
qed

primrec bind_all :: "(string \<times> string) list \<Rightarrow> char auto_buffer \<Rightarrow> char auto_buffer option" where
  "bind_all [] b = Some b"
| "bind_all (e # es) b = Option.bind (bind_value (fst e) (snd e) b) (bind_all es)"

text \<open>a query built from a text and values bound to its tags says the text in which each tag, in the order of
  the bindings, was replaced where it stands first by the value between apostrophes, as it is.\<close>

theorem bound_query_text:
  assumes "\<forall>(tag, v) \<in> set binds. tag \<noteq> [] \<and> NUL \<notin> set tag"
  shows "\<exists>b. Option.bind (append_query sql auto_buffer_new) (bind_all binds) = Some b
     \<and> holds b (fold (\<lambda>(tag, v). subst_first tag (quoted v)) binds sql)"
proof -
  have step: "\<exists>b'. bind_all es b = Some b' \<and> holds b' (fold (\<lambda>(tag, v). subst_first tag (quoted v)) es xs)"
    if "holds b xs" and "\<forall>(tag, v) \<in> set es. tag \<noteq> [] \<and> NUL \<notin> set tag" for es b xs
    using that
  proof (induction es arbitrary: b xs)
    case (Cons e es)
    obtain tag v where e: "e = (tag, v)" by fastforce
    with Cons.prems bind_value_holds [of b xs tag v] obtain b1 where
      "bind_value tag v b = Some b1" "holds b1 (subst_first tag (quoted v) xs)" by auto
    with Cons.IH [of b1 "subst_first tag (quoted v) xs"] Cons.prems e show ?case by auto
  qed simp
  obtain b where "append_query sql auto_buffer_new = Some b" "holds b sql"
    using holds_append [OF holds_new, of sql] by (auto simp: append_query_def)
  with step [OF this(2) assms] show ?thesis by auto
qed

theorem bound_query_text_witness:
  "\<exists>b. Option.bind (append_query ''x = :x'' auto_buffer_new) (bind_all [('':x'', ''1'')]) = Some b
     \<and> holds b (''x = '' @ quoted ''1'')"
  using bound_query_text [of "[('':x'', ''1'')]" "''x = :x''"] by (simp add: NUL_def is_prefix_def)

text \<open>\<open>Execute\<close> writes its terminator behind the allocation exactly when the text fills it, as a query of 1024
  characters appended in two pieces does, and an empty query with no allocation at all.\<close>

theorem execute_terminator:
  assumes "holds b sql"
  shows "\<exists>b1. holds b1 sql \<and> query_execute answers up connected b =
     (if get_free_size b = 0 then None
      else map_option (\<lambda>(r, calls). (r, calls, b1)) (execute_loop answers up sql 0 3 connected))"
proof -
  obtain rest where rest: "m_buffer b = map Some sql @ rest" "m_full_size b = length sql + length rest"
      "m_ready_position b = length sql"
    using assms by (auto simp: holds_def)
  show ?thesis
  proof (cases rest)
    case Nil
    then show ?thesis
      using assms rest by (auto simp: query_execute_def set_element_def get_fill_size_def get_free_size_def)
  next
    case (Cons c more)
    define b1 where "b1 = b\<lparr>m_buffer := map Some sql @ Some NUL # more\<rparr>"
    have "set_element (get_fill_size b) NUL b = Some b1"
      using rest Cons by (simp add: set_element_def get_fill_size_def b1_def list_update_append)
    moreover have "holds b1 sql" using rest Cons by (simp add: holds_def b1_def)
    moreover have "those (take (get_fill_size b1) (m_buffer b1)) = Some sql"
      using rest(3) by (simp add: b1_def get_fill_size_def those_map_Some)
    ultimately show ?thesis using rest Cons by (auto simp: query_execute_def get_free_size_def)
  qed
qed

theorem execute_terminator_witness:
  "\<exists>b1 b. append_query (replicate 1000 (CHR ''x'')) auto_buffer_new = Some b1
     \<and> append_query (replicate 24 (CHR ''x'')) b1 = Some b \<and> query_execute (\<lambda>_. Answered) True True b = None"
proof -
  let ?x = "CHR ''x''"
  obtain b1 where b1: "append_query (replicate 1000 ?x) auto_buffer_new = Some b1" "holds b1 (replicate 1000 ?x)"
    using holds_append [OF holds_new, of "replicate 1000 ?x"] by (auto simp: append_query_def)
  obtain b where b: "append_query (replicate 24 ?x) b1 = Some b" "holds b (replicate 1000 ?x @ replicate 24 ?x)"
    using holds_append [OF b1(2), of "replicate 24 ?x"] by (auto simp: append_query_def)
  have "m_full_size b1 = 1024"
    using b1(1) by (auto simp: append_query_def buffer_append_def append_cells_def check_size_def get_free_size_def
        get_fill_size_def auto_buffer_new_def default_granulate_def Let_def split: bind_splits)
  then have "m_full_size b = 1024"
    using b(1) holds_fill [OF b1(2)]
    by (auto simp: append_query_def buffer_append_def append_cells_def get_free_size_def Let_def split: bind_splits)
  then have "get_free_size b = 0" using holds_fill [OF b(2)] by (simp add: get_free_size_def)
  with execute_terminator [OF b(2), of "\<lambda>_. Answered" True True] b1(1) b(1) show ?thesis by auto
qed

end
