(* ===== verification/I18n.thy ===== *)
theory I18n
  imports Std_Map
begin

text \<open>
  \<open>include/util/i18n.h\<close> and its use in \<open>src/db/postgres.cpp\<close>: a library of dictionaries, one per language,
  that caches what a database holds for a tag. Dictionaries are shared objects. The three tables of
  the query are lists of rows.
\<close>

section \<open>Dictionaries\<close>

record lang_dictionary =
  m_map :: "(string, string) std_map"
  m_lang :: string

record internalization =
  m_library :: "(string, nat) std_map"
  in_objects :: "lang_dictionary arena"

definition internalization_new :: internalization where
  "internalization_new = \<lparr>m_library = [], in_objects = []\<rparr>"

definition append_dictionary :: "string \<Rightarrow> internalization \<Rightarrow> nat \<times> internalization" where
  "append_dictionary lang st =
     (let (p, objects) = new_object \<lparr>m_map = [], m_lang = lang\<rparr> (in_objects st)
      in (p, st\<lparr>in_objects := objects, m_library := std_insert lang p (m_library st)\<rparr>))"

definition get_dictionary :: "string \<Rightarrow> internalization \<Rightarrow> nat \<times> internalization" where
  "get_dictionary lang st =
     (case std_find lang (m_library st) of Some p \<Rightarrow> (p, st) | None \<Rightarrow> append_dictionary lang st)"

definition library_clear :: "internalization \<Rightarrow> internalization" where
  "library_clear st = st\<lparr>m_library := []\<rparr>"

definition dict_clear :: "nat \<Rightarrow> internalization \<Rightarrow> internalization" where
  "dict_clear p st = st\<lparr>in_objects := modify p (\<lambda>d. d\<lparr>m_map := []\<rparr>) (in_objects st)\<rparr>"

definition dict_append_value :: "string \<Rightarrow> string \<Rightarrow> nat \<Rightarrow> internalization \<Rightarrow> internalization" where
  "dict_append_value tag v p st = st\<lparr>in_objects := modify p (\<lambda>d. d\<lparr>m_map := std_insert tag v (m_map d)\<rparr>) (in_objects st)\<rparr>"

definition append_value :: "string \<Rightarrow> string \<Rightarrow> string \<Rightarrow> internalization \<Rightarrow> internalization" where
  "append_value lang tag v st = (let (p, st1) = get_dictionary lang st in dict_append_value tag v p st1)"

definition dict_get_value :: "string \<Rightarrow> nat \<Rightarrow> internalization \<Rightarrow> string option" where
  "dict_get_value tag p st =
     do { d \<leftarrow> deref p (in_objects st); Some (case std_find tag (m_map d) of Some v \<Rightarrow> v | None \<Rightarrow> []) }"

definition i18n_get_value :: "string \<Rightarrow> string \<Rightarrow> internalization \<Rightarrow> (string \<times> internalization) option" where
  "i18n_get_value lang tag st =
     (let (p, st1) = get_dictionary lang st in do { v \<leftarrow> dict_get_value tag p st1; Some (v, st1) })"

text \<open>The look-up with a function that supplies, and may append, what is missing.\<close>

type_synonym func_append_value = "string \<Rightarrow> string \<Rightarrow> internalization \<Rightarrow> string \<times> internalization"

definition dict_get_value_or ::
  "func_append_value option \<Rightarrow> string \<Rightarrow> nat \<Rightarrow> internalization \<Rightarrow> (string \<times> internalization) option" where
  "dict_get_value_or loader tag p st =
     do { d \<leftarrow> deref p (in_objects st);
          Some (case std_find tag (m_map d) of
                  Some v \<Rightarrow> (v, st)
                | None \<Rightarrow> (case loader of Some f \<Rightarrow> f (m_lang d) tag st | None \<Rightarrow> ([], st))) }"

section \<open>Translations of the database\<close>

record translation_tables =
  khl_translate :: "(int \<times> int \<times> string option) list"
  khl_code :: "(int \<times> string) list"
  khl_language :: "(int \<times> string) list"

text \<open>The contents the query of \<open>load_value_by_tag\<close> selects, for a tag and a language without quotes.\<close>

definition translated_contents :: "translation_tables \<Rightarrow> string \<Rightarrow> string \<Rightarrow> string option list" where
  "translated_contents db lang tag =
     concat (map (\<lambda>(code_id, language_id, content).
       concat (map (\<lambda>(kc, t). concat (map (\<lambda>(kl, l).
         if kc = code_id \<and> kl = language_id \<and> t = tag \<and> l = lang then [content] else []) (khl_language db)))
         (khl_code db))) (khl_translate db))"

definition load_value_by_tag :: "translation_tables \<Rightarrow> string \<Rightarrow> string \<Rightarrow> string" where
  "load_value_by_tag db lang tag = (case translated_contents db lang tag of Some v # _ \<Rightarrow> v | _ \<Rightarrow> [])"

definition load_tag :: "translation_tables \<Rightarrow> func_append_value" where
  "load_tag db lang tag st = (let v = load_value_by_tag db lang tag in (v, append_value lang tag v st))"

section \<open>The library as a look-up table\<close>

text \<open>Every language leads to a dictionary of its own, and every dictionary is in order.\<close>

definition library_ok :: "internalization \<Rightarrow> bool" where
  "library_ok st \<longleftrightarrow> sorted_map (m_library st)
     \<and> (\<forall>lang p. std_find lang (m_library st) = Some p \<longrightarrow> (\<exists>d. deref p (in_objects st) = Some d \<and> m_lang d = lang))
     \<and> (\<forall>p d. deref p (in_objects st) = Some d \<longrightarrow> sorted_map (m_map d))"

definition translation :: "string \<times> string \<Rightarrow> internalization \<Rightarrow> string option" where
  "translation lt st =
     do { p \<leftarrow> std_find (fst lt) (m_library st); d \<leftarrow> deref p (in_objects st); std_find (snd lt) (m_map d) }"

definition append_translation :: "string \<times> string \<Rightarrow> string \<Rightarrow> internalization \<Rightarrow> internalization" where
  "append_translation lt v st = append_value (fst lt) (snd lt) v st"

lemma library_okD:
  assumes "library_ok st" and "std_find lang (m_library st) = Some p"
  obtains d where "deref p (in_objects st) = Some d" "m_lang d = lang" "sorted_map (m_map d)"
  using assms by (auto simp: library_ok_def)

lemma dictionaries_apart:
  assumes "library_ok st" and "std_find l1 (m_library st) = Some p" and "std_find l2 (m_library st) = Some p"
  shows "l1 = l2"
proof -
  obtain d where "deref p (in_objects st) = Some d" "m_lang d = l1" using library_okD [OF assms(1,2)] .
  moreover obtain e where "deref p (in_objects st) = Some e" "m_lang e = l2" using library_okD [OF assms(1,3)] .
  ultimately show ?thesis by simp
qed

lemma get_dictionary_ok:
  assumes "library_ok st"
  shows "\<exists>p st1 d. get_dictionary lang st = (p, st1) \<and> library_ok st1 \<and> std_find lang (m_library st1) = Some p
     \<and> deref p (in_objects st1) = Some d \<and> m_lang d = lang \<and> sorted_map (m_map d) \<and> (\<forall>lt. translation lt st1 = translation lt st)"
proof (cases "std_find lang (m_library st)")
  case None
  let ?p = "length (in_objects st)"
  let ?st = "st\<lparr>in_objects := in_objects st @ [\<lparr>m_map = [], m_lang = lang\<rparr>], m_library := std_insert lang ?p (m_library st)\<rparr>"
  have sorted: "sorted_map (m_library st)" using assms by (simp add: library_ok_def)
  have find: "std_find x (m_library ?st) = (if x = lang then Some ?p else std_find x (m_library st))" for x
    using sd.find_insert_new [OF sorted None] by simp
  have old: "std_find x (m_library st) \<noteq> Some ?p" for x
    using library_okD [OF assms] by (metis deref_def less_irrefl option.distinct(1))
  have "get_dictionary lang st = (?p, ?st)"
    using None by (simp add: get_dictionary_def append_dictionary_def new_object_def)
  moreover have "library_ok ?st"
    unfolding library_ok_def find using assms old sd.ok_insert [OF sorted] by (auto simp: library_ok_def)
  moreover have "translation lt ?st = translation lt st" for lt
    unfolding translation_def find using None old [of "fst lt"]
    by (cases "fst lt = lang"; cases "std_find (fst lt) (m_library st)") auto
  ultimately show ?thesis using find by simp
next
  case (Some p)
  from library_okD [OF assms Some] Some assms show ?thesis by (auto simp: get_dictionary_def)
qed

lemma append_value_ok:
  assumes "library_ok st"
  shows "library_ok (append_value lang tag v st)"
    and "translation x (append_value lang tag v st)
      = (if x = (lang, tag) \<and> translation (lang, tag) st = None then Some v else translation x st)"
proof -
  obtain p st1 d where g: "get_dictionary lang st = (p, st1)" "library_ok st1" "std_find lang (m_library st1) = Some p"
    "deref p (in_objects st1) = Some d" "m_lang d = lang" "sorted_map (m_map d)" "\<forall>lt. translation lt st1 = translation lt st"
    using get_dictionary_ok [OF assms] by blast
  let ?st = "dict_append_value tag v p st1"
  have st: "append_value lang tag v st = ?st" by (simp add: append_value_def g(1))
  have other: "std_find l (m_library st1) = Some p \<Longrightarrow> l = lang" for l using dictionaries_apart [OF g(2) _ g(3)] .
  show "library_ok (append_value lang tag v st)"
    unfolding st using g(2) by (fastforce simp: library_ok_def dict_append_value_def sorted_map_insert split: if_splits)
  have find: "std_find t (std_insert tag v (m_map d)) = (if t = tag \<and> std_find tag (m_map d) = None then Some v else std_find t (m_map d))" for t
    using sd.find_insert [OF g(6)] .
  have "translation x ?st = (if x = (lang, tag) \<and> translation (lang, tag) st1 = None then Some v else translation x st1)"
    using g(3,4) other [of "fst x"] find
    by (cases x; cases "std_find (fst x) (m_library st1)") (auto simp: translation_def dict_append_value_def)
  then show "translation x (append_value lang tag v st)
      = (if x = (lang, tag) \<and> translation (lang, tag) st = None then Some v else translation x st)"
    using g(7) by (cases x) (simp add: st)
qed

interpretation tr: lookup_table library_ok translation append_translation
  by unfold_locales (auto simp: append_translation_def append_value_ok)

lemma library_new_ok: "library_ok internalization_new"
  by (simp add: library_ok_def internalization_new_def deref_def)

lemma no_translation_new: "translation lt internalization_new = None"
  by (simp add: translation_def internalization_new_def)

section \<open>Properties\<close>

text \<open>C35: the library is a look-up table: after any sequence of values appended for languages
  and tags, a look-up gives the first value of its language and tag, and the empty text when there is
  none; looking up creates dictionaries but changes no translation.\<close>

theorem appended_values_found:
  "\<exists>st1. i18n_get_value lang tag (fold (\<lambda>(lt, v). append_translation lt v) es internalization_new)
     = Some (case map_of es (lang, tag) of Some v \<Rightarrow> v | None \<Rightarrow> [], st1)
   \<and> (\<forall>lt. translation lt st1 = map_of es lt)"
proof -
  let ?st = "fold (\<lambda>(lt, v). append_translation lt v) es internalization_new"
  have st: "library_ok ?st" "translation lt ?st = map_of es lt" for lt
    using tr.find_fold_insert [OF library_new_ok] by (auto simp: no_translation_new)
  obtain p st1 d where g: "get_dictionary lang ?st = (p, st1)" "std_find lang (m_library st1) = Some p"
    "deref p (in_objects st1) = Some d" "\<forall>lt. translation lt st1 = translation lt ?st"
    using get_dictionary_ok [OF st(1)] by blast
  then have "std_find tag (m_map d) = map_of es (lang, tag)"
    using st(2) by (metis (no_types, lifting) bind.bind_lunit fst_conv snd_conv translation_def)
  with g st(2) show ?thesis by (auto simp: i18n_get_value_def dict_get_value_def)
qed

text \<open>a look-up that loads what is missing from the database gives the value of the database, and every
  later look-up gives that value again, whatever the database holds then.\<close>

theorem loaded_translation_stays:
  assumes "library_ok st" and "translation (lang, tag) st = None"
    and "get_dictionary lang st = (p, st1)" and "dict_get_value_or (Some (load_tag db)) tag p st1 = Some (v, st2)"
  shows "v = load_value_by_tag db lang tag \<and> library_ok st2
     \<and> (\<exists>q. std_find lang (m_library st2) = Some q \<and> dict_get_value_or (Some (load_tag db2)) tag q st2 = Some (v, st2))"
proof -
  from get_dictionary_ok [OF assms(1), of lang] assms(3) obtain d where g: "library_ok st1"
    "std_find lang (m_library st1) = Some p" "deref p (in_objects st1) = Some d" "m_lang d = lang"
    "translation (lang, tag) st1 = None" using assms(2) by auto
  then have "std_find tag (m_map d) = None" by (simp add: translation_def)
  with g assms(4) have v: "v = load_value_by_tag db lang tag" "st2 = append_value lang tag v st1"
    by (auto simp: dict_get_value_or_def load_tag_def Let_def)
  note ok = append_value_ok(1) [OF g(1), of lang tag v, folded v(2)] append_value_ok(2) [OF g(1), of _ lang tag v, folded v(2)]
  have "translation (lang, tag) st2 = Some v" using ok(2) g(5) by simp
  then obtain q d2 where "std_find lang (m_library st2) = Some q" "deref q (in_objects st2) = Some d2" "std_find tag (m_map d2) = Some v"
    by (auto simp: translation_def bind_eq_Some_conv)
  with v(1) ok(1) show ?thesis by (auto simp: dict_get_value_or_def)
qed

definition hello_tables :: translation_tables where
  "hello_tables = \<lparr>khl_translate = [(1, 2, Some ''hallo'')], khl_code = [(1, ''hello'')], khl_language = [(2, ''de'')]\<rparr>"

theorem loaded_translation_stays_witness:
  "\<exists>p st1 st2 q. get_dictionary ''de'' internalization_new = (p, st1)
     \<and> dict_get_value_or (Some (load_tag hello_tables)) ''hello'' p st1 = Some (''hallo'', st2)
     \<and> dict_get_value_or (Some (load_tag (hello_tables\<lparr>khl_translate := []\<rparr>))) ''hello'' q st2 = Some (''hallo'', st2)
     \<and> load_value_by_tag hello_tables ''de'' ''hello'' = ''hallo''"
proof -
  obtain p st1 where d: "get_dictionary ''de'' internalization_new = (p, st1)" by (cases "get_dictionary ''de'' internalization_new")
  have p: "p = 0" "in_objects st1 = [\<lparr>m_map = [], m_lang = ''de''\<rparr>]"
    using d by (auto simp: get_dictionary_def append_dictionary_def new_object_def internalization_new_def)
  obtain v st2 where l: "dict_get_value_or (Some (load_tag hello_tables)) ''hello'' p st1 = Some (v, st2)"
    by (simp add: dict_get_value_or_def p deref_def load_tag_def Let_def)
  from loaded_translation_stays [OF library_new_ok no_translation_new d l]
  have v: "v = load_value_by_tag hello_tables ''de'' ''hello''" and "\<exists>q. dict_get_value_or (Some (load_tag (hello_tables\<lparr>khl_translate := []\<rparr>))) ''hello'' q st2 = Some (v, st2)"
    by blast+
  moreover have "load_value_by_tag hello_tables ''de'' ''hello'' = ''hallo''"
    by (simp add: load_value_by_tag_def translated_contents_def hello_tables_def)
  ultimately show ?thesis using d l by auto
qed

end
