(* ===== verification/Curl.thy ===== *)
theory Curl
  imports Autobuffer
begin

text \<open>
  The two uses of libcurl: the upload of a mail (\<open>src/net/mail.cxx\<close>) and the answer to a request of the
  server's own (\<open>http_curl_string\<close> in \<open>src/net/http.cpp\<close>). What is modelled are the callbacks and the texts;
  when libcurl calls them and with which buffers is an argument. For an upload it calls
  \<open>payload_source\<close> for the next piece until it answers 0 and lends a buffer of \<open>size * nmemb\<close> bytes each time; a
  piece that does not fit is written over the end of the buffer (\<open>None\<close>).
\<close>

section \<open>Sending a mail\<close>

definition init_message :: "string \<Rightarrow> string \<Rightarrow> string \<Rightarrow> string \<Rightarrow> string list" where
  "init_message to_addr from_addr subject message =
     [''To: '' @ to_addr @ [CHR 0x0A], ''From: '' @ from_addr @ [CHR 0x0A],
      ''Subject: '' @ subject @ [CHR 0x0A], [CHR 0x0A], message]"

text \<open>
  \<open>memcpy\<close> into the lent buffer; the result is the number of bytes, the buffer and what is left of the
  queue.
\<close>

definition payload_source ::
    "char memory \<Rightarrow> string list \<Rightarrow> (nat \<times> char memory \<times> string list) option" where
  "payload_source lent_buffer msg =
     (case msg of
        [] \<Rightarrow> Some (0, lent_buffer, [])
      | s # rest \<Rightarrow> map_option (\<lambda>written. (length s, written, rest)) (write_cells lent_buffer 0 (map Some s)))"

text \<open>
  libcurl's documented use of a read callback: it sends as many bytes of the buffer as the answer says, and 0
  ends the upload. \<open>sizes\<close> are the sizes of the buffers of the calls to come; the model ends with them.
  The result is what was sent, the pieces left and whether the upload was ended.
\<close>

fun upload :: "nat list \<Rightarrow> string list \<Rightarrow> (char option list \<times> string list \<times> bool) option" where
  "upload [] msg = Some ([], msg, False)"
| "upload (n # sizes) msg =
     (case payload_source (replicate n None) msg of
        None \<Rightarrow> None
      | Some (given, lent_buffer, rest) \<Rightarrow>
          if given = 0 then Some ([], rest, True)
          else map_option (\<lambda>(sent, r, ended). (take given lent_buffer @ sent, r, ended)) (upload sizes rest))"

text \<open>The text a mail is meant to be.\<close>

definition mail_text :: "string \<Rightarrow> string \<Rightarrow> string \<Rightarrow> string \<Rightarrow> string" where
  "mail_text to_addr from_addr subject body =
     ''To: '' @ to_addr @ [CHR 0x0A] @ ''From: '' @ from_addr @ [CHR 0x0A]
     @ ''Subject: '' @ subject @ [CHR 0x0A] @ [CHR 0x0A] @ body"

subsection \<open>What is sent\<close>

lemma payload_source_fits:
  "length s \<le> n \<Longrightarrow> payload_source (replicate n None) (s # rest)
     = Some (length s, map Some s @ replicate (n - length s) None, rest)"
  by (simp add: payload_source_def write_cells_def)

lemma payload_source_overflow: "n < length s \<Longrightarrow> payload_source (replicate n None) (s # rest) = None"
  by (simp add: payload_source_def write_cells_def)

lemma upload_pieces:
  assumes "[] \<notin> set pieces" and "stop = [] \<or> stop = [[]]" and "length pieces < length sizes"
    and "\<forall>n \<in> set sizes. B \<le> n" and "\<forall>s \<in> set pieces. length s \<le> B"
  shows "upload sizes (pieces @ stop) = Some (map Some (concat pieces), [], True)"
  using assms
proof (induction pieces arbitrary: sizes)
  case Nil
  then show ?case by (cases sizes) (auto simp: payload_source_def write_cells_def)
next
  case (Cons s pieces)
  obtain n rest where sizes: "sizes = n # rest" using Cons.prems(3) by (cases sizes) simp_all
  have "length s \<le> n" using Cons.prems(4,5) sizes by (auto intro: order_trans)
  then show ?case using Cons sizes by (auto simp: payload_source_fits)
qed

lemma upload_overflow:
  assumes "[] \<notin> set xs" and "length xs < length sizes"
    and "\<forall>n \<in> set sizes. n = B" and "\<forall>x \<in> set xs. length x \<le> B" and "B < length s"
  shows "upload sizes (xs @ s # rest) = None"
  using assms
proof (induction xs arbitrary: sizes)
  case Nil
  then obtain n more where "sizes = n # more" by (cases sizes) simp_all
  then show ?case using Nil.prems by (simp add: payload_source_overflow)
next
  case (Cons x xs)
  then obtain n more where "sizes = n # more" by (cases sizes) simp_all
  then show ?case using Cons by (auto simp: payload_source_fits)
qed

definition mail_head :: "string \<Rightarrow> string \<Rightarrow> string \<Rightarrow> string list" where
  "mail_head t f s = butlast (init_message t f s [])"

lemma init_message_head: "init_message t f s m = mail_head t f s @ [m]"
  by (simp add: init_message_def mail_head_def)

lemma mail_head_pieces:
  assumes "length t + 5 \<le> B" and "length f + 7 \<le> B" and "length s + 10 \<le> B"
  shows "[] \<notin> set (mail_head t f s)" and "length (mail_head t f s) = 4"
    and "\<forall>x \<in> set (mail_head t f s). length x \<le> B"
    and "concat (mail_head t f s) @ m = mail_text t f s m"
  using assms by (simp_all add: mail_head_def init_message_def mail_text_def)

text \<open>a mail whose lines fit into the buffers libcurl lends is sent to its last byte, an empty one too, and the
  upload then ends, if the body fits into them as well; a longer body is written over the end of the
  first buffer.\<close>

theorem mail_sent_or_overflow:
  assumes "length t + 5 \<le> B" and "length f + 7 \<le> B" and "length s + 10 \<le> B"
    and "\<forall>n \<in> set sizes. n = B" and "5 < length sizes"
  shows "upload sizes (init_message t f s m)
     = (if length m \<le> B then Some (map Some (mail_text t f s m), [], True) else None)"
proof -
  note pieces = mail_head_pieces [OF assms(1-3)]
  show ?thesis
  proof (cases "m = []")
    case True
    with upload_pieces [of "mail_head t f s" "[m]" sizes B] pieces(1-3) pieces(4) [of m] assms(4,5)
    show ?thesis by (simp add: init_message_head)
  next
    case False
    with upload_pieces [of "mail_head t f s @ [m]" "[]" sizes B] upload_overflow [of "mail_head t f s" sizes B m "[]"]
      pieces(1-3) pieces(4) [of m] assms(4,5)
    show ?thesis by (simp add: init_message_head)
  qed
qed

theorem mail_sent_or_overflow_witness:
  "upload (replicate 6 20) (init_message ''a@b.c'' ''d@e.f'' ''hi'' (replicate 21 (CHR ''x''))) = None"
  by (subst mail_sent_or_overflow [where B = 20]) simp_all

section \<open>Receiving an answer\<close>

text \<open>\<open>sWriteAutobufferCallback\<close>: room for the bytes is made, then they are appended.\<close>

definition sWriteAutobufferCallback :: "bool \<Rightarrow> string \<Rightarrow> char auto_buffer \<Rightarrow> (nat \<times> char auto_buffer) option" where
  "sWriteAutobufferCallback ok contents b =
     map_option (\<lambda>b1. (length contents, b1))
       (buffer_append ok contents (check_size ok (get_fill_size b + length contents) default_granulate b))"

fun receive_pieces :: "bool \<Rightarrow> string list \<Rightarrow> char auto_buffer \<Rightarrow> char auto_buffer option" where
  "receive_pieces ok [] b = Some b"
| "receive_pieces ok (x # xs) b = Option.bind (sWriteAutobufferCallback ok x b) (\<lambda>(_, b1). receive_pieces ok xs b1)"

text \<open>
  The pieces are what arrives until the transfer ends, for whatever reason: its result is not looked at.
\<close>

definition do_post_request :: "bool \<Rightarrow> string list \<Rightarrow> string option" where
  "do_post_request ok pieces =
     Option.bind (receive_pieces ok pieces auto_buffer_new) (\<lambda>response.
       if get_fill_size response \<noteq> 0 then those (take (get_fill_size response) (m_buffer response)) else Some [])"

lemma receive_pieces_hold:
  "holds b xs \<Longrightarrow> \<exists>b1. receive_pieces True pieces b = Some b1 \<and> holds b1 (xs @ concat pieces)"
proof (induction pieces arbitrary: b xs)
  case (Cons x pieces)
  have "holds (check_size True (get_fill_size b + length x) default_granulate b) xs"
    using Cons.prems by (simp add: holds_check_size)
  from holds_append [OF this, of x] Cons.IH [of _ "xs @ x"] show ?case
    by (fastforce simp: sWriteAutobufferCallback_def)
qed auto

text \<open>the answer to a request is the concatenation of the pieces that arrived, in their order, of whatever sizes;
  an answer that was cut off cannot be told from a complete one.\<close>

theorem answer_received: "do_post_request True pieces = Some (concat pieces)"
proof -
  obtain b where b: "receive_pieces True pieces auto_buffer_new = Some b" "holds b (concat pieces)"
    using receive_pieces_hold [OF holds_new, of pieces] by auto
  have "those (take (get_fill_size b) (m_buffer b)) = Some (concat pieces)"
    using holds_take [OF b(2)] by (simp add: get_fill_size_def those_map_Some)
  moreover have "get_fill_size b = 0 \<Longrightarrow> concat pieces = []"
    using holds_fill [OF b(2)] by (simp add: get_fill_size_def)
  ultimately show ?thesis using b(1) by (simp add: do_post_request_def)
qed

end
