(* ===== verification/Stomp.thy ===== *)
theory Stomp
  imports Std_Map
begin

text \<open>
  \<open>include/net/stomp.h\<close>: the parser of STOMP frames. \<open>substr\<close> behind the end throws; a character before
  the first one is read when the text begins with a line feed (\<open>None\<close>).
\<close>

section \<open>The parser\<close>

record stomp =
  m_command :: string
  m_headers :: "(string, string) std_map"
  m_body :: string

definition stomp_new :: stomp where
  "stomp_new = \<lparr>m_command = [], m_headers = [], m_body = []\<rparr>"

datatype parse_outcome = Returns bool | Throws

abbreviation line_feed :: char where "line_feed \<equiv> CHR 0x0A"
abbreviation carriage_return :: char where "carriage_return \<equiv> CHR 0x0D"

text \<open>\<open>find_first_of\<close> with one character, and \<open>substr\<close>.\<close>

fun char_pos :: "char \<Rightarrow> string \<Rightarrow> nat option" where
  "char_pos c [] = None"
| "char_pos c (x # s) = (if x = c then Some 0 else map_option Suc (char_pos c s))"

definition find_first_of :: "string \<Rightarrow> char \<Rightarrow> nat \<Rightarrow> nat option" where
  "find_first_of s c from_pos = map_option ((+) from_pos) (char_pos c (drop from_pos s))"

definition substr :: "string \<Rightarrow> nat \<Rightarrow> nat \<Rightarrow> string option" where
  "substr s pos n = (if pos > length s then None else Some (take n (drop pos s)))"

definition substr_all :: "string \<Rightarrow> nat \<Rightarrow> string option" where
  "substr_all s pos = substr s pos (length s)"

text \<open>\<open>message[pos - 1] == '\r' ? pos - 1 : pos\<close>\<close>

definition line_end :: "string \<Rightarrow> nat \<Rightarrow> nat option" where
  "line_end message pos =
     (if pos = 0 then None else Some (if message ! (pos - 1) = carriage_return then pos - 1 else pos))"

text \<open>The loop over the lines behind the command, with the condition as it is written.\<close>

function header_loop :: "string \<Rightarrow> nat \<Rightarrow> stomp \<Rightarrow> (parse_outcome \<times> stomp) option" where
  "header_loop message start_pos st =
     (if start_pos < length message then
        (if message ! start_pos \<noteq> line_feed \<or> message ! start_pos \<noteq> carriage_return then
           (case substr_all message (start_pos + (if message ! start_pos = carriage_return then 2 else 1)) of
              None \<Rightarrow> Some (Throws, st)
            | Some body \<Rightarrow> Some (Returns True, st\<lparr>m_body := body\<rparr>))
         else
           (case find_first_of message (CHR '':'') start_pos of
              None \<Rightarrow> Some (Returns False, st)
            | Some colon \<Rightarrow>
                (case find_first_of message line_feed (colon + 1) of
                   None \<Rightarrow> Some (Returns False, st)
                 | Some pos \<Rightarrow>
                     Option.bind (line_end message pos) (\<lambda>end_pos.
                       (case (substr message start_pos (colon - start_pos), substr message (colon + 1) end_pos) of
                          (Some key, Some v) \<Rightarrow>
                            header_loop message (pos + 1) (st\<lparr>m_headers := std_insert key v (m_headers st)\<rparr>)
                        | _ \<Rightarrow> Some (Throws, st))))))
      else Some (Returns True, st))"
  by pat_completeness auto
termination
  by (relation "measure (\<lambda>(message, start_pos, st). length message - start_pos)")
    (auto simp: find_first_of_def)

declare header_loop.simps [simp del]

definition stomp_parse :: "string \<Rightarrow> stomp \<Rightarrow> (parse_outcome \<times> stomp) option" where
  "stomp_parse message st =
     (case find_first_of message line_feed 0 of
        None \<Rightarrow> Some (Returns False, st)
      | Some pos \<Rightarrow>
          Option.bind (line_end message pos) (\<lambda>end_pos.
            (case substr message 0 end_pos of
               None \<Rightarrow> Some (Throws, st)
             | Some command \<Rightarrow> header_loop message (pos + 1) (st\<lparr>m_command := command\<rparr>))))"

definition get_command :: "stomp \<Rightarrow> string" where
  "get_command st = m_command st"

definition get_connect_response :: string where
  "get_connect_response = ''CONNECTED'' @ [line_feed] @ ''version:1.2'' @ [line_feed, line_feed]"

section \<open>What it takes from a frame\<close>

lemma char_pos_first: "c \<notin> set s \<Longrightarrow> char_pos c (s @ c # r) = Some (length s)"
  by (induction s) auto

lemma char_pos_none: "c \<notin> set s \<Longrightarrow> char_pos c s = None"
  by (induction s) auto

lemma header_loop_result:
  "header_loop message p st =
     (case drop p message of
        [] \<Rightarrow> Some (Returns True, st)
      | c # body \<Rightarrow>
          if c = carriage_return then (case body of [] \<Rightarrow> Some (Throws, st) | _ # b \<Rightarrow> Some (Returns True, st\<lparr>m_body := b\<rparr>))
          else Some (Returns True, st\<lparr>m_body := body\<rparr>))"
proof (cases "p < length message")
  case False
  then show ?thesis by (subst header_loop.simps) simp
next
  case True
  then have d: "drop p message = message ! p # drop (Suc p) message" by (simp add: Cons_nth_drop_Suc)
  have two: "drop (Suc (Suc p)) message = drop 1 (drop (Suc p) message)" by simp
  show ?thesis
    using True d
    by (subst header_loop.simps)
      (auto simp: substr_all_def substr_def two simp del: drop_drop split: list.splits)
qed

definition strip_cr :: "string \<Rightarrow> string" where
  "strip_cr line = (if last line = carriage_return then butlast line else line)"

text \<open>the parser takes the command from the first line and then stops at the first character of the next
  one: no header is ever read, the body is what follows that character, a frame whose second
  line is a lone carriage return at the end of the text is an exception, and an empty first line reads
  before the text.\<close>

theorem stomp_headers_never_read:
  assumes "line_feed \<notin> set line"
  shows "stomp_parse (line @ line_feed # rest) st =
     (if line = [] then None
      else let st1 = st\<lparr>m_command := strip_cr line\<rparr> in
        (case rest of
           [] \<Rightarrow> Some (Returns True, st1)
         | c # body \<Rightarrow>
             if c = carriage_return then (case body of [] \<Rightarrow> Some (Throws, st1) | _ # b \<Rightarrow> Some (Returns True, st1\<lparr>m_body := b\<rparr>))
             else Some (Returns True, st1\<lparr>m_body := body\<rparr>)))"
proof (cases "line = []")
  case True
  then show ?thesis by (simp add: stomp_parse_def find_first_of_def line_end_def)
next
  case False
  have "(line @ line_feed # rest) ! (length line - 1) = last line"
    using False by (simp add: nth_append last_conv_nth)
  moreover have "substr (line @ line_feed # rest) 0 (length line - 1) = Some (butlast line)"
    and "substr (line @ line_feed # rest) 0 (length line) = Some line"
    using False by (simp_all add: substr_def butlast_conv_take)
  moreover have "drop (length line + 1) (line @ line_feed # rest) = rest" by simp
  ultimately show ?thesis
    using False assms
    by (simp add: stomp_parse_def find_first_of_def char_pos_first line_end_def strip_cr_def
        header_loop_result Let_def del: drop_append take_append)
qed

theorem stomp_headers_never_read_witness:
  "stomp_parse (''SEND'' @ [line_feed] @ ''to:a'' @ [line_feed, line_feed] @ ''hi'') stomp_new
     = Some (Returns True, \<lparr>m_command = ''SEND'', m_headers = [], m_body = ''o:a'' @ [line_feed, line_feed] @ ''hi''\<rparr>)"
  using stomp_headers_never_read [of "''SEND''" "''to:a'' @ [line_feed, line_feed] @ ''hi''" stomp_new]
  by (simp add: strip_cr_def stomp_new_def)

end
