(* ===== verification/Utils.thy ===== *)
theory Utils
  imports Autobuffer Token
begin

text \<open>
  \<open>src/util/utils.cxx\<close>, \<open>include/util/utils.h\<close>: the functions on texts. The regular expressions are those of
  the C++ library (ECMAScript, the end anchor matching only at the end of the text): the leftmost match
  is replaced, then the search goes on behind it. \<open>escape_string\<close> and
  \<open>compact_uuid_to_string\<close> stand in \<open>Token\<close>, their caller.
\<close>

section \<open>Texts\<close>

definition trim :: "string \<Rightarrow> string \<Rightarrow> string" where
  "trim newline str =
     (let start = dropWhile (\<lambda>c. c \<in> set newline) str in
      if start = [] then [] else rev (dropWhile (\<lambda>c. c \<in> set newline) (rev start)))"

text \<open>\<open><[^>]*(>|$)\<close> replaced by nothing.\<close>

function strip_tags :: "string \<Rightarrow> string" where
  "strip_tags [] = []"
| "strip_tags (c # s) =
     (if c = CHR ''<'' then strip_tags (drop 1 (dropWhile (\<lambda>x. x \<noteq> CHR ''>'') s)) else c # strip_tags s)"
  by pat_completeness auto
termination
  by (relation "measure length") (auto simp: le_imp_less_Suc le_trans [OF diff_le_self length_dropWhile_le])

definition clear_html_tags :: "string \<Rightarrow> string" where
  "clear_html_tags source =
     (let s1 = strip_tags source; s2 = trim [CHR 0x0D, CHR 0x0A] s1 in subst_all ''&nbsp;'' '' '' s2)"

section \<open>Clearing a text of tags\<close>

lemma strip_tags_clean: "CHR ''<'' \<notin> set (strip_tags s)"
  by (induction s rule: strip_tags.induct) auto

lemma strip_tags_plain: "CHR ''<'' \<notin> set s \<Longrightarrow> strip_tags s = s"
  by (induction s) auto

lemma set_trim: "set (trim nl s) \<subseteq> set s"
  by (auto simp: trim_def Let_def simp del: dropWhile_eq_Nil_conv dest!: set_dropWhileD)

lemma set_subst_all: "set (subst_all m rep s) \<subseteq> set rep \<union> set s"
  by (induction m rep s rule: subst_all.induct) (auto dest: in_set_dropD)

lemma subst_all_prefix:
  "sp \<notin> set p \<Longrightarrow> is_prefix p (subst_all m [sp] xs) \<Longrightarrow> is_prefix p xs"
proof (induction m "[sp]" xs arbitrary: p rule: subst_all.induct)
  case (2 m x xs)
  show ?case
  proof (cases p)
    case Nil
    then show ?thesis by (simp add: is_prefix_def)
  next
    case (Cons c q)
    then show ?thesis using 2 by (auto simp: is_prefix_def split: if_splits)
  qed
qed simp

lemma subst_all_gone:
  assumes "sp \<notin> set m" and "m \<noteq> []"
  shows "\<not> has_match m (subst_all m [sp] xs)"
  using assms
proof (induction m "[sp]" xs rule: subst_all.induct)
  case (2 m x xs)
  have away: "\<not> is_prefix m (sp # ys)" for ys using 2(3,4) by (cases m) (auto simp: is_prefix_def)
  have stays: "\<not> is_prefix m (x # subst_all m [sp] xs)" if no: "\<not> is_prefix m (x # xs)"
  proof
    assume yes: "is_prefix m (x # subst_all m [sp] xs)"
    then obtain q where q: "m = x # q" using 2(4) by (cases m) (auto simp: is_prefix_def)
    have "sp \<notin> set q" using 2(3) q by simp
    moreover have "is_prefix q (subst_all m [sp] xs)" using yes q by (simp add: is_prefix_def)
    ultimately have "is_prefix q xs" by (rule subst_all_prefix)
    then show False using no q by (simp add: is_prefix_def)
  qed
  show ?case
  proof (cases "is_prefix m (x # xs)")
    case True
    then show ?thesis using away 2(1) [OF True 2(3,4)] by simp
  next
    case False
    then show ?thesis using stays [OF False] 2(2) [OF False 2(3,4)] by simp
  qed
qed simp

text \<open>a text cleared of tags has no opening bracket and no \<open>&nbsp;\<close> left, whether or not its tags were closed,
  and a text without brackets and \<open>&nbsp;\<close> loses only the line ends around it.\<close>

theorem cleared_text:
  "CHR ''<'' \<notin> set (clear_html_tags s) \<and> \<not> has_match ''&nbsp;'' (clear_html_tags s)
   \<and> (CHR ''<'' \<notin> set s \<and> \<not> has_match ''&nbsp;'' (trim [CHR 0x0D, CHR 0x0A] s)
        \<longrightarrow> clear_html_tags s = trim [CHR 0x0D, CHR 0x0A] s)"
proof (intro conjI impI)
  show "CHR ''<'' \<notin> set (clear_html_tags s)"
    using strip_tags_clean [of s] set_trim [of "[CHR 0x0D, CHR 0x0A]" "strip_tags s"]
      set_subst_all [of "''&nbsp;''" "'' ''" "trim [CHR 0x0D, CHR 0x0A] (strip_tags s)"]
    by (auto simp: clear_html_tags_def)
  show "\<not> has_match ''&nbsp;'' (clear_html_tags s)"
    using subst_all_gone [of "CHR '' ''" "''&nbsp;''"] by (simp add: clear_html_tags_def Let_def)
  show "clear_html_tags s = trim [CHR 0x0D, CHR 0x0A] s"
    if "CHR ''<'' \<notin> set s \<and> \<not> has_match ''&nbsp;'' (trim [CHR 0x0D, CHR 0x0A] s)"
    using that by (simp add: clear_html_tags_def strip_tags_plain subst_all_no_match)
qed

theorem cleared_text_witness:
  "clear_html_tags ''a > b'' = ''a > b'' \<and> CHR ''<'' \<notin> set (clear_html_tags ''<p>a<br'')"
  using cleared_text [of "''a > b''"] cleared_text [of "''<p>a<br''"] by (simp add: trim_def is_prefix_def)

section \<open>Escaping\<close>

text \<open>Does a text that stands behind an opening apostrophe close it? A backslash takes the next character with it.\<close>

fun closes_literal :: "string \<Rightarrow> bool" where
  "closes_literal [] = False"
| "closes_literal (c # s) =
     (if c = CHR 0x27 then True
      else if c = CHR 0x5C then (case s of [] \<Rightarrow> False | _ # r \<Rightarrow> closes_literal r)
      else closes_literal s)"

text \<open>an escaped text stays inside the literal it is put into when it has no backslash; a backslash before an
  apostrophe lets it out, since backslashes are not escaped, and two texts can be escaped to the same
  one.\<close>

theorem escaped_stays_inside:
  assumes "CHR 0x5C \<notin> set s"
  shows "\<not> closes_literal (escape_string s)
     \<and> closes_literal (escape_string (CHR 0x5C # CHR 0x27 # s))
     \<and> escape_string (CHR 0x5C # ''n'' @ s) = escape_string (CHR 0x0A # s)"
proof -
  have "\<not> closes_literal (escape_string s)" using assms by (induction s rule: escape_string.induct) auto
  then show ?thesis by simp
qed

theorem escaped_stays_inside_witness:
  "\<not> closes_literal (escape_string (''it'' @ [CHR 0x27] @ ''s''))
   \<and> closes_literal (escape_string (CHR 0x5C # CHR 0x27 # ''it'' @ [CHR 0x27] @ ''s''))"
  using escaped_stays_inside [of "''it'' @ [CHR 0x27] @ ''s''"] by simp

section \<open>Countries\<close>

text \<open>
  \<open>src/net/geoip.cxx\<close>: the country of an address. \<open>mmdb_lookup\<close> is what the MaxMind library finds under
  \<open>country\<close>, \<open>iso_code\<close> of the entry of an address; \<open>MMDB_open\<close> gives 0 when the file is a database.
\<close>

datatype mmdb_value = No_Data | Utf8_String string | Other_Data

definition open_database :: "(string \<Rightarrow> int) \<Rightarrow> string \<Rightarrow> bool" where
  "open_database mmdb_open path_name \<longleftrightarrow> mmdb_open path_name = 0"

definition get_country_code_by_ip :: "(string \<Rightarrow> mmdb_value option) \<Rightarrow> string \<Rightarrow> string" where
  "get_country_code_by_ip mmdb_lookup ip =
     (case mmdb_lookup ip of Some (Utf8_String code) \<Rightarrow> code | _ \<Rightarrow> ''--'')"

end
