(* ===== verification/Task_Queue.thy ===== *)
theory Task_Queue
  imports Main
begin

text \<open>
  \<open>include/system/taskqueue.hxx\<close>: the queue of tasks with its pool of threads. A future is only told by whether it is
  ready; \<open>None\<close> is waiting for any of no futures, which the library does not define.
\<close>

record 'a task_queue =
  q_threads :: nat
  q_futures :: "bool list"
  q_posted :: "'a list"

definition task_queue_new :: "nat \<Rightarrow> 'a task_queue" where
  "task_queue_new threads = \<lparr>q_threads = threads, q_futures = [], q_posted = []\<rparr>"

definition num_pending_tasks :: "'a task_queue \<Rightarrow> nat" where
  "num_pending_tasks q = length (filter (\<lambda>ready. \<not> ready) (q_futures q))"

datatype waiting = Goes_On | Waits

definition wait_for_available_thread :: "'a task_queue \<Rightarrow> waiting option" where
  "wait_for_available_thread q =
     (if num_pending_tasks q \<ge> q_threads q
      then if q_futures q = [] then None else Some (if True \<in> set (q_futures q) then Goes_On else Waits)
      else Some Goes_On)"

definition queue_task :: "'a \<Rightarrow> 'a task_queue \<Rightarrow> (waiting \<times> 'a task_queue) option" where
  "queue_task t q =
     map_option (\<lambda>w. (w, if w = Goes_On then q\<lparr>q_posted := q_posted q @ [t]\<rparr> else q)) (wait_for_available_thread q)"

text \<open>Tasks queued one after the other, while no thread has finished any of them.\<close>

fun queue_tasks :: "'a list \<Rightarrow> 'a task_queue \<Rightarrow> (waiting list \<times> 'a task_queue) option" where
  "queue_tasks [] q = Some ([], q)"
| "queue_tasks (t # ts) q =
     Option.bind (queue_task t q) (\<lambda>(w, q1). map_option (\<lambda>(ws, q2). (w # ws, q2)) (queue_tasks ts q1))"

text \<open>queueing a task never waits for a thread: nothing is ever recorded as pending, so any number of tasks is
  posted at once, in their order, however busy the threads are; a queue made with no thread waits for
  none of its futures.\<close>

theorem queueing_never_waits:
  "(if n = 0 \<and> ts \<noteq> [] then queue_tasks ts (task_queue_new n) = None
    else queue_tasks ts (task_queue_new n)
      = Some (replicate (length ts) Goes_On, (task_queue_new n)\<lparr>q_posted := ts\<rparr>))"
proof (cases "n = 0")
  case True
  then show ?thesis
    by (cases ts) (simp_all add: queue_task_def wait_for_available_thread_def num_pending_tasks_def task_queue_new_def)
next
  case False
  have "queue_tasks ts ((task_queue_new n)\<lparr>q_posted := xs\<rparr>)
      = Some (replicate (length ts) Goes_On, (task_queue_new n)\<lparr>q_posted := xs @ ts\<rparr>)" for xs :: "'a list"
    using False
    by (induction ts arbitrary: xs)
      (simp_all add: queue_task_def wait_for_available_thread_def num_pending_tasks_def task_queue_new_def)
  from this [of "[]"] False show ?thesis by (simp add: task_queue_new_def)
qed

end
