(* ===== verification/Shutdown.thy ===== *)
theory Shutdown
  imports Main
begin

text \<open>
  The threads of the running backend and how they end: the main thread (\<open>startup\<close> and \<open>run\<close> in
  \<open>src/app/server2hb.cxx\<close>, \<open>src/app/server2h.cxx\<close>), the thread of the listener (\<open>stub_listen_run\<close> in
  \<open>src/net/connection.cpp\<close>) and the timer thread, with the two signals. A step is one event of one of them;
  their order is not determined. The result \<open>None\<close> is undefined: libevent is called with an event base that is
  not there or was freed.
\<close>

section \<open>The threads\<close>

datatype thread = Not_Started | Setting_Up | Live | Ended

datatype event_base = Base_Null | Base_Made | Base_Freed

datatype signal_handler = Unix_Signal | Stub_Signal

datatype main_phase = Prepared | Waits_Timer | Waits_Listen | Finished

record app =
  a_main :: main_phase
  a_timer :: thread
  a_listen :: thread
  m_base_listen :: event_base
  a_loop_exit :: bool
  m_shutdown_timer :: bool
  a_sigint :: signal_handler

text \<open>After \<open>check_params\<close>: both signals are handled by \<open>UNIXSignal\<close>.\<close>

definition app_prepared :: app where
  "app_prepared = \<lparr>a_main = Prepared, a_timer = Not_Started, a_listen = Not_Started, m_base_listen = Base_Null,
     a_loop_exit = False, m_shutdown_timer = False, a_sigint = Unix_Signal\<rparr>"

text \<open>\<open>startup\<close>: the timer thread is started, then the listener.\<close>

definition app_startup :: "app \<Rightarrow> app" where
  "app_startup a = a\<lparr>a_timer := Live, a_listen := Setting_Up, a_main := Waits_Timer\<rparr>"

text \<open>\<open>connection_controller::shutdown\<close>; there never is a worker base.\<close>

definition controller_shutdown :: "app \<Rightarrow> app option" where
  "controller_shutdown a = (if m_base_listen a = Base_Made then Some (a\<lparr>a_loop_exit := True\<rparr>) else None)"

definition server_shutdown :: "app \<Rightarrow> app option" where
  "server_shutdown a = controller_shutdown (a\<lparr>m_shutdown_timer := True\<rparr>)"

text \<open>
  The listener installs its own handler of the interrupt (\<open>evsignal_new\<close>, \<open>event_add\<close>) once it listens, and
  \<open>event_free\<close> puts the old one back when its loop was left.
\<close>

definition listener_ready :: "app \<Rightarrow> app" where
  "listener_ready a = a\<lparr>a_listen := Live, m_base_listen := Base_Made, a_sigint := Stub_Signal\<rparr>"

definition listener_failed :: "app \<Rightarrow> app" where
  "listener_failed a = a\<lparr>a_listen := Ended, m_base_listen := Base_Made\<rparr>"

definition listener_left :: "app \<Rightarrow> app" where
  "listener_left a = a\<lparr>a_listen := Ended, m_base_listen := Base_Freed, a_sigint := Unix_Signal\<rparr>"

datatype app_event = Start_Up | Listening | No_Listener | Accept_Error | Loop_Left | Timer_Left | Timer_Joined
  | Listen_Joined | Interrupt | Terminate

inductive app_step :: "app \<Rightarrow> app_event \<Rightarrow> app option \<Rightarrow> bool" where
  start_up: "a_main a = Prepared \<Longrightarrow> app_step a Start_Up (Some (app_startup a))"
| listening: "a_listen a = Setting_Up \<Longrightarrow> app_step a Listening (Some (listener_ready a))"
| no_listener: "a_listen a = Setting_Up \<Longrightarrow> app_step a No_Listener (Some (listener_failed a))"
| accept_error: "a_listen a = Live \<Longrightarrow> app_step a Accept_Error (controller_shutdown a)"
| loop_left: "a_listen a = Live \<Longrightarrow> a_loop_exit a \<Longrightarrow> app_step a Loop_Left (Some (listener_left a))"
| timer_left: "a_timer a = Live \<Longrightarrow> m_shutdown_timer a \<Longrightarrow> app_step a Timer_Left (Some (a\<lparr>a_timer := Ended\<rparr>))"
| timer_joined: "a_main a = Waits_Timer \<Longrightarrow> a_timer a = Ended \<Longrightarrow>
    app_step a Timer_Joined (Some (a\<lparr>a_main := Waits_Listen\<rparr>))"
| listen_joined: "a_main a = Waits_Listen \<Longrightarrow> a_listen a = Ended \<Longrightarrow>
    app_step a Listen_Joined (Some (a\<lparr>a_main := Finished\<rparr>))"
| interrupt: "app_step a Interrupt (case a_sigint a of Unix_Signal \<Rightarrow> server_shutdown a | Stub_Signal \<Rightarrow> controller_shutdown a)"
| terminate: "app_step a Terminate (server_shutdown a)"

inductive app_run :: "app \<Rightarrow> app_event list \<Rightarrow> app option \<Rightarrow> bool" where
  run_nil: "app_run a [] (Some a)"
| run_snoc: "app_run a es (Some b) \<Longrightarrow> app_step b e c \<Longrightarrow> app_run a (es @ [e]) c"

inductive_cases app_stepE: "app_step a e c"

lemmas app_defs = app_prepared_def app_startup_def controller_shutdown_def server_shutdown_def listener_ready_def
  listener_failed_def listener_left_def

section \<open>The threads belong together\<close>

text \<open>What holds in every state that is reached.\<close>

definition app_ok :: "app \<Rightarrow> bool" where
  "app_ok a \<longleftrightarrow>
     (a_main a = Prepared \<longleftrightarrow> a_timer a = Not_Started) \<and> (a_timer a = Not_Started \<longleftrightarrow> a_listen a = Not_Started)
     \<and> a_timer a \<noteq> Setting_Up
     \<and> (a_listen a = Live \<longrightarrow> m_base_listen a = Base_Made)
     \<and> (a_listen a \<in> {Not_Started, Setting_Up} \<longrightarrow> m_base_listen a = Base_Null)
     \<and> (a_timer a = Ended \<longrightarrow> m_shutdown_timer a)
     \<and> (a_main a \<in> {Waits_Listen, Finished} \<longrightarrow> a_timer a = Ended)
     \<and> (a_main a = Finished \<longrightarrow> a_listen a = Ended)
     \<and> (a_sigint a = Stub_Signal \<longleftrightarrow> a_listen a = Live)
     \<and> (m_shutdown_timer a \<longrightarrow> a_loop_exit a)
     \<and> (a_loop_exit a \<longrightarrow> m_base_listen a \<noteq> Base_Null)"

lemma app_prepared_ok: "app_ok app_prepared"
  by (simp add: app_ok_def app_defs)

lemma app_step_ok: "app_step a e (Some b) \<Longrightarrow> app_ok a \<Longrightarrow> app_ok b"
  by (erule app_stepE) (auto simp: app_ok_def app_defs split: if_splits signal_handler.splits)

lemma app_run_ok: "app_run a es (Some b) \<Longrightarrow> app_ok a \<Longrightarrow> app_ok b"
  by (induction es "Some b" arbitrary: b rule: app_run.induct) (auto dest: app_step_ok)

section \<open>Ending\<close>

text \<open>Without the termination signal, on a server that listens, nothing stops the timer thread.\<close>

definition not_told :: "app \<Rightarrow> bool" where
  "not_told a \<longleftrightarrow> \<not> m_shutdown_timer a \<and> (a_sigint a = Unix_Signal \<longrightarrow> m_base_listen a \<noteq> Base_Made)"

lemma app_step_not_told:
  "app_step a e (Some b) \<Longrightarrow> e \<noteq> Terminate \<Longrightarrow> e \<noteq> No_Listener \<Longrightarrow> not_told a \<Longrightarrow> not_told b"
  by (erule app_stepE) (auto simp: not_told_def app_defs split: if_splits signal_handler.splits)

lemma app_run_not_told:
  "app_run a es (Some b) \<Longrightarrow> Terminate \<notin> set es \<Longrightarrow> No_Listener \<notin> set es \<Longrightarrow> not_told a \<Longrightarrow> not_told b"
  by (induction es "Some b" arbitrary: b rule: app_run.induct) (auto dest: app_step_not_told)


lemma interrupted_run:
  "\<exists>a. app_run app_prepared [Start_Up, Listening, Interrupt, Loop_Left] (Some a) \<and> a_listen a = Ended"
proof -
  let ?a = "app_startup app_prepared"
  let ?b = "listener_ready ?a"
  let ?c = "?b\<lparr>a_loop_exit := True\<rparr>"
  have "app_step app_prepared Start_Up (Some ?a)" by (rule start_up) (simp add: app_defs)
  moreover have "app_step ?a Listening (Some ?b)" by (rule listening) (simp add: app_defs)
  moreover have "app_step ?b Interrupt (Some ?c)" using interrupt [of ?b] by (simp add: app_defs)
  moreover have "app_step ?c Loop_Left (Some (listener_left ?c))" by (rule loop_left) (simp_all add: app_defs)
  ultimately have "app_run app_prepared [Start_Up, Listening, Interrupt, Loop_Left] (Some (listener_left ?c))"
    using run_snoc [OF run_snoc [OF run_snoc [OF run_snoc [OF run_nil]]]] by fastforce
  then show ?thesis by (auto simp: listener_left_def)
qed


text \<open>What the program still does by itself once it was told to end, and how much of it is left.\<close>

definition own_events :: "app_event set" where
  "own_events = {Loop_Left, Timer_Left, Timer_Joined, Listen_Joined}"

definition steps_left :: "app \<Rightarrow> nat" where
  "steps_left a = (if a_listen a = Ended then 0 else 1) + (if a_timer a = Ended then 0 else 1)
     + (case a_main a of Waits_Listen \<Rightarrow> 1 | Finished \<Rightarrow> 0 | _ \<Rightarrow> 2)"

definition told :: "app \<Rightarrow> bool" where
  "told a \<longleftrightarrow> m_shutdown_timer a \<and> a_loop_exit a \<and> a_listen a \<in> {Live, Ended}"

lemma own_step:
  "app_step a e c \<Longrightarrow> e \<in> own_events \<Longrightarrow> told a \<Longrightarrow>
     \<exists>b. c = Some b \<and> told b \<and> steps_left a = Suc (steps_left b)"
  by (erule app_stepE) (auto simp: own_events_def told_def steps_left_def app_defs)

lemma own_run:
  "app_run a es c \<Longrightarrow> set es \<subseteq> own_events \<Longrightarrow> told a \<Longrightarrow>
     \<exists>b. c = Some b \<and> told b \<and> steps_left a = length es + steps_left b"
proof (induction rule: app_run.induct)
  case (run_snoc a es b e c)
  then show ?case using own_step [of b e c] by fastforce
qed simp

lemma own_progress:
  assumes "app_ok a" and "told a" and "a_main a \<noteq> Finished"
  shows "\<exists>e \<in> own_events. \<exists>c. app_step a e c"
proof -
  have "a_timer a \<in> {Live, Ended}" using assms(1,2) by (cases "a_timer a") (auto simp: app_ok_def told_def)
  moreover have "a_main a \<in> {Waits_Timer, Waits_Listen}"
    using assms by (cases "a_main a") (auto simp: app_ok_def told_def)
  ultimately show ?thesis
    using assms(2) unfolding told_def own_events_def
    by (auto intro: loop_left timer_left timer_joined listen_joined)
qed

text \<open>C19: after the termination signal on a server that listens the program ends: whatever the order in which its
  threads go on, within four steps nothing is left but the finished main thread, and until then one
  of them can always go on.\<close>

theorem termination_signal_ends:
  assumes "app_run app_prepared es (Some a)" and "a_listen a = Live" and "app_step a Terminate c"
    and "app_run (the c) es' d" and "set es' \<subseteq> own_events"
  shows "\<exists>b. d = Some b \<and> length es' \<le> 4 \<and> (a_main b = Finished \<or> (\<exists>e \<in> own_events. \<exists>x. app_step b e x))"
proof -
  have ok: "app_ok a" by (rule app_run_ok [OF assms(1) app_prepared_ok])
  then obtain a1 where a1: "c = Some a1" "told a1"
    using assms(2,3) by (auto elim!: app_stepE simp: app_ok_def told_def app_defs)
  obtain b where b: "d = Some b" "told b" "steps_left a1 = length es' + steps_left b"
    using own_run [OF _ assms(5), of a1 d] assms(4) a1 by auto
  have "steps_left a1 \<le> 4" by (auto simp: steps_left_def split: main_phase.split)
  moreover have "app_ok b"
    using app_run_ok [OF assms(4) [unfolded a1(1) b(1) option.sel]] app_step_ok [OF assms(3) [unfolded a1(1)] ok] by simp
  ultimately show ?thesis using b own_progress [of b] by auto
qed

theorem termination_signal_ends_witness:
  "\<exists>a b. app_run app_prepared [Start_Up, Listening] (Some a) \<and> app_step a Terminate (Some b)
     \<and> (a_main b = Finished \<or> (\<exists>e \<in> own_events. \<exists>x. app_step b e x))"
proof -
  let ?a = "listener_ready (app_startup app_prepared)"
  let ?b = "?a\<lparr>m_shutdown_timer := True, a_loop_exit := True\<rparr>"
  have "app_step app_prepared Start_Up (Some (app_startup app_prepared))" by (rule start_up) (simp add: app_defs)
  moreover have "app_step (app_startup app_prepared) Listening (Some ?a)" by (rule listening) (simp add: app_defs)
  ultimately have run: "app_run app_prepared [Start_Up, Listening] (Some ?a)"
    using run_snoc [OF run_snoc [OF run_nil]] by fastforce
  have stop: "app_step ?a Terminate (Some ?b)" using terminate [of ?a] by (simp add: app_defs)
  have live: "a_listen ?a = Live" by (simp add: listener_ready_def)
  have "\<exists>b. Some ?b = Some b \<and> length ([] :: app_event list) \<le> 4
      \<and> (a_main b = Finished \<or> (\<exists>e \<in> own_events. \<exists>x. app_step b e x))"
    by (rule termination_signal_ends [OF run live stop]) (simp_all add: run_nil)
  then have "a_main ?b = Finished \<or> (\<exists>e \<in> own_events. \<exists>x. app_step ?b e x)" by blast
  with run stop show ?thesis by blast
qed

end
