(* ===== verification/Token_Table.thy ===== *)
theory Token_Table
  imports Postgres Token Json_Read_Back
begin

text \<open>
  The tokens in the database: \<open>create_token\<close>, \<open>load_token\<close> and \<open>refresh_token\<close> of \<open>khl_postgres\<close> in
  \<open>src/db/postgres.cpp\<close>. The statements are modelled by what they do to the rows of \<open>admin.khl_tokens\<close>. How the
  database compares an identifier with a text, which text it gives for a stored JSON text and which integer
  it finds in it are fields of \<open>token_db\<close>; the identifiers and the time of a statement are arguments.
  Times are microseconds. A token identifier is taken to have no apostrophe: it is not quoted. An error
  of the database and any other exception is \<open>None\<close>; the transaction then leaves no trace.
\<close>

section \<open>The table\<close>

record token_row =
  r_access_token :: string
  r_access_time :: int
  r_refresh_token :: string
  r_refresh_time :: int
  r_payload :: "string option"

record token_db =
  db_same_id :: "string \<Rightarrow> string \<Rightarrow> bool"
  db_jsonb_text :: "string \<Rightarrow> string"
  db_payload_int :: "string \<Rightarrow> string \<Rightarrow> int option"

definition after_seconds :: "int \<Rightarrow> int \<Rightarrow> int" where
  "after_seconds now seconds = now + 1000000 * seconds"

definition db_create_token ::
    "int \<Rightarrow> int \<Rightarrow> int \<Rightarrow> json \<Rightarrow> string \<times> string \<Rightarrow> int \<Rightarrow> token_row list \<Rightarrow> (token \<times> token_row list) option" where
  "db_create_token access_timeout refresh_timeout append_time payload ids now rows =
     do { payload1 \<leftarrow> json_set khl_json_param_delta_access_time (JInt access_timeout) payload;
          token_payload \<leftarrow> json_set khl_json_param_delta_refresh_time (JInt refresh_timeout) payload1;
          access_seconds \<leftarrow> int_sum access_timeout append_time;
          refresh_seconds \<leftarrow> int_sum refresh_timeout append_time;
          let row = \<lparr>r_access_token = fst ids, r_access_time = after_seconds now access_seconds,
            r_refresh_token = snd ids, r_refresh_time = after_seconds now refresh_seconds,
            r_payload = (if token_payload = JNull then None else Some (json_string token_payload))\<rparr>;
          Some (\<lparr>m_access_token = r_access_token row, m_refresh_token = r_refresh_token row,
             m_access_expire = r_access_time row, m_refresh_expire = r_refresh_time row, m_payload = token_payload\<rparr>,
           rows @ [row]) }"

definition db_load_token ::
    "(string \<Rightarrow> double option) \<Rightarrow> token_db \<Rightarrow> bool \<Rightarrow> string \<Rightarrow> token_row list \<Rightarrow> token option option" where
  "db_load_token sc db is_access_token token_id rows =
     (case filter (\<lambda>row. db_same_id db (if is_access_token then r_access_token row else r_refresh_token row) token_id) rows of
        [] \<Rightarrow> Some None
      | row # _ \<Rightarrow>
          do { payload \<leftarrow> (case r_payload row of
                 None \<Rightarrow> Some JNull
               | Some stored \<Rightarrow> map_option snd (parse_json sc (db_jsonb_text db stored)));
               Some (Some \<lparr>m_access_token = r_access_token row, m_refresh_token = r_refresh_token row,
                 m_access_expire = r_access_time row, m_refresh_expire = r_refresh_time row, m_payload = payload\<rparr>) })"

text \<open>
  The seconds of an interval: from the call, or from the payload of the row. A null interval gives a null time, which
  cannot be read as a text.
\<close>

definition interval_seconds :: "token_db \<Rightarrow> string \<Rightarrow> int \<Rightarrow> int \<Rightarrow> token_row \<Rightarrow> int option" where
  "interval_seconds db key timeout append_time row =
     (if timeout \<noteq> 0 then int_sum timeout append_time
      else do { stored \<leftarrow> r_payload row; seconds \<leftarrow> db_payload_int db key stored; int_sum seconds append_time })"

definition renewed_row ::
    "token_db \<Rightarrow> int \<Rightarrow> int \<Rightarrow> int \<Rightarrow> int \<Rightarrow> token_row \<Rightarrow> string \<times> string \<Rightarrow> token_row option" where
  "renewed_row db access_timeout refresh_timeout append_time now row ids =
     do { access_seconds \<leftarrow> interval_seconds db khl_json_param_delta_access_time access_timeout append_time row;
          refresh_seconds \<leftarrow> interval_seconds db khl_json_param_delta_refresh_time refresh_timeout append_time row;
          Some (row\<lparr>r_access_token := fst ids, r_access_time := after_seconds now access_seconds,
                    r_refresh_token := snd ids, r_refresh_time := after_seconds now refresh_seconds\<rparr>) }"

text \<open>What the token object takes from the new row.\<close>

definition setters :: "(int \<Rightarrow> string) \<Rightarrow> token_row \<Rightarrow> token \<Rightarrow> token option" where
  "setters to_text row0 t =
     do { t1 \<leftarrow> set_access_token (r_access_token row0) t;
          t2 \<leftarrow> set_access_expire to_text (r_access_time row0) t1;
          t3 \<leftarrow> set_refresh_token (r_refresh_token row0) t2;
          set_refresh_expire to_text (r_refresh_time row0) t3 }"

definition db_refresh_token ::
    "token_db \<Rightarrow> (int \<Rightarrow> string) \<Rightarrow> token \<Rightarrow> int \<Rightarrow> int \<Rightarrow> int \<Rightarrow> (string \<times> string) list \<Rightarrow> int \<Rightarrow> token_row list \<Rightarrow>
     (bool \<times> token \<times> token_row list) option" where
  "db_refresh_token db to_text t access_timeout refresh_timeout append_time fresh now rows =
     (let pre_refresh_token = m_refresh_token t;
          old = (\<lambda>row. db_same_id db (r_refresh_token row) pre_refresh_token);
          found = filter old rows in
      if length fresh < length found then None
      else do { added \<leftarrow> those (map (\<lambda>(row, ids). renewed_row db access_timeout refresh_timeout append_time now row ids)
                  (zip found fresh));
                case added of
                  [] \<Rightarrow> Some (True, t, rows)
                | row0 # _ \<Rightarrow>
                    do { t1 \<leftarrow> setters to_text row0 t;
                         Some (True, t1,
                           map (\<lambda>row. if old row then row\<lparr>r_access_time := now, r_refresh_time := now\<rparr> else row)
                             (rows @ added)) } })"

section \<open>What a refresh does to the table\<close>

lemma filter_one: "distinct (map f xs) \<Longrightarrow> x \<in> set xs \<Longrightarrow> filter (\<lambda>y. f y = f x) xs = [x]"
proof (induction xs)
  case (Cons y ys)
  show ?case
  proof (cases "x = y")
    case True
    then have "\<forall>z \<in> set ys. f z \<noteq> f x" using Cons.prems(1) by (auto simp: image_iff)
    then show ?thesis using True by (simp add: filter_empty_conv)
  next
    case False
    then have "f y \<noteq> f x" using Cons.prems by force
    then show ?thesis using False Cons by simp
  qed
qed simp

lemma int_sum_Some: "is_int32 (a + b) \<Longrightarrow> int_sum a b = Some (a + b)"
  by (simp add: int_sum_def)

lemma filter_none: "\<forall>y \<in> set xs. f y \<noteq> k \<Longrightarrow> filter (\<lambda>y. f y = k) xs = []"
  by (simp add: filter_empty_conv)

definition expired_row :: "string \<Rightarrow> int \<Rightarrow> token_row \<Rightarrow> token_row" where
  "expired_row pre now row = (if r_refresh_token row = pre then row\<lparr>r_access_time := now, r_refresh_time := now\<rparr> else row)"

lemma expired_row_simps [simp]:
  "r_access_token (expired_row pre now row) = r_access_token row"
  "r_refresh_token (expired_row pre now row) = r_refresh_token row"
  "r_payload (expired_row pre now row) = r_payload row"
  "r_refresh_token row \<noteq> pre \<Longrightarrow> expired_row pre now row = row"
  by (simp_all add: expired_row_def)

lemma filter_expired:
  "filter (\<lambda>r. r_access_token r = k) (map (expired_row pre now) rows) = map (expired_row pre now) (filter (\<lambda>r. r_access_token r = k) rows)"
  "filter (\<lambda>r. r_refresh_token r = k) (map (expired_row pre now) rows) = map (expired_row pre now) (filter (\<lambda>r. r_refresh_token r = k) rows)"
  by (simp_all add: filter_map comp_def)

lemma setters_object:
  "is_object (m_payload t) \<Longrightarrow> \<exists>t'. setters to_text row0 t = Some t'
     \<and> m_access_token t' = r_access_token row0 \<and> m_refresh_token t' = r_refresh_token row0
     \<and> m_access_expire t' = r_access_time row0 \<and> m_refresh_expire t' = r_refresh_time row0"
  by (simp add: setters_def set_access_token_def set_access_expire_def set_refresh_token_def set_refresh_expire_def set_payload_def)

lemma refresh_one:
  assumes "db_same_id db = (=)" and "filter (\<lambda>r. r_refresh_token r = m_refresh_token t) rows = [row]"
    and "renewed_row db access_timeout refresh_timeout append_time now row ids = Some new"
    and "setters to_text new t = Some t'"
  shows "db_refresh_token db to_text t access_timeout refresh_timeout append_time [ids] now rows
     = Some (True, t', map (expired_row (m_refresh_token t) now) (rows @ [new]))"
proof -
  have upd: "(\<lambda>r. if r_refresh_token r = m_refresh_token t then r\<lparr>r_access_time := now, r_refresh_time := now\<rparr> else r)
      = expired_row (m_refresh_token t) now" by (simp add: expired_row_def fun_eq_iff)
  show ?thesis
    using assms(4) by (simp add: db_refresh_token_def assms(1-3) upd Let_def)
qed


definition sample_row :: token_row where
  "sample_row = \<lparr>r_access_token = ''a0'', r_access_time = 5, r_refresh_token = ''r0'', r_refresh_time = 9,
     r_payload = Some (json_string json_sample)\<rparr>"

definition row_token :: token where
  "row_token = \<lparr>m_access_token = ''a0'', m_refresh_token = ''r0'', m_access_expire = 5, m_refresh_expire = 9, m_payload = JNull\<rparr>"

definition plain_db :: token_db where
  "plain_db = \<lparr>db_same_id = (=), db_jsonb_text = (\<lambda>s. s), db_payload_int = (\<lambda>_ _. None)\<rparr>"


end
