(* ===== verification/Sqlite.thy ===== *)
theory Sqlite
  imports Khl_Prelude
begin

text \<open>
  \<open>src/db/sqlite3.cpp\<close>, \<open>include/db/sqlite3.h\<close>: the wrapper of the SQLite library. An \<open>Adapter\<close> owns one prepared
  statement; \<open>Inserter\<close> and \<open>Reader\<close> run it. The library is external: a record of functions on the connection \<open>'d\<close>,
  where \<open>None\<close> is a call SQLite does not allow. A statement is a number, the null pointer is \<open>None\<close>. That a
  prepared statement is finalized once and not used afterwards is proved for any sequence of operations.
\<close>

section \<open>The library\<close>

datatype 'r sql_value = SNull | SInt int | SReal 'r | SText string | SBlob "8 word list"

type_synonym 'd sqlite_call = "'d \<Rightarrow> (int \<times> 'd) option"

record ('r, 'd) sqlite =
  sqlite3_open :: "string \<Rightarrow> int \<times> 'd option"
  sqlite3_close :: "'d \<Rightarrow> int"
  sqlite3_enable_load_extension :: "'d \<Rightarrow> 'd"
  sqlite3_exec :: "string \<Rightarrow> 'd \<Rightarrow> int \<times> string option \<times> 'd"
  sqlite3_quoted :: "string \<Rightarrow> string"
  sqlite3_get_table :: "string \<Rightarrow> 'd \<Rightarrow> int \<times> string option \<times> int"
  sqlite3_prepare :: "string \<Rightarrow> 'd \<Rightarrow> (int \<times> nat option \<times> 'd) option"
  sqlite3_bind :: "nat option \<Rightarrow> int \<Rightarrow> 'r sql_value \<Rightarrow> 'd sqlite_call"
  sqlite3_step :: "nat option \<Rightarrow> 'd sqlite_call"
  sqlite3_reset :: "nat option \<Rightarrow> 'd sqlite_call"
  sqlite3_finalize :: "nat \<Rightarrow> 'd sqlite_call"
  sqlite3_column_type :: "nat option \<Rightarrow> int \<Rightarrow> 'd \<Rightarrow> int option"
  sqlite3_column_int :: "nat option \<Rightarrow> int \<Rightarrow> 'd \<Rightarrow> int option"
  sqlite3_column_double :: "nat option \<Rightarrow> int \<Rightarrow> 'd \<Rightarrow> 'r option"
  sqlite3_column_text :: "nat option \<Rightarrow> int \<Rightarrow> 'd \<Rightarrow> string option option"
  sqlite3_column_bytes :: "nat option \<Rightarrow> int \<Rightarrow> 'd \<Rightarrow> int option"
  sqlite3_column_blob :: "nat option \<Rightarrow> int \<Rightarrow> 'd \<Rightarrow> 8 word list option option"
  sqlite3_changes :: "'d \<Rightarrow> int"
  sqlite3_total_changes :: "'d \<Rightarrow> int"

abbreviation SQLITE_OK :: int where "SQLITE_OK \<equiv> 0"
abbreviation SQLITE_ROW :: int where "SQLITE_ROW \<equiv> 100"
abbreviation SQLITE_DONE :: int where "SQLITE_DONE \<equiv> 101"
abbreviation SQLITE_NULL :: int where "SQLITE_NULL \<equiv> 5"

definition SQLITE_SUCCESS :: "int \<Rightarrow> bool" where
  "SQLITE_SUCCESS result \<longleftrightarrow> result = SQLITE_OK \<or> result = SQLITE_DONE"

definition SQLITE_SUCCESSROW :: "int \<Rightarrow> bool" where
  "SQLITE_SUCCESSROW result \<longleftrightarrow> SQLITE_SUCCESS result \<or> result = SQLITE_ROW"

section \<open>The connection\<close>

text \<open>\<open>m_HandleDB\<close> is the connection; the error messages are kept, not freed.\<close>

record 'd khl_sqlite3 =
  m_HandleDB :: "'d option"
  m_ErrorMessage :: "string option"
  m_iResult :: int

definition khl_sqlite3_new :: "'d khl_sqlite3" where
  "khl_sqlite3_new = \<lparr>m_HandleDB = None, m_ErrorMessage = None, m_iResult = 0\<rparr>"

definition run_sql :: "('r, 'd) sqlite \<Rightarrow> string \<Rightarrow> 'd khl_sqlite3 \<Rightarrow> (int \<times> 'd khl_sqlite3) option" where
  "run_sql lib sql k =
     do { d \<leftarrow> m_HandleDB k;
          let (r, message, d1) = sqlite3_exec lib sql d;
          Some (r, k\<lparr>m_HandleDB := Some d1, m_ErrorMessage := message, m_iResult := r\<rparr>) }"

definition ExecuteStmt :: "('r, 'd) sqlite \<Rightarrow> string \<Rightarrow> 'd khl_sqlite3 \<Rightarrow> (bool \<times> 'd khl_sqlite3) option" where
  "ExecuteStmt lib sql k = map_option (\<lambda>(r, k1). (SQLITE_SUCCESS r, k1)) (run_sql lib (c_str sql) k)"

definition base_PrepareDatabase :: "('r, 'd) sqlite \<Rightarrow> 'd khl_sqlite3 \<Rightarrow> (bool \<times> 'd khl_sqlite3) option" where
  "base_PrepareDatabase lib k =
     do { d \<leftarrow> m_HandleDB k;
          (_, k1) \<leftarrow> ExecuteStmt lib ''SELECT load_extension('sqlite3_ext')''
            (k\<lparr>m_HandleDB := Some (sqlite3_enable_load_extension lib d)\<rparr>);
          Some (True, k1) }"

definition RegistryExtentions :: bool where
  "RegistryExtentions = True"

text \<open>\<open>PrepareDatabase\<close> is virtual: \<open>prepare\<close>.\<close>

definition khl_sqlite3_Open ::
    "('r, 'd) sqlite \<Rightarrow> ('d khl_sqlite3 \<Rightarrow> (bool \<times> 'd khl_sqlite3) option) \<Rightarrow> string \<Rightarrow> 'd khl_sqlite3 \<Rightarrow> (bool \<times> 'd khl_sqlite3) option" where
  "khl_sqlite3_Open lib prepare path k =
     (let (r, handle) = sqlite3_open lib (c_str path);
          k1 = k\<lparr>m_iResult := r, m_HandleDB := handle\<rparr>
      in if handle \<noteq> None \<and> RegistryExtentions then prepare k1 else Some (False, k1))"

definition khl_sqlite3_Close :: "('r, 'd) sqlite \<Rightarrow> 'd khl_sqlite3 \<Rightarrow> bool \<times> 'd khl_sqlite3" where
  "khl_sqlite3_Close lib k =
     (case m_HandleDB k of
        None \<Rightarrow> (True, k)
      | Some d \<Rightarrow> (True, k\<lparr>m_iResult := sqlite3_close lib d, m_HandleDB := None\<rparr>))"

definition ugTransactionBegin :: "('r, 'd) sqlite \<Rightarrow> 'd khl_sqlite3 \<Rightarrow> (bool \<times> 'd khl_sqlite3) option" where
  "ugTransactionBegin lib k = map_option (\<lambda>(r, k1). (r = SQLITE_OK, k1)) (run_sql lib ''BEGIN'' k)"

definition ugTransactionCommit :: "('r, 'd) sqlite \<Rightarrow> 'd khl_sqlite3 \<Rightarrow> (bool \<times> 'd khl_sqlite3) option" where
  "ugTransactionCommit lib k = map_option (\<lambda>(r, k1). (r = SQLITE_OK, k1)) (run_sql lib ''COMMIT'' k)"

definition ugTransactionRollback :: "('r, 'd) sqlite \<Rightarrow> 'd khl_sqlite3 \<Rightarrow> (bool \<times> 'd khl_sqlite3) option" where
  "ugTransactionRollback lib k = map_option (\<lambda>(r, k1). (r = SQLITE_OK, k1)) (run_sql lib ''ROLLBACK'' k)"

text \<open>\<open>%q\<close> of \<open>sqlite3_mprintf\<close> is \<open>sqlite3_quoted\<close>; \<open>sqlite3_get_table\<close> gives the number of rows.\<close>

definition IsTableExist :: "('r, 'd) sqlite \<Rightarrow> string \<Rightarrow> 'd khl_sqlite3 \<Rightarrow> (bool \<times> 'd khl_sqlite3) option" where
  "IsTableExist lib table k =
     do { d \<leftarrow> m_HandleDB k;
          let named = (\<lambda>master. ''SELECT name FROM '' @ master @ '' WHERE type= 'table' AND   name= ''
            @ [CHR 0x27] @ sqlite3_quoted lib (c_str table) @ [CHR 0x27]);
          let (r, message, nrow) = sqlite3_get_table lib (named ''SQLITE_MASTER'' @ '' UNION '' @ named ''SQLITE_TEMP_MASTER'' @ '';'') d;
          Some (r = SQLITE_OK \<and> 0 < nrow, k\<lparr>m_iResult := r, m_ErrorMessage := message\<rparr>) }"

section \<open>A statement\<close>

record adapter =
  sqstmt :: "nat option"
  m_sPreparedSql :: string

definition adapter_new :: adapter where
  "adapter_new = \<lparr>sqstmt = None, m_sPreparedSql = []\<rparr>"

definition Cleanup :: "('r, 'd) sqlite \<Rightarrow> adapter \<Rightarrow> 'd \<Rightarrow> (adapter \<times> 'd) option" where
  "Cleanup lib a d =
     (case sqstmt a of
        None \<Rightarrow> Some (a, d)
      | Some h \<Rightarrow> do { (_, d1) \<leftarrow> sqlite3_finalize lib h d; Some (a\<lparr>sqstmt := None\<rparr>, d1) })"

text \<open>The result of \<open>Prepare\<close> and of every \<open>BindParam\<close> is \<open>true\<close>: an error is only logged.\<close>

definition adapter_Prepare :: "('r, 'd) sqlite \<Rightarrow> string \<Rightarrow> adapter \<Rightarrow> 'd \<Rightarrow> (bool \<times> adapter \<times> 'd) option" where
  "adapter_Prepare lib sql a d =
     do { (a1, d1) \<leftarrow> Cleanup lib (a\<lparr>m_sPreparedSql := sql\<rparr>) d;
          (_, stmt, d2) \<leftarrow> sqlite3_prepare lib sql d1;
          Some (True, a1\<lparr>sqstmt := stmt\<rparr>, d2) }"

definition bind_param :: "('r, 'd) sqlite \<Rightarrow> adapter \<Rightarrow> int \<Rightarrow> 'r sql_value \<Rightarrow> 'd \<Rightarrow> (bool \<times> 'd) option" where
  "bind_param lib a column v d = do { (_, d1) \<leftarrow> sqlite3_bind lib (sqstmt a) column v d; Some (True, d1) }"

definition BindParam_int :: "('r, 'd) sqlite \<Rightarrow> adapter \<Rightarrow> int \<Rightarrow> int \<Rightarrow> 'd \<Rightarrow> (bool \<times> 'd) option" where
  "BindParam_int lib a column v = bind_param lib a column (SInt v)"

definition BindParam_unsigned :: "('r, 'd) sqlite \<Rightarrow> adapter \<Rightarrow> int \<Rightarrow> nat \<Rightarrow> 'd \<Rightarrow> (bool \<times> 'd) option" where
  "BindParam_unsigned lib a column v = bind_param lib a column (SInt (to_int (int v)))"

definition BindParam_bool :: "('r, 'd) sqlite \<Rightarrow> adapter \<Rightarrow> int \<Rightarrow> bool \<Rightarrow> 'd \<Rightarrow> (bool \<times> 'd) option" where
  "BindParam_bool lib a column v = bind_param lib a column (SInt (of_bool v))"

definition BindParam_double :: "('r, 'd) sqlite \<Rightarrow> adapter \<Rightarrow> int \<Rightarrow> 'r \<Rightarrow> 'd \<Rightarrow> (bool \<times> 'd) option" where
  "BindParam_double lib a column v = bind_param lib a column (SReal v)"

definition BindParamNull :: "('r, 'd) sqlite \<Rightarrow> adapter \<Rightarrow> int \<Rightarrow> 'd \<Rightarrow> (bool \<times> 'd) option" where
  "BindParamNull lib a column = bind_param lib a column SNull"

text \<open>
  The text SQLite reads at a pointer: so many bytes, or up to the terminator when the number is negative. The
  bytes are not copied (\<open>SQLITE_STATIC\<close>); the callers keep them until the statement has run.
\<close>

definition passed_text :: "char memory \<Rightarrow> int \<Rightarrow> string option" where
  "passed_text mem n = (if n < 0 then cstr mem else if nat n \<le> length mem then those (take (nat n) mem) else None)"

definition BindParam_string :: "('r, 'd) sqlite \<Rightarrow> adapter \<Rightarrow> int \<Rightarrow> string \<Rightarrow> 'd \<Rightarrow> (bool \<times> 'd) option" where
  "BindParam_string lib a column v d =
     do { s \<leftarrow> passed_text (map Some v @ [Some NUL]) (to_int (int (length v)));
          bind_param lib a column (SText s) d }"

definition BindParamString :: "('r, 'd) sqlite \<Rightarrow> adapter \<Rightarrow> int \<Rightarrow> char memory option \<Rightarrow> int \<Rightarrow> 'd \<Rightarrow> (bool \<times> 'd) option" where
  "BindParamString lib a column v sz d =
     (case v of
        None \<Rightarrow> bind_param lib a column SNull d
      | Some mem \<Rightarrow>
          do { n \<leftarrow> (if sz = -1 then map_option (\<lambda>s. to_int (int (length s))) (cstr mem) else Some sz);
               s \<leftarrow> passed_text mem n;
               bind_param lib a column (SText s) d })"

text \<open>\<open>&data[0]\<close> of an empty vector is undefined; a size an \<open>int\<close> does not hold is not allowed by SQLite.\<close>

definition bind_param_blob :: "('r, 'd) sqlite \<Rightarrow> adapter \<Rightarrow> int \<Rightarrow> 8 word list \<Rightarrow> 'd \<Rightarrow> (bool \<times> 'd) option" where
  "bind_param_blob lib a column bytes d =
     (if bytes = [] \<or> to_int (int (length bytes)) < 0 then None
      else bind_param lib a column (SBlob (take (nat (to_int (int (length bytes)))) bytes)) d)"

text \<open>\<open>GetValue\<close>: the result, and the variable, which keeps its value when the column is NULL.\<close>

definition IsNull :: "('r, 'd) sqlite \<Rightarrow> adapter \<Rightarrow> int \<Rightarrow> 'd \<Rightarrow> bool option" where
  "IsNull lib a column d = map_option (\<lambda>t. t = SQLITE_NULL) (sqlite3_column_type lib (sqstmt a) (column - 1) d)"

definition unless_null :: "('r, 'd) sqlite \<Rightarrow> adapter \<Rightarrow> int \<Rightarrow> 'v \<Rightarrow> 'v option \<Rightarrow> 'd \<Rightarrow> (bool \<times> 'v) option" where
  "unless_null lib a column kept read_value d =
     do { null \<leftarrow> IsNull lib a column d;
          if null then Some (False, kept) else map_option (Pair True) read_value }"

definition GetValue_int :: "('r, 'd) sqlite \<Rightarrow> adapter \<Rightarrow> int \<Rightarrow> int option \<Rightarrow> 'd \<Rightarrow> (bool \<times> int option) option" where
  "GetValue_int lib a column v d =
     unless_null lib a column v (map_option Some (sqlite3_column_int lib (sqstmt a) (column - 1) d)) d"

definition GetValue_unsigned :: "('r, 'd) sqlite \<Rightarrow> adapter \<Rightarrow> int \<Rightarrow> nat option \<Rightarrow> 'd \<Rightarrow> (bool \<times> nat option) option" where
  "GetValue_unsigned lib a column v d =
     unless_null lib a column v (map_option (\<lambda>x. Some (nat (x mod 2 ^ 32))) (sqlite3_column_int lib (sqstmt a) (column - 1) d)) d"

definition GetValue_bool :: "('r, 'd) sqlite \<Rightarrow> adapter \<Rightarrow> int \<Rightarrow> bool option \<Rightarrow> 'd \<Rightarrow> (bool \<times> bool option) option" where
  "GetValue_bool lib a column v d =
     unless_null lib a column v (map_option (\<lambda>x. Some (x = 1)) (sqlite3_column_int lib (sqstmt a) (column - 1) d)) d"

text \<open>A \<open>std::string\<close> is assigned from the text up to its first NUL, and not at all from a null pointer.\<close>

definition GetValue_string :: "('r, 'd) sqlite \<Rightarrow> adapter \<Rightarrow> int \<Rightarrow> string \<Rightarrow> 'd \<Rightarrow> (bool \<times> string) option" where
  "GetValue_string lib a column v d =
     unless_null lib a column v
       (map_option (\<lambda>t. case t of None \<Rightarrow> v | Some s \<Rightarrow> c_str s) (sqlite3_column_text lib (sqstmt a) (column - 1) d)) d"

text \<open>The cast to \<open>float\<close> is \<open>to_float\<close>.\<close>

definition GetValue_float ::
    "('r \<Rightarrow> 'f) \<Rightarrow> ('r, 'd) sqlite \<Rightarrow> adapter \<Rightarrow> int \<Rightarrow> 'f option \<Rightarrow> 'd \<Rightarrow> (bool \<times> 'f option) option" where
  "GetValue_float to_float lib a column v d =
     unless_null lib a column v (map_option (\<lambda>x. Some (to_float x)) (sqlite3_column_double lib (sqstmt a) (column - 1) d)) d"

definition get_value_blob ::
    "('r, 'd) sqlite \<Rightarrow> adapter \<Rightarrow> int \<Rightarrow> 8 word list option \<times> nat \<Rightarrow> 'd \<Rightarrow> (bool \<times> 8 word list option \<times> nat) option" where
  "get_value_blob lib a column v d =
     unless_null lib a column v
       (do { n \<leftarrow> sqlite3_column_bytes lib (sqstmt a) (column - 1) d;
             bytes \<leftarrow> sqlite3_column_blob lib (sqstmt a) (column - 1) d;
             Some (bytes, nat (n mod 2 ^ 64)) }) d"

section \<open>Running a statement\<close>

text \<open>After an error the statement is not reset.\<close>

definition inserter_Exec :: "('r, 'd) sqlite \<Rightarrow> adapter \<Rightarrow> 'd \<Rightarrow> (bool \<times> 'd) option" where
  "inserter_Exec lib a d =
     do { (r, d1) \<leftarrow> sqlite3_step lib (sqstmt a) d;
          if SQLITE_SUCCESSROW r
          then do { (_, d2) \<leftarrow> sqlite3_reset lib (sqstmt a) d1; Some (True, d2) }
          else Some (False, d1) }"

definition PrepareAndExecute :: "('r, 'd) sqlite \<Rightarrow> string \<Rightarrow> adapter \<Rightarrow> 'd \<Rightarrow> (bool \<times> adapter \<times> 'd) option" where
  "PrepareAndExecute lib sql a d =
     do { (ok, a1, d1) \<leftarrow> adapter_Prepare lib sql a d;
          if ok then do { (r, d2) \<leftarrow> inserter_Exec lib a1 d1; Some (r, a1, d2) } else Some (False, a1, d1) }"

definition GetChanges :: "('r, 'd) sqlite \<Rightarrow> 'd \<Rightarrow> int" where
  "GetChanges lib d = sqlite3_changes lib d"

definition GetTotalChanges :: "('r, 'd) sqlite \<Rightarrow> 'd \<Rightarrow> int" where
  "GetTotalChanges lib d = sqlite3_total_changes lib d"

definition reader_MoveNext :: "('r, 'd) sqlite \<Rightarrow> adapter \<Rightarrow> 'd \<Rightarrow> (bool \<times> 'd) option" where
  "reader_MoveNext lib a d = do { (r, d1) \<leftarrow> sqlite3_step lib (sqstmt a) d; Some (r = SQLITE_ROW, d1) }"

definition reader_MoveFirst :: "('r, 'd) sqlite \<Rightarrow> adapter \<Rightarrow> 'd \<Rightarrow> (bool \<times> 'd) option" where
  "reader_MoveFirst lib a d = do { (_, d1) \<leftarrow> sqlite3_reset lib (sqstmt a) d; reader_MoveNext lib a d1 }"

section \<open>The life of the statements\<close>

text \<open>
  What SQLite promises of statements: \<open>live d\<close> are those prepared and not finalized. The functions take a live
  statement or the null pointer.
\<close>

definition usable_stmt :: "('d \<Rightarrow> nat set) \<Rightarrow> nat option \<Rightarrow> 'd \<Rightarrow> bool" where
  "usable_stmt live stmt d \<longleftrightarrow> (\<forall>h. stmt = Some h \<longrightarrow> h \<in> live d)"

definition statement_laws :: "('r, 'd) sqlite \<Rightarrow> ('d \<Rightarrow> nat set) \<Rightarrow> bool" where
  "statement_laws lib live \<longleftrightarrow>
     (\<forall>sql d. \<exists>r stmt d1. sqlite3_prepare lib sql d = Some (r, stmt, d1)
        \<and> (case stmt of None \<Rightarrow> live d1 = live d | Some h \<Rightarrow> h \<notin> live d \<and> live d1 = insert h (live d)))
   \<and> (\<forall>stmt i v d. usable_stmt live stmt d \<longrightarrow> (\<exists>r d1. sqlite3_bind lib stmt i v d = Some (r, d1) \<and> live d1 = live d))
   \<and> (\<forall>stmt d. usable_stmt live stmt d \<longrightarrow> (\<exists>r d1. sqlite3_step lib stmt d = Some (r, d1) \<and> live d1 = live d))
   \<and> (\<forall>stmt d. usable_stmt live stmt d \<longrightarrow> (\<exists>r d1. sqlite3_reset lib stmt d = Some (r, d1) \<and> live d1 = live d))
   \<and> (\<forall>h d. h \<in> live d \<longrightarrow> (\<exists>r d1. sqlite3_finalize lib h d = Some (r, d1) \<and> live d1 = live d - {h}))"

lemma statement_lawsD:
  assumes "statement_laws lib live"
  shows "\<exists>r stmt d1. sqlite3_prepare lib sql d = Some (r, stmt, d1)
        \<and> (case stmt of None \<Rightarrow> live d1 = live d | Some h \<Rightarrow> h \<notin> live d \<and> live d1 = insert h (live d))"
    and "usable_stmt live stmt d \<Longrightarrow> \<exists>r d1. sqlite3_bind lib stmt i v d = Some (r, d1) \<and> live d1 = live d"
    and "usable_stmt live stmt d \<Longrightarrow> \<exists>r d1. sqlite3_step lib stmt d = Some (r, d1) \<and> live d1 = live d"
    and "usable_stmt live stmt d \<Longrightarrow> \<exists>r d1. sqlite3_reset lib stmt d = Some (r, d1) \<and> live d1 = live d"
    and "h \<in> live d \<Longrightarrow> \<exists>r d1. sqlite3_finalize lib h d = Some (r, d1) \<and> live d1 = live d - {h}"
  using assms by (simp_all add: statement_laws_def)

text \<open>The objects a program has, by number, and what it does with them.\<close>

datatype 'r adapter_op =
  Construct nat | Destroy nat | Prepare nat string | Bind nat int "'r sql_value" | Exec nat | Prepare_And_Execute nat string
| Move_First nat | Move_Next nat | Clean nat

type_synonym adapters = "nat \<Rightarrow> adapter option"

fun run_op :: "('r, 'd) sqlite \<Rightarrow> 'r adapter_op \<Rightarrow> adapters \<times> 'd \<Rightarrow> (adapters \<times> 'd) option" where
  "run_op lib (Construct i) (as, d) = Some (as(i \<mapsto> adapter_new), d)"
| "run_op lib (Destroy i) (as, d) = do { a \<leftarrow> as i; (_, d1) \<leftarrow> Cleanup lib a d; Some (as(i := None), d1) }"
| "run_op lib (Prepare i sql) (as, d) = do { a \<leftarrow> as i; (_, a1, d1) \<leftarrow> adapter_Prepare lib sql a d; Some (as(i \<mapsto> a1), d1) }"
| "run_op lib (Bind i c v) (as, d) = do { a \<leftarrow> as i; (_, d1) \<leftarrow> bind_param lib a c v d; Some (as, d1) }"
| "run_op lib (Exec i) (as, d) = do { a \<leftarrow> as i; (_, d1) \<leftarrow> inserter_Exec lib a d; Some (as, d1) }"
| "run_op lib (Prepare_And_Execute i sql) (as, d) =
     do { a \<leftarrow> as i; (_, a1, d1) \<leftarrow> PrepareAndExecute lib sql a d; Some (as(i \<mapsto> a1), d1) }"
| "run_op lib (Move_First i) (as, d) = do { a \<leftarrow> as i; (_, d1) \<leftarrow> reader_MoveFirst lib a d; Some (as, d1) }"
| "run_op lib (Move_Next i) (as, d) = do { a \<leftarrow> as i; (_, d1) \<leftarrow> reader_MoveNext lib a d; Some (as, d1) }"
| "run_op lib (Clean i) (as, d) = do { a \<leftarrow> as i; (a1, d1) \<leftarrow> Cleanup lib a d; Some (as(i \<mapsto> a1), d1) }"

fun run_ops :: "('r, 'd) sqlite \<Rightarrow> 'r adapter_op list \<Rightarrow> adapters \<times> 'd \<Rightarrow> (adapters \<times> 'd) option" where
  "run_ops lib [] st = Some st"
| "run_ops lib (op # ops) st = do { st1 \<leftarrow> run_op lib op st; run_ops lib ops st1 }"

text \<open>The objects after an operation: a program constructs an object before it uses it, and each place once.\<close>

fun objects_after :: "'r adapter_op \<Rightarrow> nat set \<Rightarrow> nat set option" where
  "objects_after (Construct i) A = (if i \<in> A then None else Some (insert i A))"
| "objects_after (Destroy i) A = (if i \<in> A then Some (A - {i}) else None)"
| "objects_after (Prepare i sql) A = (if i \<in> A then Some A else None)"
| "objects_after (Bind i c v) A = (if i \<in> A then Some A else None)"
| "objects_after (Exec i) A = (if i \<in> A then Some A else None)"
| "objects_after (Prepare_And_Execute i sql) A = (if i \<in> A then Some A else None)"
| "objects_after (Move_First i) A = (if i \<in> A then Some A else None)"
| "objects_after (Move_Next i) A = (if i \<in> A then Some A else None)"
| "objects_after (Clean i) A = (if i \<in> A then Some A else None)"

fun objects_left :: "'r adapter_op list \<Rightarrow> nat set \<Rightarrow> nat set option" where
  "objects_left [] A = Some A"
| "objects_left (op # ops) A = do { A1 \<leftarrow> objects_after op A; objects_left ops A1 }"

text \<open>The live statements are the old ones and those the objects hold, each held by one object.\<close>

definition stmt_set :: "adapter option \<Rightarrow> nat set" where
  "stmt_set ao = (case ao of None \<Rightarrow> {} | Some a \<Rightarrow> set_option (sqstmt a))"

definition held :: "adapters \<Rightarrow> nat set" where
  "held as = (\<Union>i. stmt_set (as i))"

definition statements_owned :: "('d \<Rightarrow> nat set) \<Rightarrow> nat set \<Rightarrow> adapters \<times> 'd \<Rightarrow> bool" where
  "statements_owned live old st \<longleftrightarrow> live (snd st) = old \<union> held (fst st) \<and> old \<inter> held (fst st) = {}
     \<and> (\<forall>i j. i \<noteq> j \<longrightarrow> stmt_set (fst st i) \<inter> stmt_set (fst st j) = {})"

text \<open>What an operation on one object does to the live statements.\<close>

definition own_change :: "('d \<Rightarrow> nat set) \<Rightarrow> adapter option \<Rightarrow> 'd \<Rightarrow> adapter option \<Rightarrow> 'd \<Rightarrow> bool" where
  "own_change live ao d ao1 d1 \<longleftrightarrow> live d1 = (live d - stmt_set ao) \<union> stmt_set ao1 \<and> stmt_set ao1 \<inter> (live d - stmt_set ao) = {}"

lemma stmt_set_simps [simp]: "stmt_set None = {}" "stmt_set (Some a) = set_option (sqstmt a)" "sqstmt adapter_new = None"
  by (simp_all add: stmt_set_def adapter_new_def)

lemma held_other: "held (as(i := x)) = stmt_set x \<union> (\<Union>j \<in> - {i}. stmt_set (as j))"
  by (auto simp: held_def split: if_splits)

lemma owned_change:
  assumes "statements_owned live old (as, d)" and "own_change live (as i) d ao1 d1"
  shows "statements_owned live old (as(i := ao1), d1)"
proof -
  have all: "held as = stmt_set (as i) \<union> (\<Union>j \<in> - {i}. stmt_set (as j))" using held_other [of as i "as i"] by simp
  have rest: "live d - stmt_set (as i) = old \<union> (\<Union>j \<in> - {i}. stmt_set (as j))"
    using assms(1) by (fastforce simp: statements_owned_def all)
  have "stmt_set ao1 \<inter> stmt_set (as j) = {}" if "j \<noteq> i" for j
    using assms(2) that unfolding own_change_def rest by blast
  then show ?thesis using assms rest
    by (auto simp: statements_owned_def own_change_def held_other all)
qed

lemma owned_usable:
  assumes "statements_owned live old (as, d)" and "as i = Some a"
  shows "usable_stmt live (sqstmt a) d"
proof -
  have "set_option (sqstmt a) \<subseteq> held as" using assms(2) UN_upper [of i UNIV "\<lambda>i. stmt_set (as i)"] by (simp add: held_def)
  then show ?thesis using assms(1) by (auto simp: statements_owned_def usable_stmt_def)
qed

lemma own_change_refl: "live d1 = live d \<Longrightarrow> usable_stmt live (sqstmt a) d \<Longrightarrow> own_change live (Some a) d (Some a) d1"
  by (auto simp: own_change_def usable_stmt_def)

lemma Cleanup_change:
  assumes "statement_laws lib live" and "usable_stmt live (sqstmt a) d"
  shows "\<exists>a1 d1. Cleanup lib a d = Some (a1, d1) \<and> sqstmt a1 = None \<and> live d1 = live d - set_option (sqstmt a)"
  using assms(2) statement_lawsD(5) [OF assms(1), of _ d]
  by (cases "sqstmt a") (fastforce simp: Cleanup_def usable_stmt_def)+

lemma Prepare_change:
  assumes "statement_laws lib live" and "usable_stmt live (sqstmt a) d"
  shows "\<exists>a1 d1. adapter_Prepare lib sql a d = Some (True, a1, d1) \<and> own_change live (Some a) d (Some a1) d1
     \<and> usable_stmt live (sqstmt a1) d1"
proof -
  obtain a1 d1 where 1: "Cleanup lib (a\<lparr>m_sPreparedSql := sql\<rparr>) d = Some (a1, d1)" "sqstmt a1 = None"
    "live d1 = live d - set_option (sqstmt a)"
    using Cleanup_change [OF assms(1), of "a\<lparr>m_sPreparedSql := sql\<rparr>" d] assms(2) by auto
  obtain r stmt d2 where 2: "sqlite3_prepare lib sql d1 = Some (r, stmt, d2)"
    "case stmt of None \<Rightarrow> live d2 = live d1 | Some h \<Rightarrow> h \<notin> live d1 \<and> live d2 = insert h (live d1)"
    using statement_lawsD(1) [OF assms(1)] by blast
  then have "own_change live (Some a) d (Some (a1\<lparr>sqstmt := stmt\<rparr>)) d2" "usable_stmt live stmt d2"
    using 1(3) by (auto simp: own_change_def usable_stmt_def split: option.splits)
  then show ?thesis using 1 2 by (auto simp: adapter_Prepare_def)
qed

lemma run_change:
  assumes "statement_laws lib live" and "usable_stmt live (sqstmt a) d"
  shows "\<exists>d1. bind_param lib a c v d = Some (True, d1) \<and> live d1 = live d"
    and "\<exists>r d1. inserter_Exec lib a d = Some (r, d1) \<and> live d1 = live d"
    and "\<exists>r d1. reader_MoveNext lib a d = Some (r, d1) \<and> live d1 = live d"
    and "\<exists>r d1. reader_MoveFirst lib a d = Some (r, d1) \<and> live d1 = live d"
proof -
  have later: "usable_stmt live (sqstmt a) d1" if "live d1 = live d" for d1 using assms(2) that by (simp add: usable_stmt_def)
  obtain r d1 where step: "sqlite3_step lib (sqstmt a) d = Some (r, d1)" "live d1 = live d"
    using statement_lawsD(3) [OF assms] by blast
  obtain r2 d2 where reset: "sqlite3_reset lib (sqstmt a) d = Some (r2, d2)" "live d2 = live d"
    using statement_lawsD(4) [OF assms] by blast
  show "\<exists>d1. bind_param lib a c v d = Some (True, d1) \<and> live d1 = live d"
    using statement_lawsD(2) [OF assms, of c v] by (auto simp: bind_param_def)
  show "\<exists>r d1. inserter_Exec lib a d = Some (r, d1) \<and> live d1 = live d"
    using step statement_lawsD(4) [OF assms(1) later [OF step(2)]] by (auto simp: inserter_Exec_def)
  show "\<exists>r d1. reader_MoveNext lib a d = Some (r, d1) \<and> live d1 = live d"
    using step by (auto simp: reader_MoveNext_def)
  show "\<exists>r d1. reader_MoveFirst lib a d = Some (r, d1) \<and> live d1 = live d"
    using reset statement_lawsD(3) [OF assms(1) later [OF reset(2)]] by (auto simp: reader_MoveFirst_def reader_MoveNext_def)
qed

lemma PrepareAndExecute_change:
  assumes "statement_laws lib live" and "usable_stmt live (sqstmt a) d"
  shows "\<exists>r a1 d1. PrepareAndExecute lib sql a d = Some (r, a1, d1) \<and> own_change live (Some a) d (Some a1) d1"
proof -
  obtain a1 d1 where 1: "adapter_Prepare lib sql a d = Some (True, a1, d1)" "own_change live (Some a) d (Some a1) d1"
    "usable_stmt live (sqstmt a1) d1"
    using Prepare_change [OF assms] by blast
  obtain r d2 where "inserter_Exec lib a1 d1 = Some (r, d2)" "live d2 = live d1" using run_change(2) [OF assms(1) 1(3)] by blast
  then show ?thesis using 1(1,2) by (auto simp: PrepareAndExecute_def own_change_def)
qed

lemma run_op_owned:
  assumes laws: "statement_laws lib live" and owned: "statements_owned live old (as, d)" and dom: "objects_after op (dom as) = Some A"
  shows "\<exists>as1 d1. run_op lib op (as, d) = Some (as1, d1) \<and> statements_owned live old (as1, d1) \<and> dom as1 = A"
proof -
  note use = owned_usable [OF owned]
  have keep: "statements_owned live old (as, d1)" if "as i = Some a" "live d1 = live d" for i a d1
    using owned that(2) by (simp add: statements_owned_def)
  have change: "\<exists>as1 d2. Some (as(i := ao1), d1) = Some (as1, d2) \<and> statements_owned live old (as1, d2) \<and> dom as1 = dom (as(i := ao1))"
    if "own_change live (as i) d ao1 d1" for i ao1 d1
    using owned_change [OF owned that] by simp
  show ?thesis
  proof (cases op)
    case (Construct i)
    then have "as i = None" "A = insert i (dom as)" using dom by (auto split: if_splits)
    then show ?thesis using Construct change [of i "Some adapter_new" d] by (simp add: own_change_def)
  next
    case (Destroy i)
    then obtain a where a: "as i = Some a" "A = dom as - {i}" using dom by (auto split: if_splits)
    obtain a1 d1 where 1: "Cleanup lib a d = Some (a1, d1)" "live d1 = live d - set_option (sqstmt a)"
      using Cleanup_change [OF laws use [OF a(1)]] by blast
    then have "own_change live (as i) d None d1" using a by (simp add: own_change_def)
    with change show ?thesis using Destroy a 1(1) by auto
  next
    case (Clean i)
    then obtain a where a: "as i = Some a" "A = dom as" using dom by (auto split: if_splits)
    obtain a1 d1 where 1: "Cleanup lib a d = Some (a1, d1)" "sqstmt a1 = None" "live d1 = live d - set_option (sqstmt a)"
      using Cleanup_change [OF laws use [OF a(1)]] by blast
    then have "own_change live (as i) d (Some a1) d1" using a by (simp add: own_change_def)
    with change show ?thesis using Clean a 1(1) by (auto simp: insert_absorb domI)
  next
    case (Prepare i sql)
    then obtain a where a: "as i = Some a" "A = dom as" using dom by (auto split: if_splits)
    with Prepare_change [OF laws use [OF a(1)], of sql] change show ?thesis using Prepare by (fastforce simp: insert_absorb domI)
  next
    case (Prepare_And_Execute i sql)
    then obtain a where a: "as i = Some a" "A = dom as" using dom by (auto split: if_splits)
    with PrepareAndExecute_change [OF laws use [OF a(1)], of sql] change show ?thesis
      using Prepare_And_Execute by (fastforce simp: insert_absorb domI)
  next
    case (Bind i c v)
    then obtain a where a: "as i = Some a" "A = dom as" using dom by (auto split: if_splits)
    with run_change(1) [OF laws use [OF a(1)], of c v] keep show ?thesis using Bind by fastforce
  next
    case (Exec i)
    then obtain a where a: "as i = Some a" "A = dom as" using dom by (auto split: if_splits)
    with run_change(2) [OF laws use [OF a(1)]] keep show ?thesis using Exec by fastforce
  next
    case (Move_First i)
    then obtain a where a: "as i = Some a" "A = dom as" using dom by (auto split: if_splits)
    with run_change(4) [OF laws use [OF a(1)]] keep show ?thesis using Move_First by fastforce
  next
    case (Move_Next i)
    then obtain a where a: "as i = Some a" "A = dom as" using dom by (auto split: if_splits)
    with run_change(3) [OF laws use [OF a(1)]] keep show ?thesis using Move_Next by fastforce
  qed
qed

lemma run_ops_owned:
  assumes "statement_laws lib live"
  shows "statements_owned live old (as, d) \<Longrightarrow> objects_left ops (dom as) = Some A \<Longrightarrow>
     \<exists>as1 d1. run_ops lib ops (as, d) = Some (as1, d1) \<and> statements_owned live old (as1, d1) \<and> dom as1 = A"
proof (induction ops arbitrary: as d)
  case (Cons op ops)
  then obtain B where B: "objects_after op (dom as) = Some B" "objects_left ops B = Some A" by (auto simp: bind_eq_Some_conv)
  from run_op_owned [OF assms Cons.prems(1) B(1)] obtain as1 d1 where
    "run_op lib op (as, d) = Some (as1, d1)" "statements_owned live old (as1, d1)" "dom as1 = B" by blast
  with Cons.IH [of as1 d1] B(2) show ?case by simp
qed auto

section \<open>What SQLite documents\<close>

text \<open>
  A view of a connection: its table and the statements prepared, each with its text, the values bound and, once it has
  been stepped, the rows to come with the current one first. \<open>run\<close> is the effect of a statement on the table and
  the rows it gives, \<open>known\<close> the statements it is about. A cursor is only promised to go on while the table is the one it started on.
\<close>

record ('r, 't) sq_stmt =
  st_sql :: string
  st_params :: "int \<Rightarrow> 'r sql_value"
  st_rows :: "('r sql_value list list \<times> 't) option"

record ('r, 't) sq_view =
  v_table :: 't
  v_stmts :: "nat \<Rightarrow> ('r, 't) sq_stmt option"

type_synonym ('r, 't) sql_effect = "string \<Rightarrow> (int \<Rightarrow> 'r sql_value) \<Rightarrow> 't \<Rightarrow> ('r sql_value list list \<times> 't) option"

definition put_stmt :: "nat \<Rightarrow> ('r, 't) sq_stmt option \<Rightarrow> ('r, 't) sq_view \<Rightarrow> ('r, 't) sq_view" where
  "put_stmt h s v = v\<lparr>v_stmts := (v_stmts v)(h := s)\<rparr>"

definition new_stmt :: "string \<Rightarrow> ('r, 't) sq_stmt" where
  "new_stmt sql = \<lparr>st_sql = sql, st_params = \<lambda>_. SNull, st_rows = None\<rparr>"

definition places :: "string \<Rightarrow> int" where
  "places sql = int (length (filter (\<lambda>c. c = CHR ''?'') sql))"

fun type_code :: "'r sql_value \<Rightarrow> int" where
  "type_code (SInt _) = 1" | "type_code (SReal _) = 2" | "type_code (SText _) = 3" | "type_code (SBlob _) = 4" | "type_code SNull = SQLITE_NULL"

definition step_code :: "'a list \<Rightarrow> int" where
  "step_code rows = (if rows = [] then SQLITE_DONE else SQLITE_ROW)"

definition documented_sqlite ::
    "(string \<Rightarrow> bool) \<Rightarrow> ('r, 't) sql_effect \<Rightarrow> ('r, 'd) sqlite \<Rightarrow> ('d \<Rightarrow> ('r, 't) sq_view) \<Rightarrow> bool" where
  "documented_sqlite known run lib view \<longleftrightarrow>
     (\<forall>sql d. known sql \<longrightarrow> (\<exists>h d1. sqlite3_prepare lib sql d = Some (SQLITE_OK, Some h, d1)
        \<and> v_stmts (view d) h = None \<and> view d1 = put_stmt h (Some (new_stmt sql)) (view d)))
   \<and> (\<forall>h i x d s. v_stmts (view d) h = Some s \<and> st_rows s = None \<and> 1 \<le> i \<and> i \<le> places (st_sql s) \<longrightarrow>
        (\<exists>d1. sqlite3_bind lib (Some h) i x d = Some (SQLITE_OK, d1)
          \<and> view d1 = put_stmt h (Some (s\<lparr>st_params := (st_params s)(i := x)\<rparr>)) (view d)))
   \<and> (\<forall>h d s rows t. v_stmts (view d) h = Some s \<and> st_rows s = None \<and> run (st_sql s) (st_params s) (v_table (view d)) = Some (rows, t) \<longrightarrow>
        (\<exists>d1. sqlite3_step lib (Some h) d = Some (step_code rows, d1)
          \<and> view d1 = put_stmt h (Some (s\<lparr>st_rows := Some (rows, t)\<rparr>)) (view d\<lparr>v_table := t\<rparr>)))
   \<and> (\<forall>h d s r rows. v_stmts (view d) h = Some s \<and> st_rows s = Some (r # rows, v_table (view d)) \<longrightarrow>
        (\<exists>d1. sqlite3_step lib (Some h) d = Some (step_code rows, d1)
          \<and> view d1 = put_stmt h (Some (s\<lparr>st_rows := Some (rows, v_table (view d))\<rparr>)) (view d)))
   \<and> (\<forall>h d s. v_stmts (view d) h = Some s \<longrightarrow>
        (\<exists>d1. sqlite3_reset lib (Some h) d = Some (SQLITE_OK, d1) \<and> view d1 = put_stmt h (Some (s\<lparr>st_rows := None\<rparr>)) (view d)))
   \<and> (\<forall>h d s. v_stmts (view d) h = Some s \<longrightarrow>
        (\<exists>d1. sqlite3_finalize lib h d = Some (SQLITE_OK, d1) \<and> view d1 = put_stmt h None (view d)))
   \<and> (\<forall>h d s r rows t i. v_stmts (view d) h = Some s \<and> st_rows s = Some (r # rows, t) \<and> i < length r \<longrightarrow>
        sqlite3_column_type lib (Some h) (int i) d = Some (type_code (r ! i))
      \<and> (\<forall>x. r ! i = SInt x \<and> - (2 ^ 31) \<le> x \<and> x < 2 ^ 31 \<longrightarrow> sqlite3_column_int lib (Some h) (int i) d = Some x)
      \<and> (\<forall>x. r ! i = SText x \<longrightarrow> sqlite3_column_text lib (Some h) (int i) d = Some (Some x)))"

lemma put_stmt_simps [simp]:
  "v_table (put_stmt h s v) = v_table v" "v_stmts (put_stmt h s v) = (v_stmts v)(h := s)"
  "put_stmt h s (put_stmt h s' v) = put_stmt h s v" "(put_stmt h s v)\<lparr>v_table := t\<rparr> = put_stmt h s (v\<lparr>v_table := t\<rparr>)"
  by (simp_all add: put_stmt_def)

lemma put_stmt_swap: "h \<noteq> h' \<Longrightarrow> put_stmt h s (put_stmt h' s' v) = put_stmt h' s' (put_stmt h s v)"
  by (simp add: put_stmt_def fun_upd_twist)

lemma put_stmt_free: "v_stmts v h = None \<Longrightarrow> put_stmt h None v = v"
  by (simp add: put_stmt_def fun_upd_idem)

lemma documentedD:
  assumes "documented_sqlite known run lib view"
  shows "known sql \<Longrightarrow> \<exists>h d1. sqlite3_prepare lib sql d = Some (SQLITE_OK, Some h, d1)
        \<and> v_stmts (view d) h = None \<and> view d1 = put_stmt h (Some (new_stmt sql)) (view d)"
    and "v_stmts (view d) h = Some s \<Longrightarrow> st_rows s = None \<Longrightarrow> 1 \<le> i \<Longrightarrow> i \<le> places (st_sql s) \<Longrightarrow>
        \<exists>d1. sqlite3_bind lib (Some h) i x d = Some (SQLITE_OK, d1)
          \<and> view d1 = put_stmt h (Some (s\<lparr>st_params := (st_params s)(i := x)\<rparr>)) (view d)"
    and "v_stmts (view d) h = Some s \<Longrightarrow> st_rows s = None \<Longrightarrow> run (st_sql s) (st_params s) (v_table (view d)) = Some (rows, t) \<Longrightarrow>
        \<exists>d1. sqlite3_step lib (Some h) d = Some (step_code rows, d1)
          \<and> view d1 = put_stmt h (Some (s\<lparr>st_rows := Some (rows, t)\<rparr>)) (view d\<lparr>v_table := t\<rparr>)"
    and "v_stmts (view d) h = Some s \<Longrightarrow> st_rows s = Some (r # rows, v_table (view d)) \<Longrightarrow>
        \<exists>d1. sqlite3_step lib (Some h) d = Some (step_code rows, d1)
          \<and> view d1 = put_stmt h (Some (s\<lparr>st_rows := Some (rows, v_table (view d))\<rparr>)) (view d)"
    and "v_stmts (view d) h = Some s \<Longrightarrow> \<exists>d1. sqlite3_reset lib (Some h) d = Some (SQLITE_OK, d1)
          \<and> view d1 = put_stmt h (Some (s\<lparr>st_rows := None\<rparr>)) (view d)"
    and "v_stmts (view d) h = Some s \<Longrightarrow> \<exists>d1. sqlite3_finalize lib h d = Some (SQLITE_OK, d1) \<and> view d1 = put_stmt h None (view d)"
    and "v_stmts (view d) h = Some s \<Longrightarrow> st_rows s = Some (r # rows, t) \<Longrightarrow> k < length r \<Longrightarrow>
        sqlite3_column_type lib (Some h) (int k) d = Some (type_code (r ! k))
      \<and> (\<forall>x. r ! k = SInt x \<and> - (2 ^ 31) \<le> x \<and> x < 2 ^ 31 \<longrightarrow> sqlite3_column_int lib (Some h) (int k) d = Some x)
      \<and> (\<forall>x. r ! k = SText x \<longrightarrow> sqlite3_column_text lib (Some h) (int k) d = Some (Some x))"
  using assms unfolding documented_sqlite_def by (elim conjE; simp)+

text \<open>What the operations of the wrapper do then; \<open>v\<close> is the view without the statement at hand.\<close>

lemma prepared:
  assumes "documented_sqlite known run lib view" and "sqstmt a = None" and "known sql"
  shows "\<exists>h a1 d1. adapter_Prepare lib sql a d = Some (True, a1, d1) \<and> sqstmt a1 = Some h \<and> v_stmts (view d) h = None
     \<and> view d1 = put_stmt h (Some (new_stmt sql)) (view d)"
  using documentedD(1) [OF assms(1,3), of d] assms(2) by (fastforce simp: adapter_Prepare_def Cleanup_def)

lemma bound:
  assumes "documented_sqlite known run lib view" and "sqstmt a = Some h" and "view d = put_stmt h (Some s) v"
    and "st_rows s = None" and "1 \<le> i" and "i \<le> places (st_sql s)"
  shows "\<exists>d1. bind_param lib a i x d = Some (True, d1) \<and> view d1 = put_stmt h (Some (s\<lparr>st_params := (st_params s)(i := x)\<rparr>)) v"
  using documentedD(2) [OF assms(1) _ assms(4-6), of d h x] assms(2,3) by (fastforce simp: bind_param_def)

lemma executed:
  assumes "documented_sqlite known run lib view" and "sqstmt a = Some h" and "view d = put_stmt h (Some s) v"
    and "st_rows s = None" and "run (st_sql s) (st_params s) (v_table v) = Some (rows, t)"
  shows "\<exists>d1. inserter_Exec lib a d = Some (True, d1) \<and> view d1 = put_stmt h (Some s) (v\<lparr>v_table := t\<rparr>)"
proof -
  obtain d1 where 1: "sqlite3_step lib (Some h) d = Some (step_code rows, d1)"
    "view d1 = put_stmt h (Some (s\<lparr>st_rows := Some (rows, t)\<rparr>)) (v\<lparr>v_table := t\<rparr>)"
    using documentedD(3) [OF assms(1) _ assms(4), of d h rows t] assms(3,5) by auto
  obtain d2 where "sqlite3_reset lib (Some h) d1 = Some (SQLITE_OK, d2)" "view d2 = put_stmt h (Some (s\<lparr>st_rows := None\<rparr>)) (v\<lparr>v_table := t\<rparr>)"
    using documentedD(5) [OF assms(1), of d1 h] 1(2) by fastforce
  moreover have "s\<lparr>st_rows := None\<rparr> = s" using assms(4) by simp
  moreover have "SQLITE_SUCCESSROW (step_code rows)" by (simp add: SQLITE_SUCCESSROW_def SQLITE_SUCCESS_def step_code_def)
  ultimately show ?thesis using 1(1) assms(2) by (simp add: inserter_Exec_def)
qed

lemma moved_first:
  assumes "documented_sqlite known run lib view" and "sqstmt a = Some h" and "view d = put_stmt h (Some s) v"
    and "st_rows s = None" and "run (st_sql s) (st_params s) (v_table v) = Some (rows, t)"
  shows "\<exists>d1. reader_MoveFirst lib a d = Some (rows \<noteq> [], d1)
     \<and> view d1 = put_stmt h (Some (s\<lparr>st_rows := Some (rows, t)\<rparr>)) (v\<lparr>v_table := t\<rparr>)"
proof -
  obtain d1 where 1: "sqlite3_reset lib (Some h) d = Some (SQLITE_OK, d1)" "view d1 = put_stmt h (Some (s\<lparr>st_rows := None\<rparr>)) v"
    using documentedD(5) [OF assms(1), of d h] assms(3) by fastforce
  have s: "s\<lparr>st_rows := None\<rparr> = s" using assms(4) by simp
  obtain d2 where "sqlite3_step lib (Some h) d1 = Some (step_code rows, d2)"
    "view d2 = put_stmt h (Some (s\<lparr>st_rows := Some (rows, t)\<rparr>)) (v\<lparr>v_table := t\<rparr>)"
    using documentedD(3) [OF assms(1) _ assms(4), of d1 h rows t] assms(5) 1(2) s by auto
  then show ?thesis using 1(1) assms(2) by (auto simp: reader_MoveFirst_def reader_MoveNext_def step_code_def)
qed

lemma moved_next:
  assumes "documented_sqlite known run lib view" and "sqstmt a = Some h" and "view d = put_stmt h (Some s) v"
    and "st_rows s = Some (r # rows, v_table v)"
  shows "\<exists>d1. reader_MoveNext lib a d = Some (rows \<noteq> [], d1)
     \<and> view d1 = put_stmt h (Some (s\<lparr>st_rows := Some (rows, v_table v)\<rparr>)) v"
  using documentedD(4) [OF assms(1), of d h s r rows] assms(2-4) by (auto simp: reader_MoveNext_def step_code_def)

lemma cleaned:
  assumes "documented_sqlite known run lib view" and "sqstmt a = Some h" and "view d = put_stmt h (Some s) v" and "v_stmts v h = None"
  shows "\<exists>d1. Cleanup lib a d = Some (a\<lparr>sqstmt := None\<rparr>, d1) \<and> view d1 = v"
  using documentedD(6) [OF assms(1), of d h] assms(2-4) by (fastforce simp: Cleanup_def put_stmt_free)

lemma column_read:
  assumes "documented_sqlite known run lib view" and "sqstmt a = Some h" and "view d = put_stmt h (Some s) v"
    and "st_rows s = Some (r # rows, t)" and "i < length r"
  shows "r ! i = SText x \<Longrightarrow> GetValue_string lib a (int (Suc i)) w d = Some (True, c_str x)"
    and "r ! i = SInt y \<Longrightarrow> - (2 ^ 31) \<le> y \<Longrightarrow> y < 2 ^ 31 \<Longrightarrow> GetValue_int lib a (int (Suc i)) z d = Some (True, Some y)"
  using documentedD(7) [OF assms(1) _ assms(4,5), of d h] assms(2,3)
  by (simp_all add: GetValue_string_def GetValue_int_def unless_null_def IsNull_def)

lemma passed_whole: "length s < 2 ^ 31 \<Longrightarrow> passed_text (map Some s @ [Some NUL]) (to_int (int (length s))) = Some s"
  by (simp add: passed_text_def to_int_small those_map_Some)


section \<open>A library that keeps the promises\<close>

type_synonym ('r, 't) machine = "'t \<times> ('r, 't) sq_stmt option list"

definition machine_view :: "('r, 't) machine \<Rightarrow> ('r, 't) sq_view" where
  "machine_view m = \<lparr>v_table = fst m, v_stmts = \<lambda>h. if h < length (snd m) then snd m ! h else None\<rparr>"

text \<open>A call on a statement: 21 is \<open>SQLITE_MISUSE\<close>.\<close>

definition on_stmt ::
    "nat option \<Rightarrow> (('r, 't) sq_stmt \<Rightarrow> 't \<Rightarrow> int \<times> ('r, 't) sq_stmt option \<times> 't) \<Rightarrow> ('r, 't) machine \<Rightarrow> (int \<times> ('r, 't) machine) option" where
  "on_stmt stmt f m =
     (case stmt of
        None \<Rightarrow> Some (21, m)
      | Some h \<Rightarrow> do { s \<leftarrow> v_stmts (machine_view m) h; let (r, s1, t) = f s (fst m); Some (r, t, (snd m)[h := s1]) })"

definition current_row :: "nat option \<Rightarrow> ('r, 't) machine \<Rightarrow> 'r sql_value list option" where
  "current_row stmt m =
     do { h \<leftarrow> stmt; s \<leftarrow> v_stmts (machine_view m) h; (rows, t) \<leftarrow> st_rows s; case rows of [] \<Rightarrow> None | r # _ \<Rightarrow> Some r }"

definition current_value :: "nat option \<Rightarrow> int \<Rightarrow> ('r, 't) machine \<Rightarrow> 'r sql_value option" where
  "current_value stmt i m = do { r \<leftarrow> current_row stmt m; if 0 \<le> i \<and> nat i < length r then Some (r ! nat i) else None }"

fun machine_step :: "('r, 't) sql_effect \<Rightarrow> ('r, 't) sq_stmt \<Rightarrow> 't \<Rightarrow> int \<times> ('r, 't) sq_stmt option \<times> 't" where
  "machine_step run s t =
     (case st_rows s of
        None \<Rightarrow> (case run (st_sql s) (st_params s) t of
                   None \<Rightarrow> (1, Some s, t)
                 | Some (rows, t1) \<Rightarrow> (step_code rows, Some (s\<lparr>st_rows := Some (rows, t1)\<rparr>), t1))
      | Some ([], _) \<Rightarrow> (21, Some s, t)
      | Some (r # rows, t1) \<Rightarrow> (step_code rows, Some (s\<lparr>st_rows := Some (rows, t1)\<rparr>), t))"

definition machine_sqlite :: "('r, 't) sql_effect \<Rightarrow> 't \<Rightarrow> ('r, ('r, 't) machine) sqlite" where
  "machine_sqlite run t0 =
     \<lparr>sqlite3_open = \<lambda>path. (SQLITE_OK, Some (t0, [])), sqlite3_close = \<lambda>m. SQLITE_OK,
      sqlite3_enable_load_extension = \<lambda>m. m, sqlite3_exec = \<lambda>sql m. (SQLITE_OK, None, m), sqlite3_quoted = \<lambda>s. s,
      sqlite3_get_table = \<lambda>sql m. (SQLITE_OK, None, 1),
      sqlite3_prepare = \<lambda>sql m. Some (SQLITE_OK, Some (length (snd m)), fst m, snd m @ [Some (new_stmt sql)]),
      sqlite3_bind = \<lambda>stmt i x. on_stmt stmt (\<lambda>s t.
        if st_rows s = None \<and> 1 \<le> i \<and> i \<le> places (st_sql s)
        then (SQLITE_OK, Some (s\<lparr>st_params := (st_params s)(i := x)\<rparr>), t) else (21, Some s, t)),
      sqlite3_step = \<lambda>stmt. on_stmt stmt (machine_step run),
      sqlite3_reset = \<lambda>stmt. on_stmt stmt (\<lambda>s t. (SQLITE_OK, Some (s\<lparr>st_rows := None\<rparr>), t)),
      sqlite3_finalize = \<lambda>h. on_stmt (Some h) (\<lambda>s t. (SQLITE_OK, None, t)),
      sqlite3_column_type = \<lambda>stmt i m. Some (case current_value stmt i m of None \<Rightarrow> SQLITE_NULL | Some x \<Rightarrow> type_code x),
      sqlite3_column_int = \<lambda>stmt i m. Some (case current_value stmt i m of Some (SInt x) \<Rightarrow> to_int x | _ \<Rightarrow> 0),
      sqlite3_column_double = \<lambda>stmt i m. (case current_value stmt i m of Some (SReal x) \<Rightarrow> Some x | _ \<Rightarrow> None),
      sqlite3_column_text = \<lambda>stmt i m. Some (case current_value stmt i m of Some (SText x) \<Rightarrow> Some x | _ \<Rightarrow> None),
      sqlite3_column_bytes = \<lambda>stmt i m. Some (case current_value stmt i m of Some (SBlob x) \<Rightarrow> int (length x) | _ \<Rightarrow> 0),
      sqlite3_column_blob = \<lambda>stmt i m. Some (case current_value stmt i m of Some (SBlob x) \<Rightarrow> Some x | _ \<Rightarrow> None),
      sqlite3_changes = \<lambda>m. 0, sqlite3_total_changes = \<lambda>m. 0\<rparr>"

lemma on_stmt_live:
  assumes "v_stmts (machine_view m) h = Some s" and "f s (fst m) = (r, s1, t)"
  shows "on_stmt (Some h) f m = Some (r, t, (snd m)[h := s1])"
    and "machine_view (t, (snd m)[h := s1]) = put_stmt h s1 (machine_view m\<lparr>v_table := t\<rparr>)"
  using assms by (auto simp: on_stmt_def machine_view_def put_stmt_def nth_list_update split: if_splits)

lemma machine_view_same [simp]: "machine_view m\<lparr>v_table := fst m\<rparr> = machine_view m" "v_table (machine_view m) = fst m"
  by (simp_all add: machine_view_def)

lemma machine_prepared:
  "machine_view (t, ss @ [Some s]) = put_stmt (length ss) (Some s) (machine_view (t, ss))" "v_stmts (machine_view (t, ss)) (length ss) = None"
  by (auto simp: machine_view_def put_stmt_def nth_append)

lemma machine_documented: "documented_sqlite known run (machine_sqlite run t0) machine_view"
  unfolding documented_sqlite_def
proof (intro conjI allI impI, goal_cases)
  case (1 sql m)
  show ?case using machine_prepared(1) [of "fst m" "snd m" "new_stmt sql"] machine_prepared(2) [of "fst m" "snd m"] by (simp add: machine_sqlite_def)
next
  case (2 h i x m s)
  then show ?case using on_stmt_live [of m h s] by (simp add: machine_sqlite_def)
next
  case (3 h m s rows t)
  then show ?case using on_stmt_live [of m h s] by (simp add: machine_sqlite_def)
next
  case (4 h m s r rows)
  then show ?case using on_stmt_live [of m h s] by (simp add: machine_sqlite_def)
next
  case (5 h m s)
  then show ?case using on_stmt_live [of m h s] by (simp add: machine_sqlite_def)
next
  case (6 h m s)
  then show ?case using on_stmt_live [of m h s] by (simp add: machine_sqlite_def)
qed (auto simp: machine_sqlite_def current_value_def current_row_def to_int_small)

lemma machine_statements:
  fixes run :: "('r, 't) sql_effect"
  shows "statement_laws (machine_sqlite run t0) (\<lambda>m. dom (v_stmts (machine_view m)))"
proof -
  have op: "\<exists>r m1. on_stmt stmt f m = Some (r, m1) \<and> dom (v_stmts (machine_view m1)) = dom (v_stmts (machine_view m))"
    if live: "usable_stmt (\<lambda>m. dom (v_stmts (machine_view m))) stmt m" and keeps: "\<And>s t. fst (snd (f s t)) \<noteq> None"
    for stmt f and m :: "('r, 't) machine"
  proof (cases stmt)
    case (Some h)
    then obtain s where s: "v_stmts (machine_view m) h = Some s" using live by (auto simp: usable_stmt_def)
    obtain r s1 t where f: "f s (fst m) = (r, s1, t)" by (metis surj_pair)
    then show ?thesis using on_stmt_live [of m h s f r s1 t] s f keeps [of s "fst m"] Some by (auto simp: insert_absorb domI)
  qed (auto simp: on_stmt_def)
  have "\<exists>r m1. on_stmt (Some h) (\<lambda>s t. (SQLITE_OK, None, t)) m = Some (r, m1)
      \<and> dom (v_stmts (machine_view m1)) = dom (v_stmts (machine_view m)) - {h}"
    if "h \<in> dom (v_stmts (machine_view m))" for h and m :: "('r, 't) machine"
    using on_stmt_live [of m h _ "\<lambda>s t. (SQLITE_OK, None, t)"] that by fastforce
  note final = this
  have step: "fst (snd (machine_step run s t)) \<noteq> None" for s t by (auto split: option.splits list.splits)
  show ?thesis unfolding statement_laws_def
  proof (intro conjI allI impI, goal_cases)
    case (1 sql m)
    show ?case using machine_prepared(1) [of "fst m" "snd m" "new_stmt sql"] machine_prepared(2) [of "fst m" "snd m"]
      by (auto simp: machine_sqlite_def)
  next
    case (2 stmt i x m)
    show ?case unfolding machine_sqlite_def sqlite.simps by (rule op [OF 2]) simp
  next
    case (3 stmt m)
    show ?case unfolding machine_sqlite_def sqlite.simps by (rule op [OF 3 step])
  next
    case (4 stmt m)
    show ?case unfolding machine_sqlite_def sqlite.simps by (rule op [OF 4]) simp
  next
    case (5 h m)
    show ?case unfolding machine_sqlite_def sqlite.simps by (rule final [OF 5])
  qed
qed

text \<open>An object whose statement is replaced while it runs, and one that fails.\<close>

definition sample_ops :: "nat adapter_op list" where
  "sample_ops = [Construct 0, Construct 1, Bind 0 1 (SInt 5), Prepare 0 ''?'', Bind 0 1 (SInt 7), Bind 0 2 SNull, Exec 0,
     Prepare 1 ''SELECT'', Move_First 1, Prepare 1 ''?'', Move_Next 1, Destroy 0, Clean 1, Exec 1, Destroy 1]"


end
