(* ===== verification/Session_Database.thy ===== *)
theory Session_Database
  imports Session_Theorems Sqlite
begin

text \<open>
  \<open>session_controller::session_db\<close> of \<open>src/net/session.cpp\<close> statement by statement: preparing, binding, stepping and
  finalizing through the wrapper. The theory \<open>Session\<close> has these operations as changes of the rows of the table;
  here they are shown to be just that, when the library does what SQLite documents for the statements used.
\<close>

section \<open>The operations\<close>

definition update_sql :: string where
  "update_sql = ''INSERT OR REPLACE INTO sessions (SID, Version, dtCreate, dtUpdate, dtExpire, Data) VALUES(?,?,?,?,?,?)''"

definition remove_sql :: string where
  "remove_sql = ''DELETE FROM sessions WHERE SID = ?''"

definition purge_sql :: string where
  "purge_sql = ''DELETE FROM sessions WHERE dtExpire < ? OR Version < ? ''"

definition select_sql :: string where
  "select_sql = ''SELECT SID, dtCreate, dtExpire, Data FROM sessions ''"

text \<open>The destructor of an \<open>Adapter\<close> is \<open>Cleanup\<close>; errors of the two statements are ignored.\<close>

definition session_db_PrepareDatabase :: "('r, 'd) sqlite \<Rightarrow> 'd khl_sqlite3 \<Rightarrow> (bool \<times> 'd khl_sqlite3) option" where
  "session_db_PrepareDatabase lib k =
     do { (ok, k1) \<leftarrow> base_PrepareDatabase lib k;
          if \<not> ok then Some (False, k1)
          else do { (_, k2) \<leftarrow> ExecuteStmt lib (''CREATE TABLE sessions (SID text, Version integer, dtCreate integer, dtUpdate integer, ''
                      @ ''dtExpire integer, Data text, constraint pk_sessions primary key (SID) )'') k1;
                    (_, k3) \<leftarrow> ExecuteStmt lib (''CREATE INDEX idx_sessions_expire ON sessions ( '' @ CHR 0x09 # ''dtExpire)'') k2;
                    Some (True, k3) } }"

definition session_db_update :: "('r, 'd) sqlite \<Rightarrow> int \<Rightarrow> int \<Rightarrow> session \<Rightarrow> 'd \<Rightarrow> (bool \<times> 'd) option" where
  "session_db_update lib now version s d =
     do { (_, stmt, d1) \<leftarrow> adapter_Prepare lib update_sql adapter_new d;
          (_, d2) \<leftarrow> BindParam_string lib stmt 1 (m_session_id s) d1;
          (_, d3) \<leftarrow> BindParam_int lib stmt 2 version d2;
          (_, d4) \<leftarrow> BindParam_int lib stmt 3 (to_int (m_created s)) d3;
          (_, d5) \<leftarrow> BindParam_int lib stmt 4 (to_int now) d4;
          (_, d6) \<leftarrow> BindParam_int lib stmt 5 (to_int (m_expired s)) d5;
          data \<leftarrow> export_data s;
          (_, d7) \<leftarrow> BindParam_string lib stmt 6 (json_string data) d6;
          (ok, d8) \<leftarrow> inserter_Exec lib stmt d7;
          (_, d9) \<leftarrow> Cleanup lib stmt d8;
          Some (ok, d9) }"

definition session_db_remove :: "('r, 'd) sqlite \<Rightarrow> session \<Rightarrow> 'd \<Rightarrow> (bool \<times> 'd) option" where
  "session_db_remove lib s d =
     do { (_, stmt, d1) \<leftarrow> adapter_Prepare lib remove_sql adapter_new d;
          (_, d2) \<leftarrow> BindParam_string lib stmt 1 (m_session_id s) d1;
          (ok, d3) \<leftarrow> inserter_Exec lib stmt d2;
          (_, d4) \<leftarrow> Cleanup lib stmt d3;
          Some (ok, d4) }"

text \<open>
  The loop over the rows. The variables outlive a turn, and a time that was never read is not there to be used; the
  loop ends when the library has no more rows, which is not certain of every library.
\<close>

partial_function (option) session_load_loop ::
    "('r, 'd) sqlite \<Rightarrow> (string \<Rightarrow> double option) \<Rightarrow> session_creator option \<Rightarrow> adapter \<Rightarrow> string \<Rightarrow> int option \<Rightarrow> int option
      \<Rightarrow> session_controller \<Rightarrow> 'd \<Rightarrow> (session_controller \<times> 'd) option" where
  "session_load_loop lib sc creator stmt s dtc dte c d =
     do { (_, s1) \<leftarrow> GetValue_string lib stmt 1 s d;
          (_, dtc1) \<leftarrow> GetValue_int lib stmt 2 dtc d;
          (_, dte1) \<leftarrow> GetValue_int lib stmt 3 dte d;
          (s2, c1) \<leftarrow> (case creator of
              None \<Rightarrow> Some (s1, c)
            | Some cr \<Rightarrow> do { created \<leftarrow> dtc1; expired \<leftarrow> dte1;
                             (_, s2) \<leftarrow> GetValue_string lib stmt 4 s1 d;
                             (_, sp) \<leftarrow> import_data sc s2 (cr s1 created expired);
                             Some (s2, snd (memory_insert sp c)) });
          (more, d1) \<leftarrow> reader_MoveNext lib stmt d;
          if more then session_load_loop lib sc creator stmt s2 dtc1 dte1 c1 d1 else Some (c1, d1) }"

definition session_db_load ::
    "('r, 'd) sqlite \<Rightarrow> (string \<Rightarrow> double option) \<Rightarrow> session_creator option \<Rightarrow> int \<Rightarrow> session_controller \<Rightarrow> 'd
      \<Rightarrow> (session_controller \<times> 'd) option" where
  "session_db_load lib sc creator now c d =
     do { (_, i_stmt, d1) \<leftarrow> adapter_Prepare lib purge_sql adapter_new d;
          (_, d2) \<leftarrow> BindParam_int lib i_stmt 1 (to_int now) d1;
          (_, d3) \<leftarrow> BindParam_int lib i_stmt 2 (m_version_min c) d2;
          (_, d4) \<leftarrow> inserter_Exec lib i_stmt d3;
          (_, r_stmt, d5) \<leftarrow> adapter_Prepare lib select_sql adapter_new d4;
          (some, d6) \<leftarrow> reader_MoveFirst lib r_stmt d5;
          (c1, d7) \<leftarrow> (if some then session_load_loop lib sc creator r_stmt [] None None c d6 else Some (c, d6));
          (_, d8) \<leftarrow> Cleanup lib i_stmt d7;
          (_, d9) \<leftarrow> Cleanup lib r_stmt d8;
          Some (c1, d9) }"

text \<open>\<open>session_controller::open\<close>: the results of opening and loading are not looked at.\<close>

definition session_db_open ::
    "('r, 'd) sqlite \<Rightarrow> (string \<Rightarrow> double option) \<Rightarrow> string \<Rightarrow> int \<Rightarrow> int \<Rightarrow> session_creator option \<Rightarrow> int
      \<Rightarrow> session_controller \<times> 'd khl_sqlite3 \<Rightarrow> (session_controller \<times> 'd khl_sqlite3) option" where
  "session_db_open lib sc driver version_min version_current creator now state =
     do { let (c, k) = state;
          (_, k1) \<leftarrow> khl_sqlite3_Open lib (session_db_PrepareDatabase lib) driver k;
          d \<leftarrow> m_HandleDB k1;
          (c1, d1) \<leftarrow> session_db_load lib sc creator now (c\<lparr>m_version_min := version_min, m_version_current := version_current\<rparr>) d;
          Some (c1, k1\<lparr>m_HandleDB := Some d1\<rparr>) }"

section \<open>The statements\<close>

text \<open>What the four statements do to the table and the rows they give, in the order of the table.\<close>

definition row_values :: "string \<times> session_row \<Rightarrow> 'r sql_value list" where
  "row_values e = [SText (fst e), SInt (r_dtCreate (snd e)), SInt (r_dtExpire (snd e)), SText (r_Data (snd e))]"

definition session_effect :: "('r, session_table) sql_effect" where
  "session_effect sql ps t =
     (if sql = update_sql then
        (case (ps 1, ps 2, ps 3, ps 4, ps 5, ps 6) of
           (SText sid, SInt version, SInt created, SInt updated, SInt expired, SText data) \<Rightarrow>
             Some ([], upsert_row sid
               \<lparr>r_Version = version, r_dtCreate = created, r_dtUpdate = updated, r_dtExpire = expired, r_Data = data\<rparr> t)
         | _ \<Rightarrow> None)
      else if sql = remove_sql then (case ps 1 of SText sid \<Rightarrow> Some ([], std_erase sid t) | _ \<Rightarrow> None)
      else if sql = purge_sql then
        (case (ps 1, ps 2) of
           (SInt time, SInt version) \<Rightarrow> Some ([], filter (\<lambda>(_, r). \<not> (r_dtExpire r < time \<or> r_Version r < version)) t)
         | _ \<Rightarrow> None)
      else if sql = select_sql then Some (map row_values t, t)
      else None)"

definition session_sql :: "string \<Rightarrow> bool" where
  "session_sql sql \<longleftrightarrow> sql \<in> {update_sql, remove_sql, purge_sql, select_sql}"

lemma session_sql_texts [simp]:
  "session_sql update_sql" "session_sql remove_sql" "session_sql purge_sql" "session_sql select_sql"
  "places update_sql = 6" "places remove_sql = 1" "places purge_sql = 2"
  by (simp_all add: session_sql_def places_def update_sql_def remove_sql_def purge_sql_def)

lemma session_effects:
  "ps 1 = SText sid \<Longrightarrow> ps 2 = SInt version \<Longrightarrow> ps 3 = SInt created \<Longrightarrow> ps 4 = SInt updated \<Longrightarrow> ps 5 = SInt expired \<Longrightarrow>
     ps 6 = SText data \<Longrightarrow> session_effect update_sql ps t = Some ([], upsert_row sid
       \<lparr>r_Version = version, r_dtCreate = created, r_dtUpdate = updated, r_dtExpire = expired, r_Data = data\<rparr> t)"
  "ps 1 = SText sid \<Longrightarrow> session_effect remove_sql ps t = Some ([], std_erase sid t)"
  "ps 1 = SInt time \<Longrightarrow> ps 2 = SInt version \<Longrightarrow> session_effect purge_sql ps t
     = Some ([], filter (\<lambda>(_, r). \<not> (r_dtExpire r < time \<or> r_Version r < version)) t)"
  "session_effect select_sql ps t = Some (map row_values t, t)"
  by (simp_all add: session_effect_def update_sql_def remove_sql_def purge_sql_def select_sql_def)

section \<open>Writing\<close>

definition text_fits :: "string \<Rightarrow> bool" where
  "text_fits s \<longleftrightarrow> length s < 2 ^ 31"

lemma bound_text: "text_fits v \<Longrightarrow> BindParam_string lib a i v d = bind_param lib a i (SText v) d"
  by (simp add: BindParam_string_def text_fits_def passed_whole)

lemma removed:
  assumes doc: "documented_sqlite session_sql session_effect lib view" and "text_fits (m_session_id s)"
  shows "\<exists>d1. session_db_remove lib s d = Some (True, d1)
     \<and> view d1 = view d\<lparr>v_table := db_remove_session s (v_table (view d))\<rparr>"
proof -
  obtain h a d1 where 1: "adapter_Prepare lib remove_sql adapter_new d = Some (True, a, d1)" "sqstmt a = Some h"
    "v_stmts (view d) h = None" "view d1 = put_stmt h (Some (new_stmt remove_sql)) (view d)"
    using prepared [OF doc stmt_set_simps(3) session_sql_texts(2)] by blast
  let ?s = "(new_stmt remove_sql)\<lparr>st_params := (\<lambda>_. SNull)(1 := SText (m_session_id s))\<rparr>"
  obtain d2 where 2: "bind_param lib a 1 (SText (m_session_id s)) d1 = Some (True, d2)" "view d2 = put_stmt h (Some ?s) (view d)"
    using bound [OF doc 1(2,4), of 1] by (auto simp: new_stmt_def)
  let ?v = "view d\<lparr>v_table := db_remove_session s (v_table (view d))\<rparr>"
  obtain d3 where 3: "inserter_Exec lib a d2 = Some (True, d3)" "view d3 = put_stmt h (Some ?s) ?v"
    using executed [OF doc 1(2) 2(2)] by (auto simp: new_stmt_def session_effects db_remove_session_def)
  obtain d4 where "Cleanup lib a d3 = Some (a\<lparr>sqstmt := None\<rparr>, d4)" "view d4 = ?v"
    using cleaned [OF doc 1(2) 3(2)] 1(3) by auto
  with 1 2 3 show ?thesis by (simp add: session_db_remove_def bound_text [OF assms(2)])
qed

lemma bound_params:
  assumes "documented_sqlite known run lib view" and "sqstmt a = Some h" and "view d = put_stmt h (Some (s\<lparr>st_params := ps\<rparr>)) v"
    and "st_rows s = None" and "1 \<le> i" and "i \<le> places (st_sql s)"
  shows "\<exists>d1. bind_param lib a i x d = Some (True, d1) \<and> view d1 = put_stmt h (Some (s\<lparr>st_params := ps(i := x)\<rparr>)) v"
  using bound [OF assms(1-3)] assms(4-6) by simp

lemma updated:
  fixes lib :: "('r, 'd) sqlite"
  assumes doc: "documented_sqlite session_sql session_effect lib view"
    and "text_fits (m_session_id s)" and data: "export_data s = Some data" "text_fits (json_string data)"
  shows "\<exists>d1 t. session_db_update lib now version s d = Some (True, d1)
     \<and> db_update_session now version s (v_table (view d)) = Some t \<and> view d1 = view d\<lparr>v_table := t\<rparr>"
proof -
  let ?s = "new_stmt update_sql :: ('r, session_table) sq_stmt"
  obtain h a d1 where 1: "adapter_Prepare lib update_sql adapter_new d = Some (True, a, d1)" "sqstmt a = Some h"
    "v_stmts (view d) h = None" "view d1 = put_stmt h (Some (?s\<lparr>st_params := \<lambda>_. SNull\<rparr>)) (view d)"
    using prepared [OF doc stmt_set_simps(3) session_sql_texts(1)] by (fastforce simp: new_stmt_def)
  note bind = bound_params [OF doc 1(2), where s = ?s]
  have s: "st_rows ?s = None" "st_sql ?s = update_sql" by (simp_all add: new_stmt_def)
  let ?p1 = "(\<lambda>_. SNull)(1 := SText (m_session_id s))"
  obtain d2 where 2: "bind_param lib a 1 (SText (m_session_id s)) d1 = Some (True, d2)"
    "view d2 = put_stmt h (Some (?s\<lparr>st_params := ?p1\<rparr>)) (view d)" using bind [OF 1(4), of 1] s by auto
  let ?p2 = "?p1(2 := SInt version)"
  obtain d3 where 3: "bind_param lib a 2 (SInt version) d2 = Some (True, d3)"
    "view d3 = put_stmt h (Some (?s\<lparr>st_params := ?p2\<rparr>)) (view d)" using bind [OF 2(2), of 2] s by auto
  let ?p3 = "?p2(3 := SInt (to_int (m_created s)))"
  obtain d4 where 4: "bind_param lib a 3 (SInt (to_int (m_created s))) d3 = Some (True, d4)"
    "view d4 = put_stmt h (Some (?s\<lparr>st_params := ?p3\<rparr>)) (view d)" using bind [OF 3(2), of 3] s by auto
  let ?p4 = "?p3(4 := SInt (to_int now))"
  obtain d5 where 5: "bind_param lib a 4 (SInt (to_int now)) d4 = Some (True, d5)"
    "view d5 = put_stmt h (Some (?s\<lparr>st_params := ?p4\<rparr>)) (view d)" using bind [OF 4(2), of 4] s by auto
  let ?p5 = "?p4(5 := SInt (to_int (m_expired s)))"
  obtain d6 where 6: "bind_param lib a 5 (SInt (to_int (m_expired s))) d5 = Some (True, d6)"
    "view d6 = put_stmt h (Some (?s\<lparr>st_params := ?p5\<rparr>)) (view d)" using bind [OF 5(2), of 5] s by auto
  let ?p6 = "?p5(6 := SText (json_string data))"
  obtain d7 where 7: "bind_param lib a 6 (SText (json_string data)) d6 = Some (True, d7)"
    "view d7 = put_stmt h (Some (?s\<lparr>st_params := ?p6\<rparr>)) (view d)" using bind [OF 6(2), of 6] s by auto
  obtain t where t: "db_update_session now version s (v_table (view d)) = Some t" using data(1) by (simp add: db_update_session_def)
  obtain d8 where 8: "inserter_Exec lib a d7 = Some (True, d8)" "\<exists>st. view d8 = put_stmt h (Some st) (view d\<lparr>v_table := t\<rparr>)"
    using executed [OF doc 1(2) 7(2), of "[]" t] t data(1) s by (auto simp: session_effects db_update_session_def)
  then obtain d9 where "Cleanup lib a d8 = Some (a\<lparr>sqstmt := None\<rparr>, d9)" "view d9 = view d\<lparr>v_table := t\<rparr>"
    using cleaned [OF doc 1(2), of d8] 1(3) by fastforce
  with 1 2 3 4 5 6 7 8 t show ?thesis
    by (simp add: session_db_update_def BindParam_int_def bound_text assms(2,4) data)
qed

section \<open>Loading\<close>

text \<open>A row whose texts have no terminator inside and whose times are an \<open>int\<close>.\<close>

definition row_plain :: "string \<times> session_row \<Rightarrow> bool" where
  "row_plain e \<longleftrightarrow> NUL \<notin> set (fst e) \<and> NUL \<notin> set (r_Data (snd e)) \<and> is_int32 (r_dtCreate (snd e)) \<and> is_int32 (r_dtExpire (snd e))"

lemma c_str_plain: "NUL \<notin> set s \<Longrightarrow> c_str s = s"
  by (auto simp: c_str_def takeWhile_eq_all_conv)

lemma row_columns:
  fixes lib :: "('r, 'd) sqlite"
  assumes doc: "documented_sqlite known run lib view" and "sqstmt a = Some h" and "view d = put_stmt h (Some s) v"
    and "st_rows s = Some (row_values (sid, r) # rows, t)" and "row_plain (sid, r)"
  shows "GetValue_string lib a 1 w d = Some (True, sid)"
    and "GetValue_int lib a 2 y d = Some (True, Some (r_dtCreate r))"
    and "GetValue_int lib a 3 z d = Some (True, Some (r_dtExpire r))"
    and "GetValue_string lib a 4 w d = Some (True, r_Data r)"
proof -
  let ?row = "row_values (sid, r) :: 'r sql_value list"
  have row: "?row ! 0 = SText sid" "?row ! 1 = SInt (r_dtCreate r)" "?row ! 2 = SInt (r_dtExpire r)" "?row ! 3 = SText (r_Data r)"
    "length ?row = 4"
    by (simp_all add: row_values_def numeral_2_eq_2 numeral_3_eq_3)
  note c = column_read [OF doc assms(2-4)]
  show "GetValue_string lib a 1 w d = Some (True, sid)" "GetValue_string lib a 4 w d = Some (True, r_Data r)"
    using c(1) [of 0 sid w] c(1) [of 3 "r_Data r" w] row assms(5) by (simp_all add: row_plain_def c_str_plain)
  show "GetValue_int lib a 2 y d = Some (True, Some (r_dtCreate r))" "GetValue_int lib a 3 z d = Some (True, Some (r_dtExpire r))"
    using c(2) [of 1 "r_dtCreate r" y] c(2) [of 2 "r_dtExpire r" z] row assms(5) by (simp_all add: row_plain_def is_int32_def)
qed

definition load_into ::
    "(string \<Rightarrow> double option) \<Rightarrow> session_creator option \<Rightarrow> session_table \<Rightarrow> session_controller \<Rightarrow> session_controller option" where
  "load_into sc creator rows c = (case creator of None \<Rightarrow> Some c | Some cr \<Rightarrow> load_rows sc cr rows c)"

lemma load_loop_rows:
  assumes doc: "documented_sqlite known run lib view" and a: "sqstmt a = Some h" and s: "st_rows s = None"
  shows "rows \<noteq> [] \<Longrightarrow> \<forall>e \<in> set rows. row_plain e \<Longrightarrow>
     view d = put_stmt h (Some (s\<lparr>st_rows := Some (map row_values rows, v_table v)\<rparr>)) v \<Longrightarrow>
     \<exists>d1 st. session_load_loop lib sc creator a w dtc dte c d = map_option (\<lambda>c1. (c1, d1)) (load_into sc creator rows c)
       \<and> view d1 = put_stmt h (Some st) v"
proof (induction rows arbitrary: w dtc dte c d)
  case (Cons e rows)
  obtain sid r where e: "e = (sid, r)" by (cases e)
  have v: "view d = put_stmt h (Some (s\<lparr>st_rows := Some (row_values (sid, r) # map row_values rows, v_table v)\<rparr>)) v"
    using Cons.prems(3) by (simp add: e)
  have plain: "row_plain (sid, r)" using Cons.prems(2) by (simp add: e)
  note col = row_columns [OF doc a v _ plain, simplified]
  obtain d1 where d1: "reader_MoveNext lib a d = Some (rows \<noteq> [], d1)"
    "view d1 = put_stmt h (Some (s\<lparr>st_rows := Some (map row_values rows, v_table v)\<rparr>)) v"
    using moved_next [OF doc a v] by auto
  define turn where "turn = (case creator of
       None \<Rightarrow> Some (sid, c)
     | Some cr \<Rightarrow> do { (_, sp) \<leftarrow> import_data sc (r_Data r) (cr sid (r_dtCreate r) (r_dtExpire r));
                      Some (r_Data r, snd (memory_insert sp c)) })"
  have loop: "session_load_loop lib sc creator a w dtc dte c d = do { (s2, c1) \<leftarrow> turn;
      if rows \<noteq> [] then session_load_loop lib sc creator a s2 (Some (r_dtCreate r)) (Some (r_dtExpire r)) c1 d1 else Some (c1, d1) }"
    by (subst session_load_loop.simps) (simp add: col d1(1) turn_def split: option.splits)
  have into: "load_into sc creator (e # rows) c = do { (_, c1) \<leftarrow> turn; load_into sc creator rows c1 }"
    by (auto simp: load_into_def turn_def e split: option.splits Option.bind_splits)
  show ?case
  proof (cases "rows = [] \<or> turn = None")
    case True
    then show ?thesis using loop into d1(2) by (cases turn) (auto simp: load_into_def split: option.splits)
  next
    case False
    then obtain s2 c1 where t: "turn = Some (s2, c1)" by auto
    with Cons.IH [OF _ _ d1(2), of s2 "Some (r_dtCreate r)" "Some (r_dtExpire r)" c1] False Cons.prems(2) loop into
    show ?thesis by simp
  qed
qed simp

lemma load_rows_table:
  "load_rows sc cr rows (c\<lparr>m_session_db := t\<rparr>) = map_option (\<lambda>c1. c1\<lparr>m_session_db := t\<rparr>) (load_rows sc cr rows c)"
proof (induction rows arbitrary: c)
  case (Cons e rows)
  have "snd (memory_insert s (c\<lparr>m_session_db := t\<rparr>)) = snd (memory_insert s c)\<lparr>m_session_db := t\<rparr>" for s
    by (simp add: memory_insert_def new_object_def)
  then show ?case by (cases e) (auto simp: Cons.IH split: Option.bind_splits)
qed simp

lemma load_sessions_into:
  "load_sessions sc creator now (c\<lparr>m_session_db := t\<rparr>) = map_option (\<lambda>c1. c1\<lparr>m_session_db := filter (\<lambda>(_, r). live_row now (m_version_min c) r) t\<rparr>)
     (load_into sc creator (filter (\<lambda>(_, r). live_row now (m_version_min c) r) t) c)"
  by (simp add: load_sessions_def load_into_def load_rows_table Let_def split: option.splits)

lemma loaded_from_sqlite:
  fixes lib :: "('r, 'd) sqlite" and c :: session_controller and now :: int
  assumes doc: "documented_sqlite session_sql session_effect lib view" and plain: "\<forall>e \<in> set (v_table (view d)). row_plain e"
  defines "t \<equiv> filter (\<lambda>(_, r). live_row now (m_version_min c) r) (v_table (view d))"
  shows "\<exists>d1. session_db_load lib sc creator now c d = map_option (\<lambda>c1. (c1, d1)) (load_into sc creator t c)
     \<and> view d1 = view d\<lparr>v_table := t\<rparr>"
proof -
  let ?s = "new_stmt purge_sql :: ('r, session_table) sq_stmt" and ?q = "new_stmt select_sql :: ('r, session_table) sq_stmt"
  have s: "st_rows ?s = None" "st_sql ?s = purge_sql" "st_rows ?q = None" "st_sql ?q = select_sql" by (simp_all add: new_stmt_def)
  obtain h a d1 where 1: "adapter_Prepare lib purge_sql adapter_new d = Some (True, a, d1)" "sqstmt a = Some h"
    "v_stmts (view d) h = None" "view d1 = put_stmt h (Some (?s\<lparr>st_params := \<lambda>_. SNull\<rparr>)) (view d)"
    using prepared [OF doc stmt_set_simps(3) session_sql_texts(3)] by (fastforce simp: new_stmt_def)
  note bind = bound_params [OF doc 1(2), where s = ?s]
  let ?p1 = "(\<lambda>_. SNull)(1 := SInt (to_int now))"
  obtain d2 where 2: "bind_param lib a 1 (SInt (to_int now)) d1 = Some (True, d2)"
    "view d2 = put_stmt h (Some (?s\<lparr>st_params := ?p1\<rparr>)) (view d)" using bind [OF 1(4), of 1] s by auto
  let ?p2 = "?p1(2 := SInt (m_version_min c))"
  obtain d3 where 3: "bind_param lib a 2 (SInt (m_version_min c)) d2 = Some (True, d3)"
    "view d3 = put_stmt h (Some (?s\<lparr>st_params := ?p2\<rparr>)) (view d)" using bind [OF 2(2), of 2] s by auto
  let ?v = "view d\<lparr>v_table := t\<rparr>" and ?s3 = "?s\<lparr>st_params := ?p2\<rparr>"
  have effect: "session_effect (st_sql ?s3) (st_params ?s3) (v_table (view d)) = Some ([], t)"
    by (simp add: s session_effects t_def live_row_def)
  obtain d4 where 4: "inserter_Exec lib a d3 = Some (True, d4)" "view d4 = put_stmt h (Some ?s3) ?v"
    using executed [OF doc 1(2) 3(2) _ effect] s by auto
  obtain h' b d5 where 5: "adapter_Prepare lib select_sql adapter_new d4 = Some (True, b, d5)" "sqstmt b = Some h'"
    "v_stmts (view d4) h' = None" "view d5 = put_stmt h' (Some ?q) (put_stmt h (Some ?s3) ?v)"
    using prepared [OF doc stmt_set_simps(3) session_sql_texts(4), of d4] 4(2) by fastforce
  have other: "h \<noteq> h'" using 4(2) 5(3) by (auto split: if_splits)
  let ?w = "put_stmt h (Some ?s3) ?v"
  have q: "session_effect (st_sql ?q) (st_params ?q) (v_table ?w) = Some (map row_values t, t)" by (simp add: s session_effects)
  obtain d6 where 6: "reader_MoveFirst lib b d5 = Some (t \<noteq> [], d6)"
    "view d6 = put_stmt h' (Some (?q\<lparr>st_rows := Some (map row_values t, v_table ?w)\<rparr>)) ?w"
    using moved_first [OF doc 5(2,4) s(3) q] by auto
  have plain: "\<forall>e \<in> set t. row_plain e" using assms(2) by (auto simp: t_def)
  obtain d7 q where 7: "(if t \<noteq> [] then session_load_loop lib sc creator b [] None None c d6 else Some (c, d6))
      = map_option (\<lambda>c1. (c1, d7)) (load_into sc creator t c)" "view d7 = put_stmt h' (Some q) (put_stmt h (Some ?s3) ?v)"
  proof (cases "t = []")
    case True
    then show ?thesis using that [of d6] 6(2) by (auto simp: load_into_def split: option.splits)
  next
    case False
    with load_loop_rows [OF doc 5(2) s(3) False plain 6(2)] show ?thesis using that by fastforce
  qed
  have v7: "view d7 = put_stmt h (Some ?s3) (put_stmt h' (Some q) ?v)" using 7(2) other by (simp add: put_stmt_swap)
  obtain d8 where 8: "Cleanup lib a d7 = Some (a\<lparr>sqstmt := None\<rparr>, d8)" "view d8 = put_stmt h' (Some q) ?v"
    using cleaned [OF doc 1(2) v7] 1(3) other by auto
  obtain d9 where 9: "Cleanup lib b d8 = Some (b\<lparr>sqstmt := None\<rparr>, d9)" "view d9 = ?v"
    using cleaned [OF doc 5(2) 8(2)] 5(3) 4(2) other by auto
  have "session_db_load lib sc creator now c d = map_option (\<lambda>c1. (c1, d9)) (load_into sc creator t c)"
    using 1(1) 2(1) 3(1) 4(1) 5(1) 6(1) 7(1) 8(1) 9(1)
    by (simp add: session_db_load_def BindParam_int_def map_option_case split: option.splits)
  with 9(2) show ?thesis by blast
qed

section \<open>The stored text\<close>

lemma char_of_plain: "n mod 256 \<noteq> 0 \<Longrightarrow> char_of (n :: nat) \<noteq> NUL"
proof
  assume "n mod 256 \<noteq> 0" "char_of n = NUL"
  then have "of_char (char_of n :: char) = (of_char NUL :: nat)" by simp
  then show False using \<open>n mod 256 \<noteq> 0\<close> by (simp add: NUL_def)
qed

lemma hex_digit_no_nul: "hex_digit n \<noteq> NUL"
proof -
  have "hex_digit n \<in> set ''0123456789abcdef''" unfolding hex_digit_def by (rule nth_mem) simp
  then show ?thesis by (auto simp: NUL_def)
qed

lemma quote_codepoint_no_nul: "NUL \<notin> set (quote_codepoint cp)"
proof -
  have "CHR 0x5C \<noteq> NUL" "CHR ''u'' \<noteq> NUL" by (simp_all add: NUL_def)
  then have "NUL \<notin> set (escape_u x)" for x
    using hex_digit_no_nul [THEN not_sym] by (auto simp: escape_u_def toHex16Bit_def)
  moreover have "char_of cp \<noteq> NUL" if "cp < 0x80" "cp \<ge> 0x20" using that by (intro char_of_plain) simp
  ultimately show ?thesis by (auto simp: quote_codepoint_def Let_def)
qed

lemma quote_loop_no_nul: "NUL \<notin> set (quote_loop s)"
proof (induction s rule: quote_loop.induct)
  case (2 c s)
  obtain cp r where u: "utf8ToCodepoint c s = (cp, r)" by (cases "utf8ToCodepoint c s")
  show ?case
  proof (cases "short_escape c")
    case None
    then show ?thesis using "2.IH"(1) [OF None u [symmetric]] u quote_codepoint_no_nul by (simp add: quote_loop.simps(2))
  next
    case (Some e)
    then have "e \<noteq> NUL" by (auto simp: short_escape_def NUL_def split: if_splits)
    then show ?thesis using "2.IH"(2) [OF Some] Some by (simp add: quote_loop.simps(2)) (simp add: NUL_def)
  qed
qed simp

lemma decimal_plain: "NUL \<notin> set (decimal n)"
proof (induction n rule: decimal.induct)
  case (1 n)
  have "digit_char k \<noteq> NUL" if "k < 10" for k
    using that unfolding digit_char_def by (intro char_of_plain) simp
  then have "NUL \<noteq> digit_char k" if "k < 10" for k using that by metis
  then show ?case using 1 by (subst decimal.simps) auto
qed

lemma export_plain:
  assumes "export_data s = Some data"
  shows "NUL \<notin> set (json_string data)"
proof -
  have marks: "\<forall>c \<in> set ''{}[],:-'' \<union> {CHR 0x22}. NUL \<noteq> c" by (simp add: NUL_def)
  have str: "NUL \<notin> set (valueToQuotedString x)" for x
    using quote_loop_no_nul [of x] marks by (simp add: valueToQuotedString_eq)
  have "NUL \<notin> set (write_elements (map (JString \<circ> fst) m))" for m :: "(string, unit) std_map"
    using marks by (induction m) (auto simp: str)
  moreover have "NUL \<notin> set (show_int i)" for i using marks by (simp add: show_int_def decimal_plain)
  moreover have "\<forall>c \<in> set ''null'' \<union> set ''true'' \<union> set ''false''. NUL \<noteq> c" by (simp add: NUL_def)
  ultimately show ?thesis using assms marks
    by (auto simp: export_data_eq json_string_def str roles_json_eq split: if_splits)
qed

section \<open>The table through the statements\<close>

datatype session_write = Store int int session | Forget session

fun write_to_sqlite :: "('r, 'd) sqlite \<Rightarrow> session_write \<Rightarrow> 'd \<Rightarrow> (bool \<times> 'd) option" where
  "write_to_sqlite lib (Store now version s) d = session_db_update lib now version s d"
| "write_to_sqlite lib (Forget s) d = session_db_remove lib s d"

fun writes_to_sqlite :: "('r, 'd) sqlite \<Rightarrow> session_write list \<Rightarrow> 'd \<Rightarrow> (bool list \<times> 'd) option" where
  "writes_to_sqlite lib [] d = Some ([], d)"
| "writes_to_sqlite lib (w # ws) d =
     do { (ok, d1) \<leftarrow> write_to_sqlite lib w d; (oks, d2) \<leftarrow> writes_to_sqlite lib ws d1; Some (ok # oks, d2) }"

text \<open>The same on the rows.\<close>

fun write_to_rows :: "session_write \<Rightarrow> session_table \<Rightarrow> session_table option" where
  "write_to_rows (Store now version s) t = db_update_session now version s t"
| "write_to_rows (Forget s) t = Some (db_remove_session s t)"

fun writes_to_rows :: "session_write list \<Rightarrow> session_table \<Rightarrow> session_table option" where
  "writes_to_rows [] t = Some t"
| "writes_to_rows (w # ws) t = do { t1 \<leftarrow> write_to_rows w t; writes_to_rows ws t1 }"

fun write_fits :: "session_write \<Rightarrow> bool" where
  "write_fits (Store now version s) \<longleftrightarrow> text_fits (m_session_id s) \<and> NUL \<notin> set (m_session_id s)
     \<and> text_fits (json_string (the (export_data s)))"
| "write_fits (Forget s) \<longleftrightarrow> text_fits (m_session_id s)"

lemma to_int_range: "is_int32 (to_int x)"
  by (simp add: is_int32_def to_int_def)

lemma written:
  assumes doc: "documented_sqlite session_sql session_effect lib view" and "write_fits w" and "\<forall>e \<in> set (v_table (view d)). row_plain e"
  shows "\<exists>t d1. write_to_rows w (v_table (view d)) = Some t \<and> write_to_sqlite lib w d = Some (True, d1)
     \<and> view d1 = view d\<lparr>v_table := t\<rparr> \<and> (\<forall>e \<in> set t. row_plain e)"
proof (cases w)
  case (Store now version s)
  obtain data where data: "export_data s = Some data" by (simp add: export_data_eq)
  obtain d1 t where 1: "session_db_update lib now version s d = Some (True, d1)"
    "db_update_session now version s (v_table (view d)) = Some t" "view d1 = view d\<lparr>v_table := t\<rparr>"
    using updated [OF doc _ data, where now = now and version = version and d = d] assms(2) data Store by auto
  have "\<forall>e \<in> set t. row_plain e"
    using 1(2) data export_plain [OF data] assms(2,3) Store
    by (auto simp: db_update_session_def upsert_row_def std_erase_def row_plain_def to_int_range)
  with 1 Store show ?thesis by simp
next
  case (Forget s)
  have "\<forall>e \<in> set (db_remove_session s (v_table (view d))). row_plain e"
    using assms(3) by (auto simp: db_remove_session_def std_erase_def)
  with removed [OF doc, of s d] assms(2) Forget show ?thesis by auto
qed

lemma all_written:
  assumes doc: "documented_sqlite session_sql session_effect lib view"
  shows "\<forall>w \<in> set ws. write_fits w \<Longrightarrow> \<forall>e \<in> set (v_table (view d)). row_plain e \<Longrightarrow>
     \<exists>t d1. writes_to_rows ws (v_table (view d)) = Some t \<and> writes_to_sqlite lib ws d = Some (replicate (length ws) True, d1)
       \<and> view d1 = view d\<lparr>v_table := t\<rparr> \<and> (\<forall>e \<in> set t. row_plain e)"
proof (induction ws arbitrary: d)
  case (Cons w ws)
  then obtain t d1 where 1: "write_to_rows w (v_table (view d)) = Some t" "write_to_sqlite lib w d = Some (True, d1)"
    "view d1 = view d\<lparr>v_table := t\<rparr>" "\<forall>e \<in> set t. row_plain e"
    using written [OF doc, of w d] by auto
  with Cons.IH [of d1] Cons.prems(1) obtain t2 d2 where
    "writes_to_rows ws t = Some t2" "writes_to_sqlite lib ws d1 = Some (replicate (length ws) True, d2)"
    "view d2 = view d1\<lparr>v_table := t2\<rparr>" "\<forall>e \<in> set t2. row_plain e"
    by auto
  with 1 show ?case by simp
qed auto

text \<open>C17: the session table behind the SQL statements is the table of rows the controller works with: storing and
  removing sessions through prepared statements reports success and leaves the rows the row operations give, with no
  statement left behind, and loading reads exactly the sessions that loading from these rows gives, whatever the
  earlier operations were.\<close>

theorem session_table_in_sqlite:
  assumes "documented_sqlite session_sql session_effect lib view"
    and "\<forall>w \<in> set ws. write_fits w" and "\<forall>e \<in> set (v_table (view d)). row_plain e"
  shows "\<exists>t d1. writes_to_rows ws (v_table (view d)) = Some t
     \<and> writes_to_sqlite lib ws d = Some (replicate (length ws) True, d1) \<and> view d1 = view d\<lparr>v_table := t\<rparr>
     \<and> load_sessions sc creator now (c\<lparr>m_session_db := t\<rparr>)
        = map_option (\<lambda>(c1, d2). c1\<lparr>m_session_db := v_table (view d2)\<rparr>) (session_db_load lib sc creator now c d1)
     \<and> (\<forall>c1 d2. session_db_load lib sc creator now c d1 = Some (c1, d2) \<longrightarrow> v_stmts (view d2) = v_stmts (view d))"
proof -
  obtain t d1 where 1: "writes_to_rows ws (v_table (view d)) = Some t" "writes_to_sqlite lib ws d = Some (replicate (length ws) True, d1)"
    "view d1 = view d\<lparr>v_table := t\<rparr>" "\<forall>e \<in> set t. row_plain e"
    using all_written [OF assms] by blast
  then obtain d2 where 2: "session_db_load lib sc creator now c d1
      = map_option (\<lambda>c1. (c1, d2)) (load_into sc creator (filter (\<lambda>(_, r). live_row now (m_version_min c) r) t) c)"
    "view d2 = view d\<lparr>v_table := filter (\<lambda>(_, r). live_row now (m_version_min c) r) t\<rparr>"
    using loaded_from_sqlite [OF assms(1), where d = d1 and sc = sc and creator = creator and now = now and c = c] by auto
  then have "load_sessions sc creator now (c\<lparr>m_session_db := t\<rparr>)
      = map_option (\<lambda>(c1, d2). c1\<lparr>m_session_db := v_table (view d2)\<rparr>) (session_db_load lib sc creator now c d1)"
    by (simp add: load_sessions_into option.map_comp comp_def)
  moreover have "v_stmts (view e) = v_stmts (view d)" if "session_db_load lib sc creator now c d1 = Some (c1, e)" for c1 e
    using that 2 by auto
  ultimately show ?thesis using 1 by blast
qed

text \<open>Two sessions are stored, one of them is removed again, and the table is loaded after it.\<close>

definition sample_writes :: "session_write list" where
  "sample_writes = [Store 1000 1 (first_session ''u'' 1000), Store 1001 1 (first_session ''v'' 1001), Forget (first_session ''u'' 1000)]"

lemma quoted_length: "length (valueToQuotedString s) \<le> 12 * length s + 2"
proof -
  have "length (quote_loop s) \<le> 12 * length s"
  proof (induction s rule: quote_loop.induct)
    case (2 c s)
    obtain cp r where u: "utf8ToCodepoint c s = (cp, r)" by (cases "utf8ToCodepoint c s")
    then have "length r \<le> length s" using utf8ToCodepoint_rest [of c s] by simp
    moreover have "length (quote_codepoint cp) \<le> 12" by (simp add: quote_codepoint_def escape_u_def toHex16Bit_def Let_def)
    ultimately show ?case
      using "2.IH"(1) [OF _ u [symmetric]] "2.IH"(2) u by (cases "short_escape c") (fastforce simp: quote_loop.simps(2))+
  qed simp
  then show ?thesis by (simp add: valueToQuotedString_eq)
qed

lemma sample_writes_fit: "\<forall>w \<in> set sample_writes. write_fits w"
proof -
  have "text_fits (json_string (the (export_data (first_session uid now))))" for uid now
    using quoted_length [of "''Roles''"] quoted_length [of "''bAuthenticate''"] quoted_length [of "''idUser''"]
      quoted_length [of "''sNickname''"] quoted_length [of "''sPosition''"] quoted_length [of "[]"] quoted_length [of default_position]
    by (simp add: text_fits_def export_data_eq json_string_def first_session_def s2h_session_new_def session_reset_def base_reset_def
        roles_json_def show_int_def decimal.simps) (simp add: default_position_def)
  then show ?thesis
    by (simp add: sample_writes_def first_session_fields text_fits_def NUL_def)
qed

theorem session_table_in_sqlite_witness:
  "\<exists>m c1 m2 p. writes_to_sqlite (machine_sqlite session_effect []) sample_writes ([], [] :: (nat, session_table) sq_stmt option list)
       = Some ([True, True, True], m) \<and> map fst (v_table (machine_view m)) = [''v'']
     \<and> session_db_load (machine_sqlite session_effect []) (\<lambda>_. None) get_session_creator 1500 session_controller_new m = Some (c1, m2)
     \<and> find_session ''v'' c1 = Some p \<and> find_session ''u'' c1 = None"
proof -
  let ?lib = "machine_sqlite session_effect [] :: (nat, (nat, session_table) machine) sqlite"
  let ?r = "stored_row 1001 1 (first_session ''v'' 1001)"
  have doc: "documented_sqlite session_sql session_effect ?lib machine_view" by (rule machine_documented)
  have rows: "writes_to_rows sample_writes [] = Some [(''v'', ?r)]"
    by (simp add: sample_writes_def db_update_session_eq first_session_fields upsert_row_def db_remove_session_def std_erase_def)
  obtain m where m: "writes_to_sqlite ?lib sample_writes ([], []) = Some ([True, True, True], m)"
    "v_table (machine_view m) = [(''v'', ?r)]"
    "load_sessions (\<lambda>_. None) get_session_creator 1500 (session_controller_new\<lparr>m_session_db := [(''v'', ?r)]\<rparr>)
       = map_option (\<lambda>(c1, d2). c1\<lparr>m_session_db := v_table (machine_view d2)\<rparr>)
          (session_db_load ?lib (\<lambda>_. None) get_session_creator 1500 session_controller_new m)"
    using session_table_in_sqlite [OF doc sample_writes_fit, where d = "([], [])" and sc = "\<lambda>_. None" and creator = get_session_creator and now = 1500 and c = session_controller_new] rows
    by (auto simp: machine_view_def sample_writes_def)
  have "table_ok [(''v'', ?r)]" by (simp add: table_ok_def row_ok_stored first_session_fields)
  moreover have "live_row 1500 1 ?r" by (simp add: first_session_fields live_row_def stored_row_def to_int_def)
  ultimately obtain c where c: "session_open (\<lambda>_. None) 1 1 get_session_creator 1500 (on_table [(''v'', ?r)]) = Some c"
    "\<And>x. case if x = ''v'' then Some ?r else None of None \<Rightarrow> find_session x c = None | Some r \<Rightarrow> \<exists>p. find_session x c = Some p"
    using session_open_spec [of "[(''v'', ?r)]" "\<lambda>_. None" 1 1 1500] by (fastforce split: if_splits)
  obtain p where p: "find_session ''v'' c = Some p" "find_session ''u'' c = None" using c(2) [of "''v''"] c(2) [of "''u''"] by auto
  have "on_table t\<lparr>m_version_min := 1, m_version_current := 1\<rparr> = session_controller_new\<lparr>m_session_db := t\<rparr>" for t
    by (simp add: on_table_def session_controller_new_def)
  with c(1) m(3) obtain c1 m2 where "session_db_load ?lib (\<lambda>_. None) get_session_creator 1500 session_controller_new m = Some (c1, m2)"
    "c1\<lparr>m_session_db := v_table (machine_view m2)\<rparr> = c"
    by (auto simp: session_open_def)
  with p m(1,2) show ?thesis by (fastforce simp: find_session_def)
qed

end
