(* ===== verification/Backend_Wire.thy ===== *)
theory Backend_Wire
  imports Backend_Theorems Json_Read_Back
begin

text \<open>
  The backend over the wire: what its actions do and answer in terms of the request a client sent, not of the
  request object the parser filled. \<open>backend_reply\<close> is this reference; the backend behind the connection and
  the parser implements it, as an instance of the interface \<open>http_service\<close> with the state of the backend and
  what the outside gives to the coming requests.
\<close>

section \<open>The reference\<close>

definition parameter_of :: "string \<Rightarrow> wire_request \<Rightarrow> string option" where
  "parameter_of key r = lookup_or key (args_pairs (request_args r)) None"

definition has_parameter :: "string \<Rightarrow> wire_request \<Rightarrow> bool" where
  "has_parameter key r \<longleftrightarrow> lookup_ci key (args_pairs (request_args r)) \<noteq> None"

definition session_cookie :: "session \<Rightarrow> string \<Rightarrow> response \<Rightarrow> response" where
  "session_cookie s host = set_cookie get_session_code (m_session_id s) (m_expired s * 1000000) host True"

text \<open>The session of the request and the response with its cookie.\<close>

definition wire_session :: "request_env \<Rightarrow> wire_request \<Rightarrow> 'c backend \<Rightarrow> (nat \<times> response \<times> 'c backend) option" where
  "wire_session re r st =
     do { let sid = (case cookie_of get_session_code r of None \<Rightarrow> [] | Some x \<Rightarrow> x);
          (sp, created, sc) \<leftarrow> get_session get_session_creator (re_now re) (re_session_uid re) sid False (be_sessions st);
          p \<leftarrow> sp;
          ip \<leftarrow> (case proxy_ip_of r of None \<Rightarrow> Some (re_peer re) | Some ip \<Rightarrow> if length ip < 255 then Some ip else None);
          sc1 \<leftarrow> on_session (\<lambda>s. set_ip ip (set_last_activity (re_now re) s)) p sc;
          s \<leftarrow> deref p (sc_objects sc1);
          Some (p, session_cookie s (host_of r) response_new, st\<lparr>be_sessions := sc1\<rparr>) }"

definition wire_logout :: "request_env \<Rightarrow> wire_request \<Rightarrow> response \<Rightarrow> nat \<Rightarrow> 'c backend \<Rightarrow> (response \<times> 'c backend) option" where
  "wire_logout re r resp p st =
     do { sc \<leftarrow> on_session (\<lambda>s. (session_reset s)\<lparr>m_expired := re_now re\<rparr>) p (be_sessions st);
          s \<leftarrow> deref p (sc_objects sc);
          sc1 \<leftarrow> remove_session p sc;
          Some (session_cookie s (host_of r) resp, st\<lparr>be_sessions := sc1\<rparr>) }"

text \<open>The user and the salt of the user when the current password is right.\<close>

definition known_password :: "'c backend_env \<Rightarrow> wire_request \<Rightarrow> session \<Rightarrow> storage \<Rightarrow> (string \<times> string) option" where
  "known_password env r s db =
     do { cur \<leftarrow> parameter_of ''curpwd'' r;
          (login, nickname, hash, salt) \<leftarrow> GetUserInfo (m_idUser s) db;
          if IsPasswordHashEqual3 (be_md5_hex env) hash login cur salt then Some (login, salt) else None }"

definition wire_change ::
  "'c backend_env \<Rightarrow> wire_request \<Rightarrow> nat \<Rightarrow> 'c backend \<Rightarrow> (json \<times> 'c backend) option" where
  "wire_change env r p st =
     do { s \<leftarrow> deref p (sc_objects (be_sessions st));
          case known_password env r s (be_storage st) of
            None \<Rightarrow> do { root \<leftarrow> json_set ''reason'' (JString ''UserNotFound'') JNull; Some (root, st) }
          | Some (login, salt) \<Rightarrow>
              if has_parameter ''loginpwd'' r then
                do { login2 \<leftarrow> parameter_of ''loginpwd'' r;
                     case get_user_info login2 (be_storage st) of
                       None \<Rightarrow> Some (JNull, st)
                     | Some (user_id, nickname2, hash2, salt2) \<Rightarrow>
                         do { pw \<leftarrow> parameter_of ''newpwd'' r;
                              Some (JNull, st\<lparr>be_storage := UpdatePassword user_id
                                (RecalcPasswordHash (be_md5_hex env) login2 pw salt2) (be_storage st)\<rparr>) } }
              else do { pw \<leftarrow> parameter_of ''newpwd'' r;
                        Some (JNull, st\<lparr>be_storage := UpdatePassword (m_idUser s)
                          (RecalcPasswordHash (be_md5_hex env) login pw salt) (be_storage st)\<rparr>) } }"

definition wire_auth ::
  "'c backend_env \<Rightarrow> request_env \<Rightarrow> wire_request \<Rightarrow> string \<Rightarrow> response \<Rightarrow> nat \<Rightarrow> 'c backend \<Rightarrow> (response \<times> string \<times> 'c backend) option" where
  "wire_auth env re r action resp p st =
     do { (root, resp1, st1) \<leftarrow>
            (if action = ''login'' then
               do { st1 \<leftarrow> log_in env re (q_body r) p st;
                    s \<leftarrow> deref p (sc_objects (be_sessions st1));
                    root \<leftarrow> json_fill_auth s True JNull;
                    Some (root, resp, st1) }
             else if action = ''logout'' then
               do { (resp1, st1) \<leftarrow> wire_logout re r resp p st; Some (JNull, resp1, st1) }
             else if action = ''change'' then
               do { (root, st1) \<leftarrow> wire_change env r p st;
                    s \<leftarrow> deref p (sc_objects (be_sessions st1));
                    root1 \<leftarrow> json_fill_auth s True root;
                    Some (root1, resp, st1) }
             else Some (JNull, resp, st));
          Some (set_content_type ''application/javascript'' ''UTF-8'' resp1, json_string root, st1) }"

definition int_of :: "string option \<Rightarrow> int option option" where
  "int_of v = (case v of None \<Rightarrow> Some None | Some x \<Rightarrow> map_option Some (atoi x))"

definition wire_refresh ::
  "'c backend_env \<Rightarrow> request_env \<Rightarrow> wire_request \<Rightarrow> response \<Rightarrow> 'c backend \<Rightarrow> (response \<times> string \<times> 'c backend) option" where
  "wire_refresh env re r resp st =
     do { let token = (case parameter_of ''token'' r of None \<Rightarrow> [] | Some x \<Rightarrow> x);
          time_refresh \<leftarrow> int_of (parameter_of ''time_refresh'' r);
          time_access \<leftarrow> int_of (parameter_of ''time_access'' r);
          (answer, ts) \<leftarrow> action_refresh_token (be_token_env env) (header_of ''Authorization'' r) token time_refresh time_access
             (re_now re * 1000000) (re_uuid1 re) (re_uuid2 re) (be_tokens st);
          let st1 = st\<lparr>be_tokens := ts\<rparr>;
          case answer of
            Some root \<Rightarrow>
              do { root1 \<leftarrow> json_set ''0dur'' (JInt (re_duration re)) root;
                   Some (set_content_type ''application/json'' ''UTF-8'' resp, json_string root1, st1) }
          | None \<Rightarrow> Some (set_response_status 401 ''Unauthorized'' resp, [], st1) }"

text \<open>The answer to a request, from the actions and the two file roots.\<close>

definition wire_file :: "server \<Rightarrow> wire_request \<Rightarrow> (response \<times> string) option" where
  "wire_file sv r =
     (if take 9 (q_uri r) = ''/storage/''
      then file_reply (sv\<lparr>m_doc_root := m_storage_root sv\<rparr>) (r\<lparr>q_uri := drop 8 (q_uri r)\<rparr>)
      else file_reply sv r)"

definition backend_reply ::
  "'c backend_env \<Rightarrow> server \<Rightarrow> request_env \<Rightarrow> wire_request \<Rightarrow> 'c backend \<Rightarrow> (int \<times> response \<times> string \<times> 'c backend) option" where
  "backend_reply env sv re r st =
     (if take 5 (q_uri r) = ''/api/'' then
        do { let (action, params) = parse_action (drop 5 (q_uri r));
             (p, resp, st1) \<leftarrow> wire_session re r st;
             map_option (Pair (re_now re))
               (if action = ''auth'' then wire_auth env re r (fst (parse_action params)) resp p st1
                else if action = ''refresh_token'' then wire_refresh env re r resp st1
                else Some (set_response_status 404 ''Not found'' resp, ''File not found'', st1)) }
      else map_option (\<lambda>(resp, body). (sv_now sv, resp, body, st)) (wire_file sv r))"

definition answer_text :: "wire_request \<Rightarrow> int \<Rightarrow> response \<Rightarrow> string \<Rightarrow> string" where
  "answer_text r now resp body = response_text now (q_version r) (connection_wish r) resp (length body)
     @ (if ci_equal (q_method r) ''HEAD'' then [] else body)"

section \<open>The lookups of a parsed request\<close>

lemma is_parameter_exist_views:
  "NUL \<notin> set key \<Longrightarrow> views (m_buffer (m_ab_params h)) (m_params_value h) kvs \<Longrightarrow>
     is_parameter_exist h key = Some (lookup_ci key kvs \<noteq> None)"
  using find_pair_views [of key "m_buffer (m_ab_params h)" "m_params_value h" kvs]
  by (auto simp: is_parameter_exist_def split: option.splits)

text \<open>
  What the answer reads of the header behind \<open>get_host\<close> has no colon, so the cut at the colon of the host line
  cannot reach it; version and connection wish are written to the client.
\<close>

definition plain_request :: "wire_request \<Rightarrow> bool" where
  "plain_request r \<longleftrightarrow> request_ok r \<and> line_break \<notin> set (q_version r) \<and> line_break \<notin> set (connection_wish r)
     \<and> CHR '':'' \<notin> set (q_version r) \<and> CHR '':'' \<notin> set (connection_wish r) \<and> CHR '':'' \<notin> set (q_method r)
     \<and> (case header_of ''Authorization'' r of None \<Rightarrow> True | Some v \<Rightarrow> CHR '':'' \<notin> set v)"

text \<open>The request object stands for the request.\<close>

definition stands_for :: "http_request \<Rightarrow> wire_request \<Rightarrow> bool" where
  "stands_for h r \<longleftrightarrow> answerable h (q_version r) (connection_wish r) (q_method r)
     \<and> body_text h = Some (q_body r) \<and> get_host h = Some (host_of r, h)
     \<and> views (m_buffer (m_ab_params h)) (m_params_value h) (args_pairs (request_args r))
     \<and> get_header_parameter h ''Authorization'' None = Some (header_of ''Authorization'' r)"

lemma body_text_done:
  assumes "body_done args body h"
  shows "body_text h = Some body"
proof -
  have "take (m_ready_position (m_ab_body h)) (m_buffer (m_ab_body h)) = map Some body"
    "m_ready_position (m_ab_body h) \<le> length (m_buffer (m_ab_body h))"
    using assms by (auto simp: body_done_def low_def wf_buffer_def)
  then show ?thesis by (simp add: body_text_def read_cells_def get_fill_size_def those_map_Some)
qed

lemma parsed_stands_for:
  assumes "plain_request r" and "named_line r h" and "seen_lists r h" and "body_done (request_args r) (q_body r) h"
    and "m_host h = None"
  shows "\<exists>h1. get_host h = Some (host_of r, h1) \<and> stands_for h1 r"
proof -
  obtain h1 where h1: "get_host h = Some (host_of r, h1)" "host_seen h h1" "get_host h1 = Some (host_of r, h1)"
    using host_request [OF assms(3,5)] by blast
  have ok: "request_ok r" using assms(1) by (simp add: plain_request_def)
  have ans: "answerable h (q_version r) (connection_wish r) (q_method r)"
    using assms(1) answerable_request [OF assms(2,3)] by (simp add: plain_request_def)
  note fields = host_seen_fields [OF h1(2)]
  have wish: "case header_of ''Connection'' r of None \<Rightarrow> True | Some v \<Rightarrow> CHR '':'' \<notin> set v"
    using assms(1) by (auto simp: plain_request_def connection_wish_def split: option.splits)
  have "get_header_parameter h1 ''Connection'' d = get_header_parameter h ''Connection'' d" for d
    using header_parameter_host_seen [OF ok assms(3) h1(2) _ wish] by (simp add: NUL_def)
  moreover have "get_header_parameter h1 ''Authorization'' None = Some (header_of ''Authorization'' r)"
    using header_parameter_host_seen [OF ok assms(3) h1(2), of "''Authorization''"] assms(1)
      header_of_request [OF assms(3), of "''Authorization''" None]
    by (auto simp: plain_request_def NUL_def split: option.splits)
  moreover have "get_chunk_string (m_ab_header h1) (m_query_version h1) = Some (q_version r)"
    "get_query_method h1 = Some (q_method r)"
    using ans assms(1) chunk_string_host_seen [OF _ _ h1(2)] fields
    by (simp_all add: answerable_def plain_request_def get_query_method_def)
  ultimately have "stands_for h1 r"
    using ans h1(3) assms(4) fields body_text_done [OF assms(4)]
    by (auto simp: stands_for_def answerable_def body_done_def body_text_def)
  then show ?thesis using h1(1) by blast
qed

section \<open>The actions implement the reference\<close>

lemma stands_for_lookups:
  assumes "stands_for h r" and "NUL \<notin> set key"
  shows "get_parameter h key dflt = Some (case parameter_of key r of None \<Rightarrow> dflt | Some v \<Rightarrow> Some v)"
    and "is_parameter_exist h key = Some (has_parameter key r)"
proof -
  have v: "views (m_buffer (m_ab_params h)) (m_params_value h) (args_pairs (request_args r))"
    using assms(1) by (simp add: stands_for_def)
  show "get_parameter h key dflt = Some (case parameter_of key r of None \<Rightarrow> dflt | Some v \<Rightarrow> Some v)"
    using get_parameter_views [OF assms(2) v] by (auto simp: parameter_of_def lookup_or_def split: option.splits)
  show "is_parameter_exist h key = Some (has_parameter key r)"
    using is_parameter_exist_views [OF assms(2) v] by (simp add: has_parameter_def)
qed

lemma session_of_request:
  assumes "plain_request r" and "named_line r h" and "seen_lists r h" and "body_done (request_args r) (q_body r) h"
    and "m_host h = None" and "wire_session re r st = Some (p, resp, st1)"
  shows "\<exists>h1. processing_session env re (h, response_new) st = Some (p, (h1, resp), st1) \<and> stands_for h1 r"
proof -
  obtain h1 where h1: "get_host h = Some (host_of r, h1)" "stands_for h1 r"
    using parsed_stands_for [OF assms(1-5)] by blast
  have cookie: "get_cookie h get_session_code None = Some (cookie_of get_session_code r)"
    using cookie_request [OF assms(3)] by (simp add: get_session_code_def NUL_def)
  have ip: "http_client_ip h peer = (case proxy_ip_of r of None \<Rightarrow> Some peer | Some ip \<Rightarrow> if length ip < 255 then Some ip else None)" for peer
    using proxy_ip_request [OF assms(3)] by (simp add: http_client_ip_def)
  have "processing_session env re (h, response_new) st = Some (p, (h1, resp), st1)"
    using assms(6) cookie ip h1(1)
    by (auto simp: processing_session_def wire_session_def session_cookie_def Let_def bind_eq_Some_conv)
  then show ?thesis using h1(2) by blast
qed

lemma change_of_request:
  assumes "stands_for h r"
  shows "action_change env h p JNull st = wire_change env r p st"
proof -
  note look = stands_for_lookups [OF assms]
  have "get_parameter h ''curpwd'' None = Some (parameter_of ''curpwd'' r)" "get_parameter h ''newpwd'' None = Some (parameter_of ''newpwd'' r)"
    "get_parameter h ''loginpwd'' None = Some (parameter_of ''loginpwd'' r)" "is_parameter_exist h ''loginpwd'' = Some (has_parameter ''loginpwd'' r)"
    using look [of "''curpwd''"] look [of "''newpwd''"] look [of "''loginpwd''"] by (auto simp: NUL_def split: option.splits)
  then show ?thesis
    by (auto simp: action_change_def wire_change_def known_password_def split: Option.bind_splits option.splits)
qed

lemma reply_sent:
  assumes "has_bev c" and "stands_for h r"
  shows "\<exists>r1 c1. send_response_body now h body resp c = Some (r1, c1) \<and> sent_more (answer_text r now resp body) c c1
     \<and> m_auto_close r1 = wants_close r"
    and "\<exists>r1 c1. end_of_response now h resp c = Some (r1, c1) \<and> sent_more (answer_text r now resp []) c c1
     \<and> m_auto_close r1 = wants_close r"
proof -
  have h: "answerable h (q_version r) (connection_wish r) (q_method r)" using assms(2) by (simp add: stands_for_def)
  show "\<exists>r1 c1. send_response_body now h body resp c = Some (r1, c1) \<and> sent_more (answer_text r now resp body) c c1
     \<and> m_auto_close r1 = wants_close r"
    using send_response_exact [OF assms(1) h, of "Some body" "length body" now resp]
    by (auto simp: send_response_body_def answer_text_def wants_close_def)
  show "\<exists>r1 c1. end_of_response now h resp c = Some (r1, c1) \<and> sent_more (answer_text r now resp []) c c1
     \<and> m_auto_close r1 = wants_close r"
    using send_response_exact [OF assms(1) h, of None 0 now resp]
    by (auto simp: end_of_response_def answer_text_def wants_close_def)
qed

text \<open>
  \<open>answers ok r t c st1 result\<close>: the handler returns \<open>ok\<close>, has answered the request with the text \<open>t\<close> and left the
  backend in \<open>st1\<close>.
\<close>

definition answers :: "bool \<Rightarrow> wire_request \<Rightarrow> string \<Rightarrow> connection \<Rightarrow> 'c backend \<Rightarrow> 'c backend_result \<Rightarrow> bool" where
  "answers ok r t c st1 result \<longleftrightarrow> (\<exists>h1 r1 c1. result = Some (ok, (h1, r1), c1, st1) \<and> sent_more t c c1
     \<and> is_send_data h1 \<noteq> None \<and> m_auto_close r1 = wants_close r)"

lemma stands_for_send: "stands_for h r \<Longrightarrow> is_send_data h \<noteq> None"
  by (auto simp: stands_for_def answerable_def is_send_data_def)

lemma logout_of_request:
  assumes "stands_for h r" and "wire_logout re r resp p st = Some (resp1, st1)"
  shows "action_logout re (h, resp) p st = Some ((h, resp1), st1)"
  using assms by (auto simp: wire_logout_def action_logout_def stands_for_def session_cookie_def bind_eq_Some_conv)

lemma auth_of_request:
  assumes h: "stands_for h r" and bev: "has_bev c"
    and reply: "wire_auth env re r (fst (parse_action params)) resp p st = Some (resp1, body, st1)"
  shows "answers True r (answer_text r (re_now re) resp1 body) c st1 (action_auth env re params (h, resp) c p st)"
proof -
  let ?a = "fst (parse_action params)"
  obtain root resp0 where root: "body = json_string root"
    "resp1 = set_content_type ''application/javascript'' ''UTF-8'' resp0"
    "(if ?a = ''login'' then
        do { st1 \<leftarrow> action_login env re h p st; s \<leftarrow> deref p (sc_objects (be_sessions st1));
             root \<leftarrow> json_fill_auth s True JNull; Some (root, (h, resp), st1) }
      else if ?a = ''logout'' then do { (proc1, st1) \<leftarrow> action_logout re (h, resp) p st; Some (JNull, proc1, st1) }
      else if ?a = ''change'' then
        do { (root, st1) \<leftarrow> action_change env h p JNull st; s \<leftarrow> deref p (sc_objects (be_sessions st1));
             root1 \<leftarrow> json_fill_auth s True root; Some (root1, (h, resp), st1) }
      else Some (JNull, (h, resp), st)) = Some (root, (h, resp0), st1)"
  proof -
    consider "?a = ''login''" | "?a = ''logout''" | "?a = ''change''" | "?a \<notin> {''login'', ''logout'', ''change''}" by blast
    then show thesis
    proof cases
      case 1
      then show thesis using reply h by (auto simp: wire_auth_def stands_for_def action_login_def bind_eq_Some_conv intro!: that)
    next
      case 2
      then obtain resp0 where "wire_logout re r resp p st = Some (resp0, st1)" "body = json_string JNull"
        "resp1 = set_content_type ''application/javascript'' ''UTF-8'' resp0"
        using reply by (auto simp: wire_auth_def bind_eq_Some_conv)
      moreover from logout_of_request [OF h this(1)] have "action_logout re (h, resp) p st = Some ((h, resp0), st1)" .
      ultimately show thesis using 2 by (intro that [of JNull resp0]) simp_all
    next
      case 3
      then show thesis using reply change_of_request [OF h, of env p st] by (auto simp: wire_auth_def bind_eq_Some_conv intro!: that)
    next
      case 4
      then show thesis using reply by (auto simp: wire_auth_def intro!: that)
    qed
  qed
  from reply_sent(1) [OF bev h, of "re_now re" body resp1] root(1,2) obtain r1 c1 where
    sent: "send_response_body (re_now re) h (json_string root) (set_content_type ''application/javascript'' ''UTF-8'' resp0) c = Some (r1, c1)"
    "sent_more (answer_text r (re_now re) resp1 body) c c1" "m_auto_close r1 = wants_close r" by blast
  have "action_auth env re params (h, resp) c p st = Some (True, (h, r1), c1, st1)"
    unfolding action_auth_def Let_def fst_conv root(3) by (simp add: sent(1))
  then show ?thesis using sent stands_for_send [OF h] by (auto simp: answers_def)
qed

lemma int_parameter_of_request:
  "stands_for h r \<Longrightarrow> NUL \<notin> set key \<Longrightarrow> int_parameter h key = int_of (parameter_of key r)"
  using stands_for_lookups(1) [of h r key None] by (auto simp: int_parameter_def int_of_def split: option.splits)

lemma refresh_of_request:
  assumes h: "stands_for h r" and bev: "has_bev c" and reply: "wire_refresh env re r resp st = Some (resp1, body, st1)"
  shows "answers True r (answer_text r (re_now re) resp1 body) c st1 (action_refresh env re (h, resp) c st)"
proof -
  define token where "token = (case parameter_of ''token'' r of None \<Rightarrow> [] | Some x \<Rightarrow> x)"
  obtain time_refresh time_access answer ts where a: "int_of (parameter_of ''time_refresh'' r) = Some time_refresh"
    "int_of (parameter_of ''time_access'' r) = Some time_access"
    "action_refresh_token (be_token_env env) (header_of ''Authorization'' r) token time_refresh time_access
       (re_now re * 1000000) (re_uuid1 re) (re_uuid2 re) (be_tokens st) = Some (answer, ts)"
    using reply by (auto simp: wire_refresh_def token_def Let_def bind_eq_Some_conv)
  have look: "get_header_parameter h ''Authorization'' None = Some (header_of ''Authorization'' r)"
    "get_parameter h ''token'' (Some []) = Some (Some token)"
    "int_parameter h ''time_refresh'' = Some time_refresh" "int_parameter h ''time_access'' = Some time_access"
    using h stands_for_lookups(1) [OF h, of "''token''"] a(1,2) int_parameter_of_request [OF h]
    by (auto simp: stands_for_def token_def NUL_def split: option.splits)
  show ?thesis
  proof (cases answer)
    case None
    then have r: "resp1 = set_response_status 401 ''Unauthorized'' resp" "body = []" "st1 = st\<lparr>be_tokens := ts\<rparr>"
      using reply a by (auto simp: wire_refresh_def token_def [symmetric] Let_def)
    from reply_sent(2) [OF bev h, of "re_now re" resp1] obtain r1 c1 where
      "end_of_response (re_now re) h resp1 c = Some (r1, c1)" "sent_more (answer_text r (re_now re) resp1 []) c c1"
      "m_auto_close r1 = wants_close r" by blast
    then show ?thesis using a look r None stands_for_send [OF h] by (auto simp: answers_def action_refresh_def)
  next
    case (Some root)
    then obtain root1 where r: "json_set ''0dur'' (JInt (re_duration re)) root = Some root1" "body = json_string root1"
      "resp1 = set_content_type ''application/json'' ''UTF-8'' resp" "st1 = st\<lparr>be_tokens := ts\<rparr>"
      using reply a by (auto simp: wire_refresh_def token_def [symmetric] Let_def bind_eq_Some_conv)
    from reply_sent(1) [OF bev h, of "re_now re" body resp1] obtain r1 c1 where
      "send_response_body (re_now re) h body resp1 c = Some (r1, c1)" "sent_more (answer_text r (re_now re) resp1 body) c c1"
      "m_auto_close r1 = wants_close r" by blast
    then show ?thesis using a look r Some stands_for_send [OF h] by (auto simp: answers_def action_refresh_def)
  qed
qed

lemma storage_length: "length get_url_prefix_storage = 9"
  by (simp add: get_url_prefix_storage_def)

lemma file_of_request:
  assumes h: "answerable h (q_version r) (connection_wish r) (q_method r)" "seen_lists r h" and bev: "has_bev c"
    and reply: "wire_file sv r = Some (resp, body)"
  shows "\<exists>ok r1 c1. backend_file_server sv (q_uri r) (h, response_new) c = Some (ok, (h, r1), c1)
     \<and> sent_more (answer_text r (sv_now sv) resp body) c c1 \<and> m_auto_close r1 = wants_close r"
proof (cases "take 9 (q_uri r) = ''/storage/''")
  case True
  let ?r = "r\<lparr>q_uri := drop 8 (q_uri r)\<rparr>" and ?sv = "sv\<lparr>m_doc_root := m_storage_root sv\<rparr>"
  have same: "connection_wish ?r = connection_wish r" "wants_close ?r = wants_close r" "seen_lists ?r h"
    using h(2) by (simp_all add: connection_wish_def wants_close_def header_of_def seen_lists_def)
  have "file_reply ?sv ?r = Some (resp, body)" using reply True by (simp add: wire_file_def)
  moreover have "take 9 (q_uri r) = get_url_prefix_storage" using True by (simp add: get_url_prefix_storage_def)
  ultimately show ?thesis using file_answered [OF bev, of h ?r ?sv "(resp, body)"] h(1) same
    by (auto simp: answers_with_def answer_text_def backend_file_server_def storage_length)
next
  case False
  then have reply: "file_reply sv r = Some (resp, body)" using reply by (simp add: wire_file_def)
  have other: "take 9 (q_uri r) \<noteq> get_url_prefix_storage" using False by (simp add: get_url_prefix_storage_def)
  have "backend_file_server sv (q_uri r) (h, response_new) c = process_http_file_server sv (q_uri r) (h, response_new) c"
    using other by (simp add: backend_file_server_def storage_length Let_def)
  then show ?thesis using file_answered [OF bev h reply]
    by (auto simp: answers_with_def answer_text_def process_http_file_server_def)
qed

text \<open>The backend answers every request the reference has an answer for, with that answer.\<close>

theorem backend_implements_reply:
  assumes r: "plain_request r" "named_line r h" "seen_lists r h" "body_done (request_args r) (q_body r) h" "m_host h = None"
    and bev: "has_bev c" and reply: "backend_reply env sv re r st = Some (now, resp, body, st1)"
  shows "\<exists>ok. answers ok r (answer_text r now resp body) c st1 (backend_process_http env sv re (h, response_new) c st)"
proof -
  have uri: "get_query_uri h = Some (q_uri r)"
    using r(2) by (simp add: named_line_def get_query_uri_def names_string)
  show ?thesis
  proof (cases "take 5 (q_uri r) = ''/api/''")
    case True
    obtain action params where ap: "parse_action (drop 5 (q_uri r)) = (action, params)" by fastforce
    from reply True ap obtain p resp0 st0 where s: "wire_session re r st = Some (p, resp0, st0)"
      by (auto simp: backend_reply_def bind_eq_Some_conv)
    from session_of_request [OF r s, of env] obtain h1 where
      h1: "processing_session env re (h, response_new) st = Some (p, (h1, resp0), st0)" "stands_for h1 r" by blast
    note api = True get_url_prefix_action_def [symmetric]
    have run: "backend_process_http env sv re (h, response_new) c st =
        do { (found, (h1, r1), c1, st1) \<leftarrow> backend_http_action env re action params (h, response_new) c st;
             if found then Some (True, (h1, r1), c1, st1)
             else do { (r2, c2) \<leftarrow> send_response_body (re_now re) h1 ''File not found'' (set_response_status 404 ''Not found'' r1) c1;
                       Some (False, (h1, r2), c2, st1) } }"
      using uri ap True by (simp add: backend_process_http_def api_length) (simp add: get_url_prefix_action_def)
    consider "action = ''auth''" | "action = ''refresh_token''" | "action \<notin> {''auth'', ''refresh_token''}" by blast
    then show ?thesis
    proof cases
      case 1
      then have "wire_auth env re r (fst (parse_action params)) resp0 p st0 = Some (resp, body, st1)" "now = re_now re"
        using reply True ap s by (auto simp: backend_reply_def)
      with auth_of_request [OF h1(2) bev this(1)] run 1 h1(1) show ?thesis
        by (auto simp: answers_def backend_http_action_def)
    next
      case 2
      then have "wire_refresh env re r resp0 st0 = Some (resp, body, st1)" "now = re_now re"
        using reply True ap s by (auto simp: backend_reply_def)
      with refresh_of_request [OF h1(2) bev this(1)] run 2 h1(1) show ?thesis
        by (auto simp: answers_def backend_http_action_def)
    next
      case 3
      then have "resp = set_response_status 404 ''Not found'' resp0" "body = ''File not found''" "st1 = st0" "now = re_now re"
        using reply True ap s by (auto simp: backend_reply_def)
      with reply_sent(1) [OF bev h1(2), of "re_now re" "''File not found''" resp] run 3 h1 stands_for_send [OF h1(2)] show ?thesis
        by (auto simp: answers_def backend_http_action_def)
    qed
  next
    case False
    then have f: "wire_file sv r = Some (resp, body)" "now = sv_now sv" "st1 = st"
      using reply by (auto simp: backend_reply_def)
    have "take 5 (q_uri r) \<noteq> get_url_prefix_action" using False by (simp add: get_url_prefix_action_def)
    moreover have ans: "answerable h (q_version r) (connection_wish r) (q_method r)"
      using r(1) answerable_request [OF r(2,3)] by (simp add: plain_request_def)
    moreover have "is_send_data h \<noteq> None" using ans by (auto simp: answerable_def is_send_data_def)
    ultimately show ?thesis using file_of_request [OF ans r(3) bev f(1)] uri f
      by (auto simp: answers_def backend_process_http_def api_length)
  qed
qed

end
