(* ===== verification/Wire_Theorems.thy ===== *)
theory Wire_Theorems
  imports Backend_Wire
begin

text \<open>
  The backend at the socket: the service of a connection with the state of the backend, its instance of
  \<open>http_service\<close>, and what that gives: pipelined requests are answered as the reference says, and a client that
  logs in gets a cookie that makes it the user in later requests.
\<close>

section \<open>The backend behind a connection\<close>

text \<open>The state is the backend with what the outside gives to the coming requests.\<close>

definition backend_service :: "'c backend_env \<Rightarrow> server \<Rightarrow> ('c backend \<times> request_env list) service" where
  "backend_service env sv proc c s =
     (case snd s of
        [] \<Rightarrow> None
      | re # res \<Rightarrow> do { (ok, proc1, c1, st1) \<leftarrow> backend_process_http env sv re proc c (fst s); Some (ok, proc1, c1, st1, res) })"

definition backend_step ::
    "'c backend_env \<Rightarrow> server \<Rightarrow> 'c backend \<times> request_env list \<Rightarrow> wire_request \<Rightarrow> string \<Rightarrow> 'c backend \<times> request_env list \<Rightarrow> bool" where
  "backend_step env sv s r t s1 \<longleftrightarrow> plain_request r \<and> (\<exists>re now resp body. snd s = re # snd s1
     \<and> backend_reply env sv re r (fst s) = Some (now, resp, body, fst s1) \<and> t = answer_text r now resp body)"

interpretation bs: http_service "backend_service env sv" "backend_step env sv" wants_close
  for env :: "'c backend_env" and sv
proof
  fix s s1 :: "'c backend \<times> request_env list" and r t h c
  assume a: "backend_step env sv s r t s1" "named_line r h" "seen_lists r h" "body_done (request_args r) (q_body r) h"
    "m_host h = None" "has_bev c"
  then obtain re now resp body where s: "plain_request r" "snd s = re # snd s1"
    "backend_reply env sv re r (fst s) = Some (now, resp, body, fst s1)" "t = answer_text r now resp body"
    by (auto simp: backend_step_def)
  from backend_implements_reply [OF s(1) a(2-6) s(3)] s(2,4)
  show "\<exists>b h1 r1 c1. backend_service env sv (h, response_new) c s = Some (b, (h1, r1), c1, s1) \<and> sent_more t c c1
      \<and> is_send_data h1 \<noteq> None \<and> m_auto_close r1 = wants_close r"
    by (cases s1) (auto simp: backend_service_def answers_def)
qed (auto simp: backend_step_def answer_text_def response_text_def ENDL_def)

fun backend_replies ::
    "'c backend_env \<Rightarrow> server \<Rightarrow> request_env list \<Rightarrow> wire_request list \<Rightarrow> 'c backend \<Rightarrow> (string list \<times> 'c backend) option" where
  "backend_replies env sv res [] st = Some ([], st)"
| "backend_replies env sv [] (r # rs) st = None"
| "backend_replies env sv (re # res) (r # rs) st =
     do { (now, resp, body, st1) \<leftarrow> backend_reply env sv re r st;
          (ts, st2) \<leftarrow> backend_replies env sv res rs st1;
          Some (answer_text r now resp body # ts, st2) }"

lemma backend_serves_all:
  "backend_replies env sv res rs st = Some (ts, st2) \<Longrightarrow> \<forall>r \<in> set rs. plain_request r \<Longrightarrow>
     serves_all (backend_step env sv) (st, res) rs ts (st2, drop (length rs) res)"
proof (induction env sv res rs st arbitrary: ts rule: backend_replies.induct)
  case (3 env sv re res r rs st)
  obtain now resp body st1 ts1 where s: "backend_reply env sv re r st = Some (now, resp, body, st1)"
    "backend_replies env sv res rs st1 = Some (ts1, st2)" "ts = answer_text r now resp body # ts1"
    using "3.prems"(1) by (auto simp: bind_eq_Some_conv)
  have "serves_all (backend_step env sv) (st1, res) rs ts1 (st2, drop (length rs) res)"
    using "3.IH" [OF s(1) refl refl refl s(2)] "3.prems"(2) by simp
  moreover have "backend_step env sv (st, re # res) r (answer_text r now resp body) (st1, res)"
    using s(1) "3.prems"(2) by (auto simp: backend_step_def)
  ultimately show ?case using s(3) by (auto intro: serves_all.intros)
qed (auto intro: serves_all.intros)

text \<open>requests that arrive in one piece at a backend are answered in their order with the answers the reference
  gives for them, one after the other on the state the earlier ones left, and nothing else is written; the
  backend is then in the state of the reference, the request object and the receive buffer are empty.\<close>

theorem backend_requests_answered:
  assumes "backend_replies env sv res rs st = Some (ts, st2)"
    and "\<forall>r \<in> set rs. plain_request r \<and> request_length r \<noteq> 0"
    and "has_bev (hc_conn hc)" and "m_http_processor hc = None" and "holds (m_socket_buffer (hc_conn hc)) []"
    and "length (concat (map render_request rs)) < size_modulus"
  shows "\<exists>hc1. http_stub_conn_read (backend_service env sv) junk (map char_byte (concat (map render_request rs))) hc (st, res)
       = Some (hc1, st2, drop (length rs) res)
     \<and> c_written (hc_conn hc1) = c_written (hc_conn hc) @ map char_byte (concat ts)
     \<and> m_http_processor hc1 = None \<and> holds (m_socket_buffer (hc_conn hc1)) []
     \<and> m_bev (hc_conn hc1) = (if \<exists>r \<in> set rs. wants_close r then Bev_Flushing else m_bev (hc_conn hc))"
proof -
  have plain: "\<forall>r \<in> set rs. plain_request r" and ok: "\<forall>r \<in> set rs. request_ok r \<and> request_length r \<noteq> 0"
    using assms(2) by (auto simp: plain_request_def)
  from bs.pipelined_read [OF backend_serves_all [OF assms(1) plain] ok assms(3-6), of junk] show ?thesis by auto
qed

text \<open>A file and an action nobody knows.\<close>

definition sample_mix :: "wire_request list" where
  "sample_mix =
     [\<lparr>q_method = ''GET'', q_uri = ''/a.js'', q_args = None, q_version = ''HTTP/1.1'', q_headers = [(''Host'', 1, ''x:80'')], q_body = []\<rparr>,
      \<lparr>q_method = ''GET'', q_uri = ''/api/x'', q_args = None, q_version = ''HTTP/1.1'', q_headers = [(''Host'', 1, ''x:80'')], q_body = []\<rparr>]"

lemma sample_mix_ok: "\<forall>r \<in> set sample_mix. plain_request r \<and> request_length r \<noteq> 0"
  by (simp add: sample_mix_def plain_request_def request_ok_def body_ok_def request_eval connection_wish_def header_of_def line_break_def)

lemma sample_mix_replies:
  "\<exists>t1 t2 st2. backend_replies login_env sample_server [login_call, login_call] sample_mix empty_backend = Some ([t1, t2], st2)"
proof -
  obtain r1 r2 where rs: "sample_mix = [r1, r2]" "q_uri r1 = ''/a.js''" "q_uri r2 = ''/api/x''" "q_headers r1 = [(''Host'', 1, ''x:80'')]"
    "q_headers r2 = [(''Host'', 1, ''x:80'')]" by (simp add: sample_mix_def)
  have "\<exists>resp body. file_reply sample_server r1 = Some (resp, body)"
    using rs by (simp add: file_reply_def sample_server_def requested_file_def PATH_MAX_def header_of_def seen_header_def char_eval)
  then obtain resp body where found: "wire_file sample_server r1 = Some (resp, body)" using rs by (auto simp: wire_file_def)
  have "\<exists>p resp st1. wire_session login_call r2 empty_backend = Some (p, resp, st1)"
    using rs by (simp add: wire_session_def cookie_of_def proxy_ip_of_def header_of_def seen_header_def seen_cookies_def lookup_or_def
        char_eval empty_backend_def session_controller_new_def get_session_def new_session_eq on_session_def login_call_def deref_def modify_def)
  then obtain p resp2 st1 where session: "wire_session login_call r2 empty_backend = Some (p, resp2, st1)" by blast
  have "backend_reply login_env sample_server login_call r1 empty_backend = Some (sv_now sample_server, resp, body, empty_backend)"
    using found rs(2) by (simp add: backend_reply_def)
  moreover have "backend_reply login_env sample_server login_call r2 empty_backend
      = Some (re_now login_call, set_response_status 404 ''Not found'' resp2, ''File not found'', st1)"
    using session rs(3) by (simp add: backend_reply_def parse_action_def)
  ultimately show ?thesis unfolding rs(1) by simp
qed

theorem backend_requests_answered_witness:
  "\<exists>hc1 t1 t2 st2. http_stub_conn_read (backend_service login_env sample_server) 7 (map char_byte (concat (map render_request sample_mix)))
       (http_connection_new sample_connection) (empty_backend, [login_call, login_call]) = Some (hc1, st2, [])
     \<and> c_written (hc_conn hc1) = c_written sample_connection @ map char_byte (t1 @ t2)"
proof -
  obtain t1 t2 st2 where replies:
    "backend_replies login_env sample_server [login_call, login_call] sample_mix empty_backend = Some ([t1, t2], st2)"
    using sample_mix_replies by blast
  have conn: "has_bev (hc_conn (http_connection_new sample_connection))" "m_http_processor (http_connection_new sample_connection) = None"
    "holds (m_socket_buffer (hc_conn (http_connection_new sample_connection))) []"
    "hc_conn (http_connection_new sample_connection) = sample_connection"
    using sample_bev holds_new by (simp_all add: http_connection_new_def sample_connection_def open_connection_def connection_new_def)
  have "length (concat (map render_request sample_mix)) < size_modulus" "length sample_mix = 2"
    by (simp_all add: sample_mix_def render_request_def render_line_def render_headers_simps render_header_def size_modulus_def)
  with backend_requests_answered [OF replies sample_mix_ok conn(1-3), of 7] conn(4) show ?thesis by fastforce
qed

section \<open>The session of a request\<close>

definition wire_sid :: "wire_request \<Rightarrow> string" where
  "wire_sid r = (case cookie_of get_session_code r of None \<Rightarrow> [] | Some x \<Rightarrow> x)"

definition wire_ip_ok :: "wire_request \<Rightarrow> bool" where
  "wire_ip_ok r \<longleftrightarrow> (case proxy_ip_of r of None \<Rightarrow> True | Some ip \<Rightarrow> length ip < 255)"

lemma visit_fields [simp]:
  "m_session_id (set_ip ip (set_last_activity now s)) = m_session_id s"
  "m_expired (set_ip ip (set_last_activity now s)) = m_expired s"
  "m_bAuthenticate (set_ip ip (set_last_activity now s)) = m_bAuthenticate s"
  "m_idUser (set_ip ip (set_last_activity now s)) = m_idUser s"
  "m_sNickname (set_ip ip (set_last_activity now s)) = m_sNickname s"
  "m_dRoles (set_ip ip (set_last_activity now s)) = m_dRoles s"
  by (auto simp: set_ip_def set_last_activity_def split: option.splits)

lemma wire_session_runs:
  assumes ok: "controller_ok (be_sessions st)" and fresh: "find_session (re_session_uid re) (be_sessions st) = None"
    and ip: "wire_ip_ok r"
  shows "\<exists>p s st1. wire_session re r st = Some (p, session_cookie s (host_of r) response_new, st1)
     \<and> deref p (sc_objects (be_sessions st1)) = Some s \<and> find_session (m_session_id s) (be_sessions st1) = Some p
     \<and> re_now re < m_expired s \<and> be_storage st1 = be_storage st \<and> controller_ok (be_sessions st1)
     \<and> (case live_session (re_now re) (wire_sid r) (be_sessions st) of
          None \<Rightarrow> m_session_id s = re_session_uid re
        | Some t \<Rightarrow> find_session (wire_sid r) (be_sessions st) = Some p \<and> m_session_id s = wire_sid r
            \<and> m_bAuthenticate s = m_bAuthenticate t \<and> m_idUser s = m_idUser t \<and> m_sNickname s = m_sNickname t
            \<and> m_dRoles s = m_dRoles t)"
proof -
  let ?c = "be_sessions st"
  obtain p created c1 s where g: "get_session get_session_creator (re_now re) (re_session_uid re) (wire_sid r) False ?c
      = Some (Some p, created, c1)" "deref p (sc_objects c1) = Some s" "find_session (m_session_id s) c1 = Some p"
    "re_now re < m_expired s" "controller_ok c1"
    "case live_session (re_now re) (wire_sid r) ?c of
          None \<Rightarrow> m_session_id s = re_session_uid re
        | Some t \<Rightarrow> find_session (wire_sid r) ?c = Some p \<and> m_session_id s = wire_sid r
            \<and> m_bAuthenticate s = m_bAuthenticate t \<and> m_idUser s = m_idUser t \<and> m_sNickname s = m_sNickname t
            \<and> m_dRoles s = m_dRoles t"
  proof (cases "live_session (re_now re) (wire_sid r) ?c")
    case None
    have "std_find (re_session_uid re) (m_session_memory ?c) = None" using fresh by (simp add: find_session_def)
    from get_session_created [OF ok None this, of False] None that show thesis
      by (fastforce simp: first_session_def s2h_session_new_def session_reset_def base_reset_def DEFAULT_EXPIRE_MINUTES_def)
  next
    case (Some t)
    from get_session_live [OF ok Some, of get_session_creator "re_session_uid re" False] obtain p c' where
      c': "get_session get_session_creator (re_now re) (re_session_uid re) (wire_sid r) False ?c = Some (Some p, False, c')"
      "m_session_memory c' = m_session_memory ?c" "find_session (wire_sid r) ?c = Some p" "m_session_id t = wire_sid r"
      "deref p (sc_objects c') = Some (t\<lparr>m_expired := re_now re + get_expire_shift t\<rparr>)" "controller_ok c'" by blast
    show thesis
      by (rule that [OF c'(1,5)])
        (use c' Some in \<open>simp_all add: find_session_def get_expire_shift_def base_expire_shift_def DEFAULT_EXPIRE_MINUTES_def\<close>)
  qed
  obtain ip where i: "(case proxy_ip_of r of None \<Rightarrow> Some (re_peer re) | Some ip \<Rightarrow> if length ip < 255 then Some ip else None) = Some ip"
    using ip by (auto simp: wire_ip_ok_def split: option.splits)
  let ?f = "\<lambda>s. set_ip ip (set_last_activity (re_now re) s)"
  obtain c2 where c2: "on_session ?f p c1 = Some c2" "m_session_memory c2 = m_session_memory c1"
    using g(2) deref_less by (fastforce simp: on_session_def)
  have ok2: "controller_ok c2"
    by (rule on_session_ok(1) [OF g(5) c2(1)])
      (auto simp: set_ip_def set_last_activity_def session_ok_def sd.ok_insert split: option.splits)
  have s2: "deref p (sc_objects c2) = Some (?f s)" using on_session_deref [OF c2(1), of p] g(2) by simp
  have "wire_session re r st = Some (p, session_cookie (?f s) (host_of r) response_new, st\<lparr>be_sessions := c2\<rparr>)"
    using g(1) i c2(1) s2 by (simp add: wire_session_def wire_sid_def)
  then show ?thesis using g(3,4,6) c2(2) s2 ok2
    by (intro exI [of _ p] exI [of _ "?f s"] exI [of _ "st\<lparr>be_sessions := c2\<rparr>"]) (auto simp: find_session_def split: option.splits)
qed

section \<open>The log in\<close>

definition session_of_user :: "int \<Rightarrow> string \<Rightarrow> storage \<Rightarrow> session \<Rightarrow> session" where
  "session_of_user uid nickname db s = GetUserRoles uid db (s\<lparr>m_idUser := uid, m_sNickname := nickname, m_bAuthenticate := True\<rparr>)"

lemma session_of_user_fields [simp]:
  "m_session_id (session_of_user uid nickname db s) = m_session_id s" "m_expired (session_of_user uid nickname db s) = m_expired s"
  "m_bAuthenticate (session_of_user uid nickname db s)" "m_idUser (session_of_user uid nickname db s) = uid"
  "m_sNickname (session_of_user uid nickname db s) = nickname"
  by (simp_all add: session_of_user_def GetUserRoles_def)

lemma session_of_user_roles: "IsRoleExist role (session_of_user uid nickname db s) \<longleftrightarrow> role \<in> set (user_roles uid db)"
  using roles_of_fold [of "s\<lparr>m_idUser := uid, m_sNickname := nickname, m_bAuthenticate := True, m_dRoles := []\<rparr>"]
  by (simp add: session_of_user_def GetUserRoles_def IsRoleExist_def)

lemma fold_AppendRole_ok:
  "m_ips (fold AppendRole rs s) = m_ips s" "sorted_map (m_dRoles s) \<Longrightarrow> sorted_map (m_dRoles (fold AppendRole rs s))"
  by (induction rs arbitrary: s) (simp_all add: AppendRole_def sd.ok_insert)

lemma log_in_right:
  assumes "deref p (sc_objects (be_sessions st)) = Some s"
    and "parse_json (sscanf_double (be_token_env env)) body = Some (True, auth)" "login_credentials auth = Some (login, password)"
    and "get_user_info login (be_storage st) = Some (uid, nickname, be_md5_hex env (login @ password @ salt), salt)"
  shows "\<exists>sc. log_in env re body p st = Some (st\<lparr>be_sessions := sc\<rparr>)
     \<and> deref p (sc_objects sc) = Some (session_of_user uid nickname (be_storage st) s)
     \<and> m_session_memory sc = m_session_memory (be_sessions st)
     \<and> (controller_ok (be_sessions st) \<and> is_int32 uid \<longrightarrow> controller_ok sc)"
proof -
  obtain sc where sc: "on_session (\<lambda>s. GetUserRoles uid (be_storage st)
      (s\<lparr>m_idUser := uid, m_sNickname := nickname, m_bAuthenticate := True\<rparr>)) p (be_sessions st) = Some sc"
    "m_session_memory sc = m_session_memory (be_sessions st)"
    using assms(1) deref_less by (fastforce simp: on_session_def)
  have s1: "deref p (sc_objects sc) = Some (session_of_user uid nickname (be_storage st) s)"
    using on_session_deref [OF sc(1), of p] assms(1) by (simp add: session_of_user_def)
  then obtain sc1 where sc1: "update_session (re_now re) p sc = Some sc1" "m_session_memory sc1 = m_session_memory sc"
    by (auto simp: update_session_def db_update_session_eq)
  have ok: "controller_ok sc" if "controller_ok (be_sessions st)" "is_int32 uid"
    by (rule on_session_ok(1) [OF that(1) sc(1)]) (use that(2) in \<open>auto simp: session_ok_def GetUserRoles_def fold_AppendRole_ok\<close>)
  then have "controller_ok sc1" if "controller_ok (be_sessions st)" "is_int32 uid"
    using that sc1(2) update_session_objects [OF sc1(1)] by (auto simp: controller_ok_def)
  then show ?thesis using assms sc s1 sc1 update_session_objects [OF sc1(1)]
    by (auto simp: log_in_def RecalcPasswordHash_def)
qed

text \<open>The answer to a log in.\<close>

definition auth_answer :: "session \<Rightarrow> json" where
  "auth_answer s = JObject [(''auth'', JBool True), (''nickname'', JString (m_sNickname s)), (''roles'', roles_json (m_dRoles s))]"

lemma fill_auth_answer: "m_bAuthenticate s \<Longrightarrow> json_fill_auth s True JNull = Some (auth_answer s)"
  by (simp add: json_fill_auth_def fill_roles_null auth_answer_def less_char_def)

lemma roles_json_read:
  assumes "\<forall>role. IsRoleExist role s \<longrightarrow> utf8_text role" and "Suc d \<le> stackLimit"
  shows "readable d (roles_json (m_dRoles s))" and "utf8_json (roles_json (m_dRoles s))"
proof -
  have roles: "\<forall>(role, u) \<in> set (m_dRoles s). utf8_text role"
    using assms(1) by (auto simp: IsRoleExist_def std_find_def map_of_eq_None_iff)
  have "readable_elements (Suc d) (map (\<lambda>(r, _). JString r) m)" for m :: "(string, unit) std_map"
    using assms(2) by (induction m) auto
  then show "readable d (roles_json (m_dRoles s))" using assms(2) by (simp add: roles_json_def)
  have "utf8_elements (map (\<lambda>(r, _). JString r) m)" if "\<forall>(role, u) \<in> set m. utf8_text role" for m :: "(string, unit) std_map"
    using that by (induction m) auto
  then show "utf8_json (roles_json (m_dRoles s))" using roles by (simp add: roles_json_def)
qed

lemma auth_answer_read:
  assumes "utf8_text (m_sNickname s)" and "\<forall>role. IsRoleExist role s \<longrightarrow> utf8_text role"
  shows "parse_json sc (json_string (auth_answer s)) = Some (True, auth_answer s)"
proof -
  have "readable 1 (auth_answer s)" "utf8_json (auth_answer s)"
    using roles_json_read [OF assms(2), of "Suc (Suc 0)"] assms(1)
    by (simp_all add: auth_answer_def stackLimit_def clean_ascii utf8_ascii char_code_def sorted_map_def less_char_def)
  from parse_written [OF this(1)] clean_json_utf8(1) [OF this(2)] show ?thesis by simp
qed

section \<open>The cookie on its way\<close>

lemma split_from_chars: "seg \<in> set (split_from sep acc s) \<Longrightarrow> set seg \<subseteq> set acc \<union> (set s - {sep})"
proof (induction s arbitrary: acc)
  case (Cons c s)
  then show ?case by (cases "c = sep") (fastforce split: if_splits)+
qed simp

lemma after_last_eq_value: "CHR ''='' \<notin> set (drop (after_last_eq seg) seg)"
proof -
  have "drop (after_last_eq seg) seg = rev (takeWhile (\<lambda>c. c \<noteq> CHR ''='') (rev seg))"
  proof -
    have "rev seg = takeWhile (\<lambda>c. c \<noteq> CHR ''='') (rev seg) @ dropWhile (\<lambda>c. c \<noteq> CHR ''='') (rev seg)" by simp
    then have "seg = rev (dropWhile (\<lambda>c. c \<noteq> CHR ''='') (rev seg)) @ rev (takeWhile (\<lambda>c. c \<noteq> CHR ''='') (rev seg))"
      by (metis rev_append rev_rev_ident)
    moreover have "after_last_eq seg = length (rev (dropWhile (\<lambda>c. c \<noteq> CHR ''='') (rev seg)))"
      by (metis (no_types, lifting) add_diff_cancel_left' after_last_eq_def length_append length_rev takeWhile_dropWhile_id)
    ultimately show ?thesis by (metis append_eq_conv_conj)
  qed
  then show ?thesis by (auto dest: set_takeWhileD)
qed

lemma pair_value_chars:
  assumes "(k, Some v) \<in> set (pairs_of sep trim s)"
  shows "set v \<subseteq> set s - {sep, CHR ''=''}"
proof -
  obtain seg where "seg \<in> set (split_from sep [] s)" "v = drop (after_last_eq seg) seg"
    using assms by (auto simp: pairs_of_def pair_of_def split: if_splits)
  then show ?thesis using split_from_chars [of seg sep "[]" s] after_last_eq_value [of seg] set_drop_subset [of "after_last_eq seg" seg]
    by auto
qed

lemma takeWhile_stop: "c \<notin> set s \<Longrightarrow> takeWhile (\<lambda>x. x \<noteq> c) (s @ c # t) = s" "c \<notin> set s \<Longrightarrow> takeWhile (\<lambda>x. x \<noteq> c) s = s"
  by (induction s) auto

lemma pair_of_plain:
  assumes "CHR ''='' \<notin> set k" and "CHR ''='' \<notin> set v" and "k \<noteq> []" and "List.hd k \<noteq> CHR '' ''"
  shows "pair_of trim (k @ CHR ''='' # v) = (k, Some v)"
proof -
  have "after_last_eq (k @ CHR ''='' # v) = Suc (length k)"
    using takeWhile_stop(1) [of "CHR ''=''" "rev v" "rev k"] assms(2) by (simp add: after_last_eq_def)
  moreover have "lead trim (k @ CHR ''='' # v) = 0" using assms(3,4) by (cases k) (auto simp: lead_def)
  ultimately show ?thesis using takeWhile_stop(1) [of "CHR ''=''" k v] assms(1) by (simp add: pair_of_def)
qed

lemma lookup_ci_in: "lookup_ci key kvs = Some v \<Longrightarrow> \<exists>k. (k, v) \<in> set kvs"
  by (induction key kvs rule: lookup_ci.induct) (auto split: if_splits)

text \<open>A text that can stand in a cookie: it ends neither the cookie nor the line.\<close>

definition cookie_text_ok :: "string \<Rightarrow> bool" where
  "cookie_text_ok s \<longleftrightarrow> line_break \<notin> set s \<and> CHR '';'' \<notin> set s \<and> CHR ''='' \<notin> set s"

lemma header_value_plain: "request_ok r \<Longrightarrow> (k, a, v) \<in> set (q_headers r) \<Longrightarrow> line_break \<notin> set v"
  unfolding request_ok_def list_all_iff by (drule conjunct2, drule conjunct1, drule (1) bspec)
    (simp add: header_ok_def word_ok_def line_break_def)

lemma cookie_of_ok:
  assumes "request_ok r" and "cookie_of key r = Some v"
  shows "cookie_text_ok v"
proof -
  have "lookup_ci key (concat (map seen_cookies (q_headers r))) = Some (Some v)"
    using assms(2) by (auto simp: cookie_of_def lookup_or_def split: option.splits)
  then obtain k w where w: "w \<in> set (q_headers r)" "(k, Some v) \<in> set (seen_cookies w)"
    using lookup_ci_in by fastforce
  obtain k1 a s where kas: "w = (k1, a, s)" by (cases w)
  then have p: "(k, Some v) \<in> set (pairs_of CHR '';'' True s)"
    using w(2) by (auto simp: seen_cookies_def split: if_splits)
  have "line_break \<notin> set s" using header_value_plain [OF assms(1)] w(1) kas by blast
  then show ?thesis using pair_value_chars [OF p] by (auto simp: cookie_text_ok_def)
qed

lemma host_of_plain:
  assumes "request_ok r"
  shows "line_break \<notin> set (host_of r)"
proof -
  have "line_break \<notin> set v" if "header_of ''Host'' r = Some v" for v
  proof -
    from lookup_ci_in [OF that [unfolded header_of_def]] obtain k where "(k, v) \<in> set (map seen_header (q_headers r))" by blast
    then show ?thesis using header_value_plain [OF assms]
      by (fastforce simp: seen_header_def dest: set_takeWhileD split: if_splits)
  qed
  then show ?thesis by (auto simp: host_of_def dest: set_takeWhileD split: option.splits)
qed

text \<open>What a browser keeps of the \<open>Set-Cookie\<close> line of an answer, and a request that begins its header with it.\<close>

definition received_cookie :: "string list \<Rightarrow> string option" where
  "received_cookie lines = map_option (takeWhile (\<lambda>c. c \<noteq> CHR '';'')) (header_value ''Set-Cookie'' lines)"

definition sends_cookie :: "wire_request \<Rightarrow> string \<Rightarrow> bool" where
  "sends_cookie r text \<longleftrightarrow> (\<exists>a ws. q_headers r = (''Cookie'', a, text) # ws)"

lemma cookie_received:
  assumes "cookie_text_ok (m_session_id s)" and "m_redirect_url resp = []"
    and "m_out_cookies resp = m_out_cookies (session_cookie s host response_new)"
  shows "received_cookie (tl (response_lines now version ka resp len)) = Some (get_session_code @ ''='' @ m_session_id s)"
  using assms
  by (simp add: received_cookie_def response_lines_def session_cookie_def set_cookie_def cookie_line_def get_session_code_def cookie_text_ok_def
      takeWhile_stop response_new_def response_clear_def)

lemma cookie_sent_back:
  assumes "sends_cookie r (get_session_code @ ''='' @ sid)" and "cookie_text_ok sid"
  shows "wire_sid r = sid"
proof -
  have plain: "CHR '';'' \<notin> set sid" "CHR ''='' \<notin> set sid" using assms(2) by (auto simp: cookie_text_ok_def)
  have "split_from CHR '';'' acc s = [acc @ s]" if "CHR '';'' \<notin> set s" for acc s
    using that by (induction s arbitrary: acc) auto
  then have "pairs_of CHR '';'' True (get_session_code @ ''='' @ sid) = [pair_of True (get_session_code @ ''='' @ sid)]"
    using plain by (simp add: pairs_of_def get_session_code_def)
  also have "pair_of True (get_session_code @ ''='' @ sid) = (get_session_code, Some sid)"
    using pair_of_plain [of get_session_code sid True] plain(2) by (simp add: get_session_code_def)
  finally have "pairs_of CHR '';'' True (get_session_code @ ''='' @ sid) = [(get_session_code, Some sid)]" .
  moreover obtain a ws where "q_headers r = (''Cookie'', a, get_session_code @ ''='' @ sid) # ws"
    using assms(1) by (auto simp: sends_cookie_def)
  ultimately show ?thesis by (simp add: wire_sid_def cookie_of_def seen_cookies_def lookup_or_def ci_equal_def)
qed

section \<open>A client logs in\<close>

lemma login_reply:
  assumes uri: "q_uri r = ''/api/auth/login''"
    and session: "wire_session re r st = Some (p, resp, st1)" "deref p (sc_objects (be_sessions st1)) = Some s"
      "be_storage st1 = be_storage st"
    and body: "parse_json (sscanf_double (be_token_env env)) (q_body r) = Some (True, auth)" "login_credentials auth = Some (login, password)"
    and user: "get_user_info login (be_storage st) = Some (uid, nickname, be_md5_hex env (login @ password @ salt), salt)"
  shows "\<exists>sc. backend_reply env sv re r st = Some (re_now re, set_content_type ''application/javascript'' ''UTF-8'' resp,
        json_string (auth_answer (session_of_user uid nickname (be_storage st) s)), st1\<lparr>be_sessions := sc\<rparr>)
     \<and> deref p (sc_objects sc) = Some (session_of_user uid nickname (be_storage st) s)
     \<and> m_session_memory sc = m_session_memory (be_sessions st1)
     \<and> (controller_ok (be_sessions st1) \<and> is_int32 uid \<longrightarrow> controller_ok sc)"
proof -
  have user1: "get_user_info login (be_storage st1) = Some (uid, nickname, be_md5_hex env (login @ password @ salt), salt)"
    using user session(3) by simp
  from log_in_right [where re = re, OF session(2) body user1] obtain sc where
    sc: "log_in env re (q_body r) p st1 = Some (st1\<lparr>be_sessions := sc\<rparr>)"
    "deref p (sc_objects sc) = Some (session_of_user uid nickname (be_storage st) s)"
    "m_session_memory sc = m_session_memory (be_sessions st1)"
    "controller_ok (be_sessions st1) \<and> is_int32 uid \<longrightarrow> controller_ok sc"
    using session(3) by auto
  have "wire_auth env re r ''login'' resp p st1 = Some (set_content_type ''application/javascript'' ''UTF-8'' resp,
      json_string (auth_answer (session_of_user uid nickname (be_storage st) s)), st1\<lparr>be_sessions := sc\<rparr>)"
    using sc(1,2) by (simp add: wire_auth_def fill_auth_answer)
  moreover have "parse_action (drop 5 (q_uri r)) = (''auth'', ''login'')" "take 5 (q_uri r) = ''/api/''"
    "fst (parse_action ''login'') = ''login''"
    unfolding uri by (rule login_uri)+
  ultimately show ?thesis using session(1) sc by (intro exI [of _ sc]) (simp add: backend_reply_def)
qed


text \<open>Anna logs in at a fresh backend.\<close>

definition sample_login :: wire_request where
  "sample_login =
     \<lparr>q_method = ''POST'', q_uri = ''/api/auth/login'', q_args = None, q_version = ''HTTP/1.1'',
      q_headers = [(''Host'', 1, ''example.org:80''), (''Content-Length'', 1, ''32'')], q_body = anna_text\<rparr>"

lemma anna_text_size: "length anna_text = 32" "NUL \<notin> set anna_text" "anna_text \<noteq> []"
  by code_simp+

lemma sample_login_ok: "plain_request sample_login" "request_length sample_login = 32"
proof -
  show len: "request_length sample_login = 32" by (simp add: sample_login_def request_eval)
  have "line_ok sample_login" "list_all header_ok (q_headers sample_login)" by (simp_all add: sample_login_def request_eval)
  moreover have "body_ok 32 (q_body sample_login)" using anna_text_size by (simp add: sample_login_def body_ok_def npos_def)
  moreover have "request_args sample_login = None" using anna_text_size by (simp add: sample_login_def request_eval)
  ultimately have "request_ok sample_login" by (simp add: request_ok_def len)
  then show "plain_request sample_login"
    by (simp add: plain_request_def connection_wish_def header_of_def seen_header_def sample_login_def line_break_def char_eval)
qed


end
