(* ===== verification/Event_Loop.thy ===== *)
theory Event_Loop
  imports Wire_Theorems
begin

text \<open>
  Many connections on one server: the callbacks of \<open>src/net/connection.cpp\<close> in the order in which libevent makes
  them. The event loop runs in one thread, so a callback is over before the next one begins; in which order the
  connections have their turns, and when output goes out or a client goes away, is not in the hands of the program.
\<close>

section \<open>The callbacks\<close>

text \<open>
  Bytes come in, output was written to the socket, the client is gone. \<open>close_connection\<close> takes the read callback
  away, so nothing is received by a connection that is being closed.
\<close>

datatype net_event = Receive nat "byte list" | Written nat nat | Gone nat

type_synonym connections = "nat \<Rightarrow> http_connection"

definition on_connection :: "(connection \<Rightarrow> connection) \<Rightarrow> nat \<Rightarrow> connections \<Rightarrow> connections" where
  "on_connection f i hcs = hcs(i := (hcs i)\<lparr>hc_conn := f (hc_conn (hcs i))\<rparr>)"

definition output_written :: "nat \<Rightarrow> connection \<Rightarrow> connection" where
  "output_written n c =
     (if m_bev c = Bev_Running then flushed n c
      else if m_bev c = Bev_Flushing then stub_conn_write (flushed n c) else c)"

definition client_gone :: "connection \<Rightarrow> connection" where
  "client_gone c = (if has_bev c then stub_conn_event c else c)"

fun net_callback :: "'s service \<Rightarrow> nat \<Rightarrow> net_event \<Rightarrow> connections \<times> 's \<Rightarrow> (connections \<times> 's) option" where
  "net_callback answer_http junk (Receive i xs) (hcs, st) =
     (if m_bev (hc_conn (hcs i)) = Bev_Running
      then do { (hc1, st1) \<leftarrow> http_stub_conn_read answer_http junk xs (hcs i) st; Some (hcs(i := hc1), st1) }
      else Some (hcs, st))"
| "net_callback answer_http junk (Written i n) (hcs, st) =
     Some (on_connection (output_written n) i hcs, st)"
| "net_callback answer_http junk (Gone i) (hcs, st) =
     Some (on_connection client_gone i hcs, st)"

fun net_callbacks :: "'s service \<Rightarrow> nat \<Rightarrow> net_event list \<Rightarrow> connections \<times> 's \<Rightarrow> (connections \<times> 's) option" where
  "net_callbacks answer_http junk [] s = Some s"
| "net_callbacks answer_http junk (e # es) s = do { s1 \<leftarrow> net_callback answer_http junk e s; net_callbacks answer_http junk es s1 }"

section \<open>What the clients see\<close>

text \<open>The same events in terms of requests: each time some whole requests arrive.\<close>

datatype wire_event = Requests nat "wire_request list" | Sent nat nat | Left nat

fun event_bytes :: "wire_event \<Rightarrow> net_event" where
  "event_bytes (Requests i rs) = Receive i (map char_byte (concat (map render_request rs)))"
| "event_bytes (Sent i n) = Written i n"
| "event_bytes (Left i) = Gone i"

text \<open>
  \<open>serves_events\<close>: the requests of all connections are served one after the other on one state, except on connections
  that are over, \<open>over\<close>: those that asked to be closed and those whose client left.
\<close>

inductive serves_events ::
    "('s \<Rightarrow> wire_request \<Rightarrow> string \<Rightarrow> 's \<Rightarrow> bool) \<Rightarrow> (wire_request \<Rightarrow> bool) \<Rightarrow> 's \<Rightarrow> nat set \<Rightarrow> wire_event list
      \<Rightarrow> (nat \<times> string) list \<Rightarrow> 's \<Rightarrow> bool" for serves closes where
  events_none: "serves_events serves closes st over [] [] st"
| events_served: "i \<notin> over \<Longrightarrow> serves_all serves st rs ts st1 \<Longrightarrow>
     serves_events serves closes st1 (if \<exists>r \<in> set rs. closes r then insert i over else over) es outs st2 \<Longrightarrow>
     serves_events serves closes st over (Requests i rs # es) ((i, concat ts) # outs) st2"
| events_over: "i \<in> over \<Longrightarrow> serves_events serves closes st over es outs st2 \<Longrightarrow>
     serves_events serves closes st over (Requests i rs # es) outs st2"
| events_sent: "serves_events serves closes st over es outs st2 \<Longrightarrow> serves_events serves closes st over (Sent i n # es) outs st2"
| events_left: "serves_events serves closes st (insert i over) es outs st2 \<Longrightarrow> serves_events serves closes st over (Left i # es) outs st2"

definition answers_of :: "nat \<Rightarrow> (nat \<times> string) list \<Rightarrow> string" where
  "answers_of i outs = concat (map snd (filter (\<lambda>out. fst out = i) outs))"

lemma answers_of_simps [simp]:
  "answers_of i [] = []" "answers_of i ((j, t) # outs) = (if i = j then t else []) @ answers_of i outs"
  by (auto simp: answers_of_def)

text \<open>A connection waiting for a request.\<close>

definition at_rest :: "http_connection \<Rightarrow> bool" where
  "at_rest hc \<longleftrightarrow> m_http_processor hc = None \<and> holds (m_socket_buffer (hc_conn hc)) []"

definition connections_ok :: "nat set \<Rightarrow> connections \<Rightarrow> bool" where
  "connections_ok over hcs \<longleftrightarrow> (\<forall>i. (i \<in> over \<longrightarrow> m_bev (hc_conn (hcs i)) \<noteq> Bev_Running)
     \<and> (i \<notin> over \<longrightarrow> m_bev (hc_conn (hcs i)) = Bev_Running \<and> at_rest (hcs i)))"

lemma output_written_fields [simp]:
  "c_written (output_written n c) = c_written c" "m_socket_buffer (output_written n c) = m_socket_buffer c"
  "m_bev (output_written n c) = Bev_Running \<longleftrightarrow> m_bev c = Bev_Running"
  by (auto simp: output_written_def flushed_def stub_conn_write_def)

lemma client_gone_fields [simp]: "c_written (client_gone c) = c_written c" "m_bev (client_gone c) \<noteq> Bev_Running"
  by (auto simp: client_gone_def stub_conn_event_def has_bev_def)

lemma on_connection_written [simp]:
  "(\<And>c. c_written (f c) = c_written c) \<Longrightarrow> c_written (hc_conn (on_connection f i hcs j)) = c_written (hc_conn (hcs j))"
  by (simp add: on_connection_def)

lemma connections_ok_on:
  assumes "connections_ok over hcs" and "\<And>c. m_bev (f c) = Bev_Running \<longleftrightarrow> m_bev c = Bev_Running"
    and "\<And>c. m_socket_buffer (f c) = m_socket_buffer c"
  shows "connections_ok over (on_connection f i hcs)"
  using assms by (simp add: connections_ok_def on_connection_def at_rest_def)

lemma connections_ok_over:
  "connections_ok over hcs \<Longrightarrow> (\<And>c. m_bev (f c) \<noteq> Bev_Running) \<Longrightarrow> connections_ok (insert i over) (on_connection f i hcs)"
  by (simp add: connections_ok_def on_connection_def)

fun event_ok :: "wire_event \<Rightarrow> bool" where
  "event_ok (Requests i rs) \<longleftrightarrow> (\<forall>r \<in> set rs. request_ok r \<and> request_length r \<noteq> 0)
     \<and> length (concat (map render_request rs)) < size_modulus"
| "event_ok (Sent i n) \<longleftrightarrow> True"
| "event_ok (Left i) \<longleftrightarrow> True"

context http_service
begin

theorem interleaved_events:
  "serves_events serves closes st over es outs st2 \<Longrightarrow> \<forall>e \<in> set es. event_ok e \<Longrightarrow> connections_ok over hcs \<Longrightarrow>
     \<exists>hcs1. net_callbacks answer_http junk (map event_bytes es) (hcs, st) = Some (hcs1, st2)
       \<and> (\<forall>i. c_written (hc_conn (hcs1 i)) = c_written (hc_conn (hcs i)) @ map char_byte (answers_of i outs))"
proof (induction arbitrary: hcs rule: serves_events.induct)
  case (events_served i over st rs ts st1 es outs st2)
  let ?over = "if \<exists>r \<in> set rs. closes r then insert i over else over"
  have i: "m_bev (hc_conn (hcs i)) = Bev_Running" "at_rest (hcs i)"
    using events_served.prems(2) events_served.hyps(1) by (simp_all add: connections_ok_def)
  then obtain hc1 where hc1:
    "http_stub_conn_read answer_http junk (map char_byte (concat (map render_request rs))) (hcs i) st = Some (hc1, st1)"
    "at_rest hc1" "c_written (hc_conn hc1) = c_written (hc_conn (hcs i)) @ map char_byte (concat ts)"
    "m_bev (hc_conn hc1) = (if \<exists>r \<in> set rs. closes r then Bev_Flushing else Bev_Running)"
    using pipelined_read [OF events_served.hyps(2), of "hcs i" junk] events_served.prems(1)
    by (auto simp: at_rest_def has_bev_def cong: if_cong)
  have "connections_ok ?over (hcs(i := hc1))"
    using events_served.prems(2) events_served.hyps(1) hc1(2,4) by (auto simp: connections_ok_def)
  moreover have "\<forall>e \<in> set es. event_ok e" using events_served.prems(1) by simp
  ultimately obtain hcs1 where
    "net_callbacks answer_http junk (map event_bytes es) (hcs(i := hc1), st1) = Some (hcs1, st2)"
    "\<forall>j. c_written (hc_conn (hcs1 j)) = c_written (hc_conn ((hcs(i := hc1)) j)) @ map char_byte (answers_of j outs)"
    using events_served.IH [of "hcs(i := hc1)"] by blast
  then show ?case using i(1) hc1(1,3) by (intro exI [of _ hcs1]) auto
next
  case (events_over i over st es outs st2 rs)
  have "m_bev (hc_conn (hcs i)) \<noteq> Bev_Running" using events_over.prems(2) events_over.hyps(1) by (simp add: connections_ok_def)
  with events_over.IH [of hcs] events_over.prems show ?case by simp
next
  case (events_sent st over es outs st2 i n)
  have "connections_ok over (on_connection (output_written n) i hcs)"
    by (rule connections_ok_on [OF events_sent.prems(2)]) simp_all
  with events_sent.IH [of "on_connection (output_written n) i hcs"] events_sent.prems(1) show ?case by simp
next
  case (events_left st i over es outs st2)
  have "connections_ok (insert i over) (on_connection client_gone i hcs)"
    by (rule connections_ok_over [OF events_left.prems(2)]) simp
  with events_left.IH [of "on_connection client_gone i hcs"] events_left.prems(1) show ?case by simp
qed auto

end

section \<open>The backend\<close>

text \<open>The reference for all connections together: the answers in the order in which they are given.\<close>

fun backend_events ::
    "'c backend_env \<Rightarrow> server \<Rightarrow> request_env list \<Rightarrow> wire_event list \<Rightarrow> nat set \<Rightarrow> 'c backend
      \<Rightarrow> ((nat \<times> string) list \<times> 'c backend \<times> request_env list) option" where
  "backend_events env sv res [] over st = Some ([], st, res)"
| "backend_events env sv res (Requests i rs # es) over st =
     (if i \<in> over then backend_events env sv res es over st
      else do { (ts, st1) \<leftarrow> backend_replies env sv res rs st;
                (outs, s2) \<leftarrow> backend_events env sv (drop (length rs) res) es (if \<exists>r \<in> set rs. wants_close r then insert i over else over) st1;
                Some ((i, concat ts) # outs, s2) })"
| "backend_events env sv res (Sent i n # es) over st = backend_events env sv res es over st"
| "backend_events env sv res (Left i # es) over st = backend_events env sv res es (insert i over) st"

fun plain_event :: "wire_event \<Rightarrow> bool" where
  "plain_event (Requests i rs) \<longleftrightarrow> (\<forall>r \<in> set rs. plain_request r \<and> request_length r \<noteq> 0)
     \<and> length (concat (map render_request rs)) < size_modulus"
| "plain_event (Sent i n) \<longleftrightarrow> True"
| "plain_event (Left i) \<longleftrightarrow> True"

lemma backend_serves_events:
  "backend_events env sv res es over st = Some (outs, s2) \<Longrightarrow> \<forall>e \<in> set es. plain_event e \<Longrightarrow>
     serves_events (backend_step env sv) wants_close (st, res) over es outs s2"
proof (induction env sv res es over st arbitrary: outs rule: backend_events.induct)
  case (2 env sv res i rs es over st)
  show ?case
  proof (cases "i \<in> over")
    case True
    with 2 show ?thesis by (auto intro: serves_events.intros)
  next
    case False
    with "2.prems"(1) obtain ts st1 outs1 where o: "backend_replies env sv res rs st = Some (ts, st1)"
      "backend_events env sv (drop (length rs) res) es (if \<exists>r \<in> set rs. wants_close r then insert i over else over) st1 = Some (outs1, s2)"
      "outs = (i, concat ts) # outs1"
      by (auto simp: bind_eq_Some_conv)
    have "serves_all (backend_step env sv) (st, res) rs ts (st1, drop (length rs) res)"
      using backend_serves_all [OF o(1)] "2.prems"(2) by simp
    moreover have "serves_events (backend_step env sv) wants_close (st1, drop (length rs) res)
        (if \<exists>r \<in> set rs. wants_close r then insert i over else over) es outs1 s2"
      by (rule "2.IH"(2) [OF False o(1) refl o(2)]) (use "2.prems"(2) in auto)
    ultimately show ?thesis using False o(3) by (auto intro: events_served)
  qed
qed (auto intro: serves_events.intros)


text \<open>Two clients: one fetches a file twice, the other asks for an action nobody knows and leaves.\<close>

definition sample_events :: "wire_event list" where
  "sample_events = [Requests 0 [sample_mix ! 0], Sent 0 9, Requests 1 [sample_mix ! 1], Left 1, Requests 1 [sample_mix ! 0],
     Requests 0 [sample_mix ! 0]]"

lemma sample_events_replies:
  "\<exists>t1 t2 st2. backend_events login_env sample_server [login_call, login_call, login_call] sample_events {} empty_backend
     = Some ([(0, t1), (1, t2), (0, t1)], st2, [])"
proof -
  let ?r1 = "sample_mix ! 0" and ?r2 = "sample_mix ! 1"
  have "\<exists>resp body. file_reply sample_server ?r1 = Some (resp, body)" "q_uri ?r1 = ''/a.js''"
    by (simp_all add: file_reply_def sample_server_def requested_file_def PATH_MAX_def header_of_def seen_header_def char_eval sample_mix_def)
  then obtain resp body where "wire_file sample_server ?r1 = Some (resp, body)" "q_uri ?r1 = ''/a.js''" by (auto simp: wire_file_def)
  then have js: "backend_reply login_env sample_server login_call ?r1 st = Some (sv_now sample_server, resp, body, st)" for st
    by (simp add: backend_reply_def)
  have uri: "q_uri ?r2 = ''/api/x''" by (simp add: sample_mix_def)
  have "\<exists>p resp st1. wire_session login_call ?r2 empty_backend = Some (p, resp, st1)"
    by (simp add: wire_session_def cookie_of_def proxy_ip_of_def header_of_def seen_header_def seen_cookies_def lookup_or_def sample_mix_def
        char_eval empty_backend_def session_controller_new_def get_session_def new_session_eq on_session_def login_call_def deref_def modify_def)
  then obtain p resp2 st1 where "wire_session login_call ?r2 empty_backend = Some (p, resp2, st1)" by blast
  then have unknown: "backend_reply login_env sample_server login_call ?r2 empty_backend
      = Some (re_now login_call, set_response_status 404 ''Not found'' resp2, ''File not found'', st1)"
    using uri by (simp add: backend_reply_def parse_action_def)
  have "\<not> wants_close ?r1" by (simp add: sample_mix_def wants_close_def connection_wish_def header_of_def seen_header_def char_eval)
  with js unknown show ?thesis by (simp add: sample_events_def)
qed


end
