(* ===== verification/Service.thy ===== *)
theory Service
  imports Startup
begin

text \<open>
  The command line (\<open>check_params\<close>) and the Windows service of \<open>src/app/server2h.cxx\<close>: installing, removing,
  starting and stopping the service, and what it reports to the service manager. The manager of Windows is a record of
  functions on its state \<open>'w\<close>; a handle is a number, the null handle is \<open>None\<close>.
\<close>

section \<open>The service manager\<close>

record 'w service_manager =
  OpenSCManager :: "'w \<Rightarrow> nat option \<times> 'w"
  OpenService :: "nat \<Rightarrow> string \<Rightarrow> 'w \<Rightarrow> nat option \<times> 'w"
  CreateService :: "nat \<Rightarrow> string \<Rightarrow> string \<Rightarrow> string \<Rightarrow> 'w \<Rightarrow> nat option \<times> 'w"
  ControlStop :: "nat \<Rightarrow> 'w \<Rightarrow> bool \<times> 'w"
  DeleteService :: "nat \<Rightarrow> 'w \<Rightarrow> bool \<times> 'w"
  StartService :: "nat \<Rightarrow> 'w \<Rightarrow> bool \<times> 'w"
  CloseServiceHandle :: "nat \<Rightarrow> 'w \<Rightarrow> 'w"

text \<open>\<open>lstrcat\<close> into an array of so many characters, the terminator included.\<close>

definition lstrcat :: "nat \<Rightarrow> string \<Rightarrow> string \<Rightarrow> string option" where
  "lstrcat capacity s t = (if length s + length t < capacity then Some (s @ t) else None)"

abbreviation MAX_PATH :: nat where "MAX_PATH \<equiv> 260"

text \<open>
  The command line of the service: the path of the program, which \<open>GetModuleFileName\<close> cuts so that it fits, in
  quotes, and the arguments.
\<close>

definition service_path :: "string \<Rightarrow> string \<Rightarrow> string option" where
  "service_path module_name config_name =
     do { let path = CHR 0x22 # take (MAX_PATH - 1) module_name @ [CHR 0x22];
          s \<leftarrow> lstrcat (MAX_PATH + 3) path '' --service --cfg '';
          lstrcat (MAX_PATH + 3) s config_name }"

record 'w service_host =
  sh_manager :: "'w service_manager"
  sh_module_name :: string
  m_service_name :: string
  m_service_display_name :: string

definition service_install :: "'w service_host \<Rightarrow> string \<Rightarrow> 'w \<Rightarrow> (bool \<times> 'w) option" where
  "service_install sh config_name w =
     (case OpenSCManager (sh_manager sh) w of
        (None, w1) \<Rightarrow> Some (False, w1)
      | (Some manager, w1) \<Rightarrow>
          do { path \<leftarrow> service_path (sh_module_name sh) config_name;
               let (service, w2) = CreateService (sh_manager sh) manager (m_service_name sh) (m_service_display_name sh) path w1;
               let w3 = CloseServiceHandle (sh_manager sh) manager w2;
               Some (case service of None \<Rightarrow> (False, w3) | Some s \<Rightarrow> (True, CloseServiceHandle (sh_manager sh) s w3)) })"

definition with_service :: "'w service_host \<Rightarrow> (nat \<Rightarrow> nat \<Rightarrow> 'w \<Rightarrow> bool \<times> 'w) \<Rightarrow> 'w \<Rightarrow> bool \<times> 'w" where
  "with_service sh body w =
     (case OpenSCManager (sh_manager sh) w of
        (None, w1) \<Rightarrow> (False, w1)
      | (Some manager, w1) \<Rightarrow>
          (case OpenService (sh_manager sh) manager (m_service_name sh) w1 of
             (None, w2) \<Rightarrow> (True, CloseServiceHandle (sh_manager sh) manager w2)
           | (Some service, w2) \<Rightarrow> body manager service w2))"

definition close_both :: "'w service_host \<Rightarrow> nat \<Rightarrow> nat \<Rightarrow> 'w \<Rightarrow> 'w" where
  "close_both sh manager service w = CloseServiceHandle (sh_manager sh) manager (CloseServiceHandle (sh_manager sh) service w)"

definition service_uninstall :: "'w service_host \<Rightarrow> 'w \<Rightarrow> bool \<times> 'w" where
  "service_uninstall sh = with_service sh (\<lambda>manager service w.
     (True, close_both sh manager service (snd (DeleteService (sh_manager sh) service (snd (ControlStop (sh_manager sh) service w))))))"

definition service_start :: "'w service_host \<Rightarrow> 'w \<Rightarrow> bool \<times> 'w" where
  "service_start sh = with_service sh (\<lambda>manager service w.
     (case StartService (sh_manager sh) service w of
        (False, w1) \<Rightarrow> (False, w1)
      | (True, w1) \<Rightarrow> (True, close_both sh manager service w1)))"

definition service_stop :: "'w service_host \<Rightarrow> 'w \<Rightarrow> bool \<times> 'w" where
  "service_stop sh = with_service sh (\<lambda>manager service w.
     (True, close_both sh manager service (snd (ControlStop (sh_manager sh) service w))))"

section \<open>The command line\<close>

text \<open>The options given, each with its value or the empty text; a command line that is not understood is \<open>None\<close>.\<close>

type_synonym variables_map = "string \<Rightarrow> string option"

text \<open>The exit status is left alone, \<open>EXIT_SUCCESS\<close>, unless the options are wrong.\<close>

abbreviation EXIT_SUCCESS :: int where "EXIT_SUCCESS \<equiv> 0"
abbreviation EXIT_FAILURE :: int where "EXIT_FAILURE \<equiv> 1"

definition check_params_unix ::
    "(string \<Rightarrow> double option) \<Rightarrow> variables_map option \<Rightarrow> posix \<Rightarrow> ((bool \<times> int) \<times> json \<times> posix) option" where
  "check_params_unix sc options os =
     (case options of
        None \<Rightarrow> Some ((False, EXIT_FAILURE), JNull, os)
      | Some vm \<Rightarrow> do { (ok, configure, os1) \<leftarrow> check_params sc (vm ''cfg'') os; Some ((ok, EXIT_SUCCESS), configure, os1) })"

definition service_names :: "variables_map \<Rightarrow> json \<Rightarrow> (string \<times> string) option" where
  "service_names vm configure =
     do { name \<leftarrow> (case vm ''name'' of Some name \<Rightarrow> Some name
                   | None \<Rightarrow> get_value_string ''service:name'' (''khlsrv_'' @ ''s2h'') '':'' configure);
          display_name \<leftarrow> get_value_string ''service:displayName'' (''Khorost Service ('' @ ''s2h'' @ '')'') '':'' configure;
          Some (name, display_name) }"

text \<open>\<open>run_service\<close> is \<open>StartServiceCtrlDispatcher\<close>: it returns when the service has ended.\<close>

definition service_command ::
    "('w service_host \<Rightarrow> 'w \<Rightarrow> 'w) \<Rightarrow> 'w service_host \<Rightarrow> string \<Rightarrow> variables_map \<Rightarrow> 'w \<Rightarrow> (bool \<times> 'w) option" where
  "service_command run_service sh config_name vm w =
     (if vm ''service'' \<noteq> None then Some (False, run_service sh w)
      else if vm ''configure'' \<noteq> None then Some (False, w)
      else if vm ''help'' \<noteq> None then Some (False, w)
      else if vm ''install'' \<noteq> None then
        do { (_, w1) \<leftarrow> service_install sh config_name (snd (service_uninstall sh w)); Some (False, w1) }
      else if vm ''start'' \<noteq> None then Some (False, snd (service_start sh w))
      else if vm ''stop'' \<noteq> None then Some (False, snd (service_stop sh w))
      else if vm ''restart'' \<noteq> None then Some (False, snd (service_start sh (snd (service_stop sh w))))
      else if vm ''uninstall'' \<noteq> None then Some (False, snd (service_uninstall sh w))
      else Some (True, w))"

definition check_params_windows ::
    "('w service_host \<Rightarrow> 'w \<Rightarrow> 'w) \<Rightarrow> 'w service_manager \<Rightarrow> string \<Rightarrow> (string \<Rightarrow> double option) \<Rightarrow> variables_map option
      \<Rightarrow> posix \<times> 'w \<Rightarrow> ((bool \<times> int) \<times> json \<times> posix \<times> 'w) option" where
  "check_params_windows run_service manager module_name sc options s =
     (case options of
        None \<Rightarrow> Some ((False, EXIT_FAILURE), JNull, s)
      | Some vm \<Rightarrow>
          do { (ok, configure, os1) \<leftarrow> check_params sc (vm ''cfg'') (fst s);
               if \<not> ok then Some ((False, EXIT_SUCCESS), configure, os1, snd s)
               else do { (name, display_name) \<leftarrow> service_names vm configure;
                         (go_on, w1) \<leftarrow> service_command run_service \<lparr>sh_manager = manager, sh_module_name = module_name,
                           m_service_name = name, m_service_display_name = display_name\<rparr> (config_file_name (vm ''cfg'')) vm (snd s);
                         Some ((go_on, EXIT_SUCCESS), configure, os1, w1) } })"

section \<open>The state reported\<close>

abbreviation SERVICE_STOPPED :: nat where "SERVICE_STOPPED \<equiv> 1"
abbreviation SERVICE_START_PENDING :: nat where "SERVICE_START_PENDING \<equiv> 2"
abbreviation SERVICE_STOP_PENDING :: nat where "SERVICE_STOP_PENDING \<equiv> 3"
abbreviation SERVICE_RUNNING :: nat where "SERVICE_RUNNING \<equiv> 4"

record service_status =
  dwCurrentState :: nat
  dwControlsAccepted :: nat
  dwWin32ExitCode :: nat
  dwWaitHint :: nat
  dwCheckPoint :: nat

text \<open>The static counter of check points is a 32-bit number; every report goes to \<open>SetServiceStatus\<close>.\<close>

record service_reports =
  sr_status :: service_status
  sr_counter :: nat
  sr_reported :: "service_status list"

definition report_service_status :: "nat \<Rightarrow> nat \<Rightarrow> nat \<Rightarrow> service_reports \<Rightarrow> service_reports" where
  "report_service_status state exit_code wait_hint sr =
     (let final = (state = SERVICE_RUNNING \<or> state = SERVICE_STOPPED);
          status = \<lparr>dwCurrentState = state, dwControlsAccepted = (if state = SERVICE_START_PENDING then 0 else 1),
            dwWin32ExitCode = exit_code, dwWaitHint = wait_hint, dwCheckPoint = (if final then 0 else sr_counter sr)\<rparr>
      in \<lparr>sr_status = status, sr_counter = (if final then sr_counter sr else (sr_counter sr + 1) mod 2 ^ 32),
          sr_reported = sr_reported sr @ [status]\<rparr>)"

text \<open>1 is \<open>SERVICE_CONTROL_STOP\<close>; \<open>shutdown\<close> is the virtual function of the server.\<close>

definition ServiceControl :: "('s \<Rightarrow> 's) \<Rightarrow> nat \<Rightarrow> service_reports \<times> 's \<Rightarrow> service_reports \<times> 's" where
  "ServiceControl shutdown code state =
     (let (sr, s) = state in
      if code = 1 then
        (report_service_status SERVICE_STOPPED 0 0 (report_service_status SERVICE_STOP_PENDING 0 0 sr), shutdown s)
      else (report_service_status (dwCurrentState (sr_status sr)) 0 0 sr, s))"

text \<open>The start functions of the server say whether they succeeded; the last is \<open>run\<close>.\<close>

fun run_until_false :: "('s \<Rightarrow> bool \<times> 's) list \<Rightarrow> 's \<Rightarrow> 's" where
  "run_until_false [] s = s"
| "run_until_false (f # fs) s = (case f s of (True, s1) \<Rightarrow> run_until_false fs s1 | (False, s1) \<Rightarrow> s1)"

definition ServiceMain ::
    "('s \<Rightarrow> bool \<times> 's) list \<Rightarrow> ('s \<Rightarrow> 's) \<Rightarrow> service_reports \<times> 's \<Rightarrow> service_reports \<times> 's" where
  "ServiceMain steps finish state =
     (let (sr, s) = state in (report_service_status SERVICE_RUNNING 0 0 sr, finish (run_until_false steps s)))"

section \<open>Handles and lengths\<close>

text \<open>What the manager promises of its handles: \<open>open_handles w\<close> are those given out and not closed.\<close>

definition new_handle :: "('w \<Rightarrow> nat set) \<Rightarrow> 'w \<Rightarrow> nat option \<times> 'w \<Rightarrow> bool" where
  "new_handle open_handles w answer \<longleftrightarrow> (case fst answer of
      None \<Rightarrow> open_handles (snd answer) = open_handles w
    | Some h \<Rightarrow> h \<notin> open_handles w \<and> open_handles (snd answer) = insert h (open_handles w))"

definition handle_laws :: "'w service_manager \<Rightarrow> ('w \<Rightarrow> nat set) \<Rightarrow> bool" where
  "handle_laws m open_handles \<longleftrightarrow>
     (\<forall>w. new_handle open_handles w (OpenSCManager m w))
   \<and> (\<forall>h name w. new_handle open_handles w (OpenService m h name w))
   \<and> (\<forall>h name display path w. new_handle open_handles w (CreateService m h name display path w))
   \<and> (\<forall>h w. open_handles (snd (ControlStop m h w)) = open_handles w \<and> open_handles (snd (DeleteService m h w)) = open_handles w
        \<and> open_handles (snd (StartService m h w)) = open_handles w
        \<and> open_handles (CloseServiceHandle m h w) = open_handles w - {h})"

lemma handle_lawsD:
  assumes "handle_laws m open_handles"
  shows "new_handle open_handles w (OpenSCManager m w)" "new_handle open_handles w (OpenService m h name w)"
    "new_handle open_handles w (CreateService m h name display path w)"
    "open_handles (snd (ControlStop m h w)) = open_handles w" "open_handles (snd (DeleteService m h w)) = open_handles w"
    "open_handles (snd (StartService m h w)) = open_handles w" "open_handles (CloseServiceHandle m h w) = open_handles w - {h}"
  using assms by (auto simp: handle_laws_def)

lemma with_service_handles:
  assumes laws: "handle_laws (sh_manager sh) open_handles"
    and body: "\<And>manager service w2. open_handles w2 = insert service (insert manager (open_handles w)) \<Longrightarrow> manager \<notin> open_handles w \<Longrightarrow>
      service \<notin> insert manager (open_handles w) \<Longrightarrow> P (body manager service w2)"
    and other: "\<And>ok w2. open_handles w2 = open_handles w \<Longrightarrow> P (ok, w2)"
  shows "P (with_service sh body w)"
proof -
  obtain mo w1 where 1: "OpenSCManager (sh_manager sh) w = (mo, w1)" by (cases "OpenSCManager (sh_manager sh) w")
  note manager = handle_lawsD(1) [OF laws, of w, unfolded 1 new_handle_def fst_conv snd_conv]
  show ?thesis
  proof (cases mo)
    case None
    then show ?thesis using 1 manager other by (simp add: with_service_def)
  next
    case (Some m)
    obtain so w2 where 2: "OpenService (sh_manager sh) m (m_service_name sh) w1 = (so, w2)"
      by (cases "OpenService (sh_manager sh) m (m_service_name sh) w1")
    note service = handle_lawsD(2) [OF laws, of w1 m "m_service_name sh", unfolded 2 new_handle_def fst_conv snd_conv]
    show ?thesis
    proof (cases so)
      case None
      then have "open_handles (CloseServiceHandle (sh_manager sh) m w2) = open_handles w"
        using manager service Some handle_lawsD(7) [OF laws] by auto
      then show ?thesis using 1 2 None Some other by (simp add: with_service_def)
    next
      case (Some s)
      then show ?thesis using 1 2 manager service body [of w2 s m] \<open>mo = Some m\<close> by (simp add: with_service_def)
    qed
  qed
qed

text \<open>
  Stopping, removing and installing the service close every handle they open; starting it leaves the two handles
  open when the service cannot be started.
\<close>

theorem service_handles:
  assumes laws: "handle_laws (sh_manager sh) open_handles"
  shows "open_handles (snd (service_stop sh w)) = open_handles w"
    and "open_handles (snd (service_uninstall sh w)) = open_handles w"
    and "service_install sh config_name w = Some (ok, w1) \<Longrightarrow> open_handles w1 = open_handles w"
    and "open_handles (snd (service_start sh w)) = open_handles w
      \<or> \<not> fst (service_start sh w) \<and> card (open_handles (snd (service_start sh w)) - open_handles w) = 2"
proof -
  have both: "open_handles (close_both sh m s w2) = open_handles w2 - {m, s}" for m s w2
    using handle_lawsD(7) [OF laws] by (auto simp: close_both_def)
  show "open_handles (snd (service_stop sh w)) = open_handles w"
    unfolding service_stop_def by (rule with_service_handles [OF laws]) (auto simp: both handle_lawsD [OF laws])
  show "open_handles (snd (service_uninstall sh w)) = open_handles w"
    unfolding service_uninstall_def by (rule with_service_handles [OF laws]) (auto simp: both handle_lawsD [OF laws])
  show "open_handles (snd (service_start sh w)) = open_handles w
      \<or> \<not> fst (service_start sh w) \<and> card (open_handles (snd (service_start sh w)) - open_handles w) = 2"
    unfolding service_start_def
  proof (rule with_service_handles [OF laws], goal_cases)
    case (1 m s w2)
    obtain ok w3 where 3: "StartService (sh_manager sh) s w2 = (ok, w3)" by (cases "StartService (sh_manager sh) s w2")
    then have "open_handles w3 = insert s (insert m (open_handles w))" using handle_lawsD(6) [OF laws, of s w2] 1 by simp
    moreover have "insert s (insert m (open_handles w)) - open_handles w = {s, m}" "s \<noteq> m" using 1 by auto
    ultimately show ?case using 3 1 by (cases ok) (auto simp: both)
  qed simp
  assume installed: "service_install sh config_name w = Some (ok, w1)"
  obtain mo w2 where 2: "OpenSCManager (sh_manager sh) w = (mo, w2)" by (cases "OpenSCManager (sh_manager sh) w")
  note manager = handle_lawsD(1) [OF laws, of w, unfolded 2 new_handle_def fst_conv snd_conv]
  show "open_handles w1 = open_handles w"
  proof (cases mo)
    case None
    then show ?thesis using installed 2 manager by (simp add: service_install_def)
  next
    case (Some m)
    with installed 2 obtain path where path: "service_path (sh_module_name sh) config_name = Some path"
      by (auto simp: service_install_def bind_eq_Some_conv)
    obtain so w3 where 3: "CreateService (sh_manager sh) m (m_service_name sh) (m_service_display_name sh) path w2 = (so, w3)"
      by (cases "CreateService (sh_manager sh) m (m_service_name sh) (m_service_display_name sh) path w2")
    note service = handle_lawsD(3) [OF laws, of w2 m "m_service_name sh" "m_service_display_name sh" path,
        unfolded 3 new_handle_def fst_conv snd_conv]
    show ?thesis using installed 2 3 Some path manager service
      by (cases so) (auto simp: service_install_def handle_lawsD(7) [OF laws])
  qed
qed

text \<open>The command line of the service fits its array just when the two names together have at most 243 characters.\<close>

theorem service_path_fits:
  assumes "length module_name < MAX_PATH"
  shows "service_path module_name config_name =
     (if length module_name + length config_name \<le> 243
      then Some (CHR 0x22 # module_name @ CHR 0x22 # '' --service --cfg '' @ config_name) else None)"
  using assms by (auto simp: service_path_def lstrcat_def)

end
