(* ===== verification/Spec2Isabelle.thy ===== *)
theory Spec2Isabelle
  imports Khl_Prelude Autobuffer Http_Theorems Unicode Utf8 Connection Compact_Binary
    Session_Theorems Token_Theorems Http_Response_Theorems Server_Theorems Backend_Theorems Timer_Theorems
    Json_Well_Formed Startup_Theorems Postgres Mysql I18n Fast_File Config Curl Stomp Utils Task_Queue
    Shutdown Token_Table Session_Database Event_Loop Service
begin

text \<open>
  \<^bold>\<open>khorost-lib: a network server library.\<close> The program accepts TCP connections (\<open>src/net/connection.cpp\<close>),
  keeps the bytes it receives in growing buffers (\<open>include/util/autobuffer.h\<close>) and hands them to one of
  two protocols: HTTP (\<open>src/net/http.cpp\<close>) or a compact binary protocol
  (\<open>src/net/compactbinary.cpp\<close>). Over HTTP stand two applications: \<open>server2_h\<close>
  (\<open>src/app/server2h.cxx\<close>), which serves files and actions, and \<open>server2_hb\<close>
  (\<open>src/app/server2hb.cxx\<close>), which adds sessions, log in and access tokens. The character classes, the
  case mapping and the UTF-8 transformation (\<open>src/unicode\<close>, \<open>include/unicode\<close>) stand beside them.

  \<^bold>\<open>How the parts interact.\<close> \<open>stub_conn_read\<close> appends what the socket gives to the receive buffer and
  calls \<open>data_processing\<close> of the protocol until it takes nothing more; what was taken is cut from the
  buffer. For HTTP, \<open>data_processing\<close> feeds \<open>process_data\<close>; when the request is complete,
  \<open>HttpTask::processing\<close> calls the virtual \<open>process_http\<close>, which answers through \<open>send_response\<close> or
  \<open>send_file\<close> on the same connection. The backend's \<open>process_http\<close> first gets the session of the
  request from the session controller, then carries out the action on the session, the user storage
  and the token dictionary. The timer thread removes expired sessions from the same controller. At the
  start the main program (\<open>include/app/framework.h\<close>) loads a JSON configuration through a memory mapping,
  takes its settings and the pool of database connections from it and creates the users it names.

  \<^bold>\<open>Conventions\<close> (\<open>Khl_Prelude\<close>, \<open>Std_Map\<close>). Undefined behaviour (a read outside an allocation, a read of
  memory never written, a null pointer), an exception nobody catches and a loop that does not return
  are the value \<open>None\<close>. Allocations are lists of cells, so stale and unwritten bytes are visible.
  \<open>size_t\<close> is a natural number with \<open>uadd\<close> and \<open>usub\<close> modulo \<open>2 ^ 64\<close>; \<open>int\<close> keeps its 32 bits where the
  code converts. \<open>std::map\<close> and \<open>std::set\<close> are lists in key order; the laws their clients rely on are the
  locale \<open>dictionary\<close>, interpreted on these lists. Objects shared by pointers (sessions, tokens) live in
  a store and are indices into it, so two entries that lead to the same object are seen to share it.

  \<^bold>\<open>Theories and sources.\<close>
  \<^item> \<open>Autobuffer\<close>: \<open>include/util/autobuffer.h\<close>. Growth by \<open>check_size\<close>, append, cut, find, compare, replace,
    and references into a buffer. Any sequence of operations refines the element sequence it
    describes; \<open>replace\<close> is first/all substitution for replacements that do not shrink, and what
    goes wrong otherwise (shrinking replacements, long patterns, failed growth) is proved too.
  \<^item> \<open>Http_Request\<close>, \<open>Http_Request_Props\<close>, \<open>Http_Roundtrip\<close>, \<open>Http_Theorems\<close>: the request half of
    \<open>src/net/http.cpp\<close>. \<open>process_data\<close> is modelled step by step (method, URI, query, version, header
    lines, body, form), with the lookups of headers, cookies and parameters, host and port, and
    \<open>get_multi_part\<close>. A request written out by \<open>render_request\<close> is taken to its last byte whatever
    follows it, and every lookup gives what the request says; the remaining theorems are the bound
    on the bytes reported and the inputs on which the parser departs from its purpose.
  \<^item> \<open>Http_Response\<close>, \<open>Http_Response_Theorems\<close>: the response half and \<open>send_file\<close>. The calls on the
    connection are a list in their order. A client's reader (\<open>read_head\<close>, \<open>header_value\<close>) gets back
    the header lines, the length and the body; files stay confined to names that begin with the
    document root. The file system (\<open>stat\<close>, \<open>realpath\<close>, opening) is a record of functions.
  \<^item> \<open>Connection\<close>: \<open>src/net/connection.cpp\<close>. Receive loop, sending, closing, numbering, peer address. A
    \<open>bufferevent\<close> of libevent is the state of the socket with the bytes written to it.
  \<^item> \<open>Compact_Binary\<close>: \<open>src/net/compactbinary.cpp\<close>, \<open>include/net/compactbinary.h\<close> and the messages of
    \<open>include/app/server2hb-np.h\<close>. Packets arrive in order and once each however the bytes are cut;
    chunks and the log-on message survive the way through the wire; the malformed inputs that break
    the parser or block a connection are proved as such.
  \<^item> \<open>Json\<close>: the operations of \<open>Json::Value\<close> (\<open>external/src/json\<close>) the library calls.
  \<^item> \<open>Json_Text\<close>, \<open>Json_Reader\<close>, \<open>Json_Theorems\<close>, \<open>Json_Roundtrip\<close>, \<open>Json_Read_Back\<close>: the writer and the
    reader behind \<open>json_string\<close> and \<open>parse_json\<close> (\<open>src/util/utils.cxx\<close>). The reader ends for every
    document, what it gives is well-formed, what was written is read back; documents on which it
    throws are shown, and they end the server (\<open>Backend_Theorems\<close>).
  \<^item> \<open>Session\<close>, \<open>Session_Props\<close>, \<open>Session_Theorems\<close>: \<open>src/net/session.cpp\<close>, \<open>src/app/s2h-session.cxx\<close>. The
    controller is the dictionary in memory, the rows of the SQLite table and the store of session
    objects. \<open>controller_ok\<close> and \<open>in_step\<close> are its invariant, kept by every operation; restarts are
    \<open>session_open\<close> on the same table.
  \<^item> \<open>Sqlite\<close>, \<open>Session_Database\<close>: \<open>src/db/sqlite3.cpp\<close> and \<open>session_db\<close> of \<open>src/net/session.cpp\<close> statement by
    statement. The SQLite library is a record of functions; what it documents is \<open>statement_laws\<close> and
    \<open>documented_sqlite\<close>, which a small machine satisfies. Every statement is finalized once and not used
    afterwards, and the session table behind the statements refines to the rows \<open>Session\<close> works with.
  \<^item> \<open>Token\<close>, \<open>Token_Theorems\<close>: \<open>src/net/token.cxx\<close>, \<open>include/net/token.h\<close> and the token functions of
    \<open>src/app/server2hb.cxx\<close>. The Redis cache is a parameter; its documented laws are \<open>redis_laws\<close>.
  \<^item> \<open>Server\<close>, \<open>Server_Theorems\<close>: \<open>include/app/server2h.h\<close>, \<open>src/app/server2h.cxx\<close>. The receive loop of a
    connection is generic in the state of the server behind \<open>process_http\<close>. The locale \<open>http_service\<close> is
    what a connection asks of its server: the answers are a relation between the states before and
    after a request (\<open>serves_all\<close>). Its interpretation on the file server, which has no state of its
    own, gives the theorem that pipelined requests are all answered in order, through the parser,
    the receive loop, the dispatch and the response writer.
  \<^item> \<open>Http_Host\<close>: what a server reads of a parsed request besides its parameters: header lines, cookies,
    the name of the host and the client a proxy names, for \<open>src/net/http.cpp\<close>.
  \<^item> \<open>Storage\<close>, \<open>Backend\<close>, \<open>Backend_Theorems\<close>, \<open>Timer_Theorems\<close>: \<open>src/app/s2hb-storage.cxx\<close>,
    \<open>src/app/server2hb.cxx\<close>. Queries and updates act on the rows of the three tables. Only the password
    authenticates a session; log in and log out do what they promise; the timer clears expired
    sessions as long as it turns at least every 50 minutes.
  \<^item> \<open>Backend_Wire\<close>, \<open>Wire_Theorems\<close>: the backend seen from the client. \<open>backend_reply\<close> is a reference for one
    request, written over the request line, its headers and its body, with no buffer and no parser;
    \<open>backend_process_http\<close> refines it, the locale \<open>http_service\<close> is interpreted on the backend with its
    sessions and tables as the state, and pipelined requests on a connection are answered as the
    reference says, each in the state the one before it left. A log in is followed over the wire up
    to the next request that brings the cookie back.
  \<^item> \<open>Event_Loop\<close>: the callbacks of many connections in the order libevent makes them, over any service that
    satisfies \<open>http_service\<close>. Every client gets the answers of the backend's reference to its own requests.
  \<^item> \<open>Unicode_Attribute_Tables\<close>, \<open>Unicode_Case_Tables\<close>, \<open>Unicode\<close>, \<open>Utf8\<close>: \<open>src/unicode\<close>,
    \<open>include/unicode\<close>. The tables are copied page by page; the relations between the classes hold for
    every character; both directions of the transformation, with the characters it loses.

  \<^item> \<open>Fast_File\<close>, \<open>Config\<close>: \<open>src/system/fastfile.cpp\<close> as compiled for UNIX and \<open>src/app/config.cxx\<close>. What is
    written through a mapping is the file after it is closed; a configuration written as JSON text is
    loaded and its values are found under their paths. An empty configuration file crashes.
  \<^item> \<open>Startup\<close>, \<open>Startup_Theorems\<close>: \<open>check_params\<close>, \<open>prepare_to_start\<close> and \<open>auto_execute\<close> of the two servers in the
    order of \<open>include/app/framework.h\<close>. A user named by the configuration file is created and logs in with
    the password the file gives.
  \<^item> \<open>Service\<close>: the options of the command line and the Windows service, with the service manager as a record
    of functions: which handles stay open, and when the command line of the service fits its array.
  \<^item> \<open>Postgres\<close>, \<open>Mysql\<close>: \<open>src/db/postgres.cpp\<close> and \<open>src/db/mysql.cpp\<close>. The pool of connections is a step relation over
    the borrowing objects with an invariant; the retries of a statement, the text of a query in its buffer and
    the conversions to SQL text. The client libraries are arguments.
  \<^item> \<open>Shutdown\<close>: the main thread, the listener thread and the timer thread as a step relation with the two
    signals. The termination signal ends the program in every order of its threads; interrupts do not.
  \<^item> \<open>Token_Table\<close>: the tokens in the rows of the database: create, load and refresh.
  \<^item> \<open>I18n\<close>: \<open>include/util/i18n.h\<close>. The library of translations is an instance of the locale \<open>lookup_table\<close>.
  \<^item> \<open>Curl\<close>, \<open>Stomp\<close>, \<open>Utils\<close>, \<open>Task_Queue\<close>: the callbacks given to libcurl (\<open>src/net/mail.cxx\<close>, \<open>src/net/http.cpp\<close>), the
    STOMP parser, the text utilities with the country of an address, and the task queue.

  \<^bold>\<open>Bounds and fuel.\<close> \<open>compile_loop\<close>, the parser's loops and the dispatcher are recursions on the bytes left;
  where a protocol could take nothing for ever, the loop ends as in the source because it stops at
  the first call that takes nothing. The timer thread is a recursion on the readings of its clock. The
  JSON reader has twice the length of the document plus one as fuel; that is shown to be enough. The
  retries of a MySQL statement end because their counter is an \<open>int\<close> of 32 bits.

  \<^bold>\<open>Parameters.\<close> MD5 with its hexadecimal digits, random identifiers, the clock, the Redis cache, the SQLite library,
  the service manager of Windows, the MaxMind library, the file system, the textual form of times, \<open>sscanf\<close> of a double and the identifiers the database gives are
  arguments of the definitions that use them; what a theorem needs of them is a hypothesis it states. The
  calls of the operating system on files are modelled by what POSIX says of them on a record of files.

  \<^bold>\<open>Not modelled.\<close> The inside of \<open>libevent\<close> (event bases, sockets), worker threads (never started) and the
  races between the timer and the event loop (the source has no lock there), logging and profiling
  (\<open>spdlog\<close>), the Windows event log, fetching of MySQL rows, and the vendored
  libraries under \<open>external\<close> other than the parts of jsoncpp named above. SQL is modelled by the effect of
  the statements the sources contain; a double is represented by what the operations observe of it.
\<close>

end
